(* ===== verification/Prelude.thy ===== *)
theory Prelude
  imports Complex_Main "HOL-Library.Word" "HOL-Library.AList"
begin

text \<open>
  What every component of the capnweb model shares: the outcome of a Go call, Go's fixed-width
  integer arithmetic written out on \<open>int\<close>, float64 values as rationals, Go maps as
  association lists behind a table interface, \<open>select\<close> statements and buffered channels.
\<close>

named_theorems go_int \<open>identities of Go integer arithmetic inside the representable range\<close>
named_theorems go_map \<open>laws of Go maps\<close>
named_theorems go_chan \<open>laws of channels and select\<close>

section \<open>Outcomes\<close>

text \<open>
  A Go call returns a value, returns a non-nil error, panics (nil dereference, failed type
  assertion, integer division by zero, send on a closed channel), or never returns because it
  waits for a lock or a channel that nothing can release.
\<close>

datatype ('e, 'a) outcome = Ok 'a | Err 'e | Panic | Hang

primrec map_outcome_err :: "('e \<Rightarrow> 'f) \<Rightarrow> ('e, 'a) outcome \<Rightarrow> ('f, 'a) outcome" where
  "map_outcome_err f (Ok a) = Ok a"
| "map_outcome_err f (Err e) = Err (f e)"
| "map_outcome_err f Panic = Panic"
| "map_outcome_err f Hang = Hang"

primrec bind_outcome :: "('e, 'a) outcome \<Rightarrow> ('a \<Rightarrow> ('e, 'b) outcome) \<Rightarrow> ('e, 'b) outcome" where
  "bind_outcome (Ok a) f = f a"
| "bind_outcome (Err e) f = Err e"
| "bind_outcome Panic f = Panic"
| "bind_outcome Hang f = Hang"

definition is_ok :: "('e, 'a) outcome \<Rightarrow> bool" where
  "is_ok r = (case r of Ok _ \<Rightarrow> True | _ \<Rightarrow> False)"

lemma is_ok_simps [simp]:
  "is_ok (Ok a)" "\<not> is_ok (Err e)" "\<not> is_ok Panic" "\<not> is_ok Hang"
  by (simp_all add: is_ok_def)

lemma is_ok_iff: "is_ok r \<longleftrightarrow> (\<exists>a. r = Ok a)"
  by (cases r) simp_all

lemma map_outcome_err_Ok_iff [simp]: "map_outcome_err f r = Ok a \<longleftrightarrow> r = Ok a"
  by (cases r) simp_all

lemma map_outcome_err_Hang_iff [simp]: "map_outcome_err f r = Hang \<longleftrightarrow> r = Hang"
  by (cases r) simp_all

lemma map_outcome_err_Panic_iff [simp]: "map_outcome_err f r = Panic \<longleftrightarrow> r = Panic"
  by (cases r) simp_all

section \<open>Fixed-width integers\<close>

text \<open>
  A Go \<open>intN\<close> is an \<open>int\<close> in the two's complement range; an operation that can leave the range
  is followed by \<open>wrap\<close>. The wrap-around is the one of the word library (\<open>int32_word\<close>,
  \<open>int64_word\<close>).
\<close>

definition wrap :: "nat \<Rightarrow> int \<Rightarrow> int" where
  "wrap w n = (n + 2 ^ (w - 1)) mod 2 ^ w - 2 ^ (w - 1)"

definition int32 :: "int \<Rightarrow> int" where "int32 n = wrap 32 n"
definition int64 :: "int \<Rightarrow> int" where "int64 n = wrap 64 n"
definition uint64 :: "int \<Rightarrow> int" where "uint64 n = n mod 2 ^ 64"

abbreviation max_int64 :: int where "max_int64 \<equiv> 9223372036854775807"
abbreviation min_int64 :: int where "min_int64 \<equiv> - 9223372036854775808"

lemma wrap_numerals:
  "int32 n = (n + 2147483648) mod 4294967296 - 2147483648"
  "int64 n = (n + 9223372036854775808) mod 18446744073709551616 - 9223372036854775808"
  by (simp_all add: int32_def int64_def wrap_def)

lemma int32_range: "- 2147483648 \<le> int32 n" "int32 n < 2147483648"
  by (simp_all add: wrap_numerals)

lemma int64_range: "min_int64 \<le> int64 n" "int64 n \<le> max_int64"
  unfolding wrap_numerals
  by (use pos_mod_bound [of 18446744073709551616 "n + 9223372036854775808"]
        pos_mod_sign [of 18446744073709551616 "n + 9223372036854775808"] in linarith)+

lemma int32_id [go_int]: "- 2147483648 \<le> n \<Longrightarrow> n < 2147483648 \<Longrightarrow> int32 n = n"
  by (simp add: wrap_numerals)

lemma int64_id [go_int]: "min_int64 \<le> n \<Longrightarrow> n \<le> max_int64 \<Longrightarrow> int64 n = n"
  by (simp add: wrap_numerals)

lemma uint64_id [go_int]: "0 \<le> n \<Longrightarrow> n < 18446744073709551616 \<Longrightarrow> uint64 n = n"
  by (simp add: uint64_def)

lemma int32_idem [simp]: "int32 (int32 n) = int32 n"
  by (rule int32_id) (simp_all add: int32_range)

lemma int64_idem [simp]: "int64 (int64 n) = int64 n"
  by (rule int64_id) (simp_all add: int64_range)

lemma int32_eq_iff: "int32 a = int32 b \<longleftrightarrow> 4294967296 dvd a - b"
  by (simp add: wrap_numerals mod_eq_dvd_iff)

lemma int32_int64 [simp]: "int32 (int64 n) = int32 n"
proof -
  let ?m = "18446744073709551616 :: int" and ?k = "n + 9223372036854775808"
  have "int64 n - n = - (?m * (?k div ?m))"
    unfolding wrap_numerals using div_mult_mod_eq [of ?k ?m] by linarith
  also have "\<dots> = 4294967296 * (- 4294967296 * (?k div ?m))"
    by simp
  finally show ?thesis
    unfolding int32_eq_iff by (metis dvd_triv_left)
qed

lemma int64_int64_add [simp]: "int64 (int64 a + b) = int64 (a + b)"
  by (simp add: wrap_numerals mod_simps algebra_simps)

lemma int64_int64_diff [simp]: "int64 (int64 a - b) = int64 (a - b)"
  using int64_int64_add [of a "- b"] by simp

lemma int64_minus_2_64: "int64 (n - 18446744073709551616) = int64 n"
proof -
  have "(n + 9223372036854775808 - 18446744073709551616) mod 18446744073709551616
      = (n + 9223372036854775808) mod (18446744073709551616 :: int)"
    by (rule minus_mod_self2)
  then show ?thesis by (simp add: int64_def wrap_def algebra_simps)
qed

text \<open>Go's \<open>/\<close> on integers truncates towards zero and panics on a zero divisor.\<close>

definition go_quot :: "int \<Rightarrow> int \<Rightarrow> int" where
  "go_quot a b = sgn a * sgn b * (\<bar>a\<bar> div \<bar>b\<bar>)"

definition go_div :: "int \<Rightarrow> int \<Rightarrow> ('e, int) outcome" where
  "go_div a b = (if b = 0 then Panic else Ok (go_quot a b))"

lemma go_quot_nonneg: "0 \<le> a \<Longrightarrow> 0 < b \<Longrightarrow> go_quot a b = a div b"
  by (cases "a = 0") (simp_all add: go_quot_def)

text \<open>Go's \<open>%\<close> has the sign of the dividend.\<close>

definition go_rem :: "int \<Rightarrow> int \<Rightarrow> int" where
  "go_rem a b = a - b * go_quot a b"

lemma go_rem_nonneg: "0 \<le> a \<Longrightarrow> 0 < b \<Longrightarrow> go_rem a b = a mod b"
  by (simp add: go_rem_def go_quot_nonneg minus_mult_div_eq_mod)

section \<open>float64\<close>

text \<open>
  JSON numbers decode to float64. A finite float64 is a rational; NaN and the infinities, which
  JSON cannot carry, have no value here. Converting an integer rounds to 53 significant bits, ties
  to even. Converting to an integer truncates; out of range Go leaves the result to the
  implementation, and \<open>f64_to_int32\<close> is that of amd64 (the most negative value).
\<close>

type_synonym float64 = rat

function bit_len :: "nat \<Rightarrow> nat" where
  "bit_len n = (if n = 0 then 0 else Suc (bit_len (n div 2)))"
  by pat_completeness auto
termination
  by (relation "measure id") auto

declare bit_len.simps [simp del]

lemma bit_len_le: "n < 2 ^ k \<Longrightarrow> bit_len n \<le> k"
proof (induction n arbitrary: k rule: bit_len.induct)
  case (1 n)
  show ?case
  proof (cases "n = 0")
    case True
    then show ?thesis by (simp add: bit_len.simps)
  next
    case False
    with 1 obtain j where j: "k = Suc j" by (cases k) auto
    with 1 False have "bit_len (n div 2) \<le> j" by (simp add: less_mult_imp_div_less mult.commute)
    with False j show ?thesis by (simp add: bit_len.simps [of n])
  qed
qed

definition round_half_even :: "nat \<Rightarrow> nat \<Rightarrow> nat" where
  "round_half_even n e =
     (let q = n div 2 ^ e; r = n mod 2 ^ e; half = 2 ^ (e - 1)
      in if half < r \<or> (r = half \<and> odd q) then (q + 1) * 2 ^ e else q * 2 ^ e)"

definition f64_of_int :: "int \<Rightarrow> float64" where
  "f64_of_int n =
     (let m = nat \<bar>n\<bar>; b = bit_len m
      in of_int (if b \<le> 53 then n else sgn n * int (round_half_even m (b - 53))))"

lemma f64_of_int_exact [go_int]: "\<bar>n\<bar> < 2 ^ 53 \<Longrightarrow> f64_of_int n = of_int n"
proof -
  assume "\<bar>n\<bar> < 2 ^ 53"
  then have "nat \<bar>n\<bar> < 2 ^ 53" by (simp add: nat_less_iff)
  then have "bit_len (nat \<bar>n\<bar>) \<le> 53" by (rule bit_len_le)
  then show ?thesis by (simp add: f64_of_int_def Let_def)
qed

definition f64_trunc :: "float64 \<Rightarrow> int" where
  "f64_trunc r = (if 0 \<le> r then \<lfloor>r\<rfloor> else \<lceil>r\<rceil>)"

definition f64_to_int32 :: "float64 \<Rightarrow> int" where
  "f64_to_int32 r =
     (let n = f64_trunc r in if - 2147483648 \<le> n \<and> n < 2147483648 then n else - 2147483648)"

definition f64_to_int64 :: "float64 \<Rightarrow> int" where
  "f64_to_int64 r = (let n = f64_trunc r in if min_int64 \<le> n \<and> n \<le> max_int64 then n else min_int64)"

lemma f64_trunc_of_int [simp]: "f64_trunc (of_int n) = n"
  by (simp add: f64_trunc_def)

lemma f64_to_int32_of_int [go_int]:
  "- 2147483648 \<le> n \<Longrightarrow> n < 2147483648 \<Longrightarrow> f64_to_int32 (of_int n) = n"
  by (simp add: f64_to_int32_def Let_def)

lemma f64_to_int64_of_int [go_int]:
  "min_int64 \<le> n \<Longrightarrow> n \<le> max_int64 \<Longrightarrow> f64_to_int64 (of_int n) = n"
  by (simp add: f64_to_int64_def Let_def)

lemma f64_to_int32_range: "- 2147483648 \<le> f64_to_int32 r" "f64_to_int32 r < 2147483648"
  by (simp_all add: f64_to_int32_def Let_def)

text \<open>
  The result of a float64 operation is the exact one rounded to 53 significant bits, ties to even
  (within the exponent range: overflow and subnormal numbers are left out).
\<close>

definition two_to :: "int \<Rightarrow> rat" where
  "two_to k = (if 0 \<le> k then 2 ^ nat k else 1 / 2 ^ nat (- k))"

definition f64_round :: "rat \<Rightarrow> float64" where
  "f64_round r =
     (if r = 0 then 0 else
      let (a, b) = quotient_of \<bar>r\<bar>;
          e0 = int (bit_len (nat a)) - int (bit_len (nat b)) - 53;
          e = (if 2 ^ 53 \<le> \<bar>r\<bar> * two_to (- e0) then e0 + 1 else e0);
          s = \<bar>r\<bar> * two_to (- e);
          q = \<lfloor>s\<rfloor>;
          n = (if 1 / 2 < s - of_int q \<or> (s - of_int q = 1 / 2 \<and> odd q) then q + 1 else q)
      in sgn r * of_int n * two_to e)"

text \<open>Below one the error of rounding is at most 2^-53.\<close>

lemma less_two_bit_len: "n < 2 ^ bit_len n"
proof (induction n rule: bit_len.induct)
  case (1 n)
  then show ?case by (cases "n = 0") (auto simp: bit_len.simps [of n])
qed

lemma two_to_minus [simp]: "two_to (- e) * two_to e = 1" "0 < two_to e"
  by (auto simp: two_to_def)

lemma two_to_mono: "e \<le> - 52 \<Longrightarrow> two_to e \<le> 1 / 2 ^ 52"
  using power_increasing [of 52 "nat (- e)" "2 :: rat"] by (auto simp: two_to_def intro!: frac_le)

lemma f64_round_close:
  assumes "0 \<le> r" and "r < 1"
  shows "\<bar>f64_round r - r\<bar> \<le> 1 / 2 ^ 53"
proof (cases "r = 0")
  case False
  obtain a b where ab: "quotient_of r = (a, b)" by force
  have b: "0 < b" using quotient_of_denom_pos [OF ab] .
  have r: "r = of_int a / of_int b" using quotient_of_div [OF ab] .
  have "0 < r" using assms(1) False by simp
  with assms(2) b have a: "0 < a" "a < b" unfolding r by (auto simp: zero_less_divide_iff)
  then have "bit_len (nat a) \<le> bit_len (nat b)"
    by (intro bit_len_le less_trans [OF _ less_two_bit_len]) simp
  then have e0: "int (bit_len (nat a)) - int (bit_len (nat b)) - 53 \<le> - 53" by simp
  define e where "e = (let e0 = int (bit_len (nat a)) - int (bit_len (nat b)) - 53
    in if 2 ^ 53 \<le> r * two_to (- e0) then e0 + 1 else e0)"
  have e: "e \<le> - 52" using e0 by (simp add: e_def Let_def)
  have "sgn r = 1" "\<bar>r\<bar> = r" using assms(1) False by auto
  then have round: "f64_round r = of_int (let s = r * two_to (- e); q = \<lfloor>s\<rfloor>
      in if 1 / 2 < s - of_int q \<or> (s - of_int q = 1 / 2 \<and> odd q) then q + 1 else q) * two_to e"
    using False ab unfolding f64_round_def e_def Let_def by simp
  let ?s = "r * two_to (- e)"
  let ?n = "if 1 / 2 < ?s - of_int \<lfloor>?s\<rfloor> \<or> (?s - of_int \<lfloor>?s\<rfloor> = 1 / 2 \<and> odd \<lfloor>?s\<rfloor>) then \<lfloor>?s\<rfloor> + 1 else \<lfloor>?s\<rfloor>"
  have "(1 / 2 \<le> ?s - of_int \<lfloor>?s\<rfloor> \<and> ?n = \<lfloor>?s\<rfloor> + 1) \<or> (?s - of_int \<lfloor>?s\<rfloor> \<le> 1 / 2 \<and> ?n = \<lfloor>?s\<rfloor>)" by auto
  moreover have "of_int \<lfloor>?s\<rfloor> \<le> ?s" "?s < of_int \<lfloor>?s\<rfloor> + 1" by linarith+
  ultimately have near: "\<bar>of_int ?n - ?s\<bar> \<le> 1 / 2"
  proof (elim disjE conjE)
    assume "1 / 2 \<le> ?s - of_int \<lfloor>?s\<rfloor>" "?n = \<lfloor>?s\<rfloor> + 1" and "of_int \<lfloor>?s\<rfloor> \<le> ?s" "?s < of_int \<lfloor>?s\<rfloor> + 1"
    then show ?thesis unfolding \<open>?n = \<lfloor>?s\<rfloor> + 1\<close> abs_le_iff of_int_add of_int_1 by linarith
  next
    assume "?s - of_int \<lfloor>?s\<rfloor> \<le> 1 / 2" "?n = \<lfloor>?s\<rfloor>" and "of_int \<lfloor>?s\<rfloor> \<le> ?s" "?s < of_int \<lfloor>?s\<rfloor> + 1"
    then show ?thesis unfolding \<open>?n = \<lfloor>?s\<rfloor>\<close> abs_le_iff by linarith
  qed
  have "f64_round r - r = (of_int ?n - ?s) * two_to e"
    using two_to_minus(1) [of e] by (simp add: round Let_def left_diff_distrib mult.assoc)
  then have "\<bar>f64_round r - r\<bar> = \<bar>of_int ?n - ?s\<bar> * two_to e"
    by (simp add: abs_mult order.strict_implies_order)
  also have "\<dots> \<le> 1 / 2 * (1 / 2 ^ 52)"
    using near two_to_mono [OF e] by (intro mult_mono) (auto intro: order.strict_implies_order)
  finally show ?thesis by simp
qed (simp add: f64_round_def)

section \<open>Time\<close>

text \<open>
  A \<open>time.Time\<close> is an \<open>int\<close> of nanoseconds, a \<open>time.Duration\<close> an int64 of nanoseconds; the difference
  of two times saturates.
\<close>

definition time_sub :: "int \<Rightarrow> int \<Rightarrow> int" where
  "time_sub a b = max min_int64 (min max_int64 (a - b))"

lemma time_sub_exact [go_int]: "min_int64 \<le> a - b \<Longrightarrow> a - b \<le> max_int64 \<Longrightarrow> time_sub a b = a - b"
  by (simp add: time_sub_def)

section \<open>Words behind the integers\<close>

lemma int32_word: "int32 n = sint (word_of_int n :: 32 word)"
  by (simp add: int32_def wrap_def sint_uint uint_word_of_int signed_take_bit_eq_take_bit_shift
      take_bit_eq_mod mod_simps)

lemma int64_word: "int64 n = sint (word_of_int n :: 64 word)"
  by (simp add: int64_def wrap_def sint_uint uint_word_of_int signed_take_bit_eq_take_bit_shift
      take_bit_eq_mod mod_simps)

end
