(* ===== verification/Codecs.thy ===== *)
theory Codecs
  imports Prelude
begin

text \<open>
  The text codecs of Go's standard library the program calls: decimal integers
  (\<open>strconv.Atoi\<close>, \<open>big.Int.String\<close>, \<open>big.Int.SetString\<close> in base 10) and standard padded base64
  (\<open>base64.StdEncoding\<close>). Both are given as computing definitions, with the round trips the
  serializer rests on.
\<close>

type_synonym bytes = "8 word list"

section \<open>Decimal integers\<close>

definition digit_char :: "nat \<Rightarrow> char" where
  "digit_char d = char_of (48 + d)"

definition digit_val :: "char \<Rightarrow> nat option" where
  "digit_val c = (let k = of_char c :: nat in if 48 \<le> k \<and> k \<le> 57 then Some (k - 48) else None)"

lemma digit_val_char [simp]: "d < 10 \<Longrightarrow> digit_val (digit_char d) = Some d"
  by (simp add: digit_val_def digit_char_def Let_def)

function nat_to_dec :: "nat \<Rightarrow> string" where
  "nat_to_dec n = (if n < 10 then [digit_char n] else nat_to_dec (n div 10) @ [digit_char (n mod 10)])"
  by pat_completeness auto
termination
  by (relation "measure id") auto

declare nat_to_dec.simps [simp del]

fun dec_to_nat :: "nat \<Rightarrow> string \<Rightarrow> nat option" where
  "dec_to_nat acc [] = Some acc"
| "dec_to_nat acc (c # cs) =
     (case digit_val c of None \<Rightarrow> None | Some d \<Rightarrow> dec_to_nat (10 * acc + d) cs)"

lemma dec_to_nat_append:
  "dec_to_nat acc (xs @ ys) = (case dec_to_nat acc xs of None \<Rightarrow> None | Some a \<Rightarrow> dec_to_nat a ys)"
  by (induction acc xs rule: dec_to_nat.induct) (auto split: option.splits)

lemma dec_to_nat_to_dec: "dec_to_nat 0 (nat_to_dec n) = Some n"
proof (induction n rule: nat_to_dec.induct)
  case (1 n)
  then show ?case
    by (subst nat_to_dec.simps) (auto simp: dec_to_nat_append)
qed

lemma nat_to_dec_not_Nil [simp]: "nat_to_dec n \<noteq> []"
  by (subst nat_to_dec.simps) simp

text \<open>An optional sign, then at least one digit: what \<open>SetString(s, 10)\<close> accepts.\<close>

definition parse_unsigned :: "string \<Rightarrow> nat option" where
  "parse_unsigned s = (if s = [] then None else dec_to_nat 0 s)"

definition parse_int :: "string \<Rightarrow> int option" where
  "parse_int s =
     (case s of [] \<Rightarrow> None
      | c # cs \<Rightarrow>
          if c = CHR ''-'' then map_option (\<lambda>n. - int n) (parse_unsigned cs)
          else if c = CHR ''+'' then map_option int (parse_unsigned cs)
          else map_option int (parse_unsigned s))"

definition int_to_dec :: "int \<Rightarrow> string" where
  "int_to_dec z = (if z < 0 then CHR ''-'' # nat_to_dec (nat (- z)) else nat_to_dec (nat z))"

text \<open>\<open>strconv.Atoi\<close> also refuses what an \<open>int\<close> (64 bits) cannot hold.\<close>

definition atoi :: "string \<Rightarrow> int option" where
  "atoi s = (case parse_int s of None \<Rightarrow> None
             | Some z \<Rightarrow> if min_int64 \<le> z \<and> z \<le> max_int64 then Some z else None)"

lemma digit_char_not_sign:
  assumes "d < 10"
  shows "digit_char d \<noteq> CHR ''-''" and "digit_char d \<noteq> CHR ''+''"
proof -
  have "of_char (digit_char d) = 48 + d"
    using assms by (simp add: digit_char_def)
  moreover have "of_char (CHR ''-'') = (45::nat)" "of_char (CHR ''+'') = (43::nat)"
    by simp_all
  ultimately show "digit_char d \<noteq> CHR ''-''" "digit_char d \<noteq> CHR ''+''"
    by fastforce+
qed

lemma hd_nat_to_dec: "\<exists>d < 10. \<exists>r. nat_to_dec n = digit_char d # r"
proof (induction n rule: nat_to_dec.induct)
  case (1 n)
  show ?case
  proof (cases "n < 10")
    case True
    then show ?thesis by (subst nat_to_dec.simps) auto
  next
    case False
    with 1 obtain d r where "d < 10" "nat_to_dec (n div 10) = digit_char d # r" by auto
    with False show ?thesis by (subst nat_to_dec.simps) auto
  qed
qed

theorem parse_int_to_dec: "parse_int (int_to_dec z) = Some z"
proof (cases "z < 0")
  case True
  then show ?thesis
    by (simp add: int_to_dec_def parse_int_def parse_unsigned_def dec_to_nat_to_dec)
next
  case False
  obtain d r where d: "d < 10" and r: "nat_to_dec (nat z) = digit_char d # r"
    using hd_nat_to_dec by blast
  have "dec_to_nat 0 (digit_char d # r) = Some (nat z)"
    using dec_to_nat_to_dec [of "nat z"] r by simp
  with False d r show ?thesis
    by (simp add: int_to_dec_def parse_int_def parse_unsigned_def digit_char_not_sign)
qed

section \<open>Base64\<close>

definition b64_char :: "nat \<Rightarrow> char" where
  "b64_char k = (if k < 26 then char_of (65 + k) else if k < 52 then char_of (71 + k)
     else if k < 62 then char_of (k - 4) else if k = 62 then CHR ''+'' else CHR ''/'')"

definition b64_val :: "char \<Rightarrow> nat option" where
  "b64_val c =
     (let k = of_char c :: nat
      in if 65 \<le> k \<and> k \<le> 90 then Some (k - 65)
         else if 97 \<le> k \<and> k \<le> 122 then Some (k - 71)
         else if 48 \<le> k \<and> k \<le> 57 then Some (k + 4)
         else if k = 43 then Some 62 else if k = 47 then Some 63 else None)"

lemma b64_val_char [simp]: "k < 64 \<Longrightarrow> b64_val (b64_char k) = Some k"
  by (auto simp: b64_val_def b64_char_def Let_def)

lemma b64_char_plain: "k < 64 \<Longrightarrow> b64_char k \<notin> {CHR ''='', CHR 0x0A, CHR 0x0D}"
proof
  assume k: "k < 64" and "b64_char k \<in> {CHR ''='', CHR 0x0A, CHR 0x0D}"
  then have "b64_val (b64_char k) = None" by (auto simp: b64_val_def)
  with k show False by simp
qed

fun b64_encode :: "bytes \<Rightarrow> string" where
  "b64_encode [] = []"
| "b64_encode [a] =
     [b64_char (unat a div 4), b64_char (unat a mod 4 * 16), CHR ''='', CHR ''='']"
| "b64_encode [a, b] =
     [b64_char (unat a div 4), b64_char (unat a mod 4 * 16 + unat b div 16),
      b64_char (unat b mod 16 * 4), CHR ''='']"
| "b64_encode (a # b # c # rest) =
     b64_char (unat a div 4) # b64_char (unat a mod 4 * 16 + unat b div 16)
     # b64_char (unat b mod 16 * 4 + unat c div 64) # b64_char (unat c mod 64) # b64_encode rest"

text \<open>
  The decoder works on groups of four characters; padding ends the text. Carriage returns and line
  feeds are skipped, and the unused low bits of the last group are not checked (Go's decoder is
  not the strict one).
\<close>

fun b64_groups :: "string \<Rightarrow> bytes option" where
  "b64_groups [] = Some []"
| "b64_groups (p # q # r # s # rest) =
     (case (b64_val p, b64_val q) of
        (Some p', Some q') \<Rightarrow>
          if r = CHR ''='' then
            if s = CHR ''='' \<and> rest = [] then Some [of_nat (p' * 4 + q' div 16)] else None
          else (case b64_val r of None \<Rightarrow> None
            | Some r' \<Rightarrow>
                if s = CHR ''='' then
                  if rest = [] then Some [of_nat (p' * 4 + q' div 16), of_nat (q' mod 16 * 16 + r' div 4)]
                  else None
                else (case (b64_val s, b64_groups rest) of
                    (Some s', Some bs) \<Rightarrow>
                      Some (of_nat (p' * 4 + q' div 16) # of_nat (q' mod 16 * 16 + r' div 4)
                            # of_nat (r' mod 4 * 64 + s') # bs)
                  | _ \<Rightarrow> None))
      | _ \<Rightarrow> None)"
| "b64_groups _ = None"

definition b64_decode :: "string \<Rightarrow> bytes option" where
  "b64_decode s = b64_groups (filter (\<lambda>c. c \<noteq> CHR 0x0A \<and> c \<noteq> CHR 0x0D) s)"

lemma byte_lt: "unat (a :: 8 word) < 256"
  using unsigned_less [of a, where 'a = nat] by simp

lemma byte_div: "unat (a :: 8 word) div 4 < 64" "unat a div 16 < 16" "unat a div 64 < 4"
  using byte_lt [of a] by (simp_all add: less_mult_imp_div_less)

lemma pack_less:
  assumes "y < m" and "x < (k :: nat)"
  shows "y * k + x < m * k"
proof -
  have "y * k + x < Suc y * k" using assms by simp
  also have "\<dots> \<le> m * k" using assms by (intro mult_le_mono1) simp
  finally show ?thesis .
qed

lemma pack_div: "x < k \<Longrightarrow> (y * k + x) div k = (y :: nat)"
  by simp

lemma pack_mod: "x < k \<Longrightarrow> (y * k + x) mod k = (x :: nat)"
  by simp

lemma byte_parts:
  fixes a b c :: "8 word"
  shows "unat a div 4 < 64" "unat a mod 4 * 16 < 64" "unat a mod 4 * 16 + unat b div 16 < 64"
    "unat b mod 16 * 4 < 64" "unat b mod 16 * 4 + unat c div 64 < 64" "unat c mod 64 < 64"
  using pack_less [of "unat a mod 4" 4 0 16] pack_less [of "unat a mod 4" 4 "unat b div 16" 16]
    pack_less [of "unat b mod 16" 16 0 4] pack_less [of "unat b mod 16" 16 "unat c div 64" 4]
  by (simp_all add: byte_div)

lemma byte_joins:
  fixes a b c :: "8 word"
  shows "unat a div 4 * 4 + (unat a mod 4 * 16) div 16 = unat a"
    and "unat a div 4 * 4 + (unat a mod 4 * 16 + unat b div 16) div 16 = unat a"
    and "(unat a mod 4 * 16 + unat b div 16) mod 16 * 16 + (unat b mod 16 * 4) div 4 = unat b"
    and "(unat a mod 4 * 16 + unat b div 16) mod 16 * 16
         + (unat b mod 16 * 4 + unat c div 64) div 4 = unat b"
    and "(unat b mod 16 * 4 + unat c div 64) mod 4 * 64 + unat c mod 64 = unat c"
  unfolding pack_div [OF byte_div(2)] pack_mod [OF byte_div(2)] pack_div [OF byte_div(3)]
    pack_mod [OF byte_div(3)]
  by simp_all

lemma b64_char_neq:
  assumes "k < 64"
  shows "b64_char k \<noteq> CHR ''=''" "b64_char k \<noteq> CHR 0x0A" "b64_char k \<noteq> CHR 0x0D"
  using b64_char_plain [OF assms] by auto

lemma b64_encode_plain: "\<forall>c \<in> set (b64_encode bs). c \<noteq> CHR 0x0A \<and> c \<noteq> CHR 0x0D"
  by (induction bs rule: b64_encode.induct) (simp_all add: b64_char_neq byte_parts)

lemma b64_group_chars:
  assumes "p < 64" "q < 64" "r < 64" "s < 64"
  shows "b64_groups [b64_char p, b64_char q, CHR ''='', CHR ''=''] = Some [of_nat (p * 4 + q div 16)]"
    and "b64_groups [b64_char p, b64_char q, b64_char r, CHR ''='']
      = Some [of_nat (p * 4 + q div 16), of_nat (q mod 16 * 16 + r div 4)]"
    and "b64_groups (b64_char p # b64_char q # b64_char r # b64_char s # rest)
      = map_option (\<lambda>bs. of_nat (p * 4 + q div 16) # of_nat (q mod 16 * 16 + r div 4)
                       # of_nat (r mod 4 * 64 + s) # bs) (b64_groups rest)"
  using assms by (auto simp: b64_char_neq split: option.splits)

lemma b64_groups_encode: "b64_groups (b64_encode bs) = Some bs"
proof (induction bs rule: b64_encode.induct)
  case (2 a)
  show ?case
    unfolding b64_encode.simps b64_group_chars(1) [OF byte_parts(1,2) byte_parts(1,1)] byte_joins
    by simp
next
  case (3 a b)
  show ?case
    unfolding b64_encode.simps b64_group_chars(2) [OF byte_parts(1,3,4,1)] byte_joins
    by simp
next
  case (4 a b c rest)
  then show ?case
    unfolding b64_encode.simps b64_group_chars(3) [OF byte_parts(1,3,5,6)] byte_joins
    by simp
qed simp

theorem b64_decode_encode: "b64_decode (b64_encode bs) = Some bs"
proof -
  have "filter (\<lambda>c. c \<noteq> CHR 0x0A \<and> c \<noteq> CHR 0x0D) (b64_encode bs) = b64_encode bs"
    using b64_encode_plain [of bs] by (simp add: filter_id_conv)
  then show ?thesis
    by (simp add: b64_decode_def b64_groups_encode)
qed

end
