(* ===== verification/RpcTypes.thy ===== *)
theory RpcTypes
  imports Codecs
begin

text \<open>
  The shared types of \<open>types.go\<close>: identifiers, property paths, errors, call descriptions. A Go
  \<open>error\<close> is a \<open>goerr\<close>: a message (\<open>errors.New\<close>, \<open>fmt.Errorf\<close>), a message wrapping another error
  with \<open>%w\<close>, a \<open>*RpcError\<close>, or one of the two context errors. The text of a message is the format
  string of the code, with its verbs left in place: no code path reads it back.
\<close>

section \<open>Errors\<close>

record rpc_error =
  re_type :: string
  re_message :: string
  re_stack :: string
  re_code :: int

datatype goerr =
    EMsg string
  | EWrap string goerr
  | ERpc rpc_error
  | ECtxCanceled
  | ECtxDeadline

type_synonym 'a result = "(goerr, 'a) outcome"

definition rpc_error_text :: "rpc_error \<Rightarrow> string" where
  "rpc_error_text e =
     (if re_code e \<noteq> 0
      then ''RPC error ('' @ re_type e @ ''/'' @ int_to_dec (re_code e) @ ''): '' @ re_message e
      else ''RPC error ('' @ re_type e @ ''): '' @ re_message e)"

primrec error_text :: "goerr \<Rightarrow> string" where
  "error_text (EMsg s) = s"
| "error_text (EWrap s e) = s @ error_text e"
| "error_text (ERpc e) = rpc_error_text e"
| "error_text ECtxCanceled = ''context canceled''"
| "error_text ECtxDeadline = ''context deadline exceeded''"

text \<open>\<open>NewRpcError\<close> calls \<open>err.Error()\<close>, which panics on a nil error.\<close>

definition new_rpc_error :: "goerr option \<Rightarrow> ('e, rpc_error) outcome" where
  "new_rpc_error err =
     (case err of
        None \<Rightarrow> Panic
      | Some (ERpc e) \<Rightarrow> Ok e
      | Some e \<Rightarrow> Ok \<lparr>re_type = ''error'', re_message = error_text e, re_stack = [], re_code = 0\<rparr>)"

definition mk_rpc_error :: "string \<Rightarrow> string \<Rightarrow> int \<Rightarrow> rpc_error" where
  "mk_rpc_error t m c = \<lparr>re_type = t, re_message = m, re_stack = [], re_code = c\<rparr>"

definition err_method_not_found :: rpc_error where
  "err_method_not_found = mk_rpc_error ''MethodNotFound'' ''the requested method does not exist'' 1001"
definition err_invalid_arguments :: rpc_error where
  "err_invalid_arguments = mk_rpc_error ''InvalidArguments'' ''invalid method arguments'' 1002"
definition err_permission_denied :: rpc_error where
  "err_permission_denied = mk_rpc_error ''PermissionDenied'' ''permission denied'' 1003"
definition err_timeout :: rpc_error where
  "err_timeout = mk_rpc_error ''Timeout'' ''RPC call timed out'' 1004"
definition err_canceled :: rpc_error where
  "err_canceled = mk_rpc_error ''Canceled'' ''RPC call was canceled'' 1005"
definition err_internal_error :: rpc_error where
  "err_internal_error = mk_rpc_error ''InternalError'' ''internal RPC error'' 1006"
definition err_serialization_error :: rpc_error where
  "err_serialization_error = mk_rpc_error ''SerializationError'' ''serialization error'' 1007"
definition err_disposed :: rpc_error where
  "err_disposed = mk_rpc_error ''Disposed'' ''object has been disposed'' 1008"

definition common_rpc_errors :: "rpc_error list" where
  "common_rpc_errors = [err_method_not_found, err_invalid_arguments, err_permission_denied,
     err_timeout, err_canceled, err_internal_error, err_serialization_error, err_disposed]"

lemma common_rpc_errors_distinct:
  "distinct (map re_code common_rpc_errors)" "distinct (map re_type common_rpc_errors)"
  by code_simp+

text \<open>\<open>errors.Is\<close> walks the chain of wrapped errors.\<close>

primrec errors_is :: "goerr \<Rightarrow> goerr \<Rightarrow> bool" where
  "errors_is (EMsg s) t \<longleftrightarrow> EMsg s = t"
| "errors_is (EWrap s e) t \<longleftrightarrow> EWrap s e = t \<or> errors_is e t"
| "errors_is (ERpc r) t \<longleftrightarrow> ERpc r = t"
| "errors_is ECtxCanceled t \<longleftrightarrow> t = ECtxCanceled"
| "errors_is ECtxDeadline t \<longleftrightarrow> t = ECtxDeadline"

definition wrap_context_error :: "goerr option \<Rightarrow> goerr option" where
  "wrap_context_error err =
     (case err of
        None \<Rightarrow> None
      | Some e \<Rightarrow>
          if errors_is e ECtxCanceled then Some (ERpc err_canceled)
          else if errors_is e ECtxDeadline then Some (ERpc err_timeout)
          else Some e)"

lemma errors_is_ctx: "\<not> (errors_is e ECtxCanceled \<and> errors_is e ECtxDeadline)"
  by (induction e) auto

lemma wrap_context_error_idem:
  "wrap_context_error (wrap_context_error e) = wrap_context_error e"
  by (auto simp: wrap_context_error_def split: option.splits)

section \<open>Property paths\<close>

type_synonym property_path = "string list"

fun join_with :: "string \<Rightarrow> string list \<Rightarrow> string" where
  "join_with sep [] = []"
| "join_with sep [x] = x"
| "join_with sep (x # y # ys) = x @ sep @ join_with sep (y # ys)"

definition path_string :: "property_path \<Rightarrow> string" where
  "path_string p = (if length p = 0 then ''(root)'' else join_with ''.'' p)"

text \<open>\<open>Append\<close> copies into an array made for the result.\<close>

definition path_append :: "property_path \<Rightarrow> string list \<Rightarrow> property_path" where
  "path_append p es = take (length p + length es) (p @ es)"

definition path_is_empty :: "property_path \<Rightarrow> bool" where
  "path_is_empty p \<longleftrightarrow> length p = 0"

definition is_array_index :: "string \<Rightarrow> bool" where
  "is_array_index e = (if e = [] then False else atoi e \<noteq> None)"

lemma path_append_simps [simp]:
  "path_append p [] = p" "path_append [] es = es" "length (path_append p es) = length p + length es"
  by (simp_all add: path_append_def)

lemma path_append_assoc: "path_append (path_append p a) b = path_append p (a @ b)"
  by (simp add: path_append_def)

text \<open>The decimal text of every \<open>int\<close> is an array index; negative numbers included.\<close>

lemma is_array_index_dec: "min_int64 \<le> z \<Longrightarrow> z \<le> max_int64 \<Longrightarrow> is_array_index (int_to_dec z)"
  by (auto simp: is_array_index_def atoi_def parse_int_to_dec) (simp add: int_to_dec_def split: if_splits)

section \<open>Calls\<close>

datatype object_id = ObjExport int | ObjImport int | ObjOther string

record call_info =
  ci_object :: object_id
  ci_path :: property_path
  ci_method :: string
  ci_is_property :: bool

definition new_call_info :: "object_id \<Rightarrow> property_path \<Rightarrow> call_info" where
  "new_call_info obj p =
     (if length p > 0
      then \<lparr>ci_object = obj, ci_path = p, ci_method = p ! (length p - 1), ci_is_property = False\<rparr>
      else \<lparr>ci_object = obj, ci_path = p, ci_method = [], ci_is_property = True\<rparr>)"

definition object_id_text :: "object_id \<Rightarrow> string" where
  "object_id_text obj =
     (case obj of ObjExport n \<Rightarrow> int_to_dec n | ObjImport n \<Rightarrow> int_to_dec n | ObjOther s \<Rightarrow> s)"

definition call_info_string :: "call_info \<Rightarrow> string" where
  "call_info_string c =
     (let ty = (case ci_object c of ObjExport _ \<Rightarrow> ''export'' | ObjImport _ \<Rightarrow> ''import''
                | ObjOther _ \<Rightarrow> ''unknown'');
          hd = ty @ '':'' @ object_id_text (ci_object c) @ ''.'' @ path_string (ci_path c)
      in if ci_is_property c then hd @ '' (property)'' else hd @ ''() (method)'')"

lemma new_call_info_method: "p \<noteq> [] \<Longrightarrow> ci_method (new_call_info obj p) = last p"
  by (simp add: new_call_info_def last_conv_nth)

end
