(* ===== verification/Tables.thy ===== *)
theory Tables
  imports Prelude
begin

text \<open>
  Go maps. A map is an association list with distinct keys; the position of an entry stands for
  the unspecified order of \<open>range\<close>, so a theorem about every well-formed list covers every
  iteration order. The locale \<open>go_table\<close> is the interface the components use: what lookup,
  store, delete and \<open>len\<close> promise. It is interpreted on the association lists at the end.
\<close>

locale go_table =
  fixes get :: "'m \<Rightarrow> 'k \<Rightarrow> 'v option"
    and put :: "'k \<Rightarrow> 'v \<Rightarrow> 'm \<Rightarrow> 'm"
    and del :: "'k \<Rightarrow> 'm \<Rightarrow> 'm"
    and size_of :: "'m \<Rightarrow> nat"
    and wf :: "'m \<Rightarrow> bool"
  assumes get_put: "get (put k v m) = (get m)(k \<mapsto> v)"
    and get_del: "get (del k m) = (get m)(k := None)"
    and wf_put: "wf m \<Longrightarrow> wf (put k v m)"
    and wf_del: "wf m \<Longrightarrow> wf (del k m)"
    and size_put: "wf m \<Longrightarrow> size_of (put k v m) = (if get m k = None then Suc (size_of m) else size_of m)"
    and size_del: "wf m \<Longrightarrow> get m k \<noteq> None \<Longrightarrow> Suc (size_of (del k m)) = size_of m"
    and size_del_absent: "wf m \<Longrightarrow> get m k = None \<Longrightarrow> size_of (del k m) = size_of m"
begin

lemma get_put_same: "get (put k v m) k = Some v"
  by (simp add: get_put)

lemma get_del_same: "get (del k m) k = None"
  by (simp add: get_del)

lemma size_del_le: "wf m \<Longrightarrow> size_of (del k m) \<le> size_of m"
  by (cases "get m k = None") (use size_del [of m k] size_del_absent [of m k] in auto)

text \<open>A bounded cache: evicting a present key before a store keeps the bound.\<close>

lemma size_put_after_del:
  "wf m \<Longrightarrow> get m k' \<noteq> None \<Longrightarrow> size_of (put k v (del k' m)) \<le> size_of m"
  using size_del [of m k'] by (simp add: size_put wf_del split: if_splits) 

lemma size_put_le: "wf m \<Longrightarrow> size_of (put k v m) \<le> Suc (size_of m)"
  by (simp add: size_put)

end

section \<open>Association lists\<close>

type_synonym ('k, 'v) gomap = "('k \<times> 'v) list"

abbreviation gm_get :: "('k, 'v) gomap \<Rightarrow> 'k \<Rightarrow> 'v option" where "gm_get \<equiv> map_of"
abbreviation gm_put :: "'k \<Rightarrow> 'v \<Rightarrow> ('k, 'v) gomap \<Rightarrow> ('k, 'v) gomap" where "gm_put \<equiv> AList.update"
abbreviation gm_del :: "'k \<Rightarrow> ('k, 'v) gomap \<Rightarrow> ('k, 'v) gomap" where "gm_del \<equiv> AList.delete"
abbreviation gm_len :: "('k, 'v) gomap \<Rightarrow> nat" where "gm_len \<equiv> length"

definition gm_wf :: "('k, 'v) gomap \<Rightarrow> bool" where
  "gm_wf m \<longleftrightarrow> distinct (map fst m)"

lemma gm_wf_Nil [simp]: "gm_wf []"
  by (simp add: gm_wf_def)

lemma gm_wf_Cons: "gm_wf ((k, v) # m) \<longleftrightarrow> k \<notin> fst ` set m \<and> gm_wf m"
  by (simp add: gm_wf_def)

lemma length_gm_put:
  "length (gm_put k v m) = (if map_of m k = None then Suc (length m) else length m)"
  by (induction m) auto

lemma gm_del_absent: "map_of m k = None \<Longrightarrow> gm_del k m = m"
  by (induction m) (auto split: if_splits)

lemma gm_del_put: "gm_del k (gm_put k v m) = gm_del k m"
  by (induction m) auto

lemma length_gm_del:
  "gm_wf m \<Longrightarrow> map_of m k \<noteq> None \<Longrightarrow> Suc (length (gm_del k m)) = length m"
proof (induction m)
  case Nil
  then show ?case by simp
next
  case (Cons p m)
  obtain a b where p: "p = (a, b)" by force
  show ?case
  proof (cases "a = k")
    case True
    with Cons.prems p have "map_of m k = None"
      by (auto simp: gm_wf_Cons map_of_eq_None_iff)
    then have "gm_del k m = m" by (rule gm_del_absent)
    with True p show ?thesis by simp
  next
    case False
    with Cons p show ?thesis by (simp add: gm_wf_Cons)
  qed
qed

interpretation gm: go_table "map_of" AList.update AList.delete length gm_wf
proof unfold_locales
  fix k and v :: 'b and m :: "('a \<times> 'b) list"
  show "map_of (gm_put k v m) = (map_of m)(k \<mapsto> v)" by (rule update_conv')
  show "map_of (gm_del k m) = (map_of m)(k := None)" by (rule delete_conv')
  show "length (gm_put k v m) = (if map_of m k = None then Suc (length m) else length m)"
    by (rule length_gm_put)
  show "gm_wf m \<Longrightarrow> gm_wf (gm_put k v m)" by (simp add: gm_wf_def distinct_update)
  show "gm_wf m \<Longrightarrow> gm_wf (gm_del k m)" by (simp add: gm_wf_def distinct_delete)
  show "gm_wf m \<Longrightarrow> map_of m k \<noteq> None \<Longrightarrow> Suc (length (gm_del k m)) = length m"
    by (rule length_gm_del)
  show "map_of m k = None \<Longrightarrow> length (gm_del k m) = length m"
    by (simp add: gm_del_absent)
qed

lemmas [simp] = gm.get_put gm.get_del
lemmas [intro, simp] = gm.wf_put gm.wf_del

lemma gm_in_set: "gm_wf m \<Longrightarrow> (k, v) \<in> set m \<longleftrightarrow> map_of m k = Some v"
  by (simp add: gm_wf_def)

section \<open>Loops over a map\<close>

text \<open>
  \<open>for k := range m { delete(m, k); break }\<close> deletes one entry of the runtime's choice:
  \<open>pick\<close> is that choice.
\<close>

definition gm_evict :: "nat \<Rightarrow> ('k, 'v) gomap \<Rightarrow> ('k, 'v) gomap" where
  "gm_evict pick m = (if m = [] then [] else gm_del (fst (m ! (pick mod length m))) m)"

text \<open>A loop that deletes the entries satisfying a test.\<close>

definition gm_prune :: "('k \<Rightarrow> 'v \<Rightarrow> bool) \<Rightarrow> ('k, 'v) gomap \<Rightarrow> ('k, 'v) gomap" where
  "gm_prune P m = filter (\<lambda>(k, v). \<not> P k v) m"

text \<open>A loop that updates every entry in place (the values are pointers in the code).\<close>

definition gm_map :: "('k \<Rightarrow> 'v \<Rightarrow> 'v) \<Rightarrow> ('k, 'v) gomap \<Rightarrow> ('k, 'v) gomap" where
  "gm_map f m = map (\<lambda>(k, v). (k, f k v)) m"

lemma gm_wf_evict [intro, simp]: "gm_wf m \<Longrightarrow> gm_wf (gm_evict pick m)"
  by (simp add: gm_evict_def)

lemma gm_evict_present:
  assumes "gm_wf m" and "m \<noteq> []"
  shows "map_of m (fst (m ! (pick mod length m))) \<noteq> None"
proof -
  have "m ! (pick mod length m) \<in> set m"
    using assms by simp
  then show ?thesis
    by (metis map_of_eq_None_iff imageI)
qed

lemma length_gm_evict:
  "gm_wf m \<Longrightarrow> m \<noteq> [] \<Longrightarrow> Suc (length (gm_evict pick m)) = length m"
  by (simp add: gm_evict_def length_gm_del gm_evict_present)

lemma gm_evict_get:
  "map_of (gm_evict pick m) k = Some v \<Longrightarrow> map_of m k = Some v"
  by (auto simp: gm_evict_def split: if_splits)

lemma gm_wf_prune [intro, simp]: "gm_wf m \<Longrightarrow> gm_wf (gm_prune P m)"
  by (auto simp: gm_wf_def gm_prune_def distinct_map inj_on_def)

lemma map_of_gm_prune:
  "gm_wf m \<Longrightarrow> map_of (gm_prune P m) k =
     (case map_of m k of None \<Rightarrow> None | Some v \<Rightarrow> if P k v then None else Some v)"
proof (induction m)
  case Nil
  then show ?case by (simp add: gm_prune_def)
next
  case (Cons p m)
  obtain a b where p: "p = (a, b)" by force
  have prune: "gm_prune P (p # m) = (if P a b then gm_prune P m else (a, b) # gm_prune P m)"
    by (simp add: gm_prune_def p)
  have "a = k \<Longrightarrow> map_of m k = None"
    using Cons.prems p by (auto simp: gm_wf_Cons map_of_eq_None_iff)
  with Cons p prune show ?case
    by (auto simp: gm_wf_Cons split: option.splits)
qed

lemma gm_wf_map [intro, simp]: "gm_wf m \<Longrightarrow> gm_wf (gm_map f m)"
  by (simp add: gm_wf_def gm_map_def comp_def case_prod_unfold)

lemma map_of_gm_map: "map_of (gm_map f m) k = map_option (f k) (map_of m k)"
  by (induction m) (auto simp: gm_map_def)

lemma length_gm_prune_le: "length (gm_prune P m) \<le> length m"
  by (simp add: gm_prune_def)

lemma length_gm_map [simp]: "length (gm_map f m) = length m"
  by (simp add: gm_map_def)

text \<open>Storing under a bound: what \<open>if len(m) >= max { evict }\<close> before a store guarantees.\<close>

lemma length_put_evict:
  assumes "gm_wf m" and "length m \<le> b" and "0 < b"
  shows "length (gm_put k v (if b \<le> length m then gm_evict pick m else m)) \<le> b"
proof (cases "b \<le> length m")
  case True
  with assms have "m \<noteq> []" by auto
  with assms have "Suc (length (gm_evict pick m)) = length m" by (simp add: length_gm_evict)
  with True assms show ?thesis by (simp add: length_gm_put)
next
  case False
  then show ?thesis by (simp add: length_gm_put)
qed

end
