(* ===== verification/ValueTypes.thy ===== *)
theory ValueTypes
  imports RpcTypes Tables
begin

text \<open>
  The value universe of the RPC layer and \<open>value_types.go\<close>: the kinds of values, how
  \<open>TypeForValue\<close> classifies a Go value by reflection, and the sets of kinds.

  \<open>gval\<close> is what an \<open>interface{}\<close> can hold, as far as reflection as used by the program can tell:
  nil, the scalar kinds, slices and arrays, maps, structs, pointers, errors, RPC targets, stubs,
  functions, and the rest (\<open>VOther\<close>: channels, complex numbers, \<open>uintptr\<close>). Integers of every
  width are \<open>VInt\<close>; the float is float64 (float32 values are outside the universe).
\<close>

datatype value_type =
    VtUndefined | VtNull | VtBool | VtNumber | VtString | VtBigInt | VtDate | VtBytes | VtError
  | VtArray | VtObject | VtFunction | VtStub | VtPromise | VtTarget | VtUnsupported

definition value_type_index :: "value_type \<Rightarrow> nat" where
  "value_type_index t =
     (case t of VtUndefined \<Rightarrow> 0 | VtNull \<Rightarrow> 1 | VtBool \<Rightarrow> 2 | VtNumber \<Rightarrow> 3 | VtString \<Rightarrow> 4
      | VtBigInt \<Rightarrow> 5 | VtDate \<Rightarrow> 6 | VtBytes \<Rightarrow> 7 | VtError \<Rightarrow> 8 | VtArray \<Rightarrow> 9 | VtObject \<Rightarrow> 10
      | VtFunction \<Rightarrow> 11 | VtStub \<Rightarrow> 12 | VtPromise \<Rightarrow> 13 | VtTarget \<Rightarrow> 14 | VtUnsupported \<Rightarrow> 15)"

lemma value_type_index_inj: "value_type_index a = value_type_index b \<Longrightarrow> a = b"
  by (cases a; cases b; simp add: value_type_index_def)

text \<open>The constants are numbered by \<open>iota\<close>; Go compares them as integers.\<close>

instantiation value_type :: linorder
begin

definition less_eq_value_type :: "value_type \<Rightarrow> value_type \<Rightarrow> bool" where
  "less_eq_value_type a b \<longleftrightarrow> value_type_index a \<le> value_type_index b"

definition less_value_type :: "value_type \<Rightarrow> value_type \<Rightarrow> bool" where
  "less_value_type a b \<longleftrightarrow> value_type_index a < value_type_index b"

instance
  by standard (auto simp: less_eq_value_type_def less_value_type_def value_type_index_inj)

end

definition value_type_string :: "value_type \<Rightarrow> string" where
  "value_type_string t =
     (case t of VtUndefined \<Rightarrow> ''undefined'' | VtNull \<Rightarrow> ''null'' | VtBool \<Rightarrow> ''bool''
      | VtNumber \<Rightarrow> ''number'' | VtString \<Rightarrow> ''string'' | VtBigInt \<Rightarrow> ''bigint'' | VtDate \<Rightarrow> ''date''
      | VtBytes \<Rightarrow> ''bytes'' | VtError \<Rightarrow> ''error'' | VtArray \<Rightarrow> ''array'' | VtObject \<Rightarrow> ''object''
      | VtFunction \<Rightarrow> ''function'' | VtStub \<Rightarrow> ''stub'' | VtPromise \<Rightarrow> ''promise''
      | VtTarget \<Rightarrow> ''target'' | VtUnsupported \<Rightarrow> ''unsupported'')"

lemma value_type_string_inj: "value_type_string a = value_type_string b \<Longrightarrow> a = b"
  by (cases a; cases b; simp add: value_type_string_def)

section \<open>Values\<close>

text \<open>
  A struct field has its name, whether it is exported, its \<open>json\<close> tag (empty when absent) and its
  value. \<open>VErr\<close> is a pointer to a type with an \<open>Error\<close> method, given by its text, and the stack
  text when it has a \<open>StackTrace\<close> method. \<open>VByteArray\<close> is a \<open>[N]byte\<close>, \<open>VByteSlice\<close> a slice
  of a type whose kind is \<open>uint8\<close> that is not a \<open>[]byte\<close>, such as one of a defined type. \<open>VMap\<close> has its keys as printed by \<open>%v\<close>, in the order the
  runtime iterates over them.
\<close>

record field_info =
  fi_name :: string
  fi_exported :: bool
  fi_tag :: string

datatype gval =
    VNil
  | VBool bool
  | VInt int
  | VFloat float64
  | VStr string
  | VBytes bytes
  | VByteArray bytes
  | VByteSlice bytes
  | VTime int
  | VBigInt int
  | VSlice "gval list"
  | VMap "(string \<times> gval) list"
  | VStruct "(field_info \<times> gval) list"
  | VPtr gval
  | VNilPtr
  | VErr string "string option"
  | VRpcErr rpc_error
  | VTarget nat
  | VStub "int option" "int option"
  | VFunc nat
  | VOther

fun type_for_value :: "gval \<Rightarrow> value_type" where
  "type_for_value VNil = VtNull"
| "type_for_value (VBool _) = VtBool"
| "type_for_value (VInt _) = VtNumber"
| "type_for_value (VFloat _) = VtNumber"
| "type_for_value (VStr _) = VtString"
| "type_for_value (VBytes _) = VtBytes"
| "type_for_value (VByteArray _) = VtBytes"
| "type_for_value (VByteSlice _) = VtBytes"
| "type_for_value (VTime _) = VtDate"
| "type_for_value (VBigInt _) = VtBigInt"
| "type_for_value (VSlice _) = VtArray"
| "type_for_value (VMap _) = VtObject"
| "type_for_value (VStruct _) = VtObject"
| "type_for_value (VPtr v) = type_for_value v"
| "type_for_value VNilPtr = VtNull"
| "type_for_value (VErr _ _) = VtError"
| "type_for_value (VRpcErr _) = VtError"
| "type_for_value (VTarget _) = VtTarget"
| "type_for_value (VStub _ _) = VtStub"
| "type_for_value (VFunc _) = VtFunction"
| "type_for_value VOther = VtUnsupported"

definition vt_is_serializable :: "value_type \<Rightarrow> bool" where
  "vt_is_serializable t = (case t of VtUndefined \<Rightarrow> False | VtUnsupported \<Rightarrow> False | _ \<Rightarrow> True)"

definition vt_is_primitive :: "value_type \<Rightarrow> bool" where
  "vt_is_primitive t =
     (case t of VtNull \<Rightarrow> True | VtBool \<Rightarrow> True | VtNumber \<Rightarrow> True | VtString \<Rightarrow> True
      | VtBigInt \<Rightarrow> True | VtDate \<Rightarrow> True | VtBytes \<Rightarrow> True | VtError \<Rightarrow> True | _ \<Rightarrow> False)"

definition vt_is_composite :: "value_type \<Rightarrow> bool" where
  "vt_is_composite t = (case t of VtArray \<Rightarrow> True | VtObject \<Rightarrow> True | _ \<Rightarrow> False)"

definition vt_is_rpc :: "value_type \<Rightarrow> bool" where
  "vt_is_rpc t = (case t of VtFunction \<Rightarrow> True | VtStub \<Rightarrow> True | VtPromise \<Rightarrow> True | VtTarget \<Rightarrow> True
     | _ \<Rightarrow> False)"

text \<open>The classifier never answers \<open>promise\<close> or \<open>undefined\<close>.\<close>

lemma type_for_value_range: "type_for_value v \<notin> {VtPromise, VtUndefined}"
  by (induction v rule: type_for_value.induct) simp_all

section \<open>Serialization hints\<close>

record serialization_hint =
  sh_type :: value_type
  sh_is_reference :: bool
  sh_is_promise :: bool
  sh_size :: int

definition get_serialization_hint :: "gval \<Rightarrow> serialization_hint" where
  "get_serialization_hint v =
     (let t = type_for_value v;
          hint = \<lparr>sh_type = t, sh_is_reference = False, sh_is_promise = False, sh_size = 0\<rparr>
      in case t of
           VtFunction \<Rightarrow> hint\<lparr>sh_is_reference := True, sh_size := 32\<rparr>
         | VtTarget \<Rightarrow> hint\<lparr>sh_is_reference := True, sh_size := 32\<rparr>
         | VtStub \<Rightarrow> hint\<lparr>sh_is_reference := True, sh_size := 32\<rparr>
         | VtPromise \<Rightarrow> hint\<lparr>sh_is_reference := True, sh_is_promise := True, sh_size := 32\<rparr>
         | VtString \<Rightarrow> (case v of VStr s \<Rightarrow> hint\<lparr>sh_size := int (length s)\<rparr> | _ \<Rightarrow> hint)
         | VtBytes \<Rightarrow> (case v of VBytes b \<Rightarrow> hint\<lparr>sh_size := int (length b)\<rparr>
             | VByteSlice b \<Rightarrow> hint\<lparr>sh_size := int (length b)\<rparr> | _ \<Rightarrow> hint)
         | VtArray \<Rightarrow> hint\<lparr>sh_size := - 1\<rparr>
         | VtObject \<Rightarrow> hint\<lparr>sh_size := - 1\<rparr>
         | _ \<Rightarrow> hint\<lparr>sh_size := 8\<rparr>)"

section \<open>Sets of kinds\<close>

text \<open>A \<open>ValueTypeSet\<close> is a map to the empty struct.\<close>

type_synonym value_type_set = "(value_type, unit) gomap"

definition new_value_type_set :: "value_type list \<Rightarrow> value_type_set" where
  "new_value_type_set ts = fold (\<lambda>t s. gm_put t () s) ts []"

definition vts_contains :: "value_type_set \<Rightarrow> value_type \<Rightarrow> bool" where
  "vts_contains s t \<longleftrightarrow> gm_get s t \<noteq> None"

definition vts_add :: "value_type_set \<Rightarrow> value_type \<Rightarrow> value_type_set" where
  "vts_add s t = gm_put t () s"

definition vts_remove :: "value_type_set \<Rightarrow> value_type \<Rightarrow> value_type_set" where
  "vts_remove s t = gm_del t s"

definition primitive_types :: value_type_set where
  "primitive_types = new_value_type_set
     [VtNull, VtBool, VtNumber, VtString, VtBigInt, VtDate, VtBytes, VtError]"

definition composite_types :: value_type_set where
  "composite_types = new_value_type_set [VtArray, VtObject]"

definition rpc_types :: value_type_set where
  "rpc_types = new_value_type_set [VtFunction, VtStub, VtPromise, VtTarget]"

definition serializable_types :: value_type_set where
  "serializable_types = new_value_type_set
     [VtNull, VtBool, VtNumber, VtString, VtBigInt, VtDate, VtBytes, VtError, VtArray, VtObject,
      VtFunction, VtStub, VtPromise, VtTarget]"

lemma vts_contains_add [simp]: "vts_contains (vts_add s t) u \<longleftrightarrow> u = t \<or> vts_contains s u"
  by (simp add: vts_contains_def vts_add_def)

lemma vts_contains_remove [simp]: "vts_contains (vts_remove s t) u \<longleftrightarrow> u \<noteq> t \<and> vts_contains s u"
  by (simp add: vts_contains_def vts_remove_def)

text \<open>The sets built at start-up and the methods of the kinds agree.\<close>

lemma vts_contains_new [simp]: "vts_contains (new_value_type_set ts) t \<longleftrightarrow> t \<in> set ts"
proof -
  have "map_of (fold (\<lambda>t s. gm_put t () s) ts m) t \<noteq> None \<longleftrightarrow> t \<in> set ts \<or> map_of m t \<noteq> None"
    for m
    by (induction ts arbitrary: m) auto
  then show ?thesis
    by (simp add: vts_contains_def new_value_type_set_def)
qed

lemma value_type_classes_agree:
  "vts_contains primitive_types t = vt_is_primitive t"
  "vts_contains composite_types t = vt_is_composite t"
  "vts_contains rpc_types t = vt_is_rpc t"
  "vts_contains serializable_types t = vt_is_serializable t"
  by (cases t; simp add: primitive_types_def composite_types_def rpc_types_def
      serializable_types_def vt_is_primitive_def vt_is_composite_def vt_is_rpc_def
      vt_is_serializable_def)+

end
