(* ===== verification/Serialize.thy ===== *)
theory Serialize
  imports ValueTypes
begin

text \<open>
  \<open>serialize.go\<close>: the conversion of Go values into JSON trees with tagged arrays for what JSON
  lacks (\<open>["bigint", s]\<close>, \<open>["date", ms]\<close>, \<open>["bytes", b64]\<close>, \<open>["error", obj]\<close>, \<open>["export", id]\<close>,
  \<open>["import", id]\<close>), and back. A JSON tree is a \<open>gval\<close>. The export and import functions are fields of
  the serializer and the deserializer and thread a caller's state \<open>'s\<close>; a missing one is \<open>None\<close>.
  The text \<open>runtime.Stack\<close> produces is the argument \<open>stk\<close>.
\<close>

section \<open>The serializer\<close>

record 's serializer =
  sr_export_func :: "(gval \<Rightarrow> 's \<Rightarrow> int result \<times> 's) option"
  sr_include_stack_traces :: bool
  sr_max_depth :: int
  sr_date_format :: string
  sr_strict_types :: bool

definition new_serializer :: "(gval \<Rightarrow> 's \<Rightarrow> int result \<times> 's) option \<Rightarrow> 's serializer" where
  "new_serializer ef = \<lparr>sr_export_func = ef, sr_include_stack_traces = True, sr_max_depth = 100,
     sr_date_format = ''2006-01-02T15:04:05.999999999Z07:00'', sr_strict_types = False\<rparr>"

definition tagged :: "string \<Rightarrow> gval \<Rightarrow> gval" where
  "tagged t v = VSlice [VStr t, v]"

text \<open>\<open>time.Time.UnixMilli\<close>, on nanoseconds since the epoch.\<close>

definition unix_milli :: "int \<Rightarrow> int" where
  "unix_milli ns = int64 (ns div 1000000)"

definition serialize_error :: "string \<Rightarrow> 's serializer \<Rightarrow> gval \<Rightarrow> gval result" where
  "serialize_error stk S v =
     (case v of
        VRpcErr e \<Rightarrow>
          let obj = [(''message'', VStr (rpc_error_text e))];
              obj = gm_put ''name'' (VStr (re_type e)) obj;
              obj = gm_put ''message'' (VStr (re_message e)) obj;
              obj = (if re_code e \<noteq> 0 then gm_put ''code'' (VInt (re_code e)) obj else obj);
              obj = (if sr_include_stack_traces S \<and> re_stack e \<noteq> []
                     then gm_put ''stack'' (VStr (re_stack e)) obj else obj)
          in Ok (tagged ''error'' (VMap obj))
      | VErr m tracer \<Rightarrow>
          let obj = [(''message'', VStr m)];
              obj = gm_put ''name'' (VStr ''Error'') obj;
              obj = (if sr_include_stack_traces S
                     then gm_put ''stack'' (VStr (case tracer of Some t \<Rightarrow> t | None \<Rightarrow> stk)) obj
                     else obj)
          in Ok (tagged ''error'' (VMap obj))
      | _ \<Rightarrow> Panic)"

text \<open>The name of a struct field: the \<open>json\<close> tag up to its first comma, unless that is empty.\<close>

definition field_json_name :: "field_info \<Rightarrow> string" where
  "field_json_name f =
     (if fi_tag f \<noteq> [] \<and> fi_tag f \<noteq> ''-'' then
        let commaIdx = length (takeWhile (\<lambda>c. c \<noteq> CHR '','') (fi_tag f))
        in if commaIdx > 0 then take commaIdx (fi_tag f) else fi_tag f
      else fi_name f)"

definition field_skipped :: "field_info \<Rightarrow> bool" where
  "field_skipped f \<longleftrightarrow> \<not> fi_exported f \<or> fi_tag f = ''-''"

definition serialize_function :: "'s serializer \<Rightarrow> gval \<Rightarrow> 's \<Rightarrow> gval result \<times> 's" where
  "serialize_function S v s =
     (case sr_export_func S of
        None \<Rightarrow> (Err (EMsg ''cannot serialize function: no export function provided''), s)
      | Some ef \<Rightarrow>
          (case ef v s of
             (Ok i, s') \<Rightarrow> (Ok (tagged ''export'' (VInt i)), s')
           | (Err e, s') \<Rightarrow> (Err (EWrap ''failed to export function: '' e), s')
           | (Panic, s') \<Rightarrow> (Panic, s')
           | (Hang, s') \<Rightarrow> (Hang, s')))"

definition serialize_target :: "'s serializer \<Rightarrow> gval \<Rightarrow> 's \<Rightarrow> gval result \<times> 's" where
  "serialize_target S v s =
     (case sr_export_func S of
        None \<Rightarrow> (Err (EMsg ''cannot serialize RpcTarget: no export function provided''), s)
      | Some ef \<Rightarrow>
          (case ef v s of
             (Ok i, s') \<Rightarrow> (Ok (tagged ''export'' (VInt i)), s')
           | (Err e, s') \<Rightarrow> (Err (EWrap ''failed to export RpcTarget: '' e), s')
           | (Panic, s') \<Rightarrow> (Panic, s')
           | (Hang, s') \<Rightarrow> (Hang, s')))"

definition serialize_stub :: "gval \<Rightarrow> gval result" where
  "serialize_stub v =
     (case v of
        VStub (Some i) _ \<Rightarrow> Ok (tagged ''import'' (VInt i))
      | VStub None (Some e) \<Rightarrow> Ok (tagged ''export'' (VInt e))
      | VStub None None \<Rightarrow> Err (EMsg ''stub has neither import nor export ID'')
      | _ \<Rightarrow> Panic)"

definition serialize_promise :: "gval \<Rightarrow> gval result" where
  "serialize_promise v =
     (case v of
        VStub (Some i) _ \<Rightarrow> Ok (tagged ''import'' (VInt i))
      | _ \<Rightarrow> Err (EMsg ''cannot serialize promise: invalid type %T''))"

text \<open>Run a step, then continue with its result; an error is wrapped with the caller's text.\<close>

definition and_then :: "string \<Rightarrow> 'a result \<times> 's \<Rightarrow> ('a \<Rightarrow> 's \<Rightarrow> 'b result \<times> 's) \<Rightarrow> 'b result \<times> 's" where
  "and_then ctx r k =
     (case r of
        (Ok a, s) \<Rightarrow> k a s
      | (Err e, s) \<Rightarrow> (Err (EWrap ctx e), s)
      | (Panic, s) \<Rightarrow> (Panic, s)
      | (Hang, s) \<Rightarrow> (Hang, s))"

lemma and_then_simps [simp]:
  "and_then ctx (Ok a, s) k = k a s"
  "and_then ctx (Err e, s) k = (Err (EWrap ctx e), s)"
  "and_then ctx (Panic, s) k = (Panic, s)"
  "and_then ctx (Hang, s) k = (Hang, s)"
  by (simp_all add: and_then_def)

text \<open>
  \<open>serialize_with_depth\<close> is \<open>serializeWithDepth\<close>: the depth check, then the \<open>switch\<close> on
  \<open>TypeForValue\<close>. The cases that do not recurse are \<open>serialize_leaf\<close>; \<open>pointer_leaf\<close> is what
  becomes of a pointer whose target is of a kind that is not an object. The three list functions
  are the loops of \<open>serializeArray\<close>, \<open>serializeMap\<close> and \<open>serializeStruct\<close>.
\<close>

definition pointer_leaf :: "'s serializer \<Rightarrow> gval \<Rightarrow> 's \<Rightarrow> gval result \<times> 's" where
  "pointer_leaf S v s =
     (case type_for_value v of
        VtNull \<Rightarrow> (Ok VNil, s)
      | VtBool \<Rightarrow> (Ok (VPtr v), s)
      | VtNumber \<Rightarrow> (Ok (VPtr v), s)
      | VtString \<Rightarrow> (Ok (VPtr v), s)
      | VtBigInt \<Rightarrow> (Err (EMsg ''invalid bigint value: %T''), s)
      | VtDate \<Rightarrow> (Err (EMsg ''invalid date value: %T''), s)
      | VtBytes \<Rightarrow> (Err (EMsg ''invalid bytes value: %T''), s)
      | VtError \<Rightarrow> (Panic, s)
      | VtArray \<Rightarrow> (Err (EMsg ''expected slice or array, got %T''), s)
      | VtFunction \<Rightarrow> serialize_function S (VPtr v) s
      | VtTarget \<Rightarrow> serialize_target S (VPtr v) s
      | VtStub \<Rightarrow> (serialize_stub (VPtr v), s)
      | VtPromise \<Rightarrow> (serialize_promise (VPtr v), s)
      | VtUnsupported \<Rightarrow> (Err (EMsg ''unsupported type for serialization: %T''), s)
      | _ \<Rightarrow> (Err (EMsg ''unknown value type: %s''), s))"

definition serialize_leaf :: "string \<Rightarrow> 's serializer \<Rightarrow> gval \<Rightarrow> 's \<Rightarrow> gval result \<times> 's" where
  "serialize_leaf stk S v s =
     (case v of
        VNil \<Rightarrow> (Ok VNil, s)
      | VNilPtr \<Rightarrow> (Ok VNil, s)
      | VBigInt n \<Rightarrow> (Ok (tagged ''bigint'' (VStr (int_to_dec n))), s)
      | VTime ns \<Rightarrow> (Ok (tagged ''date'' (VInt (unix_milli ns))), s)
      | VBytes b \<Rightarrow> (Ok (tagged ''bytes'' (VStr (b64_encode b))), s)
      | VByteArray b \<Rightarrow> (Err (EMsg ''invalid bytes value: %T''), s)
      | VByteSlice b \<Rightarrow> (Err (EMsg ''invalid bytes value: %T''), s)
      | VErr m t \<Rightarrow> (serialize_error stk S v, s)
      | VRpcErr e \<Rightarrow> (serialize_error stk S v, s)
      | VFunc f \<Rightarrow> serialize_function S v s
      | VTarget t \<Rightarrow> serialize_target S v s
      | VStub i e \<Rightarrow> (serialize_stub v, s)
      | VOther \<Rightarrow> (Err (EMsg ''unsupported type for serialization: %T''), s)
      | _ \<Rightarrow> (Ok v, s))"

lemma size_gval_snd_le [termination_simp]: "size (snd kv) < Suc (size_prod (\<lambda>x. 0) size kv + n)"
  by (cases kv) simp

function serialize_with_depth :: "string \<Rightarrow> 's serializer \<Rightarrow> int \<Rightarrow> gval \<Rightarrow> 's \<Rightarrow> gval result \<times> 's"
  and serialize_array :: "string \<Rightarrow> 's serializer \<Rightarrow> int \<Rightarrow> gval list \<Rightarrow> gval list \<Rightarrow> 's \<Rightarrow> gval result \<times> 's"
  and serialize_map :: "string \<Rightarrow> 's serializer \<Rightarrow> int \<Rightarrow> (string \<times> gval) list \<Rightarrow> (string, gval) gomap
    \<Rightarrow> 's \<Rightarrow> gval result \<times> 's"
  and serialize_struct :: "string \<Rightarrow> 's serializer \<Rightarrow> int \<Rightarrow> (field_info \<times> gval) list
    \<Rightarrow> (string, gval) gomap \<Rightarrow> 's \<Rightarrow> gval result \<times> 's"
where
  "serialize_with_depth stk S d v s =
     (if d > sr_max_depth S then (Err (EMsg ''serialization depth limit exceeded (%d)''), s)
      else case v of
        VSlice vs \<Rightarrow> serialize_array stk S d vs [] s
      | VMap kvs \<Rightarrow> serialize_map stk S d kvs [] s
      | VStruct fs \<Rightarrow> serialize_struct stk S d fs [] s
      | VPtr w \<Rightarrow> (if type_for_value w = VtObject then serialize_with_depth stk S d w s
                  else pointer_leaf S w s)
      | _ \<Rightarrow> serialize_leaf stk S v s)"
| "serialize_array stk S d [] acc s = (Ok (VSlice acc), s)"
| "serialize_array stk S d (v # vs) acc s =
     and_then ''error serializing array element %d: '' (serialize_with_depth stk S (d + 1) v s)
       (\<lambda>w s'. serialize_array stk S d vs (acc @ [w]) s')"
| "serialize_map stk S d [] acc s = (Ok (VMap acc), s)"
| "serialize_map stk S d (kv # kvs) acc s =
     and_then ''error serializing map key %s: '' (serialize_with_depth stk S (d + 1) (snd kv) s)
       (\<lambda>w s'. serialize_map stk S d kvs (gm_put (fst kv) w acc) s')"
| "serialize_struct stk S d [] acc s = (Ok (VMap acc), s)"
| "serialize_struct stk S d (fv # fs) acc s =
     (if field_skipped (fst fv) then serialize_struct stk S d fs acc s
      else and_then ''error serializing field %s: '' (serialize_with_depth stk S (d + 1) (snd fv) s)
        (\<lambda>w s'. serialize_struct stk S d fs (gm_put (field_json_name (fst fv)) w acc) s'))"
  by pat_completeness auto

termination
  by (relation "measure (\<lambda>x. case x of
         Inl (Inl (_, _, _, v, _)) \<Rightarrow> size v
       | Inl (Inr (_, _, _, vs, _, _)) \<Rightarrow> size_list size vs
       | Inr (Inl (_, _, _, kvs, _, _)) \<Rightarrow> size_list (size_prod (\<lambda>x. 0) size) kvs
       | Inr (Inr (_, _, _, fs, _, _)) \<Rightarrow> size_list (size_prod (\<lambda>x. 0) size) fs)")
     (auto simp: size_gval_snd_le)

declare serialize_with_depth.simps [simp del]

definition serialize :: "string \<Rightarrow> 's serializer \<Rightarrow> gval \<Rightarrow> 's \<Rightarrow> gval result \<times> 's" where
  "serialize stk S v s = serialize_with_depth stk S 0 v s"

section \<open>The deserializer\<close>

record 's deserializer =
  ds_import_func :: "(int \<Rightarrow> bool \<Rightarrow> 's \<Rightarrow> gval result \<times> 's) option"
  ds_strict_types :: bool
  ds_create_unknown_types :: bool

definition new_deserializer :: "(int \<Rightarrow> bool \<Rightarrow> 's \<Rightarrow> gval result \<times> 's) option \<Rightarrow> 's deserializer" where
  "new_deserializer f = \<lparr>ds_import_func = f, ds_strict_types = False, ds_create_unknown_types = True\<rparr>"

definition rpc_tags :: "string list" where
  "rpc_tags = [''bigint'', ''date'', ''bytes'', ''error'', ''import'', ''export'', ''promise'']"

definition str_of :: "gval option \<Rightarrow> string option" where
  "str_of v = (case v of Some (VStr s) \<Rightarrow> Some s | _ \<Rightarrow> None)"

definition deserialize_error :: "gval \<Rightarrow> gval" where
  "deserialize_error v =
     (case v of
        VMap m \<Rightarrow>
          let message = (case str_of (gm_get m ''message'') of Some s \<Rightarrow> s | None \<Rightarrow> [])
          in (case str_of (gm_get m ''name'') of
                Some n \<Rightarrow>
                  VRpcErr \<lparr>re_type = n, re_message = message,
                    re_stack = (case str_of (gm_get m ''stack'') of Some s \<Rightarrow> s | None \<Rightarrow> []),
                    re_code = (case gm_get m ''code'' of Some (VFloat r) \<Rightarrow> f64_to_int64 r | _ \<Rightarrow> 0)\<rparr>
              | None \<Rightarrow> VErr message None)
      | _ \<Rightarrow> VErr ''invalid error value: %v'' None)"

definition deserialize_ref :: "'s deserializer \<Rightarrow> string \<Rightarrow> string \<Rightarrow> bool \<Rightarrow> gval \<Rightarrow> 's \<Rightarrow> gval result \<times> 's" where
  "deserialize_ref D nofunc bad is_promise v s =
     (case ds_import_func D of
        None \<Rightarrow> (Err (EMsg nofunc), s)
      | Some f \<Rightarrow>
          (case v of VFloat r \<Rightarrow> f (f64_to_int32 r) is_promise s | _ \<Rightarrow> (Err (EMsg bad), s)))"

definition deserialize_array_type :: "'s deserializer \<Rightarrow> gval list \<Rightarrow> 's \<Rightarrow> gval result \<times> 's" where
  "deserialize_array_type D data s =
     (case data of
        VStr t # v # _ \<Rightarrow>
          if t = ''bigint'' then
            (case v of
               VStr x \<Rightarrow> (case parse_int x of Some z \<Rightarrow> (Ok (VBigInt z), s)
                 | None \<Rightarrow> (Err (EMsg ''invalid bigint value: %v''), s))
             | _ \<Rightarrow> (Err (EMsg ''invalid bigint value: %v''), s))
          else if t = ''date'' then
            (case v of
               VFloat r \<Rightarrow> (Ok (VTime (f64_to_int64 r * 1000000)), s)
             | _ \<Rightarrow> (Err (EMsg ''invalid date value: %v''), s))
          else if t = ''bytes'' then
            (case v of
               VStr x \<Rightarrow> (case b64_decode x of Some b \<Rightarrow> (Ok (VBytes b), s)
                 | None \<Rightarrow> (Err (EWrap ''failed to decode base64 bytes: ''
                     (EMsg ''illegal base64 data at input byte %d'')), s))
             | _ \<Rightarrow> (Err (EMsg ''invalid bytes value: %v''), s))
          else if t = ''error'' then (Ok (deserialize_error v), s)
          else if t = ''import'' then
            deserialize_ref D ''cannot deserialize import: no import function provided''
              ''invalid import ID: %v'' False v s
          else if t = ''export'' then
            deserialize_ref D ''cannot deserialize export: no import function provided''
              ''invalid export ID: %v'' False v s
          else if t = ''promise'' then
            deserialize_ref D ''cannot deserialize promise: no import function provided''
              ''invalid promise ID: %v'' True v s
          else if ds_create_unknown_types D then (Ok (VErr ''unknown serialized type: %s'' None), s)
          else (Err (EMsg ''unknown serialized type: %s''), s)
      | _ # _ # _ \<Rightarrow> (Err (EMsg ''invalid array type format: first element must be string''), s)
      | _ \<Rightarrow> (Err (EMsg ''invalid array type format: need at least 2 elements''), s))"

definition is_tagged_array :: "gval list \<Rightarrow> bool" where
  "is_tagged_array vs =
     (length vs \<ge> 2 \<and> (case vs of VStr t # _ \<Rightarrow> t \<in> set rpc_tags | _ \<Rightarrow> False))"

function deserialize_value :: "'s deserializer \<Rightarrow> gval \<Rightarrow> 's \<Rightarrow> gval result \<times> 's"
  and deserialize_array :: "'s deserializer \<Rightarrow> gval list \<Rightarrow> gval list \<Rightarrow> 's \<Rightarrow> gval result \<times> 's"
  and deserialize_object :: "'s deserializer \<Rightarrow> (string \<times> gval) list \<Rightarrow> (string, gval) gomap \<Rightarrow> 's
    \<Rightarrow> gval result \<times> 's"
where
  "deserialize_value D v s =
     (case v of
        VSlice vs \<Rightarrow>
          if is_tagged_array vs then deserialize_array_type D vs s else deserialize_array D vs [] s
      | VMap kvs \<Rightarrow> deserialize_object D kvs [] s
      | _ \<Rightarrow> (Ok v, s))"
| "deserialize_array D [] acc s = (Ok (VSlice acc), s)"
| "deserialize_array D (v # vs) acc s =
     and_then ''error deserializing array element %d: '' (deserialize_value D v s)
       (\<lambda>w s'. deserialize_array D vs (acc @ [w]) s')"
| "deserialize_object D [] acc s = (Ok (VMap acc), s)"
| "deserialize_object D (kv # kvs) acc s =
     and_then ''error deserializing object key %s: '' (deserialize_value D (snd kv) s)
       (\<lambda>w s'. deserialize_object D kvs (gm_put (fst kv) w acc) s')"
  by pat_completeness auto
termination
  by (relation "measure (\<lambda>x. case x of
         Inl (_, v, _) \<Rightarrow> size v
       | Inr (Inl (_, vs, _, _)) \<Rightarrow> size_list size vs
       | Inr (Inr (_, kvs, _, _)) \<Rightarrow> size_list (size_prod (\<lambda>x. 0) size) kvs)")
     (auto simp: size_gval_snd_le)

declare deserialize_value.simps [simp del]

section \<open>Through JSON bytes\<close>

text \<open>\<open>json.Marshal\<close> and \<open>json.Unmarshal\<close> are library calls: \<open>marshal\<close> and \<open>unmarshal\<close>.\<close>

definition to_json :: "(gval \<Rightarrow> bytes result) \<Rightarrow> string \<Rightarrow> 's serializer \<Rightarrow> gval \<Rightarrow> 's \<Rightarrow> bytes result \<times> 's" where
  "to_json marshal stk S v s =
     (case serialize stk S v s of
        (Ok w, s') \<Rightarrow> (marshal w, s')
      | (Err e, s') \<Rightarrow> (Err e, s')
      | (Panic, s') \<Rightarrow> (Panic, s')
      | (Hang, s') \<Rightarrow> (Hang, s'))"

definition from_json :: "(bytes \<Rightarrow> gval result) \<Rightarrow> 's deserializer \<Rightarrow> bytes \<Rightarrow> 's \<Rightarrow> gval result \<times> 's" where
  "from_json unmarshal D bs s =
     (case unmarshal bs of
        Ok v \<Rightarrow> deserialize_value D v s
      | Err e \<Rightarrow> (Err (EWrap ''JSON unmarshal error: '' e), s)
      | Panic \<Rightarrow> (Panic, s)
      | Hang \<Rightarrow> (Hang, s))"

section \<open>Reference semantics\<close>

text \<open>
  \<open>nest\<close> is how deep a value nests as far as the serializer descends. \<open>wire\<close> is the JSON tree of a
  value without references, \<open>json_norm\<close> what \<open>json.Unmarshal\<close> makes of a marshalled tree (numbers
  become float64, pointers disappear), \<open>received\<close> the Go value the peer ends up with.
\<close>

lemma size_map_entry [termination_simp]:
  "kv \<in> set kvs \<Longrightarrow> size (snd kv) < Suc (size_list (size_prod (\<lambda>x. 0) size) kvs)"
  by (induction kvs) (auto simp: less_Suc_eq_le size_gval_snd_le intro: le_less_trans less_imp_le
      trans_le_add2 simp del: size_prod_simp)

lemma size_elem: "x \<in> set xs \<Longrightarrow> size x < Suc (size_list size xs)"
  by (induction xs) auto

function nest :: "gval \<Rightarrow> int" where
  "nest v =
     (case v of
        VSlice vs \<Rightarrow> fold max (map (\<lambda>w. 1 + nest w) vs) 0
      | VMap kvs \<Rightarrow> fold max (map (\<lambda>kv. 1 + nest (snd kv)) kvs) 0
      | VStruct fs \<Rightarrow> fold max (map (\<lambda>fv. if field_skipped (fst fv) then 0 else 1 + nest (snd fv)) fs) 0
      | VPtr w \<Rightarrow> if type_for_value w = VtObject then nest w else 0
      | _ \<Rightarrow> 0)"
  by pat_completeness auto
termination
  by (relation "measure size") (auto simp: size_map_entry size_elem)

fun deref :: "gval \<Rightarrow> gval" where
  "deref (VPtr v) = deref v"
| "deref v = v"

function json_norm :: "gval \<Rightarrow> gval" where
  "json_norm v =
     (case v of
        VInt n \<Rightarrow> VFloat (f64_of_int n)
      | VNilPtr \<Rightarrow> VNil
      | VPtr w \<Rightarrow> json_norm w
      | VSlice vs \<Rightarrow> VSlice (map json_norm vs)
      | VMap kvs \<Rightarrow> VMap (map (\<lambda>kv. (fst kv, json_norm (snd kv))) kvs)
      | _ \<Rightarrow> v)"
  by pat_completeness auto
termination
  by (relation "measure size") (auto simp: size_map_entry size_elem)

text \<open>
  The values the round trip is about: everything but references, byte arrays and pointers to
  what the serializer refuses. A slice must not look like a tagged array; maps and structs have
  distinct keys; times are within 2^53 milliseconds of the epoch and error codes below 2^53.
\<close>

definition small53 :: "int \<Rightarrow> bool" where
  "small53 n \<longleftrightarrow> \<bar>n\<bar> < 2 ^ 53"

definition is_scalar_type :: "value_type \<Rightarrow> bool" where
  "is_scalar_type t \<longleftrightarrow> t \<in> {VtNull, VtBool, VtNumber, VtString}"

function data_value :: "gval \<Rightarrow> bool" where
  "data_value v =
     (case v of
        VTime ns \<Rightarrow> small53 (ns div 1000000)
      | VRpcErr e \<Rightarrow> small53 (re_code e)
      | VSlice vs \<Rightarrow> \<not> is_tagged_array (map deref vs) \<and> (\<forall>w \<in> set vs. data_value w)
      | VMap kvs \<Rightarrow> distinct (map fst kvs) \<and> (\<forall>kv \<in> set kvs. data_value (snd kv))
      | VStruct fs \<Rightarrow>
          distinct (map (\<lambda>fv. field_json_name (fst fv)) (filter (\<lambda>fv. \<not> field_skipped (fst fv)) fs))
          \<and> (\<forall>fv \<in> set fs. field_skipped (fst fv) \<or> data_value (snd fv))
      | VPtr w \<Rightarrow> (type_for_value w = VtObject \<or> is_scalar_type (type_for_value w)) \<and> data_value w
      | VByteArray _ \<Rightarrow> False
      | VByteSlice _ \<Rightarrow> False
      | VTarget _ \<Rightarrow> False
      | VStub _ _ \<Rightarrow> False
      | VFunc _ \<Rightarrow> False
      | VOther \<Rightarrow> False
      | _ \<Rightarrow> True)"
  by pat_completeness auto
termination
  by (relation "measure size") (auto simp: size_map_entry size_elem)

definition wire_error :: "string \<Rightarrow> bool \<Rightarrow> gval \<Rightarrow> gval" where
  "wire_error stk inc v =
     tagged ''error'' (VMap
       (case v of
          VRpcErr e \<Rightarrow>
            [(''message'', VStr (re_message e)), (''name'', VStr (re_type e))]
            @ (if re_code e \<noteq> 0 then [(''code'', VInt (re_code e))] else [])
            @ (if inc \<and> re_stack e \<noteq> [] then [(''stack'', VStr (re_stack e))] else [])
        | VErr m t \<Rightarrow>
            [(''message'', VStr m), (''name'', VStr ''Error'')]
            @ (if inc then [(''stack'', VStr (case t of Some x \<Rightarrow> x | None \<Rightarrow> stk))] else [])
        | _ \<Rightarrow> []))"

function wire :: "string \<Rightarrow> bool \<Rightarrow> gval \<Rightarrow> gval" where
  "wire stk inc v =
     (case v of
        VNilPtr \<Rightarrow> VNil
      | VBigInt n \<Rightarrow> tagged ''bigint'' (VStr (int_to_dec n))
      | VTime ns \<Rightarrow> tagged ''date'' (VInt (ns div 1000000))
      | VBytes b \<Rightarrow> tagged ''bytes'' (VStr (b64_encode b))
      | VErr m t \<Rightarrow> wire_error stk inc v
      | VRpcErr e \<Rightarrow> wire_error stk inc v
      | VSlice vs \<Rightarrow> VSlice (map (wire stk inc) vs)
      | VMap kvs \<Rightarrow> VMap (map (\<lambda>kv. (fst kv, wire stk inc (snd kv))) kvs)
      | VStruct fs \<Rightarrow> VMap (map (\<lambda>fv. (field_json_name (fst fv), wire stk inc (snd fv)))
                        (filter (\<lambda>fv. \<not> field_skipped (fst fv)) fs))
      | VPtr w \<Rightarrow> if type_for_value w = VtObject then wire stk inc w
                  else if type_for_value w = VtNull then VNil else VPtr w
      | _ \<Rightarrow> v)"
  by pat_completeness auto
termination
  by (relation "measure (\<lambda>(_, _, v). size v)") (auto simp: size_map_entry size_elem)

function received :: "string \<Rightarrow> bool \<Rightarrow> gval \<Rightarrow> gval" where
  "received stk inc v =
     (case v of
        VInt n \<Rightarrow> VFloat (f64_of_int n)
      | VNilPtr \<Rightarrow> VNil
      | VTime ns \<Rightarrow> VTime (ns div 1000000 * 1000000)
      | VErr m t \<Rightarrow> VRpcErr \<lparr>re_type = ''Error'', re_message = m,
          re_stack = (if inc then (case t of Some x \<Rightarrow> x | None \<Rightarrow> stk) else []), re_code = 0\<rparr>
      | VRpcErr e \<Rightarrow> VRpcErr (e\<lparr>re_stack := (if inc then re_stack e else [])\<rparr>)
      | VSlice vs \<Rightarrow> VSlice (map (received stk inc) vs)
      | VMap kvs \<Rightarrow> VMap (map (\<lambda>kv. (fst kv, received stk inc (snd kv))) kvs)
      | VStruct fs \<Rightarrow> VMap (map (\<lambda>fv. (field_json_name (fst fv), received stk inc (snd fv)))
                        (filter (\<lambda>fv. \<not> field_skipped (fst fv)) fs))
      | VPtr w \<Rightarrow> received stk inc w
      | _ \<Rightarrow> v)"
  by pat_completeness auto
termination
  by (relation "measure (\<lambda>(_, _, v). size v)") (auto simp: size_map_entry size_elem)

declare nest.simps [simp del] json_norm.simps [simp del] data_value.simps [simp del]
  wire.simps [simp del] received.simps [simp del]

text \<open>Every value is reached from its parts: structural induction over the universe.\<close>

lemma gval_induct [case_names VSlice VMap VStruct VPtr leaf]:
  assumes "\<And>vs. (\<And>w. w \<in> set vs \<Longrightarrow> P w) \<Longrightarrow> P (VSlice vs)"
    and "\<And>kvs. (\<And>kv. kv \<in> set kvs \<Longrightarrow> P (snd kv)) \<Longrightarrow> P (VMap kvs)"
    and "\<And>fs. (\<And>fv. fv \<in> set fs \<Longrightarrow> P (snd fv)) \<Longrightarrow> P (VStruct fs)"
    and "\<And>w. P w \<Longrightarrow> P (VPtr w)"
    and "\<And>v. (\<forall>vs. v \<noteq> VSlice vs) \<Longrightarrow> (\<forall>kvs. v \<noteq> VMap kvs) \<Longrightarrow> (\<forall>fs. v \<noteq> VStruct fs)
       \<Longrightarrow> (\<forall>w. v \<noteq> VPtr w) \<Longrightarrow> P v"
  shows "P v"
proof (induction v rule: measure_induct_rule [where f = size])
  case (less v)
  show ?case
  proof (cases v)
    case (VSlice vs)
    have "P (VSlice vs)" by (rule assms(1), rule less) (simp add: VSlice size_elem)
    with VSlice show ?thesis by simp
  next
    case (VMap kvs)
    have "P (VMap kvs)" by (rule assms(2), rule less) (simp add: VMap size_map_entry)
    with VMap show ?thesis by simp
  next
    case (VStruct fs)
    have "P (VStruct fs)" by (rule assms(3), rule less) (simp add: VStruct size_map_entry)
    with VStruct show ?thesis by simp
  next
    case (VPtr w)
    have "P (VPtr w)" by (rule assms(4), rule less) (simp add: VPtr)
    with VPtr show ?thesis by simp
  qed (use assms(5) in auto)
qed

lemma fold_max_le: "fold max xs (a :: int) \<le> n \<longleftrightarrow> a \<le> n \<and> (\<forall>x \<in> set xs. x \<le> n)"
  by (induction xs arbitrary: a) auto

lemma add_fold_max_le:
  "d + fold max xs (a :: int) \<le> n \<longleftrightarrow> d + a \<le> n \<and> (\<forall>x \<in> set xs. d + x \<le> n)"
  using fold_max_le [of xs a "n - d"] by (auto simp: algebra_simps)

lemma fold_max_ge: "(a :: int) \<le> fold max xs a"
  using fold_max_le [of xs a "fold max xs a"] by simp

lemmas swd_simps =
  serialize_with_depth.simps [of _ _ _ "VSlice vs" for vs, simplified]
  serialize_with_depth.simps [of _ _ _ "VMap kvs" for kvs, simplified]
  serialize_with_depth.simps [of _ _ _ "VStruct fs" for fs, simplified]
  serialize_with_depth.simps [of _ _ _ "VPtr w" for w, simplified]

lemmas nest_simps [simp] =
  nest.simps [of "VSlice vs" for vs, simplified] nest.simps [of "VMap kvs" for kvs, simplified]
  nest.simps [of "VStruct fs" for fs, simplified] nest.simps [of "VPtr w" for w, simplified]

lemma nest_nonneg: "0 \<le> nest v"
  by (induction v rule: gval_induct) (simp_all add: fold_max_ge nest.simps split: gval.split)

lemmas data_value_simps [simp] =
  data_value.simps [of "VSlice vs" for vs, simplified] data_value.simps [of "VMap kvs" for kvs, simplified]
  data_value.simps [of "VStruct fs" for fs, simplified] data_value.simps [of "VPtr w" for w, simplified]

lemmas wire_simps [simp] =
  wire.simps [of _ _ "VSlice vs" for vs, simplified] wire.simps [of _ _ "VMap kvs" for kvs, simplified]
  wire.simps [of _ _ "VStruct fs" for fs, simplified] wire.simps [of _ _ "VPtr w" for w, simplified]

lemmas received_simps [simp] =
  received.simps [of _ _ "VSlice vs" for vs, simplified] received.simps [of _ _ "VMap kvs" for kvs, simplified]
  received.simps [of _ _ "VStruct fs" for fs, simplified] received.simps [of _ _ "VPtr w" for w, simplified]

lemmas json_norm_simps [simp] =
  json_norm.simps [of "VSlice vs" for vs, simplified] json_norm.simps [of "VMap kvs" for kvs, simplified]
  json_norm.simps [of "VPtr w" for w, simplified] json_norm.simps [of "VStr t" for t, simplified]
  json_norm.simps [of "VInt n" for n, simplified] json_norm.simps [of VNil, simplified]

section \<open>The serializer computes the wire form\<close>

lemma gm_put_fresh: "k \<notin> fst ` set m \<Longrightarrow> gm_put k v m = m @ [(k, v)]"
  by (induction m) auto

lemma unix_milli_small: "small53 (ns div 1000000) \<Longrightarrow> unix_milli ns = ns div 1000000"
  unfolding unix_milli_def small53_def by (rule int64_id) (simp_all add: abs_less_iff)

lemma serialize_error_wire:
  "serialize_error stk S (VErr m t) = Ok (wire_error stk (sr_include_stack_traces S) (VErr m t))"
  "serialize_error stk S (VRpcErr e) = Ok (wire_error stk (sr_include_stack_traces S) (VRpcErr e))"
  by (auto simp: serialize_error_def wire_error_def Let_def split: option.splits)

lemma serialize_array_wire:
  assumes "\<And>w s. w \<in> set vs \<Longrightarrow> serialize_with_depth stk S (d + 1) w s = (Ok (f w), s)"
  shows "serialize_array stk S d vs acc s = (Ok (VSlice (acc @ map f vs)), s)"
  using assms by (induction vs arbitrary: acc) auto

lemma serialize_map_wire:
  assumes "\<And>kv s. kv \<in> set kvs \<Longrightarrow> serialize_with_depth stk S (d + 1) (snd kv) s = (Ok (f (snd kv)), s)"
    and "distinct (map fst kvs)" and "fst ` set kvs \<inter> fst ` set acc = {}"
  shows "serialize_map stk S d kvs acc s = (Ok (VMap (acc @ map (\<lambda>kv. (fst kv, f (snd kv))) kvs)), s)"
  using assms
proof (induction kvs arbitrary: acc)
  case (Cons kv kvs)
  then have "fst kv \<notin> fst ` set acc" by auto
  then have "gm_put (fst kv) (f (snd kv)) acc = acc @ [(fst kv, f (snd kv))]"
    by (rule gm_put_fresh)
  moreover have "fst kv \<notin> fst ` set kvs" using Cons.prems(2) by simp
  ultimately show ?case using Cons.prems Cons.IH [of "acc @ [(fst kv, f (snd kv))]"] by simp
qed simp

lemma serialize_struct_wire:
  assumes "\<And>fv s. fv \<in> set fs \<Longrightarrow> \<not> field_skipped (fst fv)
      \<Longrightarrow> serialize_with_depth stk S (d + 1) (snd fv) s = (Ok (f (snd fv)), s)"
    and "distinct (map (\<lambda>fv. field_json_name (fst fv)) (filter (\<lambda>fv. \<not> field_skipped (fst fv)) fs))"
    and "(\<lambda>fv. field_json_name (fst fv)) ` set (filter (\<lambda>fv. \<not> field_skipped (fst fv)) fs)
      \<inter> fst ` set acc = {}"
  shows "serialize_struct stk S d fs acc s
    = (Ok (VMap (acc @ map (\<lambda>fv. (field_json_name (fst fv), f (snd fv)))
        (filter (\<lambda>fv. \<not> field_skipped (fst fv)) fs))), s)"
  using assms
proof (induction fs arbitrary: acc)
  case (Cons fv fs)
  show ?case
  proof (cases "field_skipped (fst fv)")
    case True
    with Cons show ?thesis by simp
  next
    case False
    let ?k = "field_json_name (fst fv)"
    from False Cons.prems(3) have "?k \<notin> fst ` set acc" by auto
    then have "gm_put ?k (f (snd fv)) acc = acc @ [(?k, f (snd fv))]" by (rule gm_put_fresh)
    moreover have "?k \<notin> (\<lambda>fv. field_json_name (fst fv)) ` set (filter (\<lambda>fv. \<not> field_skipped (fst fv)) fs)"
      using False Cons.prems(2) by simp
    ultimately show ?thesis
      using False Cons.prems Cons.IH [of "acc @ [(?k, f (snd fv))]"] by simp
  qed
qed simp

lemma serialize_leaf_wire:
  assumes "data_value v" and "\<forall>vs. v \<noteq> VSlice vs" "\<forall>kvs. v \<noteq> VMap kvs" "\<forall>fs. v \<noteq> VStruct fs" "\<forall>w. v \<noteq> VPtr w"
  shows "serialize_leaf stk S v s = (Ok (wire stk (sr_include_stack_traces S) v), s)"
  using assms
  by (cases v) (simp_all add: serialize_leaf_def wire.simps data_value.simps serialize_error_wire
      unix_milli_small)

lemma serialize_wire:
  assumes "data_value v" and "d + nest v \<le> sr_max_depth S" and "0 \<le> d"
  shows "serialize_with_depth stk S d v s = (Ok (wire stk (sr_include_stack_traces S) v), s)"
  using assms
proof (induction v arbitrary: d s rule: gval_induct)
  case (VSlice vs)
  have "serialize_with_depth stk S (d + 1) w s = (Ok (wire stk (sr_include_stack_traces S) w), s)"
    if "w \<in> set vs" for w s
    using VSlice that by (auto simp: add_fold_max_le add.assoc)
  from serialize_array_wire [OF this] VSlice.prems show ?case
    by (simp add: swd_simps add_fold_max_le)
next
  case (VMap kvs)
  have "serialize_with_depth stk S (d + 1) (snd kv) s
      = (Ok (wire stk (sr_include_stack_traces S) (snd kv)), s)"
    if "kv \<in> set kvs" for kv s
    using VMap that by (auto simp: add_fold_max_le add.assoc)
  from serialize_map_wire [OF this, of kvs "[]"] VMap.prems show ?case
    by (simp add: swd_simps add_fold_max_le)
next
  case (VStruct fs)
  have "serialize_with_depth stk S (d + 1) (snd fv) s
      = (Ok (wire stk (sr_include_stack_traces S) (snd fv)), s)"
    if fv: "fv \<in> set fs" "\<not> field_skipped (fst fv)" for fv s
  proof (rule VStruct.IH [OF fv(1)])
    show "data_value (snd fv)" using VStruct.prems(1) fv by auto
    have "\<forall>x \<in> set fs. d + (if field_skipped (fst x) then 0 else 1 + nest (snd x)) \<le> sr_max_depth S"
      using VStruct.prems(2) by (simp add: add_fold_max_le)
    with fv have "d + (1 + nest (snd fv)) \<le> sr_max_depth S" by (metis (mono_tags, lifting))
    then show "d + 1 + nest (snd fv) \<le> sr_max_depth S" by simp
  qed (use VStruct.prems(3) in simp)
  from serialize_struct_wire [OF this, of fs "[]"] VStruct.prems show ?case
    by (simp add: swd_simps add_fold_max_le)
next
  case (VPtr w)
  then have "d \<le> sr_max_depth S"
    using nest_nonneg [of "VPtr w"] by linarith
  with VPtr show ?case
    by (auto simp: swd_simps pointer_leaf_def is_scalar_type_def split: if_splits)
next
  case (leaf v)
  then have "nest v = 0" by (cases v) (simp_all add: nest.simps)
  with leaf show ?case
    by (cases v) (simp_all add: serialize_with_depth.simps serialize_leaf_wire)
qed

section \<open>The deserializer inverts it\<close>

lemma json_norm_null: "type_for_value w = VtNull \<Longrightarrow> json_norm w = VNil"
  by (induction w rule: gval_induct) (auto simp: json_norm.simps elim: type_for_value.elims)

lemma json_norm_wire_scalar:
  "is_scalar_type (type_for_value w) \<Longrightarrow> json_norm (wire stk inc w) = json_norm w"
proof (induction w rule: gval_induct)
  case (leaf v)
  then show ?case by (cases v) (auto simp: is_scalar_type_def wire.simps json_norm.simps)
qed (auto simp: is_scalar_type_def json_norm_null)

lemma json_norm_wire_ptr:
  "data_value (VPtr w) \<Longrightarrow> json_norm (wire stk inc (VPtr w)) = json_norm (wire stk inc w)"
  by (auto simp: json_norm_wire_scalar is_scalar_type_def json_norm_null)

lemma json_norm_wire_str:
  "data_value v \<Longrightarrow> json_norm (wire stk inc v) = VStr t \<longleftrightarrow> deref v = VStr t"
proof (induction v rule: gval_induct)
  case (VPtr w)
  then show ?case using json_norm_wire_ptr [of w stk inc] by simp
next
  case (leaf v)
  then show ?case
    by (cases v) (auto simp: wire.simps json_norm.simps tagged_def wire_error_def)
qed auto

lemma is_tagged_array_iff:
  "is_tagged_array vs \<longleftrightarrow> length vs \<ge> 2 \<and> (\<exists>t \<in> set rpc_tags. hd vs = VStr t)"
  by (cases vs) (auto simp: is_tagged_array_def split: gval.splits)

lemma is_tagged_array_wire:
  assumes "\<forall>w \<in> set vs. data_value w"
  shows "is_tagged_array (map (\<lambda>v. json_norm (wire stk inc v)) vs) = is_tagged_array (map deref vs)"
proof (cases vs)
  case (Cons w ws)
  with assms have "json_norm (wire stk inc w) = VStr t \<longleftrightarrow> deref w = VStr t" for t
    by (simp add: json_norm_wire_str)
  with Cons show ?thesis by (simp add: is_tagged_array_iff)
qed (simp add: is_tagged_array_iff)

lemma deserialize_array_map:
  assumes "\<And>w s. w \<in> set vs \<Longrightarrow> deserialize_value D (f w) s = (Ok (g w), s)"
  shows "deserialize_array D (map f vs) acc s = (Ok (VSlice (acc @ map g vs)), s)"
  using assms by (induction vs arbitrary: acc) auto

lemma deserialize_object_map:
  assumes "\<And>x s. x \<in> set xs \<Longrightarrow> deserialize_value D (f x) s = (Ok (g x), s)"
    and "distinct (map k xs)" and "k ` set xs \<inter> fst ` set acc = {}"
  shows "deserialize_object D (map (\<lambda>x. (k x, f x)) xs) acc s
    = (Ok (VMap (acc @ map (\<lambda>x. (k x, g x)) xs)), s)"
  using assms
proof (induction xs arbitrary: acc)
  case (Cons x xs)
  then have "k x \<notin> fst ` set acc" by auto
  then have "gm_put (k x) (g x) acc = acc @ [(k x, g x)]" by (rule gm_put_fresh)
  with Cons show ?case by auto
qed simp

lemma rpc_tag_facts:
  "is_tagged_array [VStr ''bigint'', v]" "is_tagged_array [VStr ''date'', v]"
  "is_tagged_array [VStr ''bytes'', v]" "is_tagged_array [VStr ''error'', v]"
  "is_tagged_array [VStr ''import'', v]" "is_tagged_array [VStr ''export'', v]"
  "is_tagged_array [VStr ''promise'', v]"
  by (simp_all add: is_tagged_array_def rpc_tags_def)

lemma f64_small53 [simp]:
  assumes "small53 n"
  shows "f64_to_int64 (f64_of_int n) = n"
proof -
  have "f64_of_int n = of_int n"
    using assms by (simp add: small53_def f64_of_int_exact)
  moreover have "min_int64 \<le> n" "n \<le> max_int64"
    using assms by (simp_all add: small53_def abs_less_iff)
  ultimately show ?thesis by (simp add: f64_to_int64_of_int)
qed

lemma deserialize_leaf:
  assumes "data_value v" and "\<forall>vs. v \<noteq> VSlice vs" "\<forall>kvs. v \<noteq> VMap kvs" "\<forall>fs. v \<noteq> VStruct fs" "\<forall>w. v \<noteq> VPtr w"
  shows "deserialize_value D (json_norm (wire stk inc v)) s = (Ok (received stk inc v), s)"
proof (cases v)
  case (VErr m t)
  then show ?thesis
    by (simp add: wire.simps received.simps wire_error_def tagged_def deserialize_value.simps
        rpc_tag_facts deserialize_array_type_def deserialize_error_def str_of_def)
next
  case (VRpcErr e)
  with assms have "small53 (re_code e)" by (simp add: data_value.simps)
  with VRpcErr show ?thesis
    by (auto simp add: wire.simps received.simps wire_error_def tagged_def deserialize_value.simps
        rpc_tag_facts deserialize_array_type_def deserialize_error_def str_of_def Let_def)
qed (use assms in \<open>simp_all add: wire.simps received.simps json_norm.simps tagged_def data_value.simps
      deserialize_value.simps rpc_tag_facts deserialize_array_type_def parse_int_to_dec
      b64_decode_encode\<close>)

lemmas deserialize_value_simps =
  deserialize_value.simps [of _ "VSlice vs" for vs, simplified]
  deserialize_value.simps [of _ "VMap kvs" for kvs, simplified]

lemma deserialize_wire:
  assumes "data_value v"
  shows "deserialize_value D (json_norm (wire stk inc v)) s = (Ok (received stk inc v), s)"
  using assms
proof (induction v arbitrary: s rule: gval_induct)
  case (VSlice vs)
  then have "\<not> is_tagged_array (map (\<lambda>v. json_norm (wire stk inc v)) vs)"
    by (simp add: is_tagged_array_wire)
  with VSlice show ?case
    using deserialize_array_map [of vs D "\<lambda>v. json_norm (wire stk inc v)" "received stk inc" "[]" s]
    by (simp add: deserialize_value_simps comp_def)
next
  case (VMap kvs)
  then show ?case
    using deserialize_object_map [of kvs D "\<lambda>kv. json_norm (wire stk inc (snd kv))"
        "\<lambda>kv. received stk inc (snd kv)" fst "[]" s]
    by (simp add: deserialize_value_simps comp_def)
next
  case (VStruct fs)
  let ?fs = "filter (\<lambda>fv. \<not> field_skipped (fst fv)) fs"
  from VStruct show ?case
    using deserialize_object_map [of ?fs D "\<lambda>fv. json_norm (wire stk inc (snd fv))"
        "\<lambda>fv. received stk inc (snd fv)" "\<lambda>fv. field_json_name (fst fv)" "[]" s]
    by (auto simp: deserialize_value_simps comp_def)
next
  case (VPtr w)
  then show ?case using json_norm_wire_ptr [of w stk inc] by simp
next
  case (leaf v)
  then show ?case by (simp add: deserialize_leaf)
qed

section \<open>Depth and exports of any value\<close>

lemma and_then_OkE:
  assumes "and_then ctx r k = (Ok b, s'')"
  obtains a s' where "r = (Ok a, s')" and "k a s' = (Ok b, s'')"
  using assms by (cases r; cases "fst r") auto

text \<open>
  What a successful loop went through: each element was serialized successfully from the state its
  predecessors left.
\<close>

fun run_steps :: "('a \<Rightarrow> 's \<Rightarrow> gval result \<times> 's) \<Rightarrow> 'a list \<Rightarrow> 's \<Rightarrow> 's \<Rightarrow> bool" where
  "run_steps f [] s s' \<longleftrightarrow> s' = s"
| "run_steps f (x # xs) s s' \<longleftrightarrow> is_ok (fst (f x s)) \<and> run_steps f xs (snd (f x s)) s'"

lemma serialize_array_steps:
  "serialize_array stk S d vs acc s = (Ok w, s')
   \<Longrightarrow> run_steps (serialize_with_depth stk S (d + 1)) vs s s'"
  by (induction vs arbitrary: acc s) (auto elim!: and_then_OkE)

lemma serialize_map_steps:
  "serialize_map stk S d kvs acc s = (Ok w, s')
   \<Longrightarrow> run_steps (\<lambda>kv. serialize_with_depth stk S (d + 1) (snd kv)) kvs s s'"
  by (induction kvs arbitrary: acc s) (auto elim!: and_then_OkE)

lemma serialize_struct_steps:
  "serialize_struct stk S d fs acc s = (Ok w, s')
   \<Longrightarrow> run_steps (\<lambda>fv. serialize_with_depth stk S (d + 1) (snd fv))
        (filter (\<lambda>fv. \<not> field_skipped (fst fv)) fs) s s'"
  by (induction fs arbitrary: acc s) (auto elim!: and_then_OkE split: if_splits)

lemma run_steps_all:
  "run_steps f xs s s' \<Longrightarrow> x \<in> set xs \<Longrightarrow> (\<And>t. is_ok (fst (f x t)) \<Longrightarrow> P) \<Longrightarrow> P"
  by (induction xs arbitrary: s) auto

lemma serialize_nest_le:
  "is_ok (fst (serialize_with_depth stk S d v s)) \<Longrightarrow> d + nest v \<le> sr_max_depth S"
proof (induction v arbitrary: d s rule: gval_induct)
  case (VSlice vs)
  then obtain w s' where "serialize_array stk S d vs [] s = (Ok w, s')" and d: "d \<le> sr_max_depth S"
    by (auto simp: swd_simps is_ok_iff split: if_splits) (metis prod.collapse)
  then have "run_steps (serialize_with_depth stk S (d + 1)) vs s s'" by (simp add: serialize_array_steps)
  then have "(d + 1) + nest x \<le> sr_max_depth S" if "x \<in> set vs" for x
    by (rule run_steps_all [of _ _ _ _ x]) (rule that, rule VSlice.IH [OF that])
  with d show ?case by (simp add: add_fold_max_le add.assoc)
next
  case (VMap kvs)
  then obtain w s' where "serialize_map stk S d kvs [] s = (Ok w, s')" and d: "d \<le> sr_max_depth S"
    by (auto simp: swd_simps is_ok_iff split: if_splits) (metis prod.collapse)
  then have "run_steps (\<lambda>kv. serialize_with_depth stk S (d + 1) (snd kv)) kvs s s'"
    by (simp add: serialize_map_steps)
  then have "(d + 1) + nest (snd x) \<le> sr_max_depth S" if "x \<in> set kvs" for x
    by (rule run_steps_all [of _ _ _ _ x]) (rule that, rule VMap.IH [OF that])
  with d show ?case by (simp add: add_fold_max_le add.assoc)
next
  case (VStruct fs)
  then obtain w s' where "serialize_struct stk S d fs [] s = (Ok w, s')" and d: "d \<le> sr_max_depth S"
    by (auto simp: swd_simps is_ok_iff split: if_splits) (metis prod.collapse)
  then have "run_steps (\<lambda>fv. serialize_with_depth stk S (d + 1) (snd fv))
      (filter (\<lambda>fv. \<not> field_skipped (fst fv)) fs) s s'"
    by (simp add: serialize_struct_steps)
  then have "(d + 1) + nest (snd x) \<le> sr_max_depth S" if "x \<in> set fs" "\<not> field_skipped (fst x)" for x
    by (rule run_steps_all [of _ _ _ _ x]) (simp add: that, rule VStruct.IH, rule that(1))
  with d show ?case by (auto simp: add_fold_max_le add.assoc)
next
  case (VPtr w)
  then show ?case by (auto simp: swd_simps split: if_splits)
next
  case (leaf v)
  then have "nest v = 0" by (cases v) (simp_all add: nest.simps)
  with leaf show ?case by (auto simp: serialize_with_depth.simps split: if_splits)
qed

function refs :: "gval \<Rightarrow> gval list" where
  "refs v =
     (case v of
        VSlice vs \<Rightarrow> concat (map refs vs)
      | VMap kvs \<Rightarrow> concat (map (\<lambda>kv. refs (snd kv)) kvs)
      | VStruct fs \<Rightarrow> concat (map (\<lambda>fv. refs (snd fv)) (filter (\<lambda>fv. \<not> field_skipped (fst fv)) fs))
      | VPtr w \<Rightarrow> if type_for_value w = VtObject then refs w
          else if type_for_value w \<in> {VtFunction, VtTarget} then [v] else []
      | VFunc _ \<Rightarrow> [v]
      | VTarget _ \<Rightarrow> [v]
      | _ \<Rightarrow> [])"
  by pat_completeness auto
termination
  by (relation "measure size") (auto simp: size_map_entry size_elem)

declare refs.simps [simp del]

lemmas refs_simps =
  refs.simps [of "VSlice vs" for vs, simplified] refs.simps [of "VMap kvs" for kvs, simplified]
  refs.simps [of "VStruct fs" for fs, simplified] refs.simps [of "VPtr w" for w, simplified]

definition export_all :: "(gval \<Rightarrow> 's \<Rightarrow> int result \<times> 's) \<Rightarrow> gval list \<Rightarrow> 's \<Rightarrow> 's" where
  "export_all ef rs s = fold (\<lambda>r s. snd (ef r s)) rs s"

lemma run_steps_export:
  assumes "\<And>x s. x \<in> set xs \<Longrightarrow> is_ok (fst (f x s)) \<Longrightarrow> snd (f x s) = export_all ef (rf x) s"
    and "run_steps f xs s s'"
  shows "s' = export_all ef (concat (map rf xs)) s"
  using assms by (induction xs arbitrary: s) (auto simp: export_all_def)

lemma serialize_ref_export:
  "sr_export_func S = Some ef \<Longrightarrow> is_ok (fst (serialize_function S v s))
   \<Longrightarrow> snd (serialize_function S v s) = snd (ef v s)"
  "sr_export_func S = Some ef \<Longrightarrow> is_ok (fst (serialize_target S v s))
   \<Longrightarrow> snd (serialize_target S v s) = snd (ef v s)"
  by (auto simp: serialize_function_def serialize_target_def split: prod.splits outcome.splits)

lemma serialize_exports_depth:
  assumes "sr_export_func S = Some ef" and "is_ok (fst (serialize_with_depth stk S d v s))"
  shows "snd (serialize_with_depth stk S d v s) = export_all ef (refs v) s"
  using assms(2)
proof (induction v arbitrary: d s rule: gval_induct)
  case (VSlice vs)
  then obtain w s' where r: "serialize_with_depth stk S d (VSlice vs) s = (Ok w, s')"
    by (metis is_ok_iff prod.collapse)
  then have "run_steps (serialize_with_depth stk S (d + 1)) vs s s'"
    by (auto simp: swd_simps serialize_array_steps split: if_splits)
  with VSlice.IH have "s' = export_all ef (concat (map refs vs)) s"
    by (intro run_steps_export)
  with r show ?case by (simp add: refs_simps)
next
  case (VMap kvs)
  then obtain w s' where r: "serialize_with_depth stk S d (VMap kvs) s = (Ok w, s')"
    by (metis is_ok_iff prod.collapse)
  then have "run_steps (\<lambda>kv. serialize_with_depth stk S (d + 1) (snd kv)) kvs s s'"
    by (auto simp: swd_simps serialize_map_steps split: if_splits)
  with VMap.IH have "s' = export_all ef (concat (map (\<lambda>kv. refs (snd kv)) kvs)) s"
    by (intro run_steps_export [where f = "\<lambda>kv. serialize_with_depth stk S (d + 1) (snd kv)"]) auto
  with r show ?case by (simp add: refs_simps)
next
  case (VStruct fs)
  then obtain w s' where r: "serialize_with_depth stk S d (VStruct fs) s = (Ok w, s')"
    by (metis is_ok_iff prod.collapse)
  then have "run_steps (\<lambda>fv. serialize_with_depth stk S (d + 1) (snd fv))
      (filter (\<lambda>fv. \<not> field_skipped (fst fv)) fs) s s'"
    by (auto simp: swd_simps serialize_struct_steps split: if_splits)
  with VStruct.IH have "s' = export_all ef (concat (map (\<lambda>fv. refs (snd fv))
      (filter (\<lambda>fv. \<not> field_skipped (fst fv)) fs))) s"
    by (intro run_steps_export [where f = "\<lambda>fv. serialize_with_depth stk S (d + 1) (snd fv)"]) auto
  with r show ?case by (simp add: refs_simps)
next
  case (VPtr w)
  have "snd (pointer_leaf S w s) = export_all ef (refs (VPtr w)) s"
    if "type_for_value w \<noteq> VtObject" "is_ok (fst (pointer_leaf S w s))"
    using that assms(1)
    by (cases "type_for_value w")
      (simp_all add: pointer_leaf_def refs_simps export_all_def serialize_ref_export)
  with VPtr show ?case
    by (cases "type_for_value w = VtObject") (auto simp: swd_simps refs_simps split: if_splits)
next
  case (leaf v)
  then show ?case
    using assms(1)
    by (cases v) (auto simp: serialize_with_depth.simps refs.simps serialize_leaf_def export_all_def
        serialize_ref_export split: if_splits)
qed

section \<open>What a run does to the caller's state\<close>

text \<open>
  A predicate on the state that the export function keeps is kept by the serializer, and likewise
  for the import function and the deserializer.
\<close>

locale state_keeping =
  fixes P :: "'s \<Rightarrow> bool"
    and ef :: "(gval \<Rightarrow> 's \<Rightarrow> int result \<times> 's) option"
    and im :: "(int \<Rightarrow> bool \<Rightarrow> 's \<Rightarrow> gval result \<times> 's) option"
  assumes export_keeps: "ef = Some f \<Longrightarrow> P s \<Longrightarrow> P (snd (f v s))"
    and import_keeps: "im = Some g \<Longrightarrow> P s \<Longrightarrow> P (snd (g i b s))"
begin

lemma reference_keeps:
  assumes "sr_export_func S = ef" and "P s"
  shows "P (snd (serialize_function S v s))" "P (snd (serialize_target S v s))"
  using assms export_keeps [of _ s v]
  by (auto simp: serialize_function_def serialize_target_def split: option.splits prod.splits
      outcome.splits)

lemma leaf_keeps:
  assumes "sr_export_func S = ef" and "P s"
  shows "P (snd (serialize_leaf stk S v s))" and "P (snd (pointer_leaf S v s))"
proof -
  note ref = reference_keeps [OF assms]
  show "P (snd (serialize_leaf stk S v s))"
    using ref assms(2) by (cases v) (simp_all add: serialize_leaf_def)
  show "P (snd (pointer_leaf S v s))"
    using ref assms(2) by (cases "type_for_value v") (simp_all add: pointer_leaf_def)
qed

lemma and_then_keeps:
  assumes "P (snd r)" and "\<And>a s. P s \<Longrightarrow> P (snd (k a s))"
  shows "P (snd (and_then ctx r k))"
  using assms by (cases r; cases "fst r") auto

lemma serialize_keeps:
  assumes "sr_export_func S = ef"
  shows "P s \<Longrightarrow> P (snd (serialize_with_depth stk S d v s))"
    and "P s \<Longrightarrow> P (snd (serialize_array stk S d vs acc s))"
    and "P s \<Longrightarrow> P (snd (serialize_map stk S d kvs m s))"
    and "P s \<Longrightarrow> P (snd (serialize_struct stk S d fs m s))"
  using assms
proof (induction stk S d v s and stk S d vs acc s and stk S d kvs m s and stk S d fs m s
    rule: serialize_with_depth_serialize_array_serialize_map_serialize_struct.induct)
  case (1 stk S d v s)
  then show ?case
    by (subst serialize_with_depth.simps) (auto simp: leaf_keeps split: gval.split)
qed (auto intro!: and_then_keeps)

lemma deserialize_ref_keeps:
  assumes "ds_import_func D = im" and "P s"
  shows "P (snd (deserialize_ref D a b c v s))"
  using assms import_keeps by (auto simp: deserialize_ref_def split: option.splits gval.splits)

lemma deserialize_array_type_keeps:
  assumes "ds_import_func D = im" and "P s"
  shows "P (snd (deserialize_array_type D vs s))"
proof (cases vs rule: remdups_adj.cases)
  case (3 x y xs)
  show ?thesis
  proof (cases "\<exists>t. x = VStr t")
    case True
    then obtain t where x: "x = VStr t" ..
    show ?thesis
      unfolding 3 x deserialize_array_type_def list.case gval.case
      by (cases y) (simp_all add: assms(2) deserialize_ref_keeps [OF assms] split: option.split)
  next
    case False
    with 3 assms(2) show ?thesis by (cases x) (simp_all add: deserialize_array_type_def)
  qed
next
  case (2 x)
  with assms(2) show ?thesis by (cases x) (simp_all add: deserialize_array_type_def)
qed (use assms(2) in \<open>simp add: deserialize_array_type_def\<close>)

lemma deserialize_keeps:
  assumes "ds_import_func D = im"
  shows "P s \<Longrightarrow> P (snd (deserialize_value D v s))"
    and "P s \<Longrightarrow> P (snd (deserialize_array D vs acc s))"
    and "P s \<Longrightarrow> P (snd (deserialize_object D kvs m s))"
  using assms
proof (induction D v s and D vs acc s and D kvs m s
    rule: deserialize_value_deserialize_array_deserialize_object.induct)
  case (1 D v s)
  then show ?case
    by (cases v) (auto simp: deserialize_value.simps deserialize_array_type_keeps)
qed (auto intro!: and_then_keeps)

end

text \<open>If no export can succeed, only values without references are serialized.\<close>

lemma run_steps_blocked:
  assumes "\<And>x. x \<in> set xs \<Longrightarrow> is_ok (fst (f x s)) \<Longrightarrow> rf x = [] \<and> snd (f x s) = s"
    and "run_steps f xs s s'"
  shows "concat (map rf xs) = []"
  using assms by (induction xs) auto

lemma serialize_blocked_same:
  assumes "sr_export_func S = Some ef" and ef: "\<And>v. ef v s = (Hang, s)"
  shows "snd (serialize_with_depth stk S d v s) = s"
proof -
  have "state_keeping (\<lambda>t. t = s) (Some ef) None"
    by unfold_locales (use ef in auto)
  from state_keeping.serialize_keeps(1) [OF this, of S s stk d v] assms(1) show ?thesis by simp
qed

lemma serialize_blocked_refs:
  assumes "sr_export_func S = Some ef" and ef: "\<And>v. ef v s = (Hang, s)"
    and "is_ok (fst (serialize_with_depth stk S d v s))"
  shows "refs v = []"
  using assms(3)
proof (induction v arbitrary: d rule: gval_induct)
  case (VSlice vs)
  then obtain w s' where "serialize_array stk S d vs [] s = (Ok w, s')"
    by (auto simp: swd_simps is_ok_iff split: if_splits) (metis prod.collapse)
  then have "run_steps (serialize_with_depth stk S (d + 1)) vs s s'" by (simp add: serialize_array_steps)
  then have "concat (map refs vs) = []"
    by (rule run_steps_blocked [rotated])
      (use VSlice.IH serialize_blocked_same [OF assms(1) ef] in blast)
  then show ?case by (simp add: refs_simps)
next
  case (VMap kvs)
  then obtain w s' where "serialize_map stk S d kvs [] s = (Ok w, s')"
    by (auto simp: swd_simps is_ok_iff split: if_splits) (metis prod.collapse)
  then have "run_steps (\<lambda>kv. serialize_with_depth stk S (d + 1) (snd kv)) kvs s s'"
    by (simp add: serialize_map_steps)
  then have "concat (map (\<lambda>kv. refs (snd kv)) kvs) = []"
    by (rule run_steps_blocked [rotated])
      (use VMap.IH serialize_blocked_same [OF assms(1) ef] in blast)
  then show ?case by (simp add: refs_simps)
next
  case (VStruct fs)
  then obtain w s' where "serialize_struct stk S d fs [] s = (Ok w, s')"
    by (auto simp: swd_simps is_ok_iff split: if_splits) (metis prod.collapse)
  then have "run_steps (\<lambda>fv. serialize_with_depth stk S (d + 1) (snd fv))
      (filter (\<lambda>fv. \<not> field_skipped (fst fv)) fs) s s'"
    by (simp add: serialize_struct_steps)
  then have "concat (map (\<lambda>fv. refs (snd fv)) (filter (\<lambda>fv. \<not> field_skipped (fst fv)) fs)) = []"
    by (rule run_steps_blocked [rotated])
      (use VStruct.IH serialize_blocked_same [OF assms(1) ef] in auto)
  then show ?case by (simp add: refs_simps)
next
  case (VPtr w)
  then show ?case
    using assms(1) ef
    by (cases "type_for_value w") (auto simp: swd_simps refs_simps pointer_leaf_def
        serialize_function_def serialize_target_def split: if_splits)
next
  case (leaf v)
  then show ?case
    using assms(1) ef
    by (cases v) (auto simp: serialize_with_depth.simps refs.simps serialize_leaf_def
        serialize_function_def serialize_target_def split: if_splits)
qed

lemma is_ok_bind_refs:
  "is_ok (fst (serialize stk S v s)) \<Longrightarrow> sr_export_func S = Some ef \<Longrightarrow> (\<And>v. ef v s = (Hang, s)) \<Longrightarrow> refs v = []"
  unfolding serialize_def by (rule serialize_blocked_refs)

section \<open>Properties\<close>

text \<open>
  C1: Plain data (\<open>data_value\<close>) survives the trip to the peer. If such a \<open>v\<close> nests no deeper than
  \<open>MaxDepth\<close>, then \<open>ToJSON\<close> succeeds without exporting anything, and \<open>FromJSON\<close> of its output
  yields \<open>received v\<close>: numbers as float64, big integers and bytes exactly, times floored to the
  millisecond, structs as maps under their JSON names, errors as \<open>*RpcError\<close> (with the stack only
  when stack traces are included). What is assumed of \<open>encoding/json\<close> is that it marshals this
  tree and unmarshals the bytes to the tree with its numbers as float64.
\<close>

theorem serialize_roundtrip:
  assumes "data_value v" and "nest v \<le> sr_max_depth S"
    and "marshal (wire stk (sr_include_stack_traces S) v) = Ok bs"
    and "unmarshal bs = Ok (json_norm (wire stk (sr_include_stack_traces S) v))"
  shows "to_json marshal stk S v s = (Ok bs, s)
    \<and> from_json unmarshal D bs t = (Ok (received stk (sr_include_stack_traces S) v), t)"
  using assms by (simp add: to_json_def from_json_def serialize_def serialize_wire deserialize_wire)

definition sample_value :: gval where
  "sample_value = VMap
     [(''n'', VInt 7), (''big'', VBigInt (- 12)),
      (''xs'', VSlice [VStr ''x'', VTime 1500000, VBytes [77, 97]]),
      (''p'', VPtr (VStruct [(\<lparr>fi_name = ''Id'', fi_exported = True, fi_tag = ''id,omitempty''\<rparr>, VBool True)]))]"

lemma serialize_roundtrip_witness:
  "to_json (\<lambda>_. Ok [1]) [] (new_serializer None) sample_value () = (Ok [1], ())
   \<and> from_json (\<lambda>_. Ok (json_norm (wire [] True sample_value))) (new_deserializer None) [1] ()
     = (Ok (received [] True sample_value), ())"
proof -
  let ?S = "new_serializer None :: unit serializer"
  have "data_value sample_value" by code_simp
  moreover have "nest sample_value \<le> sr_max_depth ?S" by code_simp
  moreover have "sr_include_stack_traces ?S" by (simp add: new_serializer_def)
  ultimately show ?thesis
    using serialize_roundtrip [of sample_value ?S "\<lambda>_. Ok [1]" "[]" "[1]"
        "\<lambda>_. Ok (json_norm (wire [] True sample_value))" "()" "new_deserializer None" "()"]
    by simp
qed

text \<open>
  C4: The tagged arrays are not escaped. A slice of the application that happens to hold a tag and a
  matching value is serialized to the same tree as the special value (here a date, bytes, a big
  integer, a stub), and the peer decodes the slice \<open>["import", i]\<close> by importing the object \<open>i\<close> of
  its own tables: plain data forges a reference.
\<close>

theorem tag_collision:
  assumes "1 \<le> sr_max_depth S" and "ds_import_func D = Some f"
    and "- 2147483648 \<le> i" and "i < 2147483648"
  shows "serialize stk S (VSlice [VStr ''date'', VInt (unix_milli ns)]) s = serialize stk S (VTime ns) s
    \<and> serialize stk S (VSlice [VStr ''bytes'', VStr (b64_encode b)]) s = serialize stk S (VBytes b) s
    \<and> serialize stk S (VSlice [VStr ''bigint'', VStr (int_to_dec z)]) s = serialize stk S (VBigInt z) s
    \<and> serialize stk S (VSlice [VStr ''import'', VInt i]) s = serialize stk S (VStub (Some i) e) s
    \<and> serialize stk S (VSlice [VStr ''import'', VInt i]) s = (Ok (tagged ''import'' (VInt i)), s)
    \<and> deserialize_value D (json_norm (tagged ''import'' (VInt i))) t = f i False t"
proof -
  have "f64_of_int i = of_int i" using assms by (intro f64_of_int_exact) simp
  with assms have "f64_to_int32 (f64_of_int i) = i" by (simp add: f64_to_int32_of_int)
  with assms show ?thesis
    by (simp add: serialize_def serialize_with_depth.simps serialize_leaf_def serialize_stub_def
        tagged_def deserialize_value_simps rpc_tag_facts deserialize_array_type_def deserialize_ref_def)
qed

lemma tag_collision_witness:
  "deserialize_value (new_deserializer (Some (\<lambda>i p n. (Ok (VTarget n), n + 1))))
     (json_norm (tagged ''import'' (VInt 3))) (5::nat) = (Ok (VTarget 5), 6)"
  using tag_collision [of "new_serializer None :: unit serializer"
      "new_deserializer (Some (\<lambda>i p n. (Ok (VTarget n), n + 1)))" "\<lambda>i p n. (Ok (VTarget n), n + 1)"
      3 "[]" 0 "()" "[]" 0 None 5]
  by (simp add: new_serializer_def new_deserializer_def)

text \<open>
  C9: \<open>MaxDepth\<close> bounds every success, and refuses no plain data within it. Whatever the value
  (references included), a successful serialization nests at most \<open>MaxDepth\<close> levels; and plain data
  (\<open>data_value\<close>: no references, no byte arrays nor byte slices of defined types, no channels or other unsupported kinds, no pointers to
  dates or other special values, no slices that look like tagged arrays, distinct keys, times and error
  codes below 2^53) within the limit is always serialized, to its wire form, without touching the state.
  The values left out may be refused at any depth.
\<close>

theorem serialize_depth_limit:
  "(is_ok (fst (serialize stk S v s)) \<longrightarrow> nest v \<le> sr_max_depth S)
   \<and> (data_value v \<and> nest v \<le> sr_max_depth S
      \<longrightarrow> serialize stk S v s = (Ok (wire stk (sr_include_stack_traces S) v), s))"
  using serialize_nest_le [of stk S 0 v s] by (simp add: serialize_def serialize_wire)

lemma serialize_depth_limit_witness:
  "\<not> is_ok (fst (serialize [] ((new_serializer None :: unit serializer)\<lparr>sr_max_depth := 1\<rparr>)
       (VSlice [VSlice [VInt 1]]) ()))
   \<and> is_ok (fst (serialize [] (new_serializer None :: unit serializer) (VSlice [VSlice [VInt 1]]) ()))"
proof -
  have "nest (VSlice [VSlice [VInt 1]]) = 2" "data_value (VSlice [VSlice [VInt 1]])" by code_simp+
  then show ?thesis
    using serialize_depth_limit [of "[]" "(new_serializer None :: unit serializer)\<lparr>sr_max_depth := 1\<rparr>"
        "VSlice [VSlice [VInt 1]]" "()"]
      serialize_depth_limit [of "[]" "new_serializer None :: unit serializer"
        "VSlice [VSlice [VInt 1]]" "()"]
    by (auto simp: new_serializer_def)
qed

text \<open>
  A successful serialization exports each function and each RPC target in the value exactly
  once, from left to right and nothing else: the state it leaves is that of the export function
  called on the references of the value in this order.
\<close>

theorem serialize_exports_in_order:
  assumes "sr_export_func S = Some ef" and "is_ok (fst (serialize stk S v s))"
  shows "snd (serialize stk S v s) = export_all ef (refs v) s"
  using serialize_exports_depth [OF assms(1)] assms(2) by (simp add: serialize_def)

lemma serialize_exports_in_order_witness:
  "snd (serialize [] (new_serializer (Some (\<lambda>v l. (Ok (int (length l)), l @ [v]))))
      (VSlice [VFunc 4, VInt 1, VMap [(''t'', VTarget 9)]]) []) = [VFunc 4, VTarget 9]"
proof -
  let ?ef = "\<lambda>(v::gval) l. (Ok (int (length l)) :: int result, l @ [v])"
  let ?v = "VSlice [VFunc 4, VInt 1, VMap [(''t'', VTarget 9)]]"
  have "is_ok (fst (serialize [] (new_serializer (Some ?ef)) ?v []))"
    by code_simp
  moreover have "export_all ?ef (refs ?v) [] = [VFunc 4, VTarget 9]"
    by code_simp
  ultimately show ?thesis
    using serialize_exports_in_order [of "new_serializer (Some ?ef)" ?ef "[]" ?v "[]"]
    by (simp add: new_serializer_def)
qed

end
