(* ===== verification/Protocol.thy ===== *)
theory Protocol
  imports Serialize
begin

text \<open>
  \<open>protocol.go\<close>: messages as arrays \<open>[type, args...]\<close>, their encoding and decoding around the
  serializer, validation, the constructors of messages and expressions, and the statistics wrapper.
  \<open>marshal\<close> and \<open>unmarshal\<close> are \<open>json.Marshal\<close> of a message and \<open>json.Unmarshal\<close> into one (a JSON
  \<open>null\<close> gives the nil message, here the empty list).
\<close>

section \<open>Messages\<close>

definition protocol_version :: string where "protocol_version = ''1.0''"
definition max_message_size :: nat where "max_message_size = 64 * 1024 * 1024"

type_synonym message = "gval list"

datatype message_type = MtPush | MtPull | MtResolve | MtReject | MtRelease | MtAbort

definition message_type_of :: "string \<Rightarrow> message_type option" where
  "message_type_of t =
     (if t = ''push'' then Some MtPush else if t = ''pull'' then Some MtPull
      else if t = ''resolve'' then Some MtResolve else if t = ''reject'' then Some MtReject
      else if t = ''release'' then Some MtRelease else if t = ''abort'' then Some MtAbort
      else None)"

definition message_type_name :: "message_type \<Rightarrow> string" where
  "message_type_name m =
     (case m of MtPush \<Rightarrow> ''push'' | MtPull \<Rightarrow> ''pull'' | MtResolve \<Rightarrow> ''resolve''
      | MtReject \<Rightarrow> ''reject'' | MtRelease \<Rightarrow> ''release'' | MtAbort \<Rightarrow> ''abort'')"

lemma message_type_of_name [simp]: "message_type_of (message_type_name m) = Some m"
  by (cases m) (simp_all add: message_type_of_def message_type_name_def)

lemma message_type_of_Some: "message_type_of t = Some m \<Longrightarrow> t = message_type_name m"
  by (auto simp: message_type_of_def message_type_name_def split: if_splits)

definition new_push_message :: "gval \<Rightarrow> int option \<Rightarrow> message" where
  "new_push_message expression export_id = [VStr ''push'', expression]"
definition new_pull_message :: "int \<Rightarrow> message" where
  "new_pull_message i = [VStr ''pull'', VInt i]"
definition new_resolve_message :: "int \<Rightarrow> gval \<Rightarrow> message" where
  "new_resolve_message e v = [VStr ''resolve'', VInt e, v]"
definition new_reject_message :: "int \<Rightarrow> gval \<Rightarrow> message" where
  "new_reject_message e err = [VStr ''reject'', VInt e, err]"
definition new_release_message :: "int \<Rightarrow> int \<Rightarrow> message" where
  "new_release_message i n = [VStr ''release'', VInt i, VInt n]"
definition new_abort_message :: "gval \<Rightarrow> int option \<Rightarrow> message" where
  "new_abort_message reason code = [VStr ''abort'', reason]"

section \<open>Expressions\<close>

datatype expression =
    PipelineExpression int property_path gval
  | RemapExpression int property_path "gval list" "gval list"
  | ImportExpression int
  | ExportExpression int

text \<open>
  The Go value of an \<open>*Expression\<close>: a pointer to a struct of a type and of the data struct, with
  the \<open>json\<close> tags of the source.
\<close>

definition field :: "string \<Rightarrow> string \<Rightarrow> field_info" where
  "field n tag = \<lparr>fi_name = n, fi_exported = True, fi_tag = tag\<rparr>"

definition path_value :: "property_path \<Rightarrow> gval" where
  "path_value p = VSlice (map VStr p)"

definition expression_type :: "expression \<Rightarrow> string" where
  "expression_type e =
     (case e of PipelineExpression _ _ _ \<Rightarrow> ''pipeline'' | RemapExpression _ _ _ _ \<Rightarrow> ''remap''
      | ImportExpression _ \<Rightarrow> ''import'' | ExportExpression _ \<Rightarrow> ''export'')"

definition expression_data :: "expression \<Rightarrow> gval" where
  "expression_data e = VStruct
     (case e of
        PipelineExpression i p args \<Rightarrow>
          [(field ''ImportID'' ''importId'', VInt i), (field ''Path'' ''path'', path_value p),
           (field ''Args'' ''args,omitempty'', args)]
      | RemapExpression i p cs ins \<Rightarrow>
          [(field ''ImportID'' ''importId'', VInt i), (field ''Path'' ''path,omitempty'', path_value p),
           (field ''Captures'' ''captures'', VSlice cs), (field ''Instructions'' ''instructions'', VSlice ins)]
      | ImportExpression i \<Rightarrow> [(field ''ImportID'' ''importId'', VInt i)]
      | ExportExpression i \<Rightarrow> [(field ''ExportID'' ''exportId'', VInt i)])"

definition expression_value :: "expression \<Rightarrow> gval" where
  "expression_value e = VPtr (VStruct
     [(field ''Type'' ''type'', VStr (expression_type e)), (field ''Data'' ''data'', expression_data e)])"

section \<open>Encoding and decoding\<close>

record 's protocol =
  pr_version :: string
  pr_serializer :: "'s serializer option"
  pr_deserializer :: "'s deserializer option"

definition new_protocol :: "'s serializer option \<Rightarrow> 's deserializer option \<Rightarrow> 's protocol" where
  "new_protocol S D = \<lparr>pr_version = protocol_version, pr_serializer = S, pr_deserializer = D\<rparr>"

definition is_version_compatible :: "'s protocol \<Rightarrow> string \<Rightarrow> bool" where
  "is_version_compatible P v \<longleftrightarrow> v = pr_version P \<or> v = []"

text \<open>The loop over the arguments: nil arguments stay, the others go through \<open>f\<close>.\<close>

fun convert_args :: "string \<Rightarrow> (gval \<Rightarrow> 's \<Rightarrow> gval result \<times> 's) \<Rightarrow> gval list \<Rightarrow> 's \<Rightarrow> gval list result \<times> 's" where
  "convert_args ctx f [] s = (Ok [], s)"
| "convert_args ctx f (v # vs) s =
     (if v = VNil then
        (case convert_args ctx f vs s of (Ok ws, s') \<Rightarrow> (Ok (v # ws), s') | r \<Rightarrow> r)
      else and_then ctx (f v s) (\<lambda>w s'.
        (case convert_args ctx f vs s' of (Ok ws, s'') \<Rightarrow> (Ok (w # ws), s'') | r \<Rightarrow> r)))"

definition encode_message :: "(gval list \<Rightarrow> bytes result) \<Rightarrow> string \<Rightarrow> 's protocol \<Rightarrow> message \<Rightarrow> 's
    \<Rightarrow> bytes result \<times> 's" where
  "encode_message marshal stk P msg s =
     (case msg of
        [] \<Rightarrow> (Err (EMsg ''empty message''), s)
      | ty # args \<Rightarrow>
          (case (case pr_serializer P of
                   None \<Rightarrow> (Ok args, s)
                 | Some S \<Rightarrow> convert_args ''failed to serialize message argument %d: ''
                               (serialize stk S) args s) of
             (Ok args', s') \<Rightarrow>
               (case marshal (ty # args') of
                  Ok data \<Rightarrow>
                    if length data > max_message_size
                    then (Err (EMsg ''message too large: %d bytes (max %d)''), s')
                    else (Ok data, s')
                | Err e \<Rightarrow> (Err (EWrap ''failed to marshal message: '' e), s')
                | Panic \<Rightarrow> (Panic, s')
                | Hang \<Rightarrow> (Hang, s'))
           | (Err e, s') \<Rightarrow> (Err e, s')
           | (Panic, s') \<Rightarrow> (Panic, s')
           | (Hang, s') \<Rightarrow> (Hang, s')))"

definition validate_array_message_data :: "message \<Rightarrow> goerr option" where
  "validate_array_message_data msg =
     (case message_type_of (case msg ! 0 of VStr t \<Rightarrow> t | _ \<Rightarrow> []) of
        Some MtPush \<Rightarrow> if length msg < 2 then Some (EMsg ''push message requires expression'') else None
      | Some MtPull \<Rightarrow> if length msg < 2 then Some (EMsg ''pull message requires importID'') else None
      | Some MtResolve \<Rightarrow>
          if length msg < 3 then Some (EMsg ''resolve message requires exportID and value'') else None
      | Some MtReject \<Rightarrow>
          if length msg < 3 then Some (EMsg ''reject message requires exportID and error'') else None
      | Some MtRelease \<Rightarrow>
          if length msg < 3 then Some (EMsg ''release message requires importID and refCount'') else None
      | Some MtAbort \<Rightarrow> if length msg < 2 then Some (EMsg ''abort message requires reason'') else None
      | None \<Rightarrow> Some (EMsg ''unknown message type for validation: %s''))"

definition validate_message :: "message \<Rightarrow> goerr option" where
  "validate_message msg =
     (if length msg = 0 then Some (EMsg ''message is nil or empty'')
      else case msg ! 0 of
        VStr t \<Rightarrow>
          (case message_type_of t of
             None \<Rightarrow> Some (EMsg ''unknown message type: %s'')
           | Some _ \<Rightarrow>
               (case validate_array_message_data msg of
                  Some e \<Rightarrow> Some (EWrap ''invalid message data: '' e)
                | None \<Rightarrow> None))
      | _ \<Rightarrow> Some (EMsg ''message type must be a string''))"

definition decode_message :: "(bytes \<Rightarrow> gval list result) \<Rightarrow> 's protocol \<Rightarrow> bytes \<Rightarrow> 's \<Rightarrow> message result \<times> 's" where
  "decode_message unmarshal P data s =
     (if length data > max_message_size
      then (Err (EMsg ''message too large: %d bytes (max %d)''), s)
      else case unmarshal data of
        Err e \<Rightarrow> (Err (EWrap ''failed to unmarshal message: '' e), s)
      | Panic \<Rightarrow> (Panic, s)
      | Hang \<Rightarrow> (Hang, s)
      | Ok msg \<Rightarrow>
          (case validate_message msg of
             Some e \<Rightarrow> (Err (EWrap ''invalid message: '' e), s)
           | None \<Rightarrow>
               (case pr_deserializer P of
                  None \<Rightarrow> (Ok msg, s)
                | Some D \<Rightarrow>
                    (case convert_args ''failed to deserialize message argument %d: ''
                            (deserialize_value D) (tl msg) s of
                       (Ok args, s') \<Rightarrow> (Ok (hd msg # args), s')
                     | (Err e, s') \<Rightarrow> (Err e, s')
                     | (Panic, s') \<Rightarrow> (Panic, s')
                     | (Hang, s') \<Rightarrow> (Hang, s')))))"

section \<open>Statistics\<close>

record message_stats =
  ms_messages_encoded :: int
  ms_messages_decoded :: int
  ms_bytes_encoded :: int
  ms_bytes_decoded :: int
  ms_encoding_errors :: int
  ms_decoding_errors :: int
  ms_validation_errors :: int
  ms_by_type :: "(string, int) gomap"

definition new_message_stats :: message_stats where
  "new_message_stats = \<lparr>ms_messages_encoded = 0, ms_messages_decoded = 0, ms_bytes_encoded = 0,
     ms_bytes_decoded = 0, ms_encoding_errors = 0, ms_decoding_errors = 0, ms_validation_errors = 0,
     ms_by_type = []\<rparr>"

definition count_type :: "string \<Rightarrow> (string, int) gomap \<Rightarrow> (string, int) gomap" where
  "count_type t m = gm_put t (uint64 ((case gm_get m t of Some n \<Rightarrow> n | None \<Rightarrow> 0) + 1)) m"

definition record_encoded :: "string \<Rightarrow> nat \<Rightarrow> message_stats \<Rightarrow> message_stats" where
  "record_encoded t n st = st\<lparr>ms_messages_encoded := uint64 (ms_messages_encoded st + 1),
     ms_bytes_encoded := uint64 (ms_bytes_encoded st + int n), ms_by_type := count_type t (ms_by_type st)\<rparr>"

definition record_decoded :: "string \<Rightarrow> nat \<Rightarrow> message_stats \<Rightarrow> message_stats" where
  "record_decoded t n st = st\<lparr>ms_messages_decoded := uint64 (ms_messages_decoded st + 1),
     ms_bytes_decoded := uint64 (ms_bytes_decoded st + int n), ms_by_type := count_type t (ms_by_type st)\<rparr>"

definition record_encoding_error :: "message_stats \<Rightarrow> message_stats" where
  "record_encoding_error st = st\<lparr>ms_encoding_errors := uint64 (ms_encoding_errors st + 1)\<rparr>"

definition record_decoding_error :: "message_stats \<Rightarrow> message_stats" where
  "record_decoding_error st = st\<lparr>ms_decoding_errors := uint64 (ms_decoding_errors st + 1)\<rparr>"

definition record_validation_error :: "message_stats \<Rightarrow> message_stats" where
  "record_validation_error st = st\<lparr>ms_validation_errors := uint64 (ms_validation_errors st + 1)\<rparr>"

definition stats_type :: "message \<Rightarrow> string" where
  "stats_type msg = (case msg of VStr t # _ \<Rightarrow> t | _ \<Rightarrow> ''unknown'')"

definition stats_encode :: "(gval list \<Rightarrow> bytes result) \<Rightarrow> string \<Rightarrow> 's protocol \<Rightarrow> message
    \<Rightarrow> 's \<times> message_stats \<Rightarrow> bytes result \<times> 's \<times> message_stats" where
  "stats_encode marshal stk P msg ss =
     (case encode_message marshal stk P msg (fst ss) of
        (Ok data, s') \<Rightarrow> (Ok data, s', record_encoded (stats_type msg) (length data) (snd ss))
      | (Err e, s') \<Rightarrow> (Err e, s', record_encoding_error (snd ss))
      | (r, s') \<Rightarrow> (r, s', snd ss))"

definition stats_decode :: "(bytes \<Rightarrow> gval list result) \<Rightarrow> 's protocol \<Rightarrow> bytes
    \<Rightarrow> 's \<times> message_stats \<Rightarrow> message result \<times> 's \<times> message_stats" where
  "stats_decode unmarshal P data ss =
     (case decode_message unmarshal P data (fst ss) of
        (Ok msg, s') \<Rightarrow> (Ok msg, s', record_decoded (stats_type msg) (length data) (snd ss))
      | (Err e, s') \<Rightarrow> (Err e, s', record_decoding_error (snd ss))
      | (r, s') \<Rightarrow> (r, s', snd ss))"

section \<open>What is accepted\<close>

definition min_length :: "message_type \<Rightarrow> nat" where
  "min_length m = (if m \<in> {MtResolve, MtReject, MtRelease} then 3 else 2)"

definition well_formed_message :: "message \<Rightarrow> bool" where
  "well_formed_message msg =
     (case msg of
        VStr t # _ \<Rightarrow> (case message_type_of t of Some m \<Rightarrow> min_length m \<le> length msg | None \<Rightarrow> False)
      | _ \<Rightarrow> False)"

lemma well_formed_message_cong:
  "length xs = length ys \<Longrightarrow> well_formed_message (v # xs) = well_formed_message (v # ys)"
  by (cases v) (auto simp: well_formed_message_def split: option.splits)

lemma validate_message_iff: "validate_message msg = None \<longleftrightarrow> well_formed_message msg"
proof (cases msg)
  case (Cons v vs)
  then show ?thesis
    by (cases v) (auto simp: validate_message_def well_formed_message_def
        validate_array_message_data_def min_length_def not_less Suc_le_eq
        split: option.splits message_type.splits if_splits)
qed (simp add: validate_message_def well_formed_message_def)

lemma constructed_messages_well_formed:
  "well_formed_message (new_push_message v eid)" "well_formed_message (new_pull_message i)"
  "well_formed_message (new_resolve_message e v)" "well_formed_message (new_reject_message e v)"
  "well_formed_message (new_release_message i n)" "well_formed_message (new_abort_message v c)"
  by (simp_all add: well_formed_message_def message_type_of_def min_length_def new_push_message_def
      new_pull_message_def new_resolve_message_def new_reject_message_def new_release_message_def
      new_abort_message_def)

lemma convert_args_length: "convert_args ctx f vs s = (Ok ws, s') \<Longrightarrow> length ws = length vs"
  by (induction vs arbitrary: ws s)
    (auto split: if_splits prod.splits outcome.splits elim!: and_then_OkE)

lemma convert_args_map:
  assumes "\<And>v s. v \<in> set vs \<Longrightarrow> f (h v) s = (Ok (g v), s)"
    and "\<And>v. v \<in> set vs \<Longrightarrow> h v = VNil \<Longrightarrow> g v = VNil"
  shows "convert_args ctx f (map h vs) s = (Ok (map g vs), s)"
  using assms by (induction vs) auto

lemma convert_args_keeps:
  assumes "\<And>v s. P s \<Longrightarrow> P (snd (f v s))"
  shows "P s \<Longrightarrow> P (snd (convert_args ctx f vs s))"
proof (induction vs arbitrary: s)
  case (Cons v vs)
  obtain r s' where f: "f v s = (r, s')" by force
  with assms Cons.prems have "P s'" by (metis snd_conv)
  with Cons f show ?case
    by (cases r) (force split: prod.splits outcome.splits)+
qed simp

lemma convert_args_Ok_each:
  assumes "\<And>v. snd (f v s) = s" and "is_ok (fst (convert_args ctx f vs s))" and "v \<in> set vs"
  shows "v = VNil \<or> is_ok (fst (f v s))"
  using assms(2,3)
proof (induction vs)
  case (Cons w vs)
  obtain r s' where f: "f w s = (r, s')" by force
  with assms(1) [of w] have "s' = s" by simp
  with Cons f show ?case
    by (cases r) (auto split: prod.splits outcome.splits if_splits)
qed simp

lemma decode_message_OkD:
  assumes "decode_message unmarshal P data s = (Ok msg, s')"
  shows "length data \<le> max_message_size \<and> well_formed_message msg
    \<and> (\<exists>raw. unmarshal data = Ok raw \<and> well_formed_message raw \<and> hd raw = hd msg
        \<and> length raw = length msg)"
proof -
  from assms obtain raw where raw: "unmarshal data = Ok raw" "well_formed_message raw"
    and len: "length data \<le> max_message_size"
    by (auto simp: decode_message_def validate_message_iff split: if_splits outcome.splits option.splits)
  then have ne: "raw \<noteq> []" by (auto simp: well_formed_message_def)
  have "hd raw = hd msg \<and> length raw = length msg"
  proof (cases "pr_deserializer P")
    case None
    with assms raw len show ?thesis
      by (simp add: decode_message_def validate_message_iff [THEN iffD2])
  next
    case (Some D)
    with assms raw len obtain args where
      "convert_args ''failed to deserialize message argument %d: '' (deserialize_value D) (tl raw) s
         = (Ok args, s')" and "msg = hd raw # args"
      by (auto simp: decode_message_def validate_message_iff [THEN iffD2]
          split: prod.splits outcome.splits)
    with ne show ?thesis by (cases raw) (auto dest: convert_args_length)
  qed
  with raw len ne show ?thesis
    by (cases raw; cases msg) (auto dest: well_formed_message_cong)
qed

section \<open>Statistics keep their counts consistent\<close>

definition stats_consistent :: "message_stats \<Rightarrow> bool" where
  "stats_consistent st \<longleftrightarrow>
     gm_wf (ms_by_type st)
     \<and> uint64 (sum_list (map snd (ms_by_type st))) = uint64 (ms_messages_encoded st + ms_messages_decoded st)"

lemma sum_gm_put:
  "gm_wf m \<Longrightarrow> sum_list (map snd (gm_put k (v::int) m))
     = sum_list (map snd m) - (case map_of m k of Some w \<Rightarrow> w | None \<Rightarrow> 0) + v"
proof (induction m)
  case (Cons p m)
  obtain a b where p: "p = (a, b)" by force
  show ?case
  proof (cases "a = k")
    case True
    with Cons.prems p have "map_of m k = None" by (auto simp: gm_wf_Cons map_of_eq_None_iff)
    with True p show ?thesis by simp
  next
    case False
    with Cons p show ?thesis by (auto simp: gm_wf_Cons)
  qed
qed simp

lemma stats_consistent_record:
  assumes "stats_consistent st"
  shows "stats_consistent (record_encoded t n st)" "stats_consistent (record_decoded t n st)"
    "stats_consistent (record_encoding_error st)" "stats_consistent (record_decoding_error st)"
    "stats_consistent (record_validation_error st)"
proof -
  let ?old = "case map_of (ms_by_type st) t of Some w \<Rightarrow> w | None \<Rightarrow> 0"
  have wf: "gm_wf (ms_by_type st)" using assms by (simp add: stats_consistent_def)
  have sum: "sum_list (map snd (count_type t (ms_by_type st)))
      = sum_list (map snd (ms_by_type st)) - ?old + uint64 (?old + 1)"
    using wf by (simp add: count_type_def sum_gm_put)
  have "uint64 (sum_list (map snd (count_type t (ms_by_type st))))
      = uint64 (sum_list (map snd (ms_by_type st)) + 1)"
    unfolding sum by (simp add: uint64_def mod_simps)
  also have "\<dots> = uint64 (uint64 (sum_list (map snd (ms_by_type st))) + 1)"
    by (simp add: uint64_def mod_simps)
  also have "\<dots> = uint64 (ms_messages_encoded st + ms_messages_decoded st + 1)"
    using assms by (simp add: stats_consistent_def) (simp add: uint64_def mod_simps)
  finally have step: "uint64 (sum_list (map snd (count_type t (ms_by_type st))))
      = uint64 (ms_messages_encoded st + ms_messages_decoded st + 1)" .
  from wf have "gm_wf (count_type t (ms_by_type st))" by (simp add: count_type_def)
  with step show "stats_consistent (record_encoded t n st)" "stats_consistent (record_decoded t n st)"
    by (simp_all add: stats_consistent_def record_encoded_def record_decoded_def)
      (simp_all add: uint64_def mod_simps algebra_simps)
qed (use assms in \<open>simp_all add: stats_consistent_def record_encoding_error_def
      record_decoding_error_def record_validation_error_def\<close>)

section \<open>Properties\<close>

text \<open>
  C8: Messages survive the trip. A message of a known type with enough arguments, all of them values
  without references within the depth limit, is encoded (when its JSON fits 64 MB), and decoding the
  bytes gives the message with every argument as the peer receives it.
\<close>

theorem message_roundtrip:
  assumes "pr_serializer P = Some S" and "pr_deserializer P = Some D"
    and "well_formed_message (VStr t # args)"
    and "\<forall>a \<in> set args. data_value a \<and> nest a \<le> sr_max_depth S"
    and "marshal (VStr t # map (wire stk (sr_include_stack_traces S)) args) = Ok bs"
    and "length bs \<le> max_message_size"
    and "unmarshal bs = Ok (VStr t # map (\<lambda>a. json_norm (wire stk (sr_include_stack_traces S) a)) args)"
  shows "encode_message marshal stk P (VStr t # args) s = (Ok bs, s)
    \<and> decode_message unmarshal P bs s' = (Ok (VStr t # map (received stk (sr_include_stack_traces S)) args), s')"
proof -
  let ?w = "wire stk (sr_include_stack_traces S)" and ?r = "received stk (sr_include_stack_traces S)"
  have ser: "serialize stk S (id a) s = (Ok (?w a), s)" if "a \<in> set args" for a s
    using assms(4) that by (simp add: serialize_def serialize_wire)
  have "?w VNil = VNil" by (simp add: wire.simps)
  then have enc: "convert_args ctx (serialize stk S) (map id args) s = (Ok (map ?w args), s)" for ctx s
    by (intro convert_args_map [where h = id] ser) auto
  have de: "deserialize_value D (json_norm (?w a)) s = (Ok (?r a), s)" if "a \<in> set args" for a s
    using assms(4) that by (simp add: deserialize_wire)
  have "?r a = VNil" if "a \<in> set args" "json_norm (?w a) = VNil" for a
    using de [OF that(1)] that(2) by (simp add: deserialize_value.simps)
  then have dec: "convert_args ctx (deserialize_value D) (map (\<lambda>a. json_norm (?w a)) args) s
      = (Ok (map ?r args), s)" for ctx s
    by (intro convert_args_map de)
  have "validate_message (VStr t # map (\<lambda>a. json_norm (?w a)) args) = None"
    using assms(3) well_formed_message_cong [of args "map (\<lambda>a. json_norm (?w a)) args"]
    by (simp add: validate_message_iff)
  with assms enc dec show ?thesis
    by (simp add: encode_message_def decode_message_def)
qed

lemma message_roundtrip_witness:
  "decode_message (\<lambda>_. Ok [VStr ''resolve'', VFloat 4, VSlice [VFloat 1, VNil]])
     (new_protocol (Some (new_serializer None)) (Some (new_deserializer None))) [9] ()
   = (Ok [VStr ''resolve'', VFloat 4, VSlice [VFloat 1, VNil]], ())"
proof -
  let ?args = "[VInt 4, VSlice [VInt 1, VNil]]"
  have w: "map (wire [] True) ?args = ?args" by (simp add: wire.simps)
  have n: "map (\<lambda>a. json_norm (wire [] True a)) ?args = [VFloat 4, VSlice [VFloat 1, VNil]]"
    by (simp add: wire.simps json_norm.simps f64_of_int_exact)
  have r: "map (received [] True) ?args = [VFloat 4, VSlice [VFloat 1, VNil]]"
    by (simp add: received.simps f64_of_int_exact)
  have d: "\<forall>a \<in> set ?args. data_value a \<and> nest a \<le> 100" by code_simp
  have wf: "well_formed_message (VStr ''resolve'' # ?args)" by code_simp
  show ?thesis
    using message_roundtrip [of "new_protocol (Some (new_serializer None)) (Some (new_deserializer None))"
        "new_serializer None" "new_deserializer None" "''resolve''" ?args "\<lambda>_. Ok [9]" "[]" "[9]"
        "\<lambda>_. Ok [VStr ''resolve'', VFloat 4, VSlice [VFloat 1, VNil]]" "()" "()"] w n r d wf
    by (simp add: new_protocol_def new_serializer_def max_message_size_def)
qed

text \<open>
  Nothing malformed gets past \<open>DecodeMessage\<close>. An accepted message came from at most 64 MB of
  data, starts with one of the six message types as a string and has at least the arguments that
  type needs; and the type it carries is the one on the wire, untouched by deserialization. Data
  over the limit is refused before it is parsed, whatever the parser does.
\<close>

theorem decode_message_safe:
  "(decode_message unmarshal P data s = (Ok msg, s') \<longrightarrow>
      length data \<le> max_message_size \<and> well_formed_message msg
      \<and> (\<exists>raw. unmarshal data = Ok raw \<and> hd raw = hd msg \<and> length raw = length msg))
   \<and> (max_message_size < length data \<longrightarrow>
      decode_message unmarshal P data s = (Err (EMsg ''message too large: %d bytes (max %d)''), s))"
  using decode_message_OkD [of unmarshal P data s msg s'] by (auto simp: decode_message_def)

lemma decode_message_safe_witness:
  "decode_message (\<lambda>_. Ok [VStr ''pull'', VFloat 2]) (new_protocol None None :: unit protocol) [1] ()
     = (Ok [VStr ''pull'', VFloat 2], ()) \<and> well_formed_message [VStr ''pull'', VFloat 2]"
proof -
  have "validate_message [VStr ''pull'', VFloat 2] = None" by code_simp
  then have "decode_message (\<lambda>_. Ok [VStr ''pull'', VFloat 2]) (new_protocol None None :: unit protocol) [1] ()
     = (Ok [VStr ''pull'', VFloat 2], ())"
    by (simp add: decode_message_def new_protocol_def max_message_size_def)
  then show ?thesis
    using decode_message_safe [of "\<lambda>_. Ok [VStr ''pull'', VFloat 2]" "new_protocol None None" "[1]" "()"
        "[VStr ''pull'', VFloat 2]" "()"] by blast
qed

text \<open>
  The statistics wrapper never loses count: through any encoding or decoding, successful or not,
  the per-type counters add up (in 64-bit arithmetic) to the messages encoded plus those decoded.
\<close>

theorem stats_consistent_preserved:
  assumes "stats_consistent (snd ss)"
  shows "stats_consistent (snd (snd (stats_encode marshal stk P msg ss)))
    \<and> stats_consistent (snd (snd (stats_decode unmarshal P data ss)))"
  using assms
  by (auto simp: stats_encode_def stats_decode_def stats_consistent_record
      split: prod.splits outcome.splits)

lemma stats_consistent_preserved_witness:
  "stats_consistent (snd (snd (stats_encode (\<lambda>_. Ok [1]) [] (new_protocol None None)
      [VStr ''pull'', VInt 1] ((), new_message_stats))))"
  using stats_consistent_preserved [of "((), new_message_stats)" "\<lambda>_. Ok [1]" "[]" "new_protocol None None"
      "[VStr ''pull'', VInt 1]" "\<lambda>_. Panic" "[]"]
  by (simp add: stats_consistent_def new_message_stats_def)

end
