(* ===== verification/Channels.thy ===== *)
theory Channels
  imports Prelude
begin

text \<open>
  \<open>select\<close> statements and buffered channels. Where several cases of a \<open>select\<close> are ready the
  runtime chooses one of them at random; \<open>pick\<close> is that choice, and theorems quantify over it. A
  \<open>select\<close> with no ready case and no default blocks. A locale states what a channel promises
  (first in, first out; nothing lost); it is interpreted on the buffered channels.
\<close>

section \<open>select\<close>

definition go_select :: "nat \<Rightarrow> (bool \<times> 'a) list \<Rightarrow> 'a option" where
  "go_select pick cs =
     (let rs = map snd (filter fst cs)
      in if rs = [] then None else Some (rs ! (pick mod length rs)))"

lemma go_select_ready [go_chan]: "go_select pick cs = Some a \<Longrightarrow> (True, a) \<in> set cs"
proof -
  assume sel: "go_select pick cs = Some a"
  define rs where "rs = map snd (filter fst cs)"
  from sel have "rs \<noteq> []" and "a = rs ! (pick mod length rs)"
    by (auto simp: go_select_def rs_def Let_def split: if_splits)
  then have "a \<in> set rs" by simp
  then show ?thesis by (auto simp: rs_def)
qed

lemma go_select_None [go_chan]: "go_select pick cs = None \<longleftrightarrow> (\<forall>c \<in> set cs. \<not> fst c)"
  by (auto simp: go_select_def Let_def filter_empty_conv)

text \<open>Every ready case can be the one the runtime takes.\<close>

lemma go_select_any:
  assumes "(True, a) \<in> set cs"
  shows "\<exists>pick. go_select pick cs = Some a"
proof -
  define rs where "rs = map snd (filter fst cs)"
  have "a \<in> set rs" using assms by (force simp: rs_def)
  then obtain i where "i < length rs" and "rs ! i = a"
    by (auto simp: in_set_conv_nth)
  then have "go_select i cs = Some a"
    by (auto simp: go_select_def rs_def Let_def)
  then show ?thesis ..
qed

section \<open>Buffered channels\<close>

record 'a chan =
  ch_buf :: "'a list"
  ch_cap :: nat
  ch_closed :: bool

definition make_chan :: "nat \<Rightarrow> 'a chan" where
  "make_chan n = \<lparr>ch_buf = [], ch_cap = n, ch_closed = False\<rparr>"

definition ch_can_send :: "'a chan \<Rightarrow> bool" where
  "ch_can_send c \<longleftrightarrow> ch_closed c \<or> length (ch_buf c) < ch_cap c"

text \<open>A send that was chosen: it panics on a closed channel.\<close>

definition ch_send :: "'a \<Rightarrow> 'a chan \<Rightarrow> ('e, 'a chan) outcome" where
  "ch_send x c = (if ch_closed c then Panic else Ok (c\<lparr>ch_buf := ch_buf c @ [x]\<rparr>))"

definition ch_can_recv :: "'a chan \<Rightarrow> bool" where
  "ch_can_recv c \<longleftrightarrow> ch_buf c \<noteq> [] \<or> ch_closed c"

text \<open>A receive that was chosen: the oldest element, or \<open>None\<close> from a closed, drained channel.\<close>

definition ch_recv :: "'a chan \<Rightarrow> 'a option \<times> 'a chan" where
  "ch_recv c = (case ch_buf c of [] \<Rightarrow> (None, c) | x # xs \<Rightarrow> (Some x, c\<lparr>ch_buf := xs\<rparr>))"

definition ch_close :: "'a chan \<Rightarrow> ('e, 'a chan) outcome" where
  "ch_close c = (if ch_closed c then Panic else Ok (c\<lparr>ch_closed := True\<rparr>))"

definition ch_wf :: "'a chan \<Rightarrow> bool" where
  "ch_wf c \<longleftrightarrow> length (ch_buf c) \<le> ch_cap c"

locale fifo_queue =
  fixes content :: "'q \<Rightarrow> 'a list"
    and accepts :: "'q \<Rightarrow> bool"
    and enq :: "'a \<Rightarrow> 'q \<Rightarrow> 'q option"
    and deq :: "'q \<Rightarrow> 'a option \<times> 'q"
  assumes enq_content: "enq x q = Some q' \<Longrightarrow> content q' = content q @ [x]"
    and enq_accepts: "accepts q \<Longrightarrow> enq x q \<noteq> None"
    and deq_content: "content q = x # xs \<Longrightarrow> fst (deq q) = Some x \<and> content (snd (deq q)) = xs"
    and deq_empty: "content q = [] \<Longrightarrow> deq q = (None, q)"
begin

text \<open>Everything that goes in comes out in the same order.\<close>

fun drain :: "nat \<Rightarrow> 'q \<Rightarrow> 'a list" where
  "drain 0 q = []"
| "drain (Suc n) q = (case deq q of (None, _) \<Rightarrow> [] | (Some x, q') \<Rightarrow> x # drain n q')"

lemma drain_content: "length (content q) \<le> n \<Longrightarrow> drain n q = content q"
proof (induction n arbitrary: q)
  case 0
  then show ?case by simp
next
  case (Suc n)
  show ?case
  proof (cases "content q")
    case Nil
    then show ?thesis by (simp add: deq_empty)
  next
    case (Cons x xs)
    then have d: "fst (deq q) = Some x" "content (snd (deq q)) = xs"
      using deq_content by auto
    with Cons Suc.prems have "drain n (snd (deq q)) = xs" by (simp add: Suc.IH)
    with d Cons show ?thesis by (cases "deq q") simp
  qed
qed

lemma enq_then_drain:
  "enq x q = Some q' \<Longrightarrow> drain (Suc (length (content q))) q' = content q @ [x]"
  by (simp add: drain_content enq_content del: drain.simps)

end

definition ch_enq :: "'a \<Rightarrow> 'a chan \<Rightarrow> 'a chan option" where
  "ch_enq x c = (case ch_send x c :: (unit, 'a chan) outcome of Ok c' \<Rightarrow> Some c' | _ \<Rightarrow> None)"

interpretation chan_fifo: fifo_queue ch_buf "\<lambda>c. \<not> ch_closed c" ch_enq ch_recv
  by unfold_locales (auto simp: ch_enq_def ch_send_def ch_recv_def split: if_splits)

lemma ch_wf_send: "ch_wf c \<Longrightarrow> ch_can_send c \<Longrightarrow> ch_send x c = Ok c' \<Longrightarrow> ch_wf c'"
  by (auto simp: ch_wf_def ch_can_send_def ch_send_def split: if_splits)

lemma ch_wf_recv: "ch_wf c \<Longrightarrow> ch_wf (snd (ch_recv c))"
  by (auto simp: ch_wf_def ch_recv_def split: list.splits)

lemma ch_send_Ok [go_chan]:
  "ch_send x c = Ok c' \<longleftrightarrow> \<not> ch_closed c \<and> c' = c\<lparr>ch_buf := ch_buf c @ [x]\<rparr>"
  by (auto simp: ch_send_def)

lemma ch_send_not_Err [simp]: "ch_send x c \<noteq> Err e" "ch_send x c \<noteq> Hang"
  by (simp_all add: ch_send_def)

end
