(* ===== verification/Transport.thy ===== *)
theory Transport
  imports RpcTypes Channels
begin

text \<open>
  \<open>transport.go\<close> and \<open>transport_memory.go\<close>. The Go interface \<open>Transport\<close> is the record \<open>transport_ops\<close>
  over a state \<open>'t\<close>; what its comments promise is the locale \<open>transport\<close> (and \<open>transport_closer\<close> for
  the optional \<open>Abort\<close>), which the session is a client of. The in-memory transport is modelled and
  interprets both.
\<close>

section \<open>Contexts and the interface\<close>

datatype ctx = CtxLive | CtxCanceled | CtxDeadline

definition ctx_done :: "ctx \<Rightarrow> bool" where "ctx_done c \<longleftrightarrow> c \<noteq> CtxLive"

definition ctx_err :: "ctx \<Rightarrow> goerr option" where
  "ctx_err c = (case c of CtxLive \<Rightarrow> None | CtxCanceled \<Rightarrow> Some ECtxCanceled | CtxDeadline \<Rightarrow> Some ECtxDeadline)"

text \<open>\<open>ctx.Err()\<close> of a context that is done.\<close>

definition ctx_error :: "ctx \<Rightarrow> goerr" where
  "ctx_error c = (case c of CtxDeadline \<Rightarrow> ECtxDeadline | _ \<Rightarrow> ECtxCanceled)"

record 't transport_ops =
  tr_send :: "ctx \<Rightarrow> bytes \<Rightarrow> 't \<Rightarrow> unit result \<times> 't"
  tr_receive :: "ctx \<Rightarrow> 't \<Rightarrow> bytes result \<times> 't"
  tr_close :: "'t \<Rightarrow> goerr option \<times> 't"

locale transport =
  fixes ops :: "'t transport_ops"
    and closed :: "'t \<Rightarrow> bool"
    and sent :: "'t \<Rightarrow> bytes list"
  assumes send_Ok: "tr_send ops c m t = (Ok u, t') \<Longrightarrow> \<not> closed t \<and> sent t' = sent t @ [m] \<and> \<not> closed t'"
    and send_fail: "\<not> is_ok (fst (tr_send ops c m t))
        \<Longrightarrow> sent (snd (tr_send ops c m t)) = sent t \<and> closed (snd (tr_send ops c m t)) = closed t"
    and send_closed: "closed t \<Longrightarrow> \<exists>e. fst (tr_send ops c m t) = Err e"
    and recv_closed: "closed t \<Longrightarrow> \<exists>e. fst (tr_receive ops c t) = Err e"
    and recv_keeps: "sent (snd (tr_receive ops c t)) = sent t \<and> closed (snd (tr_receive ops c t)) = closed t"
    and close_closes: "closed (snd (tr_close ops t)) \<and> sent (snd (tr_close ops t)) = sent t"
    and close_again: "closed t \<Longrightarrow> tr_close ops t = (None, t)"
begin

lemma close_idempotent: "tr_close ops (snd (tr_close ops t)) = (None, snd (tr_close ops t))"
  by (simp add: close_again close_closes)

lemma sent_mono: "\<exists>xs. sent (snd (tr_send ops c m t)) = sent t @ xs"
proof (cases "is_ok (fst (tr_send ops c m t))")
  case True
  then show ?thesis by (metis is_ok_iff prod.collapse send_Ok)
next
  case False
  then show ?thesis using send_fail by fastforce
qed

lemma closed_mono: "closed t \<Longrightarrow> closed (snd (tr_send ops c m t)) \<and> sent (snd (tr_send ops c m t)) = sent t"
  using send_closed [of t c m] send_fail [of c m t] by (auto simp: is_ok_def)

end

locale transport_closer = transport ops closed sent
  for ops :: "'t transport_ops" and closed sent +
  fixes abort :: "goerr option \<Rightarrow> 't \<Rightarrow> 't"
  assumes abort_closes: "closed (abort r t) \<and> sent (abort r t) = sent t"
    and abort_again: "closed t \<Longrightarrow> abort r t = t"
begin

lemma abort_then_send: "\<exists>e. fst (tr_send ops c m (abort r t)) = Err e"
  by (simp add: send_closed abort_closes)

lemma close_then_abort: "abort r (snd (tr_close ops t)) = snd (tr_close ops t)"
  by (simp add: abort_again close_closes)

end

definition err_transport_closed :: goerr where "err_transport_closed = EMsg ''transport is closed''"
definition err_message_too_large :: goerr where "err_message_too_large = EMsg ''message too large''"
definition err_invalid_message :: goerr where "err_invalid_message = EMsg ''invalid message format''"
definition err_eof :: goerr where "err_eof = EMsg ''EOF''"

definition message_size_limit :: nat where "message_size_limit = 64 * 1024 * 1024"

record transport_stats =
  ts_bytes_sent :: int
  ts_bytes_received :: int
  ts_messages_sent :: int
  ts_messages_received :: int
  ts_errors :: int

definition zero_transport_stats :: transport_stats where
  "zero_transport_stats = \<lparr>ts_bytes_sent = 0, ts_bytes_received = 0, ts_messages_sent = 0,
     ts_messages_received = 0, ts_errors = 0\<rparr>"

section \<open>The in-memory transport\<close>

text \<open>
  One end of a pair: its two channels, its closing channel (only whether it is closed matters), the
  error it reports once closed, the atomic flag and the counters.
\<close>

record memory_transport =
  mt_send_ch :: "bytes chan"
  mt_recv_ch :: "bytes chan"
  mt_close_ch_closed :: bool
  mt_close_err :: "goerr option"
  mt_closed :: bool
  mt_stats :: transport_stats

definition mt_get_close_error :: "memory_transport \<Rightarrow> goerr" where
  "mt_get_close_error t = (case mt_close_err t of Some e \<Rightarrow> e | None \<Rightarrow> err_transport_closed)"

datatype mt_case = McChan | McClosed | McCtx

definition mt_send :: "nat \<Rightarrow> ctx \<Rightarrow> bytes \<Rightarrow> memory_transport \<Rightarrow> unit result \<times> memory_transport" where
  "mt_send pick c m t =
     (if mt_closed t then (Err err_transport_closed, t)
      else if length m > message_size_limit then
        (Err err_message_too_large,
         t\<lparr>mt_stats := (mt_stats t)\<lparr>ts_errors := uint64 (ts_errors (mt_stats t) + 1)\<rparr>\<rparr>)
      else case go_select pick [(ch_can_send (mt_send_ch t), McChan), (mt_close_ch_closed t, McClosed),
                                (ctx_done c, McCtx)] of
        None \<Rightarrow> (Hang, t)
      | Some McChan \<Rightarrow>
          (case ch_send m (mt_send_ch t) of
             Ok ch \<Rightarrow> (Ok (), t\<lparr>mt_send_ch := ch,
                mt_stats := (mt_stats t)\<lparr>ts_bytes_sent := uint64 (ts_bytes_sent (mt_stats t) + int (length m)),
                  ts_messages_sent := uint64 (ts_messages_sent (mt_stats t) + 1)\<rparr>\<rparr>)
           | Panic \<Rightarrow> (Panic, t) | Err e \<Rightarrow> (Err e, t) | Hang \<Rightarrow> (Hang, t))
      | Some McClosed \<Rightarrow> (Err (mt_get_close_error t), t)
      | Some McCtx \<Rightarrow> (Err (ctx_error c), t))"

text \<open>The data channels are never closed; receiving from one that were would yield a nil message.\<close>

definition mt_receive :: "nat \<Rightarrow> ctx \<Rightarrow> memory_transport \<Rightarrow> bytes result \<times> memory_transport" where
  "mt_receive pick c t =
     (if mt_closed t then (Err (mt_get_close_error t), t)
      else case go_select pick [(ch_can_recv (mt_recv_ch t), McChan), (mt_close_ch_closed t, McClosed),
                                (ctx_done c, McCtx)] of
        None \<Rightarrow> (Hang, t)
      | Some McChan \<Rightarrow>
          (let (x, ch) = ch_recv (mt_recv_ch t); m = (case x of Some m \<Rightarrow> m | None \<Rightarrow> [])
           in (Ok m, t\<lparr>mt_recv_ch := ch,
                mt_stats := (mt_stats t)\<lparr>ts_bytes_received := uint64 (ts_bytes_received (mt_stats t) + int (length m)),
                  ts_messages_received := uint64 (ts_messages_received (mt_stats t) + 1)\<rparr>\<rparr>))
      | Some McClosed \<Rightarrow> (Err (mt_get_close_error t), t)
      | Some McCtx \<Rightarrow> (Err (ctx_error c), t))"

definition mt_close :: "memory_transport \<Rightarrow> goerr option \<times> memory_transport" where
  "mt_close t =
     (if mt_closed t then (None, t)
      else (None, t\<lparr>mt_closed := True,
              mt_close_err := (if mt_close_err t = None then Some err_eof else mt_close_err t),
              mt_close_ch_closed := True\<rparr>))"

definition mt_abort :: "goerr option \<Rightarrow> memory_transport \<Rightarrow> memory_transport" where
  "mt_abort reason t =
     (if mt_closed t then t
      else t\<lparr>mt_closed := True,
             mt_close_err := Some (EWrap ''transport aborted: ''
               (case reason of Some e \<Rightarrow> e | None \<Rightarrow> EMsg ''transport aborted'')),
             mt_close_ch_closed := True\<rparr>)"

definition mt_ops :: "nat \<Rightarrow> memory_transport transport_ops" where
  "mt_ops pick = \<lparr>tr_send = mt_send pick, tr_receive = mt_receive pick, tr_close = mt_close\<rparr>"

definition mt_sent :: "memory_transport \<Rightarrow> bytes list" where
  "mt_sent t = ch_buf (mt_send_ch t)"

interpretation mem: transport_closer "mt_ops pick" mt_closed mt_sent mt_abort
  by unfold_locales
    (auto simp: mt_ops_def mt_send_def mt_receive_def mt_close_def mt_abort_def mt_sent_def ch_send_def
      split: if_splits option.splits mt_case.splits prod.splits)

section \<open>A connected pair\<close>

record mem_end =
  mn_close_ch_closed :: bool
  mn_close_err :: "goerr option"
  mn_closed :: bool
  mn_stats :: transport_stats

record mem_pair =
  mp_ch1 :: "bytes chan"
  mp_ch2 :: "bytes chan"
  mp_end1 :: mem_end
  mp_end2 :: mem_end

definition new_mem_end :: mem_end where
  "new_mem_end = \<lparr>mn_close_ch_closed = False, mn_close_err = None, mn_closed = False,
     mn_stats = zero_transport_stats\<rparr>"

definition new_memory_transport_pair :: mem_pair where
  "new_memory_transport_pair = \<lparr>mp_ch1 = make_chan 16, mp_ch2 = make_chan 16,
     mp_end1 = new_mem_end, mp_end2 = new_mem_end\<rparr>"

text \<open>The two transports of a pair share the channels, crossed.\<close>

definition mk_transport :: "bytes chan \<Rightarrow> bytes chan \<Rightarrow> mem_end \<Rightarrow> memory_transport" where
  "mk_transport sc rc e = \<lparr>mt_send_ch = sc, mt_recv_ch = rc, mt_close_ch_closed = mn_close_ch_closed e,
     mt_close_err = mn_close_err e, mt_closed = mn_closed e, mt_stats = mn_stats e\<rparr>"

definition end_of :: "memory_transport \<Rightarrow> mem_end" where
  "end_of t = \<lparr>mn_close_ch_closed = mt_close_ch_closed t, mn_close_err = mt_close_err t,
     mn_closed = mt_closed t, mn_stats = mt_stats t\<rparr>"

definition transport1 :: "mem_pair \<Rightarrow> memory_transport" where
  "transport1 p = mk_transport (mp_ch1 p) (mp_ch2 p) (mp_end1 p)"
definition transport2 :: "mem_pair \<Rightarrow> memory_transport" where
  "transport2 p = mk_transport (mp_ch2 p) (mp_ch1 p) (mp_end2 p)"
definition put_transport1 :: "memory_transport \<Rightarrow> mem_pair \<Rightarrow> mem_pair" where
  "put_transport1 t p = p\<lparr>mp_ch1 := mt_send_ch t, mp_ch2 := mt_recv_ch t, mp_end1 := end_of t\<rparr>"
definition put_transport2 :: "memory_transport \<Rightarrow> mem_pair \<Rightarrow> mem_pair" where
  "put_transport2 t p = p\<lparr>mp_ch2 := mt_send_ch t, mp_ch1 := mt_recv_ch t, mp_end2 := end_of t\<rparr>"

text \<open>The calls either side can make, and a run of them with what was sent and received.\<close>

datatype mem_call =
    CallSend ctx bytes
  | CallReceive ctx
  | CallClose
  | CallAbort "goerr option"

record mem_run =
  mr_pair :: mem_pair
  mr_sent1 :: "bytes list"
  mr_got1 :: "bytes list"
  mr_sent2 :: "bytes list"
  mr_got2 :: "bytes list"

definition mem_call_step :: "nat \<Rightarrow> mem_call \<Rightarrow> memory_transport
    \<Rightarrow> memory_transport \<times> bytes list \<times> bytes list" where
  "mem_call_step pick cl t =
     (case cl of
        CallSend c m \<Rightarrow> (case mt_send pick c m t of (r, t') \<Rightarrow> (t', if is_ok r then [m] else [], []))
      | CallReceive c \<Rightarrow> (case mt_receive pick c t of (r, t') \<Rightarrow> (t', [], case r of Ok m \<Rightarrow> [m] | _ \<Rightarrow> []))
      | CallClose \<Rightarrow> (snd (mt_close t), [], [])
      | CallAbort r \<Rightarrow> (mt_abort r t, [], []))"

definition mem_run_step :: "bool \<times> nat \<times> mem_call \<Rightarrow> mem_run \<Rightarrow> mem_run" where
  "mem_run_step st r =
     (case st of (first, pick, cl) \<Rightarrow>
        if first then
          (case mem_call_step pick cl (transport1 (mr_pair r)) of (t, s, g) \<Rightarrow>
             r\<lparr>mr_pair := put_transport1 t (mr_pair r), mr_sent1 := mr_sent1 r @ s, mr_got1 := mr_got1 r @ g\<rparr>)
        else
          (case mem_call_step pick cl (transport2 (mr_pair r)) of (t, s, g) \<Rightarrow>
             r\<lparr>mr_pair := put_transport2 t (mr_pair r), mr_sent2 := mr_sent2 r @ s, mr_got2 := mr_got2 r @ g\<rparr>))"

definition mem_run_start :: mem_run where
  "mem_run_start = \<lparr>mr_pair = new_memory_transport_pair, mr_sent1 = [], mr_got1 = [], mr_sent2 = [], mr_got2 = []\<rparr>"

definition mem_run_ok :: "mem_run \<Rightarrow> bool" where
  "mem_run_ok r \<longleftrightarrow>
     mr_sent1 r = mr_got2 r @ ch_buf (mp_ch1 (mr_pair r))
     \<and> mr_sent2 r = mr_got1 r @ ch_buf (mp_ch2 (mr_pair r))
     \<and> \<not> ch_closed (mp_ch1 (mr_pair r)) \<and> \<not> ch_closed (mp_ch2 (mr_pair r))
     \<and> length (ch_buf (mp_ch1 (mr_pair r))) \<le> 16 \<and> length (ch_buf (mp_ch2 (mr_pair r))) \<le> 16
     \<and> ch_cap (mp_ch1 (mr_pair r)) = 16 \<and> ch_cap (mp_ch2 (mr_pair r)) = 16"

text \<open>What one call does to the channels of its end.\<close>

lemma mem_call_step_channels:
  assumes "mem_call_step pick cl t = (t', s, g)"
    and "\<not> ch_closed (mt_send_ch t)" and "\<not> ch_closed (mt_recv_ch t)"
    and "length (ch_buf (mt_send_ch t)) \<le> ch_cap (mt_send_ch t)"
  shows "ch_buf (mt_send_ch t') = ch_buf (mt_send_ch t) @ s \<and> ch_buf (mt_recv_ch t) = g @ ch_buf (mt_recv_ch t')
    \<and> \<not> ch_closed (mt_send_ch t') \<and> \<not> ch_closed (mt_recv_ch t')
    \<and> length (ch_buf (mt_send_ch t)) + length s \<le> ch_cap (mt_send_ch t)
    \<and> ch_cap (mt_send_ch t') = ch_cap (mt_send_ch t) \<and> ch_cap (mt_recv_ch t') = ch_cap (mt_recv_ch t)"
proof (cases cl)
  case (CallSend c m)
  show ?thesis
  proof (cases "fst (mt_send pick c m t)")
    case (Ok u)
    then have "ch_can_send (mt_send_ch t)"
      and "mt_send_ch (snd (mt_send pick c m t)) = (mt_send_ch t)\<lparr>ch_buf := ch_buf (mt_send_ch t) @ [m]\<rparr>"
      and "mt_recv_ch (snd (mt_send pick c m t)) = mt_recv_ch t"
      by (auto simp: mt_send_def ch_send_def split: if_splits option.splits mt_case.splits
          dest!: go_select_ready)
    with assms CallSend Ok show ?thesis
      by (auto simp: mem_call_step_def ch_can_send_def split: prod.splits)
  qed (use assms CallSend in \<open>auto simp: mem_call_step_def mt_send_def ch_send_def
      split: prod.splits if_splits option.splits mt_case.splits\<close>)
next
  case (CallReceive c)
  with assms show ?thesis
    by (auto simp: mem_call_step_def mt_receive_def ch_recv_def ch_can_recv_def
        split: prod.splits if_splits option.splits mt_case.splits list.splits dest!: go_select_ready)
next
  case CallClose
  with assms show ?thesis by (cases "mt_closed t") (auto simp: mem_call_step_def mt_close_def)
next
  case (CallAbort r)
  with assms show ?thesis by (cases "mt_closed t") (auto simp: mem_call_step_def mt_abort_def)
qed

lemma mem_run_step_ok: "mem_run_ok r \<Longrightarrow> mem_run_ok (mem_run_step st r)"
proof -
  assume ok: "mem_run_ok r"
  obtain first pick cl where st: "st = (first, pick, cl)" by (cases st)
  show ?thesis
  proof (cases first)
    case True
    obtain t s g where c: "mem_call_step pick cl (transport1 (mr_pair r)) = (t, s, g)" by (metis prod_cases3)
    from mem_call_step_channels [OF c] ok True st c show ?thesis
      by (simp add: mem_run_ok_def mem_run_step_def transport1_def put_transport1_def mk_transport_def)
  next
    case False
    obtain t s g where c: "mem_call_step pick cl (transport2 (mr_pair r)) = (t, s, g)" by (metis prod_cases3)
    from mem_call_step_channels [OF c] ok False st c show ?thesis
      by (simp add: mem_run_ok_def mem_run_step_def transport2_def put_transport2_def mk_transport_def)
  qed
qed

lemma mem_run_reachable_ok: "mem_run_ok (fold mem_run_step sts mem_run_start)"
proof -
  have "mem_run_ok r \<Longrightarrow> mem_run_ok (fold mem_run_step sts r)" for r
    by (induction sts arbitrary: r) (simp_all add: mem_run_step_ok)
  moreover have "mem_run_ok mem_run_start"
    by (simp add: mem_run_ok_def mem_run_start_def new_memory_transport_pair_def make_chan_def)
  ultimately show ?thesis by blast
qed

section \<open>Properties\<close>

text \<open>
  C10: A pair of in-memory transports delivers reliably and in order. After any sequence of calls on
  the two ends (sends, receives, closes and aborts, in any interleaving and with any choice of the
  \<open>select\<close> statements), what one end has received followed by what is in flight is exactly what the
  other end has sent, at most 16 messages are in flight each way, and nothing was lost,
  duplicated or reordered.
\<close>

theorem memory_transport_fifo:
  "let r = fold mem_run_step calls mem_run_start
   in mr_sent1 r = mr_got2 r @ ch_buf (mp_ch1 (mr_pair r))
      \<and> mr_sent2 r = mr_got1 r @ ch_buf (mp_ch2 (mr_pair r))
      \<and> length (ch_buf (mp_ch1 (mr_pair r))) \<le> 16 \<and> length (ch_buf (mp_ch2 (mr_pair r))) \<le> 16"
  using mem_run_reachable_ok [of calls] by (simp add: mem_run_ok_def Let_def)

text \<open>
  C11: The in-memory transport keeps the closing contract of the interface. After \<open>Close\<close> or \<open>Abort\<close>
  every \<open>Send\<close> and every \<open>Receive\<close> returns an error at once, whatever is in the channels, closing again
  and aborting afterwards change nothing, and an abort leaves its reason as the error of \<open>Receive\<close>.
\<close>

theorem memory_transport_closed_contract:
  "(\<exists>e. fst (mt_send pick c m (snd (mt_close t))) = Err e)
   \<and> (\<exists>e. fst (mt_receive pick c (snd (mt_close t))) = Err e)
   \<and> mt_close (snd (mt_close t)) = (None, snd (mt_close t))
   \<and> mt_abort r (snd (mt_close t)) = snd (mt_close t)
   \<and> (\<exists>e. fst (mt_send pick c m (mt_abort r t)) = Err e)
   \<and> (\<not> mt_closed t \<longrightarrow> mt_receive pick c (mt_abort (Some reason) t)
        = (Err (EWrap ''transport aborted: '' reason), mt_abort (Some reason) t))"
  using mem.close_idempotent [of pick t] mem.close_then_abort [of r pick t]
    mem.abort_then_send [of pick c m r t] mem.send_closed [of "snd (mt_close t)" pick c m]
    mem.recv_closed [of "snd (mt_close t)" pick c] mem.close_closes [of pick t]
  by (auto simp: mt_ops_def mt_receive_def mt_abort_def mt_get_close_error_def)

lemma memory_transport_closed_contract_witness:
  "mt_receive 0 CtxLive (mt_abort (Some (EMsg ''x'')) (transport1 new_memory_transport_pair))
   = (Err (EWrap ''transport aborted: '' (EMsg ''x'')),
      mt_abort (Some (EMsg ''x'')) (transport1 new_memory_transport_pair))"
proof -
  have "\<not> mt_closed (transport1 new_memory_transport_pair)" by code_simp
  then show ?thesis
    using memory_transport_closed_contract [of 0 CtxLive "[]" "transport1 new_memory_transport_pair" None
        "EMsg ''x''"] by simp
qed

end
