(* ===== verification/Session.thy ===== *)
theory Session
  imports Protocol Transport
begin

text \<open>
  \<open>session.go\<close>: the export and import tables, sending, the message loop and its handlers, closing.
  The state is a record; the mutex \<open>mu\<close> is part of it (readers, writer, a writer waiting), because
  what the session does to itself while it holds the lock matters: an acquisition that cannot
  succeed is \<open>Hang\<close>. The transport is a client interface (\<open>transport_ops\<close>).
\<close>

section \<open>State\<close>

record session_options =
  so_message_queue_size :: nat
  so_response_timeout :: int
  so_enable_stats :: bool
  so_max_concurrent_requests :: int
  so_keep_alive_interval :: int

definition default_session_options :: session_options where
  "default_session_options = \<lparr>so_message_queue_size = 1000, so_response_timeout = 30000000000,
     so_enable_stats = True, so_max_concurrent_requests = 100, so_keep_alive_interval = 30000000000\<rparr>"

record export_entry =
  ee_value :: gval
  ee_ref_count :: int
  ee_is_promise :: bool
  ee_created :: int
  ee_last_accessed :: int

record import_entry =
  ie_import_id :: int
  ie_ref_count :: int
  ie_is_promise :: bool
  ie_path :: property_path
  ie_created :: int
  ie_last_accessed :: int

record response_info =
  ri_value :: gval
  ri_error :: "goerr option"

record session_stats =
  st_messages_sent :: int
  st_messages_received :: int
  st_exports_created :: int
  st_imports_created :: int
  st_exports_active :: int
  st_imports_active :: int
  st_calls_started :: int
  st_calls_completed :: int
  st_calls_failed :: int
  st_session_started :: int
  st_last_activity :: int
  st_protocol_errors :: int
  st_transport_errors :: int

record 't session =
  ss_transport :: 't
  ss_exports :: "(int, export_entry) gomap"
  ss_imports :: "(int, import_entry) gomap"
  ss_next_export :: int
  ss_next_import :: int
  ss_readers :: nat
  ss_writer :: bool
  ss_writer_waiting :: bool
  ss_closed :: bool
  ss_close_err :: "goerr option"
  ss_ctx :: ctx
  ss_queue :: "message chan"
  ss_responses :: "(int, response_info chan) gomap"
  ss_answered :: "(int \<times> response_info chan) list"
  ss_stats :: "session_stats option"
  ss_options :: session_options

text \<open>What the session calls and reads: transport, JSON, stack text, clock.\<close>

record 't env =
  en_ops :: "'t transport_ops"
  en_marshal :: "gval list \<Rightarrow> bytes result"
  en_unmarshal :: "bytes \<Rightarrow> gval list result"
  en_stk :: string
  en_now :: int

section \<open>The lock\<close>

definition rlock :: "'t session \<Rightarrow> 't session option" where
  "rlock s = (if ss_writer s \<or> ss_writer_waiting s then None else Some (s\<lparr>ss_readers := Suc (ss_readers s)\<rparr>))"

definition runlock :: "'t session \<Rightarrow> 't session" where
  "runlock s = s\<lparr>ss_readers := ss_readers s - 1\<rparr>"

definition wlock :: "'t session \<Rightarrow> 't session option" where
  "wlock s = (if ss_writer s \<or> ss_readers s > 0 then None else Some (s\<lparr>ss_writer := True\<rparr>))"

definition wunlock :: "'t session \<Rightarrow> 't session" where
  "wunlock s = s\<lparr>ss_writer := False\<rparr>"

definition lock_free :: "'t session \<Rightarrow> bool" where
  "lock_free s \<longleftrightarrow> ss_readers s = 0 \<and> \<not> ss_writer s \<and> \<not> ss_writer_waiting s"

definition upd_stats :: "(session_stats \<Rightarrow> session_stats) \<Rightarrow> 't session \<Rightarrow> 't session" where
  "upd_stats f s = s\<lparr>ss_stats := map_option f (ss_stats s)\<rparr>"

definition add64 :: "int \<Rightarrow> int \<Rightarrow> int" where "add64 a b = int64 (a + b)"

section \<open>Tables\<close>

definition export_value :: "int \<Rightarrow> gval \<Rightarrow> 't session \<Rightarrow> int result \<times> 't session" where
  "export_value now v s =
     (case wlock s of
        None \<Rightarrow> (Hang, s)
      | Some s1 \<Rightarrow>
          let next = int64 (ss_next_export s1 + 1); i = int32 next;
              entry = \<lparr>ee_value = v, ee_ref_count = 1, ee_is_promise = False, ee_created = now,
                       ee_last_accessed = now\<rparr>;
              s2 = s1\<lparr>ss_next_export := next, ss_exports := gm_put i entry (ss_exports s1)\<rparr>;
              s3 = upd_stats (\<lambda>st. st\<lparr>st_exports_created := add64 (st_exports_created st) 1,
                     st_exports_active := add64 (st_exports_active st) 1\<rparr>) s2
          in (Ok i, wunlock s3))"

definition create_import_stub :: "int \<Rightarrow> int \<Rightarrow> bool \<Rightarrow> 't session \<Rightarrow> gval result \<times> 't session" where
  "create_import_stub now i is_promise s =
     (case wlock s of
        None \<Rightarrow> (Hang, s)
      | Some s1 \<Rightarrow>
          let entry = \<lparr>ie_import_id = i, ie_ref_count = 1, ie_is_promise = is_promise, ie_path = [],
                       ie_created = now, ie_last_accessed = now\<rparr>;
              s2 = s1\<lparr>ss_imports := gm_put i entry (ss_imports s1)\<rparr>;
              s3 = upd_stats (\<lambda>st. st\<lparr>st_imports_created := add64 (st_imports_created st) 1,
                     st_imports_active := add64 (st_imports_active st) 1\<rparr>) s2
          in (Ok (VStub (Some i) None), wunlock s3))"

definition session_protocol :: "int \<Rightarrow> 't session protocol" where
  "session_protocol now = new_protocol (Some (new_serializer (Some (export_value now))))
     (Some (new_deserializer (Some (create_import_stub now))))"

definition new_session :: "'t option \<Rightarrow> session_options list \<Rightarrow> int \<Rightarrow> 't session result" where
  "new_session tr options now =
     (case tr of
        None \<Rightarrow> Err (EMsg ''transport cannot be nil'')
      | Some t \<Rightarrow>
          let opts = (case options of o1 # _ \<Rightarrow> o1 | [] \<Rightarrow> default_session_options)
          in Ok \<lparr>ss_transport = t, ss_exports = [], ss_imports = [], ss_next_export = 0,
                 ss_next_import = 0, ss_readers = 0, ss_writer = False, ss_writer_waiting = False,
                 ss_closed = False, ss_close_err = None, ss_ctx = CtxLive,
                 ss_queue = make_chan (so_message_queue_size opts), ss_responses = [], ss_answered = [],
                 ss_stats = (if so_enable_stats opts then Some \<lparr>st_messages_sent = 0,
                   st_messages_received = 0, st_exports_created = 0, st_imports_created = 0,
                   st_exports_active = 0, st_imports_active = 0, st_calls_started = 0,
                   st_calls_completed = 0, st_calls_failed = 0, st_session_started = now,
                   st_last_activity = now, st_protocol_errors = 0, st_transport_errors = 0\<rparr> else None),
                 ss_options = opts\<rparr>)"

section \<open>Sending\<close>

definition session_send :: "'t env \<Rightarrow> ctx \<Rightarrow> message \<Rightarrow> 't session \<Rightarrow> unit result \<times> 't session" where
  "session_send E c msg s =
     (case rlock s of
        None \<Rightarrow> (Hang, s)
      | Some s1 \<Rightarrow>
          if ss_closed s1 then (Err (EMsg ''session is closed''), runlock s1)
          else case encode_message (en_marshal E) (en_stk E) (session_protocol (en_now E)) msg s1 of
            (Err e, s2) \<Rightarrow>
              (Err (EWrap ''failed to encode message: '' e),
               runlock (upd_stats (\<lambda>st. st\<lparr>st_protocol_errors := add64 (st_protocol_errors st) 1\<rparr>) s2))
          | (Panic, s2) \<Rightarrow> (Panic, runlock s2)
          | (Hang, s2) \<Rightarrow> (Hang, s2)
          | (Ok data, s2) \<Rightarrow>
              (case tr_send (en_ops E) c data (ss_transport s2) of
                 (Err e, t) \<Rightarrow>
                   (Err (EWrap ''failed to send message: '' e),
                    runlock (upd_stats (\<lambda>st. st\<lparr>st_transport_errors := add64 (st_transport_errors st) 1\<rparr>)
                      (s2\<lparr>ss_transport := t\<rparr>)))
               | (Panic, t) \<Rightarrow> (Panic, runlock (s2\<lparr>ss_transport := t\<rparr>))
               | (Hang, t) \<Rightarrow> (Hang, s2\<lparr>ss_transport := t\<rparr>)
               | (Ok _, t) \<Rightarrow>
                   (Ok (), runlock (upd_stats (\<lambda>st. st\<lparr>st_messages_sent := add64 (st_messages_sent st) 1,
                      st_last_activity := en_now E\<rparr>) (s2\<lparr>ss_transport := t\<rparr>)))))"

text \<open>
  \<open>SendRequest\<close> holds a read lock while \<open>Send\<close> takes another; \<open>writer_arrives\<close> says whether some
  goroutine asks for the write lock in between. The promise it returns is given by its export id.
\<close>

definition send_request :: "'t env \<Rightarrow> ctx \<Rightarrow> gval \<Rightarrow> bool \<Rightarrow> 't session \<Rightarrow> int result \<times> 't session" where
  "send_request E c request writer_arrives s =
     (case rlock s of
        None \<Rightarrow> (Hang, s)
      | Some s1 \<Rightarrow>
          if ss_closed s1 then (Err (EMsg ''session is closed''), runlock s1)
          else
            let next = int64 (ss_next_import s1 + 1); i = int32 next;
                s2 = s1\<lparr>ss_next_import := next, ss_writer_waiting := ss_writer_waiting s1 \<or> writer_arrives\<rparr>
            in (case session_send E c [VStr ''push'', request] s2 of
                  (Ok _, s3) \<Rightarrow> (Ok (int32 i), runlock s3)
                | (Err e, s3) \<Rightarrow> (Err (EWrap ''failed to send request: '' e), runlock s3)
                | (Panic, s3) \<Rightarrow> (Panic, runlock s3)
                | (Hang, s3) \<Rightarrow> (Hang, s3)))"

section \<open>Closing\<close>

text \<open>The pending responses' channels are closed one by one; closing a closed one panics.\<close>

definition close_responses :: "(int, response_info chan) gomap
    \<Rightarrow> (goerr, (int, response_info chan) gomap) outcome" where
  "close_responses m =
     (if list_ex (\<lambda>kc. ch_closed (snd kc)) m then Panic
      else Ok (gm_map (\<lambda>_ c. c\<lparr>ch_closed := True\<rparr>) m))"

definition session_close :: "'t env \<Rightarrow> 't session \<Rightarrow> goerr option result \<times> 't session" where
  "session_close E s =
     (case wlock s of
        None \<Rightarrow> (Hang, s)
      | Some s1 \<Rightarrow>
          if ss_closed s1 then (Ok (ss_close_err s1), wunlock s1)
          else
            let s2 = s1\<lparr>ss_closed := True, ss_ctx := CtxCanceled\<rparr>;
                abort = new_abort_message (VStr ''session closed'') None
            in (case encode_message (en_marshal E) (en_stk E) (session_protocol (en_now E)) abort s2 of
                  (Panic, s3) \<Rightarrow> (Panic, wunlock s3)
                | (Hang, s3) \<Rightarrow> (Hang, s3)
                | (enc, s3) \<Rightarrow>
                    let (r, t) = (case enc of
                          Ok data \<Rightarrow> tr_send (en_ops E) (ss_ctx s3) data (ss_transport s3)
                        | _ \<Rightarrow> (Ok (), ss_transport s3))
                    in (case r of
                          Panic \<Rightarrow> (Panic, wunlock (s3\<lparr>ss_transport := t\<rparr>))
                        | Hang \<Rightarrow> (Hang, s3\<lparr>ss_transport := t\<rparr>)
                        | _ \<Rightarrow>
                            let (ce, t') = tr_close (en_ops E) t;
                                s4 = s3\<lparr>ss_transport := t', ss_close_err := ce\<rparr>
                            in (case ch_close (ss_queue s4) :: (goerr, message chan) outcome of
                                  Ok q \<Rightarrow>
                                    (case close_responses (ss_responses s4) of
                                       Ok rs \<Rightarrow>
                                         (Ok ce, wunlock (upd_stats (\<lambda>st. st\<lparr>st_last_activity := en_now E\<rparr>)
                                           (s4\<lparr>ss_queue := q, ss_responses := rs\<rparr>)))
                                     | _ \<Rightarrow> (Panic, wunlock (s4\<lparr>ss_queue := q\<rparr>)))
                                | _ \<Rightarrow> (Panic, wunlock s4)))))"

section \<open>Handlers\<close>

definition handle_push :: "'t env \<Rightarrow> message \<Rightarrow> 't session \<Rightarrow> unit result \<times> 't session" where
  "handle_push E msg s = (Ok (), s)"

text \<open>A send whose error is ignored.\<close>

definition send_ignoring :: "'t env \<Rightarrow> message \<Rightarrow> 't session \<Rightarrow> unit result \<times> 't session" where
  "send_ignoring E msg s =
     (case session_send E CtxLive msg s of
        (Panic, s') \<Rightarrow> (Panic, s') | (Hang, s') \<Rightarrow> (Hang, s') | (_, s') \<Rightarrow> (Ok (), s'))"

definition handle_pull :: "'t env \<Rightarrow> message \<Rightarrow> 't session \<Rightarrow> unit result \<times> 't session" where
  "handle_pull E msg s =
     (if length msg < 2 then (Ok (), s)
      else case msg ! 1 of
        VFloat r \<Rightarrow>
          (case rlock s of
             None \<Rightarrow> (Hang, s)
           | Some s1 \<Rightarrow>
               let i = f64_to_int32 r; entry = gm_get (ss_exports s1) i; s2 = runlock s1
               in (case entry of
                     None \<Rightarrow> send_ignoring E (new_reject_message i (VErr ''export not found: %v'' None)) s2
                   | Some e \<Rightarrow> send_ignoring E (new_resolve_message i (ee_value e)) s2))
      | _ \<Rightarrow> (Ok (), s))"

text \<open>
  Deliver a response to whoever waits for it: a \<open>select\<close> that sends into the channel or, when it is full,
  does nothing; then the entry is deleted. The channel is from then on the waiter's alone;
  \<open>ss_answered\<close> keeps those that have left the table so, with what is in them.
\<close>

definition deliver_response :: "int \<Rightarrow> response_info \<Rightarrow> 't session \<Rightarrow> unit result \<times> 't session" where
  "deliver_response i info s =
     (case rlock s of
        None \<Rightarrow> (Hang, s)
      | Some s1 \<Rightarrow>
          (case gm_get (ss_responses s1) i of
             None \<Rightarrow> (Ok (), runlock s1)
           | Some c \<Rightarrow>
               let sent = (if ch_can_send c then ch_send info c else Ok c :: response_info chan result)
               in (case sent of
                     Ok c' \<Rightarrow> (Ok (), runlock (s1\<lparr>ss_responses := gm_del i (ss_responses s1),
                                             ss_answered := ss_answered s1 @ [(i, c')]\<rparr>))
                   | _ \<Rightarrow> (Panic, s1))))"

definition handle_resolve :: "'t env \<Rightarrow> message \<Rightarrow> 't session \<Rightarrow> unit result \<times> 't session" where
  "handle_resolve E msg s =
     (if length msg < 3 then (Ok (), s)
      else case msg ! 1 of
        VFloat r \<Rightarrow> deliver_response (f64_to_int32 r) \<lparr>ri_value = msg ! 2, ri_error = None\<rparr> s
      | _ \<Rightarrow> (Ok (), s))"

definition handle_reject :: "'t env \<Rightarrow> message \<Rightarrow> 't session \<Rightarrow> unit result \<times> 't session" where
  "handle_reject E msg s =
     (if length msg < 3 then (Ok (), s)
      else case msg ! 1 of
        VFloat r \<Rightarrow>
          deliver_response (f64_to_int32 r)
            \<lparr>ri_value = VNil, ri_error = Some (case msg ! 2 of VStr t \<Rightarrow> EMsg t | _ \<Rightarrow> EMsg ''RPC error: %v'')\<rparr> s
      | _ \<Rightarrow> (Ok (), s))"

definition handle_release :: "'t env \<Rightarrow> message \<Rightarrow> 't session \<Rightarrow> unit result \<times> 't session" where
  "handle_release E msg s =
     (if length msg < 3 then (Ok (), s)
      else case msg ! 1 of
        VFloat r \<Rightarrow>
          let n = (case msg ! 2 of VFloat k \<Rightarrow> k | _ \<Rightarrow> 1); i = f64_to_int32 r
          in (case wlock s of
                None \<Rightarrow> (Hang, s)
              | Some s1 \<Rightarrow>
                  (case gm_get (ss_exports s1) i of
                     None \<Rightarrow> (Ok (), wunlock s1)
                   | Some e \<Rightarrow>
                       let rc = int32 (ee_ref_count e - f64_to_int32 n);
                           s2 = s1\<lparr>ss_exports := gm_put i (e\<lparr>ee_ref_count := rc\<rparr>) (ss_exports s1)\<rparr>
                       in if rc \<le> 0 then
                            (Ok (), wunlock (upd_stats (\<lambda>st. st\<lparr>st_exports_active := add64 (st_exports_active st) (- 1)\<rparr>)
                               (s2\<lparr>ss_exports := gm_del i (ss_exports s2)\<rparr>)))
                          else (Ok (), wunlock s2)))
      | _ \<Rightarrow> (Ok (), s))"

definition handle_abort :: "'t env \<Rightarrow> message \<Rightarrow> 't session \<Rightarrow> unit result \<times> 't session" where
  "handle_abort E msg s =
     (if length msg < 2 then (Ok (), s)
      else case wlock s of
        None \<Rightarrow> (Hang, s)
      | Some s1 \<Rightarrow>
          if ss_closed s1 then (Ok (), wunlock s1)
          else (Ok (), wunlock (s1\<lparr>ss_closed := True, ss_close_err := Some (EMsg ''session aborted: %v''),
                                  ss_ctx := CtxCanceled\<rparr>)))"

definition handle_message :: "'t env \<Rightarrow> message \<Rightarrow> 't session \<Rightarrow> unit result \<times> 't session" where
  "handle_message E msg s =
     (if length msg = 0 then (Ok (), s)
      else case msg ! 0 of
        VStr t \<Rightarrow>
          (case message_type_of t of
             Some MtPush \<Rightarrow> handle_push E msg s
           | Some MtPull \<Rightarrow> handle_pull E msg s
           | Some MtResolve \<Rightarrow> handle_resolve E msg s
           | Some MtReject \<Rightarrow> handle_reject E msg s
           | Some MtRelease \<Rightarrow> handle_release E msg s
           | Some MtAbort \<Rightarrow> handle_abort E msg s
           | None \<Rightarrow> (Ok (), s))
      | _ \<Rightarrow> (Panic, s))"

text \<open>One round of \<open>messageLoop\<close>; the answer is whether the loop ends.\<close>

datatype loop_case = LcDone | LcQueue

definition message_loop_step :: "'t env \<Rightarrow> nat \<Rightarrow> 't session \<Rightarrow> bool result \<times> 't session" where
  "message_loop_step E pick s =
     (let handle = (\<lambda>msg s. case handle_message E msg s of
            (Ok _, s') \<Rightarrow> (Ok False, s') | (Err e, s') \<Rightarrow> (Err e, s') | (Panic, s') \<Rightarrow> (Panic, s')
          | (Hang, s') \<Rightarrow> (Hang, s'))
      in case go_select pick [(ctx_done (ss_ctx s), LcDone), (ch_can_recv (ss_queue s), LcQueue)] of
        Some LcDone \<Rightarrow> (Ok True, s)
      | Some LcQueue \<Rightarrow>
          (case ch_recv (ss_queue s) of
             (None, q) \<Rightarrow> (Ok True, s\<lparr>ss_queue := q\<rparr>)
           | (Some msg, q) \<Rightarrow> handle msg (s\<lparr>ss_queue := q\<rparr>))
      | None \<Rightarrow>
          (case tr_receive (en_ops E) (ss_ctx s) (ss_transport s) of
             (Err e, t) \<Rightarrow>
               if ctx_done (ss_ctx s) then (Ok True, s\<lparr>ss_transport := t\<rparr>)
               else (Ok False, upd_stats (\<lambda>st. st\<lparr>st_transport_errors := add64 (st_transport_errors st) 1\<rparr>)
                      (s\<lparr>ss_transport := t\<rparr>))
           | (Panic, t) \<Rightarrow> (Panic, s\<lparr>ss_transport := t\<rparr>)
           | (Hang, t) \<Rightarrow> (Hang, s\<lparr>ss_transport := t\<rparr>)
           | (Ok data, t) \<Rightarrow>
               (case decode_message (en_unmarshal E) (session_protocol (en_now E)) data (s\<lparr>ss_transport := t\<rparr>) of
                  (Err e, s2) \<Rightarrow>
                    (Ok False, upd_stats (\<lambda>st. st\<lparr>st_protocol_errors := add64 (st_protocol_errors st) 1\<rparr>) s2)
                | (Panic, s2) \<Rightarrow> (Panic, s2)
                | (Hang, s2) \<Rightarrow> (Hang, s2)
                | (Ok msg, s2) \<Rightarrow>
                    handle msg (upd_stats (\<lambda>st. st\<lparr>st_messages_received := add64 (st_messages_received st) 1,
                      st_last_activity := en_now E\<rparr>) s2))))"

definition get_stats :: "'t session \<Rightarrow> session_stats option result" where
  "get_stats s = (case rlock s of None \<Rightarrow> Hang | Some s1 \<Rightarrow> Ok (ss_stats s1))"

definition is_closed :: "'t session \<Rightarrow> bool result" where
  "is_closed s = (case rlock s of None \<Rightarrow> Hang | Some s1 \<Rightarrow> Ok (ss_closed s1))"

section \<open>Sending under the read lock\<close>

lemma export_value_blocked: "0 < ss_readers s \<Longrightarrow> export_value now v s = (Hang, s)"
  by (simp add: export_value_def wlock_def)

lemma serialize_session_same:
  "0 < ss_readers s \<Longrightarrow> snd (serialize stk (new_serializer (Some (export_value now))) v s) = s"
  unfolding serialize_def
  by (rule serialize_blocked_same [where ef = "export_value now"])
    (simp_all add: new_serializer_def export_value_blocked)

lemma encode_session_same:
  assumes "0 < ss_readers s"
  shows "snd (encode_message mar stk (session_protocol now) msg s) = s"
proof -
  have "snd (convert_args ctx (serialize stk (new_serializer (Some (export_value now)))) args s) = s"
    for ctx args
    by (rule convert_args_keeps [where P = "\<lambda>t. t = s"]) (use assms serialize_session_same in auto)
  then show ?thesis
    unfolding encode_message_def session_protocol_def new_protocol_def
    by (auto split: list.split prod.split outcome.split) (metis snd_conv)+
qed

lemma encode_session_refs:
  assumes "0 < ss_readers s" and "is_ok (fst (encode_message mar stk (session_protocol now) (ty # args) s))"
    and "a \<in> set args"
  shows "refs a = []"
proof -
  let ?S = "new_serializer (Some (export_value now))"
  have "is_ok (fst (convert_args ''failed to serialize message argument %d: '' (serialize stk ?S) args s))"
    using assms(2) unfolding encode_message_def session_protocol_def new_protocol_def
    by (auto split: prod.splits outcome.splits)
  from convert_args_Ok_each [OF serialize_session_same [OF assms(1)] this assms(3)]
  have "a = VNil \<or> is_ok (fst (serialize stk ?S a s))" .
  then show ?thesis
    using is_ok_bind_refs [of stk ?S a s "export_value now"] export_value_blocked [OF assms(1)]
    by (auto simp: new_serializer_def refs.simps)
qed

text \<open>What \<open>Send\<close> leaves alone, whatever it answers.\<close>

definition same_core :: "'t session \<Rightarrow> 't session \<Rightarrow> bool" where
  "same_core s s' \<longleftrightarrow>
     ss_exports s' = ss_exports s \<and> ss_imports s' = ss_imports s
     \<and> ss_next_export s' = ss_next_export s \<and> ss_next_import s' = ss_next_import s
     \<and> ss_closed s' = ss_closed s \<and> ss_close_err s' = ss_close_err s \<and> ss_ctx s' = ss_ctx s
     \<and> ss_queue s' = ss_queue s \<and> ss_responses s' = ss_responses s
     \<and> map_option st_exports_active (ss_stats s') = map_option st_exports_active (ss_stats s)"

lemma same_core_refl [simp]: "same_core s s"
  by (simp add: same_core_def)

lemma same_core_trans: "same_core s s' \<Longrightarrow> same_core s' s'' \<Longrightarrow> same_core s s''"
  by (simp add: same_core_def)

lemma same_core_updates [simp]:
  "same_core s (runlock s') = same_core s s'" "same_core s (wunlock s') = same_core s s'"
  "same_core s (s'\<lparr>ss_transport := t\<rparr>) = same_core s s'"
  "same_core s (upd_stats (\<lambda>st. st\<lparr>st_protocol_errors := f1 st\<rparr>) s') = same_core s s'"
  "same_core s (upd_stats (\<lambda>st. st\<lparr>st_transport_errors := f1 st\<rparr>) s') = same_core s s'"
  "same_core s (upd_stats (\<lambda>st. st\<lparr>st_messages_sent := f1 st, st_last_activity := f2 st\<rparr>) s') = same_core s s'"
  "same_core s (upd_stats (\<lambda>st. st\<lparr>st_messages_received := f1 st, st_last_activity := f2 st\<rparr>) s') = same_core s s'"
  "same_core s (upd_stats (\<lambda>st. st\<lparr>st_last_activity := f2 st\<rparr>) s') = same_core s s'"
  "same_core s (s'\<lparr>ss_readers := n\<rparr>) = same_core s s'"
  "same_core s (s'\<lparr>ss_writer_waiting := b\<rparr>) = same_core s s'"
  by (simp_all add: same_core_def runlock_def wunlock_def upd_stats_def option.map_comp comp_def)

lemma rlock_Some: "rlock s = Some s1 \<longleftrightarrow> \<not> ss_writer s \<and> \<not> ss_writer_waiting s
    \<and> s1 = s\<lparr>ss_readers := Suc (ss_readers s)\<rparr>"
  by (auto simp: rlock_def)

lemma wlock_Some: "wlock s = Some s1 \<longleftrightarrow> \<not> ss_writer s \<and> ss_readers s = 0 \<and> s1 = s\<lparr>ss_writer := True\<rparr>"
  by (auto simp: wlock_def)

lemma session_send_same_core: "same_core s (snd (session_send E c msg s))"
proof (cases "rlock s")
  case (Some s1)
  then have s1: "s1 = s\<lparr>ss_readers := Suc (ss_readers s)\<rparr>" by (simp add: rlock_Some)
  then have "snd (encode_message (en_marshal E) (en_stk E) (session_protocol (en_now E)) msg s1) = s1"
    by (intro encode_session_same) simp
  then show ?thesis
    using Some s1
    by (auto simp: session_send_def split: prod.splits outcome.splits)
qed (simp add: session_send_def)

text \<open>The transport after \<open>Send\<close>: untouched, or what \<open>tr_send\<close> made of it; and a success sent.\<close>

lemma session_send_transport:
  "(ss_transport (snd (session_send E c msg s)) = ss_transport s \<and> \<not> is_ok (fst (session_send E c msg s)))
   \<or> (\<not> ss_closed s \<and> (\<exists>data. ss_transport (snd (session_send E c msg s)) = snd (tr_send (en_ops E) c data (ss_transport s))
      \<and> (is_ok (fst (session_send E c msg s)) \<longleftrightarrow> is_ok (fst (tr_send (en_ops E) c data (ss_transport s))))))"
proof (cases "rlock s")
  case (Some s1)
  then have s1: "s1 = s\<lparr>ss_readers := Suc (ss_readers s)\<rparr>" by (simp add: rlock_Some)
  then have "snd (encode_message (en_marshal E) (en_stk E) (session_protocol (en_now E)) msg s1) = s1"
    by (intro encode_session_same) simp
  then obtain r where enc: "encode_message (en_marshal E) (en_stk E) (session_protocol (en_now E)) msg s1
      = (r, s1)" by (metis prod.collapse)
  show ?thesis
  proof (cases "ss_closed s")
    case True
    with Some s1 show ?thesis by (simp add: session_send_def runlock_def)
  next
    case False
    show ?thesis
    proof (cases r)
      case (Ok data)
      obtain q t where q: "tr_send (en_ops E) c data (ss_transport s) = (q, t)" by force
      have "ss_transport (snd (session_send E c msg s)) = t \<and> is_ok (fst (session_send E c msg s)) = is_ok q"
        using Some s1 enc False Ok q
        by (cases q) (simp_all add: session_send_def runlock_def upd_stats_def)
      with False q show ?thesis by (intro disjI2 conjI exI [where x = data]) simp_all
    qed (use Some s1 enc False in \<open>simp_all add: session_send_def runlock_def upd_stats_def\<close>)
  qed
qed (simp add: session_send_def)

section \<open>The export table\<close>

definition tables_ok :: "'t session \<Rightarrow> bool" where
  "tables_ok s \<longleftrightarrow>
     gm_wf (ss_exports s) \<and> 0 \<le> ss_next_export s
     \<and> (\<forall>i e. gm_get (ss_exports s) i = Some e \<longrightarrow> 1 \<le> i \<and> i \<le> ss_next_export s \<and> 0 < ee_ref_count e)
     \<and> map_option st_exports_active (ss_stats s) \<in> {None, Some (int64 (int (length (ss_exports s))))}"

definition tables_at :: "int \<Rightarrow> 't session \<Rightarrow> bool" where
  "tables_at n s \<longleftrightarrow> tables_ok s \<and> ss_next_export s = n"

lemma tables_at_same_core: "same_core s s' \<Longrightarrow> tables_at n s \<Longrightarrow> tables_at n s'"
  by (auto simp: tables_at_def tables_ok_def same_core_def)

definition fresh_entry :: "int \<Rightarrow> gval \<Rightarrow> export_entry" where
  "fresh_entry now v = \<lparr>ee_value = v, ee_ref_count = 1, ee_is_promise = False, ee_created = now,
     ee_last_accessed = now\<rparr>"

definition count_export :: "session_stats \<Rightarrow> session_stats" where
  "count_export st = st\<lparr>st_exports_created := add64 (st_exports_created st) 1,
     st_exports_active := add64 (st_exports_active st) 1\<rparr>"

lemma export_value_open:
  assumes "ss_readers s = 0" and "\<not> ss_writer s"
  shows "export_value now v s =
    (Ok (int32 (ss_next_export s + 1)),
     upd_stats count_export (s\<lparr>ss_next_export := int64 (ss_next_export s + 1),
       ss_exports := gm_put (int32 (ss_next_export s + 1)) (fresh_entry now v) (ss_exports s)\<rparr>))"
  using assms by (cases s) (simp add: export_value_def wlock_def upd_stats_def wunlock_def Let_def
      fresh_entry_def count_export_def [abs_def])

lemma export_value_locked:
  "\<not> (ss_readers s = 0 \<and> \<not> ss_writer s) \<Longrightarrow> export_value now v s = (Hang, s)"
  by (auto simp: export_value_def wlock_def)

lemma tables_ok_export:
  assumes "tables_ok s" and "ss_next_export s < 2147483647"
  shows "tables_ok (snd (export_value now v s))
    \<and> ss_next_export (snd (export_value now v s)) \<le> ss_next_export s + 1"
proof (cases "ss_readers s = 0 \<and> \<not> ss_writer s")
  case True
  let ?n = "ss_next_export s"
  have n: "int64 (?n + 1) = ?n + 1" "int32 (?n + 1) = ?n + 1"
    using assms by (simp_all add: tables_ok_def int64_id int32_id)
  have "gm_get (ss_exports s) (?n + 1) = None"
    using assms(1) by (cases "gm_get (ss_exports s) (?n + 1)") (fastforce simp: tables_ok_def)+
  then have len: "length (gm_put (?n + 1) e (ss_exports s)) = Suc (length (ss_exports s))" for e
    by (simp add: length_gm_put)
  have "ee_ref_count (fresh_entry now v) = 1" by (simp add: fresh_entry_def)
  moreover have "1 \<le> i \<and> i \<le> ?n + 1 \<and> 0 < ee_ref_count e"
    if "gm_get (ss_exports s) i = Some e" for i e
    using assms(1) that by (fastforce simp: tables_ok_def)
  ultimately show ?thesis
    using assms True n len
    by (auto simp: export_value_open tables_ok_def upd_stats_def count_export_def add64_def
        add.commute [of 1 "int k" for k])
qed (use assms in \<open>simp add: export_value_locked\<close>)

lemma tables_at_import: "tables_at n s \<Longrightarrow> tables_at n (snd (create_import_stub now i b s))"
  by (auto simp: create_import_stub_def tables_at_def tables_ok_def wlock_def upd_stats_def wunlock_def Let_def)

interpretation session_import: state_keeping "tables_at n" None "Some (create_import_stub now)"
  by unfold_locales (auto simp: tables_at_import)

text \<open>Decoding reaches the session only through \<open>create_import_stub\<close>.\<close>

lemma decode_session_keeps:
  assumes "\<And>i b s. P s \<Longrightarrow> P (snd (create_import_stub now i b s))" and "P s"
  shows "P (snd (decode_message u (session_protocol now) data s))"
proof -
  let ?D = "new_deserializer (Some (create_import_stub now)) :: 'a session deserializer"
  have "state_keeping P None (Some (create_import_stub now))"
    by unfold_locales (use assms(1) in auto)
  then have "P (snd (deserialize_value ?D v t))" if "P t" for v t
    by (rule state_keeping.deserialize_keeps(1)) (use that in \<open>simp_all add: new_deserializer_def \<open>state_keeping P None (Some (create_import_stub now))\<close>\<close>)
  then have "P (snd (convert_args ctx (deserialize_value ?D) args t))" if "P t" for ctx args t
    using that by (rule convert_args_keeps)
  from this [OF assms(2)] assms(2) show ?thesis
    unfolding decode_message_def session_protocol_def new_protocol_def
    by (auto split: outcome.split option.split prod.split) (metis snd_conv)+
qed

lemma send_ignoring_same_core: "same_core s (snd (send_ignoring E msg s))"
  using session_send_same_core [of s E CtxLive msg]
  by (auto simp: send_ignoring_def split: prod.splits outcome.splits)

lemma handle_pull_same_core: "same_core s (snd (handle_pull E msg s))"
proof -
  have "same_core s (snd (send_ignoring E m (runlock s1)))" if "rlock s = Some s1" for m s1
    by (rule same_core_trans [OF _ send_ignoring_same_core]) (use that in \<open>simp add: rlock_Some\<close>)
  then show ?thesis
    by (auto simp: handle_pull_def Let_def split: gval.split option.split)
qed

lemma tables_at_core_fields:
  "tables_at n (s\<lparr>ss_responses := r\<rparr>) = tables_at n s" "tables_at n (s\<lparr>ss_readers := k\<rparr>) = tables_at n s"
  "tables_at n (s\<lparr>ss_writer := w\<rparr>) = tables_at n s" "tables_at n (s\<lparr>ss_closed := c\<rparr>) = tables_at n s"
  "tables_at n (s\<lparr>ss_answered := an\<rparr>) = tables_at n s"
  "tables_at n (s\<lparr>ss_close_err := ce\<rparr>) = tables_at n s" "tables_at n (s\<lparr>ss_ctx := cx\<rparr>) = tables_at n s"
  "tables_at n (s\<lparr>ss_transport := t\<rparr>) = tables_at n s" "tables_at n (s\<lparr>ss_queue := q\<rparr>) = tables_at n s"
  "tables_at n (s\<lparr>ss_next_import := j\<rparr>) = tables_at n s"
  "tables_at n (s\<lparr>ss_writer_waiting := ww\<rparr>) = tables_at n s"
  "tables_at n (wunlock s) = tables_at n s" "tables_at n (runlock s) = tables_at n s"
  by (simp_all add: tables_at_def tables_ok_def wunlock_def runlock_def)

lemma tables_at_put:
  assumes "tables_at n s" and "gm_get (ss_exports s) i = Some e" and "0 < rc"
  shows "tables_at n (s\<lparr>ss_exports := gm_put i (e\<lparr>ee_ref_count := rc\<rparr>) (ss_exports s)\<rparr>)"
  using assms by (auto simp: tables_at_def tables_ok_def length_gm_put)

lemma tables_at_del:
  assumes "tables_at n s" and "gm_get (ss_exports s) i = Some e"
  shows "tables_at n (upd_stats (\<lambda>st. st\<lparr>st_exports_active := add64 (st_exports_active st) (- 1)\<rparr>)
           (s\<lparr>ss_exports := gm_del i (ss_exports s)\<rparr>))"
proof -
  have "Suc (length (gm_del i (ss_exports s))) = length (ss_exports s)"
    using assms by (intro length_gm_del) (simp_all add: tables_at_def tables_ok_def)
  then have "int (length (ss_exports s)) - 1 = int (length (gm_del i (ss_exports s)))" by simp
  with assms show ?thesis
    by (auto simp: tables_at_def tables_ok_def upd_stats_def add64_def)
qed

lemma tables_at_release: 
  assumes "tables_at n s"
  shows "tables_at n (snd (handle_release E msg s))"
proof (cases "length msg < 3 \<or> \<not> (\<exists>r. msg ! 1 = VFloat r) \<or> wlock s = None")
  case True
  with assms show ?thesis by (cases "msg ! 1") (auto simp: handle_release_def Let_def)
next
  case False
  then obtain r s1 where m: "\<not> length msg < 3" "msg ! 1 = VFloat r" "wlock s = Some s1" by auto
  then have s1: "tables_at n s1" using assms by (simp add: wlock_Some tables_at_core_fields)
  show ?thesis
  proof (cases "gm_get (ss_exports s1) (f64_to_int32 r)")
    case None
    with m s1 show ?thesis by (simp add: handle_release_def tables_at_core_fields)
  next
    case (Some e)
    let ?rc = "int32 (ee_ref_count e - f64_to_int32 (case msg ! 2 of VFloat k \<Rightarrow> k | _ \<Rightarrow> 1))"
    show ?thesis
    proof (cases "?rc \<le> 0")
      case True
      with m Some s1 tables_at_del [OF s1 Some] show ?thesis
        by (simp add: handle_release_def tables_at_core_fields gm_del_put Let_def)
    next
      case False
      with m Some tables_at_put [OF s1 Some, of ?rc] show ?thesis
        by (simp add: handle_release_def tables_at_core_fields Let_def)
    qed
  qed
qed

lemma tables_at_handle_message:
  assumes "tables_at n s"
  shows "tables_at n (snd (handle_message E msg s))"
proof -
  have rl: "tables_at n s1" if "rlock s = Some s1" for s1
    using that assms by (simp add: rlock_Some tables_at_core_fields)
  have wl: "tables_at n s1" if "wlock s = Some s1" for s1
    using that assms by (simp add: wlock_Some tables_at_core_fields)
  have pull: "tables_at n (snd (handle_pull E msg s))"
    using handle_pull_same_core assms by (rule tables_at_same_core)
  have deliver: "tables_at n (snd (deliver_response i info s))" for i info
    using assms rl by (auto simp: deliver_response_def ch_send_def tables_at_core_fields split: option.split)
  have abort: "tables_at n (snd (handle_abort E msg s))"
    using assms wl by (auto simp: handle_abort_def tables_at_core_fields split: option.split)
  show ?thesis
    using assms pull deliver abort tables_at_release [OF assms]
    by (auto simp: handle_message_def handle_push_def handle_resolve_def handle_reject_def
        split: gval.split option.split message_type.split)
qed

lemma tables_at_stats [simp]:
  "tables_at n (upd_stats (\<lambda>st. st\<lparr>st_protocol_errors := f1 st\<rparr>) s) = tables_at n s"
  "tables_at n (upd_stats (\<lambda>st. st\<lparr>st_transport_errors := f1 st\<rparr>) s) = tables_at n s"
  "tables_at n (upd_stats (\<lambda>st. st\<lparr>st_messages_received := f1 st, st_last_activity := f2 st\<rparr>) s) = tables_at n s"
  "tables_at n (upd_stats (\<lambda>st. st\<lparr>st_last_activity := f2 st\<rparr>) s) = tables_at n s"
  by (simp_all add: tables_at_def tables_ok_def upd_stats_def option.map_comp comp_def)

section \<open>Histories\<close>

text \<open>
  What the application and the message loop do to a session, one call at a time; each step has its
  own environment (clock, JSON behaviour, transport choices).
\<close>

datatype session_event =
    EvExport gval
  | EvSend ctx message
  | EvRequest ctx gval bool
  | EvLoop nat
  | EvClose

definition session_step :: "'t env \<times> session_event \<Rightarrow> 't session \<Rightarrow> 't session" where
  "session_step ev s =
     (let E = fst ev
      in case snd ev of
        EvExport v \<Rightarrow> snd (export_value (en_now E) v s)
      | EvSend c msg \<Rightarrow> snd (session_send E c msg s)
      | EvRequest c v w \<Rightarrow> snd (send_request E c v w s)
      | EvLoop pick \<Rightarrow> snd (message_loop_step E pick s)
      | EvClose \<Rightarrow> snd (session_close E s))"

definition session_run :: "('t env \<times> session_event) list \<Rightarrow> 't session \<Rightarrow> 't session" where
  "session_run evs s = fold session_step evs s"

lemma send_request_core:
  "ss_exports (snd (send_request E c v w s)) = ss_exports s
   \<and> ss_next_export (snd (send_request E c v w s)) = ss_next_export s
   \<and> ss_closed (snd (send_request E c v w s)) = ss_closed s
   \<and> ss_ctx (snd (send_request E c v w s)) = ss_ctx s
   \<and> ss_queue (snd (send_request E c v w s)) = ss_queue s
   \<and> ss_responses (snd (send_request E c v w s)) = ss_responses s
   \<and> map_option st_exports_active (ss_stats (snd (send_request E c v w s)))
     = map_option st_exports_active (ss_stats s)"
proof (cases "rlock s")
  case (Some s1)
  let ?s2 = "s1\<lparr>ss_next_import := int64 (ss_next_import s1 + 1),
     ss_writer_waiting := ss_writer_waiting s1 \<or> w\<rparr>"
  obtain r s3 where send: "session_send E c [VStr ''push'', v] ?s2 = (r, s3)" by force
  then have "same_core ?s2 s3" using session_send_same_core [of ?s2 E c] by (metis snd_conv)
  then have core: "same_core (s\<lparr>ss_next_import := int64 (ss_next_import s + 1)\<rparr>) s3"
    using Some by (auto simp: same_core_def rlock_Some)
  have "same_core s s1" using Some by (auto simp: rlock_Some)
  with Some send core show ?thesis
    by (cases r) (auto simp: send_request_def Let_def same_core_def runlock_def)
qed (simp add: send_request_def)

lemma tables_at_send_request: "tables_at n s \<Longrightarrow> tables_at n (snd (send_request E c v w s))"
  using send_request_core [of E c v w s] by (auto simp: tables_at_def tables_ok_def)

lemma tables_at_loop:
  assumes "tables_at n s"
  shows "tables_at n (snd (message_loop_step E pick s))"
proof -
  let ?h = "\<lambda>msg s. case handle_message E msg s of
      (Ok _, s') \<Rightarrow> (Ok False, s') | (Err e, s') \<Rightarrow> (Err e, s') | (Panic, s') \<Rightarrow> (Panic, s')
    | (Hang, s') \<Rightarrow> (Hang :: bool result, s')"
  have h: "tables_at n (snd (?h msg t))" if "tables_at n t" for msg t
    using tables_at_handle_message [OF that, of E msg] by (auto split: prod.split outcome.split)
  have d: "tables_at n s2"
    if "decode_message (en_unmarshal E) (session_protocol (en_now E)) data (s\<lparr>ss_transport := t\<rparr>) = (r, s2)"
    for data t r s2
    using decode_session_keeps [where P = "tables_at n", OF tables_at_import,
        of "s\<lparr>ss_transport := t\<rparr>" "en_unmarshal E" "en_now E" data]
      assms that by (simp add: tables_at_core_fields)
  show ?thesis
    using assms h d
    by (auto simp: message_loop_step_def Let_def tables_at_core_fields
        split: option.split loop_case.split prod.split outcome.split)
qed

text \<open>The farewell message of \<open>Close\<close> holds no reference, so encoding it changes nothing.\<close>

lemma encode_abort_same:
  "snd (encode_message mar stk (session_protocol now) (new_abort_message (VStr t) c) s) = s"
proof -
  have "serialize stk (new_serializer ef) (VStr t) s = (Ok (VStr t), s)" for ef :: "(gval \<Rightarrow> 'a session \<Rightarrow> int result \<times> 'a session) option"
    by (simp add: serialize_def serialize_with_depth.simps serialize_leaf_def new_serializer_def)
  then show ?thesis
    by (simp add: encode_message_def session_protocol_def new_protocol_def new_abort_message_def
        split: outcome.split)
qed

text \<open>\<open>Close\<close> on an open session: closed, cancelled, and nothing else of the tables.\<close>

definition close_core :: "'t session \<Rightarrow> 't session \<Rightarrow> bool" where
  "close_core s s' \<longleftrightarrow>
     ss_exports s' = ss_exports s \<and> ss_next_export s' = ss_next_export s
     \<and> (ss_closed s \<longrightarrow> ss_closed s' \<and> ss_transport s' = ss_transport s)
     \<and> (ss_ctx s \<noteq> CtxLive \<longrightarrow> ss_ctx s' \<noteq> CtxLive)
     \<and> (ss_responses s = [] \<longrightarrow> ss_responses s' = [])
     \<and> map_option st_exports_active (ss_stats s') = map_option st_exports_active (ss_stats s)"

lemma session_close_core: "close_core s (snd (session_close E s))"
proof (cases "wlock s")
  case (Some s1)
  have s1: "s1 = s\<lparr>ss_writer := True\<rparr>" using Some by (simp add: wlock_Some)
  show ?thesis
  proof (cases "ss_closed s")
    case True
    with Some s1 show ?thesis by (simp add: session_close_def close_core_def wunlock_def)
  next
    case False
    let ?s2 = "s1\<lparr>ss_closed := True, ss_ctx := CtxCanceled\<rparr>"
    obtain enc where enc: "encode_message (en_marshal E) (en_stk E) (session_protocol (en_now E))
        (new_abort_message (VStr ''session closed'') None) ?s2 = (enc, ?s2)"
      using encode_abort_same [of "en_marshal E" "en_stk E" "en_now E" "''session closed''" None ?s2]
      by (metis prod.collapse)
    show ?thesis
      using Some s1 False enc
      by (auto simp: session_close_def close_core_def wunlock_def upd_stats_def close_responses_def
          gm_map_def option.map_comp comp_def Let_def split: outcome.splits prod.splits)
  qed
qed (simp add: session_close_def close_core_def)

lemma tables_at_close: "tables_at n s \<Longrightarrow> tables_at n (snd (session_close E s))"
  using session_close_core [of s E] by (auto simp: close_core_def tables_at_def tables_ok_def)

lemma tables_ok_step:
  assumes "tables_ok s" and "ss_next_export s < 2147483647"
  shows "tables_ok (session_step ev s) \<and> ss_next_export (session_step ev s) \<le> ss_next_export s + 1"
proof (cases "snd ev")
  case (EvExport v)
  with assms show ?thesis by (simp add: session_step_def tables_ok_export Let_def)
next
  case (EvSend c msg)
  have "tables_at (ss_next_export s) (snd (session_send (fst ev) c msg s))"
    using session_send_same_core by (rule tables_at_same_core) (use assms in \<open>simp add: tables_at_def\<close>)
  with EvSend show ?thesis by (simp add: session_step_def tables_at_def Let_def)
next
  case (EvRequest c v w)
  with tables_at_send_request [of "ss_next_export s" s "fst ev" c v w] assms show ?thesis
    by (simp add: session_step_def tables_at_def Let_def)
next
  case (EvLoop pick)
  with tables_at_loop [of "ss_next_export s" s "fst ev" pick] assms show ?thesis
    by (simp add: session_step_def tables_at_def Let_def)
next
  case EvClose
  with tables_at_close [of "ss_next_export s" s "fst ev"] assms show ?thesis
    by (simp add: session_step_def tables_at_def Let_def)
qed

lemma tables_ok_run:
  assumes "tables_ok s" and "ss_next_export s + int (length evs) < 2147483648"
  shows "tables_ok (session_run evs s) \<and> ss_next_export (session_run evs s) \<le> ss_next_export s + int (length evs)"
  using assms
proof (induction evs arbitrary: s)
  case (Cons ev evs)
  then have step: "tables_ok (session_step ev s)" "ss_next_export (session_step ev s) \<le> ss_next_export s + 1"
    using tables_ok_step [of s ev] by auto
  with Cons.prems have "ss_next_export (session_step ev s) + int (length evs) < 2147483648" by simp
  from Cons.IH [OF step(1) this] step(2) show ?case by (simp add: session_run_def)
qed (simp add: session_run_def)

section \<open>Nobody waits, and a closed session stays silent\<close>

definition idle_inv :: "'t session \<Rightarrow> bool" where
  "idle_inv s \<longleftrightarrow> ss_responses s = [] \<and> ch_buf (ss_queue s) = [] \<and> (ch_closed (ss_queue s) \<longrightarrow> ss_closed s)"

text \<open>Closed, cancelled, with the transport \<open>t\<close>.\<close>

definition frozen :: "'t \<Rightarrow> 't session \<Rightarrow> bool" where
  "frozen t s \<longleftrightarrow> ss_closed s \<and> ss_ctx s \<noteq> CtxLive \<and> ss_transport s = t"

lemma import_stub_keeps:
  "idle_inv s \<Longrightarrow> idle_inv (snd (create_import_stub now i b s))"
  "frozen t s \<Longrightarrow> frozen t (snd (create_import_stub now i b s))"
  by (auto simp: create_import_stub_def idle_inv_def frozen_def wlock_def upd_stats_def wunlock_def Let_def)

lemma session_send_frozen: "frozen t s \<Longrightarrow> frozen t (snd (session_send E c msg s))"
  using session_send_same_core [of s E c msg] session_send_transport [of E c msg s]
  by (auto simp: frozen_def same_core_def)

lemma same_core_idle: "same_core s s' \<Longrightarrow> idle_inv s \<Longrightarrow> idle_inv s'"
  by (auto simp: same_core_def idle_inv_def)

lemma send_ignoring_frozen: "frozen t s \<Longrightarrow> frozen t (snd (send_ignoring E msg s))"
  using session_send_frozen [of t s E CtxLive msg]
  by (auto simp: send_ignoring_def split: prod.splits outcome.splits)

lemma locks_keep [simp]:
  "idle_inv (runlock s) = idle_inv s" "idle_inv (wunlock s) = idle_inv s"
  "frozen t (runlock s) = frozen t s" "frozen t (wunlock s) = frozen t s"
  "idle_inv (upd_stats f s) = idle_inv s" "frozen t (upd_stats f s) = frozen t s"
  "idle_inv (s\<lparr>ss_transport := u\<rparr>) = idle_inv s" "idle_inv (s\<lparr>ss_exports := x\<rparr>) = idle_inv s"
  "frozen t (s\<lparr>ss_exports := x\<rparr>) = frozen t s"
  "idle_inv (s\<lparr>ss_readers := n\<rparr>) = idle_inv s" "frozen t (s\<lparr>ss_readers := n\<rparr>) = frozen t s"
  "idle_inv (s\<lparr>ss_writer := w\<rparr>) = idle_inv s" "frozen t (s\<lparr>ss_writer := w\<rparr>) = frozen t s"
  by (simp_all add: idle_inv_def frozen_def runlock_def wunlock_def upd_stats_def)

lemma rlock_keeps:
  "rlock s = Some s1 \<Longrightarrow> idle_inv s \<Longrightarrow> idle_inv s1" "rlock s = Some s1 \<Longrightarrow> frozen t s \<Longrightarrow> frozen t s1"
  by (auto simp: rlock_Some)

lemma wlock_keeps:
  "wlock s = Some s1 \<Longrightarrow> idle_inv s \<Longrightarrow> idle_inv s1" "wlock s = Some s1 \<Longrightarrow> frozen t s \<Longrightarrow> frozen t s1"
  by (auto simp: wlock_Some)

lemma deliver_response_keeps:
  "idle_inv s \<Longrightarrow> idle_inv (snd (deliver_response i info s))"
  "frozen t s \<Longrightarrow> frozen t (snd (deliver_response i info s))"
  by (auto simp: deliver_response_def ch_send_def idle_inv_def frozen_def rlock_def runlock_def split: option.splits)

lemma handle_release_cases:
  "snd (handle_release E msg s) = s
   \<or> (\<exists>s1 x f. wlock s = Some s1 \<and> snd (handle_release E msg s)
        \<in> {wunlock s1, wunlock (upd_stats f (s1\<lparr>ss_exports := x\<rparr>)), wunlock (s1\<lparr>ss_exports := x\<rparr>)})"
proof (cases "length msg < 3 \<or> \<not> (\<exists>r. msg ! 1 = VFloat r) \<or> wlock s = None")
  case True
  then show ?thesis by (cases "msg ! 1") (auto simp: handle_release_def Let_def)
next
  case False
  then obtain r s1 where m: "\<not> length msg < 3" "msg ! 1 = VFloat r" "wlock s = Some s1" by auto
  then show ?thesis
    by (cases "gm_get (ss_exports s1) (f64_to_int32 r)") (auto simp: handle_release_def Let_def)
qed

lemma handle_release_keeps:
  "idle_inv s \<Longrightarrow> idle_inv (snd (handle_release E msg s))"
  "frozen t s \<Longrightarrow> frozen t (snd (handle_release E msg s))"
  using handle_release_cases [of E msg s] by (auto dest: wlock_keeps)

lemma handle_abort_keeps:
  "idle_inv s \<Longrightarrow> idle_inv (snd (handle_abort E msg s))"
  "frozen t s \<Longrightarrow> frozen t (snd (handle_abort E msg s))"
  by (auto simp: handle_abort_def idle_inv_def frozen_def wlock_def wunlock_def)

lemma handle_pull_frozen: "frozen t s \<Longrightarrow> frozen t (snd (handle_pull E msg s))"
  by (auto simp: handle_pull_def Let_def rlock_keeps send_ignoring_frozen split: gval.split option.split)

lemma handle_message_keeps:
  "idle_inv s \<Longrightarrow> idle_inv (snd (handle_message E msg s))"
  "frozen t s \<Longrightarrow> frozen t (snd (handle_message E msg s))"
  by (auto simp: handle_message_def handle_push_def handle_resolve_def handle_reject_def
      same_core_idle [OF handle_pull_same_core] handle_release_keeps handle_abort_keeps
      handle_pull_frozen deliver_response_keeps split: gval.split option.split message_type.split)

lemma message_loop_idle:
  assumes "idle_inv s"
  shows "idle_inv (snd (message_loop_step E pick s))"
proof -
  let ?h = "\<lambda>msg s. case handle_message E msg s of
      (Ok _, s') \<Rightarrow> (Ok False, s') | (Err e, s') \<Rightarrow> (Err e, s') | (Panic, s') \<Rightarrow> (Panic, s')
    | (Hang, s') \<Rightarrow> (Hang :: bool result, s')"
  have h: "idle_inv (snd (?h msg t))" if "idle_inv t" for msg t
    using handle_message_keeps(1) [OF that, of E msg] by (auto split: prod.split outcome.split)
  have d: "idle_inv s2"
    if "decode_message (en_unmarshal E) (session_protocol (en_now E)) data (s\<lparr>ss_transport := t\<rparr>) = (r, s2)"
    for data t r s2
    using decode_session_keeps [where P = idle_inv, OF import_stub_keeps(1),
        of "s\<lparr>ss_transport := t\<rparr>" "en_unmarshal E" "en_now E" data] assms that by simp
  have "ch_recv (ss_queue s) = (None, ss_queue s)"
    using assms by (simp add: idle_inv_def ch_recv_def)
  then show ?thesis
    using assms h d
    by (auto simp: message_loop_step_def Let_def
        split: option.split loop_case.split prod.split outcome.split)
qed

lemma message_loop_frozen:
  assumes "frozen t s"
  shows "frozen t (snd (message_loop_step E pick s))"
proof -
  let ?cs = "[(ctx_done (ss_ctx s), LcDone), (ch_can_recv (ss_queue s), LcQueue)]"
  have "ctx_done (ss_ctx s)" using assms by (simp add: frozen_def ctx_done_def)
  then obtain lc where lc: "go_select pick ?cs = Some lc"
    by (cases "go_select pick ?cs") (simp_all add: go_select_None)
  have q: "frozen t (s\<lparr>ss_queue := q\<rparr>)" for q
    using assms by (simp add: frozen_def)
  have h: "frozen t (snd (case handle_message E msg (s\<lparr>ss_queue := q\<rparr>) of
      (Ok _, s') \<Rightarrow> (Ok False, s') | (Err e, s') \<Rightarrow> (Err e, s') | (Panic, s') \<Rightarrow> (Panic, s')
    | (Hang, s') \<Rightarrow> (Hang :: bool result, s')))" for msg q
    using handle_message_keeps(2) [OF q, of E msg q]
    by (cases "handle_message E msg (s\<lparr>ss_queue := q\<rparr>)";
        cases "fst (handle_message E msg (s\<lparr>ss_queue := q\<rparr>))") auto
  show ?thesis
  proof (cases lc)
    case LcDone
    with lc assms show ?thesis by (simp add: message_loop_step_def Let_def)
  next
    case LcQueue
    with lc q h show ?thesis
      by (simp add: message_loop_step_def Let_def split: prod.split option.split)
  qed
qed

lemma frozen_step: "frozen t s \<Longrightarrow> frozen t (session_step ev s)"
proof (cases "snd ev")
  case (EvExport v)
  assume "frozen t s"
  with EvExport show ?thesis
    by (cases "ss_readers s = 0 \<and> \<not> ss_writer s")
      (simp_all add: session_step_def Let_def export_value_locked export_value_open frozen_def upd_stats_def)
next
  case (EvSend c msg)
  assume "frozen t s"
  with EvSend show ?thesis by (simp add: session_step_def Let_def session_send_frozen)
next
  case (EvRequest c v w)
  assume "frozen t s"
  with EvRequest show ?thesis
    by (auto simp: session_step_def Let_def send_request_def frozen_def rlock_def runlock_def)
next
  case (EvLoop pick)
  assume "frozen t s"
  with EvLoop show ?thesis by (simp add: session_step_def Let_def message_loop_frozen)
next
  case EvClose
  assume "frozen t s"
  with EvClose session_close_core [of s "fst ev"] show ?thesis
    by (auto simp: session_step_def Let_def close_core_def frozen_def)
qed

lemma frozen_run: "frozen t s \<Longrightarrow> frozen t (session_run evs s)"
  by (induction evs arbitrary: s) (simp_all add: session_run_def frozen_step)

lemma send_request_idle: "idle_inv s \<Longrightarrow> idle_inv (snd (send_request E c v w s))"
  using send_request_core [of E c v w s] by (auto simp: idle_inv_def)

lemma session_close_idle:
  assumes "idle_inv s"
  shows "idle_inv (snd (session_close E s))"
proof (cases "wlock s")
  case (Some s1)
  have s1: "s1 = s\<lparr>ss_writer := True\<rparr>" using Some by (simp add: wlock_Some)
  show ?thesis
  proof (cases "ss_closed s")
    case True
    with Some s1 assms show ?thesis by (simp add: session_close_def)
  next
    case False
    let ?s2 = "s1\<lparr>ss_closed := True, ss_ctx := CtxCanceled\<rparr>"
    obtain enc where enc: "encode_message (en_marshal E) (en_stk E) (session_protocol (en_now E))
        (new_abort_message (VStr ''session closed'') None) ?s2 = (enc, ?s2)"
      using encode_abort_same [of "en_marshal E" "en_stk E" "en_now E" "''session closed''" None ?s2]
      by (metis prod.collapse)
    show ?thesis
      using Some s1 False enc assms
      by (auto simp: session_close_def idle_inv_def wunlock_def upd_stats_def close_responses_def
          ch_close_def gm_map_def Let_def split: outcome.splits prod.splits if_splits)
  qed
qed (use assms in \<open>simp add: session_close_def\<close>)

lemma export_value_idle: "idle_inv s \<Longrightarrow> idle_inv (snd (export_value now v s))"
  by (cases "ss_readers s = 0 \<and> \<not> ss_writer s")
    (simp_all add: export_value_open export_value_locked idle_inv_def upd_stats_def)

lemma idle_step: "idle_inv s \<Longrightarrow> idle_inv (session_step ev s)"
  by (cases "snd ev")
    (simp_all add: session_step_def Let_def message_loop_idle send_request_idle session_close_idle
      same_core_idle [OF session_send_same_core] export_value_idle)

lemma idle_run: "idle_inv s \<Longrightarrow> idle_inv (session_run evs s)"
  by (induction evs arbitrary: s) (simp_all add: session_run_def idle_step)

lemma new_session_inv:
  assumes "new_session tr opts now = Ok s"
  shows "idle_inv s \<and> tables_ok s \<and> ss_next_export s = 0 \<and> lock_free s \<and> \<not> ss_closed s
    \<and> tr = Some (ss_transport s)"
  using assms by (cases tr) (auto simp: new_session_def idle_inv_def tables_ok_def lock_free_def
      make_chan_def Let_def int64_def wrap_def)

section \<open>Over any transport that keeps the contract\<close>

context transport
begin

lemma session_send_sent:
  assumes "en_ops E = ops"
  shows "if is_ok (fst (session_send E c msg s))
    then \<exists>data. sent (ss_transport (snd (session_send E c msg s))) = sent (ss_transport s) @ [data]
    else sent (ss_transport (snd (session_send E c msg s))) = sent (ss_transport s)"
proof -
  let ?s' = "snd (session_send E c msg s)"
  consider (none) "ss_transport ?s' = ss_transport s" "\<not> is_ok (fst (session_send E c msg s))"
    | (tr) data where "ss_transport ?s' = snd (tr_send ops c data (ss_transport s))"
        "is_ok (fst (session_send E c msg s)) \<longleftrightarrow> is_ok (fst (tr_send ops c data (ss_transport s)))"
    using session_send_transport [of E c msg s] assms by auto
  then show ?thesis
  proof cases
    case tr
    show ?thesis
    proof (cases "is_ok (fst (tr_send ops c data (ss_transport s)))")
      case True
      then obtain u t' where "tr_send ops c data (ss_transport s) = (Ok u, t')"
        by (metis is_ok_iff prod.collapse)
      with send_Ok [OF this] tr show ?thesis by auto
    next
      case False
      with send_fail [OF False] tr show ?thesis by simp
    qed
  qed simp
qed

lemma session_close_closes:
  assumes "en_ops E = ops" and "session_close E s = (Ok ce, s')" and "\<not> ss_closed s"
  shows "closed (ss_transport s') \<and> ss_closed s' \<and> ss_ctx s' = CtxCanceled \<and> ch_closed (ss_queue s')
    \<and> ss_close_err s' = ce \<and> \<not> ss_writer s' \<and> ss_readers s' = 0"
proof (cases "wlock s")
  case (Some s1)
  have s1: "s1 = s\<lparr>ss_writer := True\<rparr>" "ss_readers s = 0" using Some by (auto simp: wlock_Some)
  let ?s2 = "s1\<lparr>ss_closed := True, ss_ctx := CtxCanceled\<rparr>"
  obtain enc where enc: "encode_message (en_marshal E) (en_stk E) (session_protocol (en_now E))
      (new_abort_message (VStr ''session closed'') None) ?s2 = (enc, ?s2)"
    using encode_abort_same [of "en_marshal E" "en_stk E" "en_now E" "''session closed''" None ?s2]
    by (metis prod.collapse)
  have cl: "closed t'" if "tr_close ops t = (e, t')" for t e t'
    using close_closes [of t] that by simp
  show ?thesis
    using Some s1 assms enc
    by (auto simp: session_close_def wunlock_def upd_stats_def ch_close_def Let_def cl
        split: outcome.splits prod.splits if_splits)
qed (use assms in \<open>simp add: session_close_def\<close>)

end

section \<open>Properties\<close>

definition sample_env :: "memory_transport env" where
  "sample_env = \<lparr>en_ops = mt_ops 0, en_marshal = (\<lambda>_. Ok [1]), en_unmarshal = (\<lambda>_. Panic),
     en_stk = [], en_now = 0\<rparr>"

definition sample_session :: "memory_transport session" where
  "sample_session = (case new_session (Some (transport1 new_memory_transport_pair)) [] 0 of Ok s \<Rightarrow> s)"

lemma sample_session_new: "new_session (Some (transport1 new_memory_transport_pair)) [] 0 = Ok sample_session"
  by (simp add: sample_session_def new_session_def Let_def)

text \<open>
  C3: The export table stays sound through any history. Starting from a new session, after any
  sequence of exports, sends, requests, message-loop rounds (whatever arrives) and closes, shorter
  than 2^31, every live entry has a positive reference count and a positive id at most the last one
  given out, ids are distinct, and the statistic of active exports is the number of live entries.
\<close>

theorem export_table_invariant:
  assumes "new_session tr opts now = Ok s" and "int (length evs) < 2147483648"
  shows "tables_ok (session_run evs s)"
  using tables_ok_run [of s evs] new_session_inv [OF assms(1)] assms(2) by simp

lemma export_table_invariant_witness:
  "tables_ok (session_run [(sample_env, EvExport (VFunc 1)), (sample_env, EvSend CtxLive [VStr ''pull'', VInt 1]),
     (sample_env, EvClose)] sample_session)"
  using export_table_invariant [OF sample_session_new] by simp

text \<open>
  C2: A session cannot send a function or an RPC target. A message with one anywhere in its
  arguments is never sent: \<open>Send\<close> encodes it under the read lock, and exporting it needs the write
  lock of the same mutex. Given one directly as an argument, \<open>Send\<close> on an open, idle session never
  returns, and since it keeps the read lock, a later \<open>Close\<close> never returns either.
\<close>

theorem send_reference_deadlock:
  "(is_ok (fst (session_send E c (ty # args) s)) \<longrightarrow> (\<forall>a \<in> set args. refs a = []))
   \<and> (lock_free s \<and> \<not> ss_closed s \<longrightarrow>
       fst (session_send E c [ty, VFunc f] s) = Hang \<and> fst (session_send E c [ty, VTarget f] s) = Hang
       \<and> fst (session_close E' (snd (session_send E c [ty, VFunc f] s))) = Hang)"
proof (intro conjI impI)
  assume ok: "is_ok (fst (session_send E c (ty # args) s))"
  then obtain s1 where s1: "rlock s = Some s1" by (cases "rlock s") (auto simp: session_send_def)
  then have "0 < ss_readers s1" by (auto simp: rlock_Some)
  moreover have "is_ok (fst (encode_message (en_marshal E) (en_stk E) (session_protocol (en_now E)) (ty # args) s1))"
    using ok s1 by (auto simp: session_send_def split: if_splits prod.splits outcome.splits)
  ultimately show "\<forall>a \<in> set args. refs a = []" using encode_session_refs by blast
next
  assume free: "lock_free s \<and> \<not> ss_closed s"
  let ?s1 = "s\<lparr>ss_readers := Suc (ss_readers s)\<rparr>"
  have s1: "rlock s = Some ?s1" using free by (simp add: rlock_Some lock_free_def)
  have enc: "encode_message m stk (session_protocol now) [ty, v] ?s1 = (Hang, ?s1)"
    if "v = VFunc f \<or> v = VTarget f" for v m stk now
    using that by (auto simp: encode_message_def session_protocol_def new_protocol_def serialize_def
        serialize_with_depth.simps serialize_leaf_def serialize_function_def serialize_target_def
        new_serializer_def export_value_blocked)
  show "fst (session_send E c [ty, VFunc f] s) = Hang" "fst (session_send E c [ty, VTarget f] s) = Hang"
    using free s1 enc [of "VFunc f"] enc [of "VTarget f"] by (simp_all add: session_send_def)
  show "fst (session_close E' (snd (session_send E c [ty, VFunc f] s))) = Hang"
    using free s1 enc [of "VFunc f"] by (simp add: session_send_def session_close_def wlock_def)
qed

lemma send_reference_deadlock_witness:
  "fst (session_send sample_env CtxLive [VStr ''push'', VFunc 1] sample_session) = Hang"
proof -
  have "lock_free sample_session \<and> \<not> ss_closed sample_session"
    using new_session_inv [OF sample_session_new] by simp
  then show ?thesis
    using send_reference_deadlock [of sample_env CtxLive "VStr ''push''" "[]" sample_session 1 sample_env]
    by blast
qed

text \<open>
  C7: \<open>Send\<close> is all or nothing. Over the in-memory transport, a successful \<open>Send\<close> hands exactly one
  message to the transport, a failed one hands none, and neither touches the tables, the closed
  flag or the queues of the session.
\<close>

theorem session_send_exactly_once:
  assumes "en_ops E = mt_ops pick"
  shows "(if is_ok (fst (session_send E c msg s))
      then \<exists>data. mt_sent (ss_transport (snd (session_send E c msg s))) = mt_sent (ss_transport s) @ [data]
      else mt_sent (ss_transport (snd (session_send E c msg s))) = mt_sent (ss_transport s))
    \<and> same_core s (snd (session_send E c msg s))"
  using mem.session_send_sent [OF assms] session_send_same_core by blast

lemma session_send_exactly_once_witness:
  "same_core sample_session (snd (session_send sample_env CtxLive [VStr ''pull'', VInt 1] sample_session))"
  using session_send_exactly_once [of sample_env 0 CtxLive "[VStr ''pull'', VInt 1]" sample_session]
  by (simp add: sample_env_def)

text \<open>
  C6: Closing works and is final. \<open>Close\<close> that returns from an open session over the in-memory
  transport has closed the transport, cancelled the context, closed the queue and released the
  lock; a second \<open>Close\<close> returns the same error and changes nothing; and whatever happens later, the
  session stays closed, its context stays done and it never uses the transport again.
\<close>

theorem session_close_final:
  assumes "en_ops E = mt_ops pick" and "session_close E s = (Ok ce, s')" and "\<not> ss_closed s"
  shows "mt_closed (ss_transport s') \<and> ss_ctx s' = CtxCanceled \<and> ch_closed (ss_queue s')
    \<and> \<not> ss_writer s' \<and> ss_readers s' = 0 \<and> session_close E' s' = (Ok ce, s')
    \<and> ss_closed (session_run evs s') \<and> ctx_done (ss_ctx (session_run evs s'))
    \<and> ss_transport (session_run evs s') = ss_transport s'"
proof -
  note c = mem.session_close_closes [OF assms]
  then have "frozen (ss_transport s') s'" by (simp add: frozen_def)
  then have "frozen (ss_transport s') (session_run evs s')" by (rule frozen_run)
  moreover have "session_close E' s' = (Ok ce, s')"
    using c by (simp add: session_close_def wlock_def wunlock_def)
  ultimately show ?thesis using c by (simp add: frozen_def ctx_done_def)
qed

lemma session_close_final_witness:
  "ss_ctx (snd (session_close (sample_env\<lparr>en_marshal := \<lambda>_. Err (EMsg [])\<rparr>) sample_session)) = CtxCanceled
   \<and> mt_closed (ss_transport (snd (session_close (sample_env\<lparr>en_marshal := \<lambda>_. Err (EMsg [])\<rparr>) sample_session)))"
proof -
  let ?E = "sample_env\<lparr>en_marshal := \<lambda>_. Err (EMsg [])\<rparr>"
  have "\<not> ss_closed sample_session" using new_session_inv [OF sample_session_new] by simp
  moreover have "en_ops ?E = mt_ops 0" by (simp add: sample_env_def)
  moreover have "fst (session_close ?E sample_session) = Ok None" by code_simp
  then have "session_close ?E sample_session = (Ok None, snd (session_close ?E sample_session))"
    by (metis prod.collapse)
  ultimately show ?thesis
    using session_close_final [of ?E 0 sample_session None
        "snd (session_close ?E sample_session)" sample_env "[]"] by blast
qed

text \<open>
  An abort from the peer leaks the transport. Handling an abort message marks the session
  closed; from then on no history, later calls of \<open>Close\<close> included, touches the transport, so an
  open transport is never closed.
\<close>

theorem abort_leaks_transport:
  assumes "lock_free s" and "\<not> ss_closed s"
    and "s' = snd (handle_message E (VStr ''abort'' # reason # rest) s)"
  shows "ss_closed s' \<and> ss_transport (session_run evs s') = ss_transport s
    \<and> (\<exists>e. fst (session_close E' s') = Ok (Some e))"
proof -
  have s': "s' = s\<lparr>ss_closed := True, ss_close_err := Some (EMsg ''session aborted: %v''), ss_ctx := CtxCanceled\<rparr>"
    using assms by (cases s) (simp add: handle_message_def message_type_of_def handle_abort_def wlock_def
        lock_free_def wunlock_def)
  then have "frozen (ss_transport s) s'" by (simp add: frozen_def)
  then have "frozen (ss_transport s) (session_run evs s')" by (rule frozen_run)
  with s' assms(1) show ?thesis
    by (simp add: frozen_def session_close_def wlock_def lock_free_def)
qed

lemma abort_leaks_transport_witness:
  "ss_transport (session_run [(sample_env, EvClose)]
      (snd (handle_message sample_env [VStr ''abort'', VStr ''bye''] sample_session)))
   = ss_transport sample_session"
  using abort_leaks_transport [of sample_session "snd (handle_message sample_env [VStr ''abort'', VStr ''bye''] sample_session)"
      sample_env "VStr ''bye''" "[]" "[(sample_env, EvClose)]" sample_env]
    new_session_inv [OF sample_session_new] by simp

text \<open>
  C5: No answer ever reaches a caller. In every session the program can get into, the table of
  waiting responses is empty, so handling a resolve or a reject message changes nothing at all, and
  a promise is never settled by the session.
\<close>

theorem responses_never_delivered:
  assumes "new_session tr opts now = Ok s0" and "s = session_run evs s0" and "lock_free s"
  shows "ss_responses s = []
    \<and> handle_message E (VStr ''resolve'' # args) s = (Ok (), s)
    \<and> handle_message E (VStr ''reject'' # args) s = (Ok (), s)"
proof -
  have r: "ss_responses s = []"
    using idle_run new_session_inv [OF assms(1)] assms(2) by (auto simp: idle_inv_def)
  have "deliver_response i info s = (Ok (), s)" for i info
    using r assms(3) by (cases s) (simp add: deliver_response_def rlock_def runlock_def lock_free_def)
  with r show ?thesis
    by (simp add: handle_message_def message_type_of_def handle_resolve_def handle_reject_def
        split: gval.split)
qed

lemma responses_never_delivered_witness:
  "handle_message sample_env [VStr ''resolve'', VFloat 1, VStr ''done''] sample_session = (Ok (), sample_session)"
  using responses_never_delivered [OF sample_session_new, of sample_session "[]" sample_env
      "[VFloat 1, VStr ''done'']"] new_session_inv [OF sample_session_new]
  by (simp add: session_run_def)

text \<open>
  A release takes exactly the references it names. On an idle session, \<open>release\<close> of \<open>k\<close> from a
  live export subtracts \<open>k\<close> (as a 32-bit integer, 1 when it is not a number) from its count; the
  entry goes when the result is not positive and stays with the new count otherwise; no other entry
  is touched, and an unknown id changes nothing. The sign of \<open>k\<close> is not checked: a negative one adds
  references.
\<close>

theorem handle_release_effect:
  assumes "lock_free s" and "gm_wf (ss_exports s)"
    and "msg = [VStr ''release'', VFloat r, k]"
    and "rc = (\<lambda>e. int32 (ee_ref_count e - f64_to_int32 (case k of VFloat x \<Rightarrow> x | _ \<Rightarrow> 1)))"
  shows "gm_get (ss_exports (snd (handle_message E msg s))) j =
      (if j = f64_to_int32 r then
         (case gm_get (ss_exports s) j of None \<Rightarrow> None
          | Some e \<Rightarrow> if rc e \<le> 0 then None else Some (e\<lparr>ee_ref_count := rc e\<rparr>))
       else gm_get (ss_exports s) j)
    \<and> fst (handle_message E msg s) = Ok () \<and> ss_imports (snd (handle_message E msg s)) = ss_imports s"
proof -
  let ?i = "f64_to_int32 r"
  have w: "wlock s = Some (s\<lparr>ss_writer := True\<rparr>)" using assms(1) by (simp add: wlock_def lock_free_def)
  show ?thesis
  proof (cases "gm_get (ss_exports s) ?i")
    case None
    with w assms(3) show ?thesis
      by (auto simp: handle_message_def message_type_of_def handle_release_def wunlock_def Let_def)
  next
    case (Some e)
    with w assms(3,4) show ?thesis
      by (cases "rc e \<le> 0") (auto simp: handle_message_def message_type_of_def handle_release_def
          wunlock_def upd_stats_def Let_def)
  qed
qed

lemma handle_release_effect_witness:
  "gm_get (ss_exports (snd (handle_message sample_env [VStr ''release'', VFloat 1, VFloat (- 2)]
      (snd (export_value 0 (VFunc 7) sample_session))))) 1 = Some ((fresh_entry 0 (VFunc 7))\<lparr>ee_ref_count := 3\<rparr>)"
proof -
  let ?s = "snd (export_value 0 (VFunc 7) sample_session)"
  have "lock_free ?s" "gm_wf (ss_exports ?s)" by code_simp+
  moreover have "gm_get (ss_exports ?s) 1 = Some (fresh_entry 0 (VFunc 7))" by code_simp
  moreover have "f64_to_int32 1 = 1" "f64_to_int32 (- 2) = - 2" by code_simp+
  moreover have "int32 (ee_ref_count (fresh_entry 0 (VFunc 7)) + 2) = 3" by code_simp
  ultimately show ?thesis
    using handle_release_effect [of ?s "[VStr ''release'', VFloat 1, VFloat (- 2)]" 1 "VFloat (- 2)"
        "\<lambda>e. int32 (ee_ref_count e - f64_to_int32 (- 2))" sample_env 1]
    by simp
qed

section \<open>A session that accepts\<close>

text \<open>Over a transport that takes everything, an idle open session accepts every request of plain data.\<close>

definition log_env :: "int \<Rightarrow> bytes list env" where
  "log_env now = \<lparr>en_ops = \<lparr>tr_send = (\<lambda>c d t. (Ok (), t @ [d])), tr_receive = (\<lambda>c t. (Err err_eof, t)), tr_close = (\<lambda>t. (None, t))\<rparr>,
     en_marshal = (\<lambda>_. Ok [1]), en_unmarshal = (\<lambda>_. Panic), en_stk = [], en_now = now\<rparr>"

lemma encode_plain_push:
  assumes "data_value v" and "nest v \<le> 100"
  shows "encode_message (\<lambda>_. Ok [1]) stk (session_protocol now) [VStr t, v] s = (Ok [1], s)"
proof -
  let ?S = "new_serializer (Some (export_value now)) :: 'a session serializer"
  have "serialize stk ?S (id v) s = (Ok (wire stk True v), s)" for s
    using assms by (simp add: serialize_def serialize_wire new_serializer_def)
  moreover have "wire stk True VNil = VNil" by (simp add: wire.simps)
  ultimately have "convert_args ctx (serialize stk ?S) (map id [v]) s = (Ok (map (wire stk True) [v]), s)" for ctx
    by (intro convert_args_map [where h = id]) auto
  then show ?thesis by (simp add: encode_message_def session_protocol_def new_protocol_def max_message_size_def)
qed

end
