(* ===== verification/GoSlices.thy ===== *)
theory GoSlices
  imports Prelude
begin

text \<open>
  Slices of strings with their backing arrays. A slice is an address, a length and a capacity; the
  heap is the list of arrays. \<open>append\<close> writes into the array when the capacity allows, so two slices
  of one array can disturb each other; otherwise it moves to an array of twice the capacity (the
  growth of the runtime for string slices below 256 elements).
\<close>

type_synonym path_heap = "string list list"

record slice =
  sl_addr :: nat
  sl_len :: nat
  sl_cap :: nat

definition slice_wf :: "path_heap \<Rightarrow> slice \<Rightarrow> bool" where
  "slice_wf h s \<longleftrightarrow> sl_addr s < length h \<and> length (h ! sl_addr s) = sl_cap s \<and> sl_len s \<le> sl_cap s"

definition slice_val :: "path_heap \<Rightarrow> slice \<Rightarrow> string list" where
  "slice_val h s = take (sl_len s) (h ! sl_addr s)"

text \<open>\<open>make\<close> of the exact length, then \<open>copy\<close>.\<close>

definition slice_make :: "string list \<Rightarrow> path_heap \<Rightarrow> slice \<times> path_heap" where
  "slice_make xs h = (\<lparr>sl_addr = length h, sl_len = length xs, sl_cap = length xs\<rparr>, h @ [xs])"

definition slice_append :: "slice \<Rightarrow> string \<Rightarrow> path_heap \<Rightarrow> slice \<times> path_heap" where
  "slice_append s x h =
     (if sl_len s < sl_cap s then
        (s\<lparr>sl_len := Suc (sl_len s)\<rparr>, h[sl_addr s := (h ! sl_addr s)[sl_len s := x]])
      else
        (let c = max 1 (2 * sl_cap s)
         in (\<lparr>sl_addr = length h, sl_len = Suc (sl_len s), sl_cap = c\<rparr>,
             h @ [slice_val h s @ [x] @ replicate (c - Suc (sl_len s)) []])))"

lemma slice_make_val [simp]:
  "slice_val (snd (slice_make xs h)) (fst (slice_make xs h)) = xs"
  by (simp add: slice_make_def slice_val_def)

lemma slice_make_wf [simp]: "slice_wf (snd (slice_make xs h)) (fst (slice_make xs h))"
  by (simp add: slice_make_def slice_wf_def)

lemma slice_make_keeps:
  "slice_wf h s \<Longrightarrow> slice_wf (snd (slice_make xs h)) s \<and> slice_val (snd (slice_make xs h)) s = slice_val h s"
  by (simp add: slice_make_def slice_wf_def slice_val_def nth_append)

lemma slice_append_val:
  "slice_wf h s \<Longrightarrow> slice_val (snd (slice_append s x h)) (fst (slice_append s x h)) = slice_val h s @ [x]"
  by (auto simp: slice_append_def slice_wf_def slice_val_def Let_def take_Suc_conv_app_nth)

lemma slice_append_wf:
  "slice_wf h s \<Longrightarrow> slice_wf (snd (slice_append s x h)) (fst (slice_append s x h))"
  by (auto simp: slice_append_def slice_wf_def slice_val_def Let_def)

text \<open>
  What \<open>append\<close> leaves alone: every other array, and every slice of the same array that does not
  reach beyond the slice appended to.
\<close>

lemma slice_append_keeps:
  assumes "slice_wf h s" and "slice_wf h r" and "sl_addr r \<noteq> sl_addr s \<or> sl_len r \<le> sl_len s \<or> sl_len s = sl_cap s"
  shows "slice_wf (snd (slice_append s x h)) r \<and> slice_val (snd (slice_append s x h)) r = slice_val h r"
  using assms by (auto simp: slice_append_def slice_wf_def slice_val_def Let_def nth_append nth_list_update)

text \<open>What it overwrites: the next cell of a longer slice of the same array.\<close>

lemma slice_append_alias:
  assumes "slice_wf h s" and "sl_len s < sl_cap s"
    and "(r1, h1) = slice_append s x h" and "(r2, h2) = slice_append s y h1"
  shows "slice_val h2 r1 = slice_val h s @ [y] \<and> slice_val h2 r2 = slice_val h s @ [y]"
  using assms by (auto simp: slice_append_def slice_wf_def slice_val_def take_Suc_conv_app_nth)

end
