(* ===== verification/Stub.thy ===== *)
theory Stub
  imports Session GoSlices
begin

text \<open>
  \<open>stub.go\<close>: the local objects that stand for remote ones. The world a stub lives in is a session,
  the arrays of the property paths, the stubs and the promises by address, and the channels on
  which callers of \<open>Await\<close> wait (whether each is closed).
\<close>

section \<open>Objects\<close>

record stub =
  sb_session :: bool
  sb_import_id :: "int option"
  sb_export_id :: "int option"
  sb_path :: slice
  sb_disposed :: bool
  sb_ref_count :: int
  sb_created :: int

text \<open>
  What an interface of type \<open>Stub\<close> holds: nothing, a nil \<open>*stubImpl\<close>, a \<open>*stubImpl\<close>, or another
  implementation.
\<close>

datatype stub_ref = NoStub | NilStub | StubAt nat | ForeignStub

datatype promise_state = Pending | Resolved | Rejected

record promise =
  pm_session :: bool
  pm_export_id :: int
  pm_stub :: stub_ref
  pm_path :: slice
  pm_state :: promise_state
  pm_result :: gval
  pm_err :: "goerr option"
  pm_waiters :: "nat list"
  pm_created :: int
  pm_timeout :: int

record 't world =
  w_session :: "'t session"
  w_heap :: path_heap
  w_stubs :: "stub list"
  w_promises :: "promise list"
  w_chans :: "bool list"

definition new_world :: "'t session \<Rightarrow> 't world" where
  "new_world s = \<lparr>w_session = s, w_heap = [], w_stubs = [], w_promises = [], w_chans = []\<rparr>"

definition upd_session :: "('t session \<Rightarrow> 't session) \<Rightarrow> 't world \<Rightarrow> 't world" where
  "upd_session f w = w\<lparr>w_session := f (w_session w)\<rparr>"

definition add_stub :: "stub \<Rightarrow> 't world \<Rightarrow> nat \<times> 't world" where
  "add_stub s w = (length (w_stubs w), w\<lparr>w_stubs := w_stubs w @ [s]\<rparr>)"

definition add_promise :: "promise \<Rightarrow> 't world \<Rightarrow> nat \<times> 't world" where
  "add_promise p w = (length (w_promises w), w\<lparr>w_promises := w_promises w @ [p]\<rparr>)"

definition upd_stub :: "nat \<Rightarrow> (stub \<Rightarrow> stub) \<Rightarrow> 't world \<Rightarrow> 't world" where
  "upd_stub a f w = w\<lparr>w_stubs := (w_stubs w)[a := f (w_stubs w ! a)]\<rparr>"

text \<open>A path literal \<open>PropertyPath{}\<close>, and \<open>append(path, x)\<close>.\<close>

definition fresh_path :: "string list \<Rightarrow> 't world \<Rightarrow> slice \<times> 't world" where
  "fresh_path xs w = (case slice_make xs (w_heap w) of (s, h) \<Rightarrow> (s, w\<lparr>w_heap := h\<rparr>))"

definition append_path :: "slice \<Rightarrow> string \<Rightarrow> 't world \<Rightarrow> slice \<times> 't world" where
  "append_path s x w = (case slice_append s x (w_heap w) of (s', h) \<Rightarrow> (s', w\<lparr>w_heap := h\<rparr>))"

definition path_of :: "'t world \<Rightarrow> slice \<Rightarrow> string list" where
  "path_of w s = slice_val (w_heap w) s"

definition mk_stub :: "bool \<Rightarrow> int option \<Rightarrow> int option \<Rightarrow> slice \<Rightarrow> int \<Rightarrow> stub" where
  "mk_stub ses i e p now = \<lparr>sb_session = ses, sb_import_id = i, sb_export_id = e, sb_path = p,
     sb_disposed = False, sb_ref_count = 1, sb_created = now\<rparr>"

definition blank_promise :: "bool \<Rightarrow> slice \<Rightarrow> int \<Rightarrow> promise" where
  "blank_promise ses p now = \<lparr>pm_session = ses, pm_export_id = 0, pm_stub = NoStub, pm_path = p,
     pm_state = Pending, pm_result = VNil, pm_err = None, pm_waiters = [], pm_created = now,
     pm_timeout = 0\<rparr>"

section \<open>Calls\<close>

definition count_call :: "(session_stats \<Rightarrow> session_stats) \<Rightarrow> 't world \<Rightarrow> 't world" where
  "count_call f w = upd_session (upd_stats f) w"

definition add_started :: "session_stats \<Rightarrow> session_stats" where
  "add_started st = st\<lparr>st_calls_started := add64 (st_calls_started st) 1\<rparr>"
definition add_failed :: "session_stats \<Rightarrow> session_stats" where
  "add_failed st = st\<lparr>st_calls_failed := add64 (st_calls_failed st) 1\<rparr>"
definition add_completed :: "session_stats \<Rightarrow> session_stats" where
  "add_completed st = st\<lparr>st_calls_completed := add64 (st_calls_completed st) 1\<rparr>"

definition stub_call :: "'t env \<Rightarrow> ctx \<Rightarrow> nat \<Rightarrow> string \<Rightarrow> gval list \<Rightarrow> 't world \<Rightarrow> nat result \<times> 't world" where
  "stub_call E c a meth args w =
     (let s = w_stubs w ! a
      in if sb_disposed s then (Err (EMsg ''stub has been disposed''), w)
      else if \<not> sb_session s then (Err (EMsg ''stub has no session''), w)
      else case sb_import_id s of
        None \<Rightarrow> (Err (EMsg ''cannot call method on local export stub''), w)
      | Some i \<Rightarrow>
          let w1 = count_call add_started w;
              (mp, w2) = append_path (sb_path s) meth w1;
              expr = expression_value (PipelineExpression i (path_of w2 mp) (VSlice args))
          in (case export_value (en_now E) VNil (w_session w2) of
                (Err e, ss) \<Rightarrow>
                  (Err (EWrap ''failed to create result export: '' e), count_call add_failed (w2\<lparr>w_session := ss\<rparr>))
              | (Panic, ss) \<Rightarrow> (Panic, w2\<lparr>w_session := ss\<rparr>)
              | (Hang, ss) \<Rightarrow> (Hang, w2\<lparr>w_session := ss\<rparr>)
              | (Ok rid, ss) \<Rightarrow>
                  (case session_send E c (new_push_message expr (Some rid)) ss of
                     (Err e, ss') \<Rightarrow>
                       (Err (EWrap ''failed to send call: '' e), count_call add_failed (w2\<lparr>w_session := ss'\<rparr>))
                   | (Panic, ss') \<Rightarrow> (Panic, w2\<lparr>w_session := ss'\<rparr>)
                   | (Hang, ss') \<Rightarrow> (Hang, w2\<lparr>w_session := ss'\<rparr>)
                   | (Ok _, ss') \<Rightarrow>
                       let (pp, w3) = fresh_path [] (w2\<lparr>w_session := ss'\<rparr>);
                           (p, w4) = add_promise ((blank_promise True pp (en_now E))\<lparr>pm_export_id := rid\<rparr>) w3
                       in (Ok p, w4))))"

definition stub_get :: "'t env \<Rightarrow> nat \<Rightarrow> string \<Rightarrow> 't world \<Rightarrow> nat result \<times> 't world" where
  "stub_get E a prop w =
     (let s = w_stubs w ! a
      in if sb_disposed s then (Err (EMsg ''stub has been disposed''), w)
      else if \<not> sb_session s then (Err (EMsg ''stub has no session''), w)
      else if sb_import_id s = None then (Err (EMsg ''cannot get property on local export stub''), w)
      else
        let (pp, w1) = append_path (sb_path s) prop w;
            (n, w2) = add_stub (mk_stub True (sb_import_id s) None pp (en_now E)) w1;
            (p, w3) = add_promise ((blank_promise True pp (en_now E))\<lparr>pm_stub := StubAt n\<rparr>) w2
        in (Ok p, w3))"

definition stub_set :: "'t env \<Rightarrow> ctx \<Rightarrow> nat \<Rightarrow> string \<Rightarrow> gval \<Rightarrow> 't world \<Rightarrow> unit result \<times> 't world" where
  "stub_set E c a prop v w =
     (let s = w_stubs w ! a
      in if sb_disposed s then (Err (EMsg ''stub has been disposed''), w)
      else if \<not> sb_session s then (Err (EMsg ''stub has no session''), w)
      else if sb_import_id s = None then (Err (EMsg ''cannot set property on local export stub''), w)
      else (case stub_call E c a (''set_'' @ prop) [v] w of
              (Ok _, w') \<Rightarrow> (Ok (), w') | (Err e, w') \<Rightarrow> (Err e, w') | (Panic, w') \<Rightarrow> (Panic, w')
            | (Hang, w') \<Rightarrow> (Hang, w')))"

section \<open>Lifetime\<close>

definition drop_import :: "int \<Rightarrow> 't session \<Rightarrow> 't session" where
  "drop_import i s =
     (case gm_get (ss_imports s) i of
        None \<Rightarrow> s
      | Some e \<Rightarrow>
          let rc = int32 (ie_ref_count e - 1);
              s1 = s\<lparr>ss_imports := gm_put i (e\<lparr>ie_ref_count := rc\<rparr>) (ss_imports s)\<rparr>
          in if rc \<le> 0 then
               upd_stats (\<lambda>st. st\<lparr>st_imports_active := add64 (st_imports_active st) (- 1)\<rparr>)
                 (s1\<lparr>ss_imports := gm_del i (ss_imports s1)\<rparr>)
             else s1)"

definition stub_dispose :: "'t env \<Rightarrow> nat \<Rightarrow> 't world \<Rightarrow> unit result \<times> 't world" where
  "stub_dispose E a w =
     (let s = w_stubs w ! a
      in if sb_disposed s then (Ok (), w)
      else
        let w1 = upd_stub a (\<lambda>s. s\<lparr>sb_disposed := True\<rparr>) w
        in (case (sb_session s, sb_import_id s) of
              (True, Some i) \<Rightarrow>
                (case session_send E CtxLive (new_release_message i 1) (w_session w1) of
                   (Panic, ss) \<Rightarrow> (Panic, w1\<lparr>w_session := ss\<rparr>)
                 | (Hang, ss) \<Rightarrow> (Hang, w1\<lparr>w_session := ss\<rparr>)
                 | (_, ss) \<Rightarrow>
                     (case wlock ss of
                        None \<Rightarrow> (Hang, w1\<lparr>w_session := ss\<rparr>)
                      | Some ss1 \<Rightarrow> (Ok (), w1\<lparr>w_session := wunlock (drop_import i ss1)\<rparr>)))
            | _ \<Rightarrow> (Ok (), w1)))"

definition stub_add_ref :: "nat \<Rightarrow> 't world \<Rightarrow> 't world" where
  "stub_add_ref a w = upd_stub a (\<lambda>s. s\<lparr>sb_ref_count := int32 (sb_ref_count s + 1)\<rparr>) w"

definition stub_release :: "'t env \<Rightarrow> nat \<Rightarrow> 't world \<Rightarrow> unit result \<times> 't world" where
  "stub_release E a w =
     (let rc = int32 (sb_ref_count (w_stubs w ! a) - 1);
          w1 = upd_stub a (\<lambda>s. s\<lparr>sb_ref_count := rc\<rparr>) w
      in if rc \<le> 0 then stub_dispose E a w1 else (Ok (), w1))"

definition stub_get_ref_count :: "nat \<Rightarrow> 't world \<Rightarrow> int" where
  "stub_get_ref_count a w = sb_ref_count (w_stubs w ! a)"

definition stub_is_disposed :: "nat \<Rightarrow> 't world \<Rightarrow> bool" where
  "stub_is_disposed a w = sb_disposed (w_stubs w ! a)"

definition stub_get_import_id :: "nat \<Rightarrow> 't world \<Rightarrow> int option" where
  "stub_get_import_id a w = sb_import_id (w_stubs w ! a)"

definition stub_get_export_id :: "nat \<Rightarrow> 't world \<Rightarrow> int option" where
  "stub_get_export_id a w = sb_export_id (w_stubs w ! a)"

definition stub_get_path :: "nat \<Rightarrow> 't world \<Rightarrow> slice \<times> 't world" where
  "stub_get_path a w = fresh_path (path_of w (sb_path (w_stubs w ! a))) w"

text \<open>\<open>Clone\<close> returns a nil pointer on a disposed stub (\<open>NilStub\<close>); it takes the session's lock.\<close>

definition stub_clone :: "'t env \<Rightarrow> nat \<Rightarrow> string list \<Rightarrow> 't world \<Rightarrow> stub_ref result \<times> 't world" where
  "stub_clone E a extra w =
     (let s = w_stubs w ! a
      in if sb_disposed s then (Ok NilStub, w)
      else
        let (np, w1) = fresh_path (path_of w (sb_path s) @ extra) w;
            (n, w2) = add_stub (mk_stub (sb_session s) (sb_import_id s) (sb_export_id s) np (en_now E)) w1
        in (case (sb_import_id s, sb_session s) of
              (Some i, True) \<Rightarrow>
                (case wlock (w_session w2) of
                   None \<Rightarrow> (Hang, w2)
                 | Some ss \<Rightarrow>
                     let ss' = (case gm_get (ss_imports ss) i of
                           None \<Rightarrow> ss
                         | Some e \<Rightarrow> ss\<lparr>ss_imports := gm_put i (e\<lparr>ie_ref_count := int32 (ie_ref_count e + 1)\<rparr>) (ss_imports ss)\<rparr>)
                     in (Ok (StubAt n), w2\<lparr>w_session := wunlock ss'\<rparr>))
            | _ \<Rightarrow> (Ok (StubAt n), w2)))"

definition bool_text :: "bool \<Rightarrow> string" where
  "bool_text b = (if b then ''true'' else ''false'')"

definition stub_string :: "nat \<Rightarrow> 't world \<Rightarrow> string" where
  "stub_string a w =
     (let s = w_stubs w ! a;
          tail = '', path:'' @ path_string (path_of w (sb_path s)) @ '', refs:''
                 @ int_to_dec (sb_ref_count s) @ '', disposed:'' @ bool_text (sb_disposed s) @ ''}''
      in case sb_import_id s of
           Some i \<Rightarrow> ''Stub{import:'' @ int_to_dec i @ tail
         | None \<Rightarrow>
             (case sb_export_id s of
                Some e \<Rightarrow> ''Stub{export:'' @ int_to_dec e @ tail
              | None \<Rightarrow> ''Stub{local'' @ tail))"

text \<open>
  The stub the session itself makes for an incoming reference (\<open>createImportStub\<close>): its count is
  the zero value. The three constructors of the factory go through \<open>newStub\<close>.
\<close>

definition session_import_stub :: "'t env \<Rightarrow> int \<Rightarrow> bool \<Rightarrow> 't world \<Rightarrow> nat result \<times> 't world" where
  "session_import_stub E i is_promise w =
     (case create_import_stub (en_now E) i is_promise (w_session w) of
        (Ok _, ss) \<Rightarrow>
          let (pp, w1) = fresh_path [] (w\<lparr>w_session := ss\<rparr>);
              (n, w2) = add_stub ((mk_stub True (Some i) None pp 0)\<lparr>sb_ref_count := 0\<rparr>) w1
          in (Ok n, w2)
      | (Err e, ss) \<Rightarrow> (Err e, w\<lparr>w_session := ss\<rparr>)
      | (Panic, ss) \<Rightarrow> (Panic, w\<lparr>w_session := ss\<rparr>)
      | (Hang, ss) \<Rightarrow> (Hang, w\<lparr>w_session := ss\<rparr>))"

definition factory_stub :: "'t env \<Rightarrow> int option \<Rightarrow> int option \<Rightarrow> 't world \<Rightarrow> nat \<times> 't world" where
  "factory_stub E i e w =
     (let (pp, w1) = fresh_path [] w in add_stub (mk_stub True i e pp (en_now E)) w1)"

definition create_import_stub_object :: "'t env \<Rightarrow> int \<Rightarrow> 't world \<Rightarrow> nat \<times> 't world" where
  "create_import_stub_object E i w = factory_stub E (Some i) None w"
definition create_export_stub :: "'t env \<Rightarrow> int \<Rightarrow> 't world \<Rightarrow> nat \<times> 't world" where
  "create_export_stub E e w = factory_stub E None (Some e) w"
definition create_local_stub :: "'t env \<Rightarrow> 't world \<Rightarrow> nat \<times> 't world" where
  "create_local_stub E w = factory_stub E None None w"

section \<open>Counting references\<close>

definition holds_import :: "int \<Rightarrow> stub \<Rightarrow> bool" where
  "holds_import i s \<longleftrightarrow> \<not> sb_disposed s \<and> sb_session s \<and> sb_import_id s = Some i"

definition live_stubs :: "int \<Rightarrow> 't world \<Rightarrow> nat" where
  "live_stubs i w = length (filter (holds_import i) (w_stubs w))"

definition refs_balanced :: "int \<Rightarrow> 't world \<Rightarrow> bool" where
  "refs_balanced i w \<longleftrightarrow>
     (case gm_get (ss_imports (w_session w)) i of
        None \<Rightarrow> live_stubs i w = 0
      | Some e \<Rightarrow> 0 < live_stubs i w \<and> ie_ref_count e = int (live_stubs i w))"

lemma live_stubs_add [simp]:
  "live_stubs i (snd (add_stub s w)) = live_stubs i w + (if holds_import i s then 1 else 0)"
  by (simp add: live_stubs_def add_stub_def)

lemma live_stubs_fields [simp]:
  "live_stubs i (w\<lparr>w_session := ss\<rparr>) = live_stubs i w" "live_stubs i (w\<lparr>w_heap := h\<rparr>) = live_stubs i w"
  "live_stubs i (w\<lparr>w_promises := ps\<rparr>) = live_stubs i w"
  by (simp_all add: live_stubs_def)

lemma count_update:
  "a < length xs \<Longrightarrow> length (filter P (xs[a := y])) + (if P (xs ! a) then 1 else 0)
     = length (filter P xs) + (if P y then 1 else 0)"
proof (induction xs arbitrary: a)
  case (Cons x xs)
  then show ?case by (cases a) auto
qed simp

lemma live_stubs_dispose:
  assumes "a < length (w_stubs w)" and "holds_import i (w_stubs w ! a)"
  shows "Suc (live_stubs i (upd_stub a (\<lambda>s. s\<lparr>sb_disposed := True\<rparr>) w)) = live_stubs i w"
  using count_update [OF assms(1), of "holds_import i" "(w_stubs w ! a)\<lparr>sb_disposed := True\<rparr>"] assms(2)
  by (simp add: live_stubs_def upd_stub_def holds_import_def)

lemma live_stubs_other:
  assumes "a < length (w_stubs w)" and "\<not> holds_import i (w_stubs w ! a)"
  shows "live_stubs i (upd_stub a (\<lambda>s. s\<lparr>sb_disposed := True\<rparr>) w) = live_stubs i w"
  using count_update [OF assms(1), of "holds_import i" "(w_stubs w ! a)\<lparr>sb_disposed := True\<rparr>"] assms(2)
  by (simp add: live_stubs_def upd_stub_def holds_import_def split: if_splits)

lemma holds_import_mk [simp]: "holds_import i (mk_stub ses im ex p now) \<longleftrightarrow> ses \<and> im = Some i"
  by (simp add: holds_import_def mk_stub_def)

lemma fresh_path_fields [simp]:
  "live_stubs i (snd (fresh_path xs w)) = live_stubs i w"
  "w_session (snd (fresh_path xs w)) = w_session w" "w_stubs (snd (fresh_path xs w)) = w_stubs w"
  "w_session (snd (add_stub s w)) = w_session w"
  by (simp_all add: fresh_path_def slice_make_def live_stubs_def add_stub_def)

lemma drop_import_get:
  "gm_get (ss_imports (drop_import i s)) j =
     (if j = i then (case gm_get (ss_imports s) i of None \<Rightarrow> None
        | Some e \<Rightarrow> let rc = int32 (ie_ref_count e - 1) in
            if rc \<le> 0 then None else Some (e\<lparr>ie_ref_count := rc\<rparr>))
      else gm_get (ss_imports s) j)"
  by (auto simp: drop_import_def upd_stats_def Let_def split: option.splits)

text \<open>A disposal that returns: what it did to the stubs and to the import table.\<close>

lemma stub_dispose_Ok:
  assumes "stub_dispose E a w = (Ok u, w')" and "\<not> sb_disposed (w_stubs w ! a)"
    and "sb_session (w_stubs w ! a)" and "sb_import_id (w_stubs w ! a) = Some i"
  shows "w_stubs w' = w_stubs (upd_stub a (\<lambda>s. s\<lparr>sb_disposed := True\<rparr>) w)
    \<and> ss_imports (w_session w') = ss_imports (drop_import i (w_session w))"
proof -
  let ?w1 = "upd_stub a (\<lambda>s. s\<lparr>sb_disposed := True\<rparr>) w"
  obtain r ss where send: "session_send E CtxLive (new_release_message i 1) (w_session ?w1) = (r, ss)" by force
  then have core: "same_core (w_session w) ss"
    using session_send_same_core [of "w_session ?w1" E CtxLive "new_release_message i 1"]
    by (simp add: upd_stub_def)
  have "\<exists>ss1. wlock ss = Some ss1 \<and> w' = ?w1\<lparr>w_session := wunlock (drop_import i ss1)\<rparr>"
    using assms send by (cases r; cases "wlock ss") (auto simp: stub_dispose_def Let_def)
  then obtain ss1 where lk: "wlock ss = Some ss1"
    and w': "w' = ?w1\<lparr>w_session := wunlock (drop_import i ss1)\<rparr>" by auto
  have "ss_imports ss1 = ss_imports (w_session w)" using lk core by (auto simp: wlock_Some same_core_def)
  then have "ss_imports (drop_import i ss1) = ss_imports (drop_import i (w_session w))"
    by (simp add: drop_import_def Let_def upd_stats_def split: option.split)
  with w' show ?thesis by (simp add: wunlock_def)
qed

lemma refs_balanced_cong:
  "refs_balanced i w \<Longrightarrow> gm_get (ss_imports (w_session w')) i = gm_get (ss_imports (w_session w)) i
   \<Longrightarrow> live_stubs i w' = live_stubs i w \<Longrightarrow> refs_balanced i w'"
  by (auto simp: refs_balanced_def split: option.splits)

lemma refs_balanced_dispose:
  assumes "stub_dispose E a w = (Ok u, w')" and "a < length (w_stubs w)"
    and "refs_balanced i w" and "live_stubs i w < 2147483648"
  shows "refs_balanced i w'"
proof (cases "\<not> sb_disposed (w_stubs w ! a) \<and> sb_session (w_stubs w ! a) \<and> sb_import_id (w_stubs w ! a) \<noteq> None")
  case False
  then have st: "w' = w \<or> w' = upd_stub a (\<lambda>s. s\<lparr>sb_disposed := True\<rparr>) w \<and> \<not> holds_import i (w_stubs w ! a)"
    using assms(1) by (auto simp: stub_dispose_def Let_def holds_import_def split: if_splits bool.splits)
  then show ?thesis
  proof
    assume w': "w' = upd_stub a (\<lambda>s. s\<lparr>sb_disposed := True\<rparr>) w \<and> \<not> holds_import i (w_stubs w ! a)"
    then have "live_stubs i w' = live_stubs i w"
      using live_stubs_other [OF assms(2)] by simp
    with w' assms(3) show ?thesis by (auto simp: refs_balanced_def upd_stub_def split: option.splits)
  qed (use assms(3) in simp)
next
  case True
  then obtain k where k: "sb_import_id (w_stubs w ! a) = Some k" by auto
  note ok = stub_dispose_Ok [OF assms(1) _ _ k]
  have stubs: "live_stubs i w' = live_stubs i (upd_stub a (\<lambda>s. s\<lparr>sb_disposed := True\<rparr>) w)"
    using ok True by (simp add: live_stubs_def)
  have imp: "gm_get (ss_imports (w_session w')) i = gm_get (ss_imports (drop_import k (w_session w))) i"
    using ok True by simp
  show ?thesis
  proof (cases "k = i")
    case True': True
    have h: "holds_import i (w_stubs w ! a)" using True k True' by (simp add: holds_import_def)
    have cnt: "Suc (live_stubs i w') = live_stubs i w"
      using live_stubs_dispose [OF assms(2) h] stubs by simp
    with assms(3) obtain e where e: "gm_get (ss_imports (w_session w)) i = Some e"
      and rc: "ie_ref_count e = int (live_stubs i w)"
      by (auto simp: refs_balanced_def split: option.splits)
    have "int32 (ie_ref_count e - 1) = int (live_stubs i w')"
      using rc cnt assms(4) by (subst int32_id) auto
    with e imp True' show ?thesis
      by (auto simp: refs_balanced_def drop_import_get Let_def)
  next
    case False
    then have "\<not> holds_import i (w_stubs w ! a)" using k by (simp add: holds_import_def)
    then have "live_stubs i w' = live_stubs i w"
      using live_stubs_other [OF assms(2)] stubs by simp
    with False imp show ?thesis by (intro refs_balanced_cong [OF assms(3)]) (simp_all add: drop_import_get)
  qed
qed

lemma refs_balanced_clone:
  assumes "stub_clone E a extra w = (Ok r, w')" and "a < length (w_stubs w)"
    and "refs_balanced i w" and "live_stubs i w < 2147483647"
  shows "refs_balanced i w'"
proof (cases "sb_disposed (w_stubs w ! a)")
  case True
  with assms show ?thesis by (simp add: stub_clone_def)
next
  case False
  let ?s = "w_stubs w ! a"
  let ?w1 = "snd (fresh_path (path_of w (sb_path ?s) @ extra) w)"
  let ?np = "fst (fresh_path (path_of w (sb_path ?s) @ extra) w)"
  let ?n = "mk_stub (sb_session ?s) (sb_import_id ?s) (sb_export_id ?s) ?np (en_now E)"
  let ?w2 = "snd (add_stub ?n ?w1)"
  have base: "live_stubs i ?w2 = live_stubs i w + (if holds_import i ?s then 1 else 0)"
    "w_session ?w2 = w_session w"
    using False by (simp_all add: holds_import_def mk_stub_def)
  have unf: "stub_clone E a extra w =
      (case (sb_import_id ?s, sb_session ?s) of
         (Some k, True) \<Rightarrow>
           (case wlock (w_session ?w2) of
              None \<Rightarrow> (Hang, ?w2)
            | Some ss \<Rightarrow>
                let ss' = (case gm_get (ss_imports ss) k of None \<Rightarrow> ss
                    | Some e \<Rightarrow> ss\<lparr>ss_imports := gm_put k (e\<lparr>ie_ref_count := int32 (ie_ref_count e + 1)\<rparr>) (ss_imports ss)\<rparr>)
                in (Ok (StubAt (fst (add_stub ?n ?w1))), ?w2\<lparr>w_session := wunlock ss'\<rparr>))
       | _ \<Rightarrow> (Ok (StubAt (fst (add_stub ?n ?w1))), ?w2))"
    using False by (simp add: stub_clone_def Let_def split_beta split: option.split bool.split)
  show ?thesis
  proof (cases "sb_session ?s \<and> sb_import_id ?s \<noteq> None")
    case no: False
    then have "w' = ?w2" "\<not> holds_import i ?s"
      using assms(1) unfolding unf by (auto simp: holds_import_def split: option.splits bool.splits)
    with base show ?thesis by (intro refs_balanced_cong [OF assms(3)]) simp_all
  next
    case True
    then obtain k where k: "sb_import_id ?s = Some k" "sb_session ?s" by auto
    obtain ss where ss: "wlock (w_session ?w2) = Some ss"
      using assms(1) k unfolding unf by (cases "wlock (w_session ?w2)") auto
    then have im: "ss_imports ss = ss_imports (w_session w)" using base by (auto simp: wlock_Some)
    let ?upd = "\<lambda>e. e\<lparr>ie_ref_count := int32 (ie_ref_count e + 1)\<rparr>"
    have w': "gm_get (ss_imports (w_session w')) i =
        (if i = k then map_option ?upd (gm_get (ss_imports (w_session w)) i) else gm_get (ss_imports (w_session w)) i)"
      "live_stubs i w' = live_stubs i ?w2"
      using assms(1) k ss im unfolding unf by (auto simp: Let_def wunlock_def split: option.splits)
    show ?thesis
    proof (cases "i = k")
      case True
      with k False have h: "holds_import i ?s" by (simp add: holds_import_def)
      have "0 < live_stubs i w"
        using h assms(2) by (auto simp: live_stubs_def filter_empty_conv)
      with assms(3) obtain e where e: "gm_get (ss_imports (w_session w)) i = Some e"
        "ie_ref_count e = int (live_stubs i w)"
        by (auto simp: refs_balanced_def split: option.splits)
      then have "int32 (ie_ref_count e + 1) = int (live_stubs i w) + 1"
        using assms(4) by (subst int32_id) auto
      with e w' base h True show ?thesis by (simp add: refs_balanced_def)
    next
      case no: False
      then have "\<not> holds_import i ?s" using k by (simp add: holds_import_def)
      with no w' base show ?thesis by (intro refs_balanced_cong [OF assms(3)]) simp_all
    qed
  qed
qed

lemma stub_get_Ok:
  assumes "stub_get E a x w = (Ok p, w')"
  shows "p = length (w_promises w)
    \<and> w_heap w' = snd (slice_append (sb_path (w_stubs w ! a)) x (w_heap w))
    \<and> w_promises w' = w_promises w @ [(blank_promise True (fst (slice_append (sb_path (w_stubs w ! a)) x (w_heap w)))
        (en_now E))\<lparr>pm_stub := StubAt (length (w_stubs w))\<rparr>]
    \<and> w_stubs w' = w_stubs w @ [mk_stub True (sb_import_id (w_stubs w ! a)) None
        (fst (slice_append (sb_path (w_stubs w ! a)) x (w_heap w))) (en_now E)]
    \<and> w_session w' = w_session w"
  using assms
  by (auto simp: stub_get_def Let_def append_path_def add_stub_def add_promise_def split_beta split: if_splits)

section \<open>Properties\<close>

definition sample_world :: "memory_transport world" where
  "sample_world = snd (session_import_stub sample_env 5 False (new_world sample_session))"

text \<open>
  C12: Cloning and disposing keep the references balanced. When the count of an import entry is the
  number of live stubs for it (and there is no entry when there is none), then after any \<open>Clone\<close> or
  \<open>Dispose\<close> that returns it still is, for every import; so the entry goes exactly when its last
  stub is disposed. (Below 2^31 stubs.)
\<close>

theorem clone_dispose_balanced:
  assumes "a < length (w_stubs w)" and "refs_balanced i w" and "live_stubs i w < 2147483647"
  shows "(stub_clone E a extra w = (Ok r, w1) \<longrightarrow> refs_balanced i w1)
    \<and> (stub_dispose E a w = (Ok u, w2) \<longrightarrow> refs_balanced i w2)"
  using refs_balanced_clone [OF _ assms] refs_balanced_dispose [OF _ assms(1,2)] assms(3) by auto

lemma clone_dispose_balanced_witness:
  "refs_balanced 5 (snd (stub_clone sample_env 0 [''x''] sample_world))"
proof -
  have "0 < length (w_stubs sample_world)" "refs_balanced 5 sample_world" "live_stubs 5 sample_world < 2147483647"
    by (simp_all add: sample_world_def session_import_stub_def create_import_stub_def new_world_def
        sample_session_def new_session_def Let_def wlock_def wunlock_def upd_stats_def fresh_path_def
        slice_make_def add_stub_def mk_stub_def refs_balanced_def live_stubs_def holds_import_def)
  moreover have "fst (stub_clone sample_env 0 [''x''] sample_world) = Ok (StubAt 1)" by code_simp
  ultimately show ?thesis
    using clone_dispose_balanced [of 0 sample_world 5 sample_env "[''x'']" "StubAt 1"
        "snd (stub_clone sample_env 0 [''x''] sample_world)"]
    by (metis prod.collapse)
qed

text \<open>
  A property stub does not hold its import. Reading a property makes a second live stub for the
  same import without counting it; when the import had one reference, disposing the property stub
  removes the import entry while the original stub is still in use.
\<close>

theorem get_child_dispose_drops_import:
  assumes "a < length (w_stubs w)" and "holds_import i (w_stubs w ! a)"
    and "gm_get (ss_imports (w_session w)) i = Some e" and "ie_ref_count e = 1"
    and "stub_get E a prop w = (Ok p, w1)" and "stub_dispose E (length (w_stubs w)) w1 = (Ok u, w2)"
  shows "gm_get (ss_imports (w_session w2)) i = None \<and> holds_import i (w_stubs w2 ! a)
    \<and> pm_stub (w_promises w1 ! p) = StubAt (length (w_stubs w))"
proof -
  let ?pp = "fst (append_path (sb_path (w_stubs w ! a)) prop w)"
  let ?n = "mk_stub True (Some i) None ?pp (en_now E)"
  have w1: "w_stubs w1 = w_stubs w @ [?n]" "w_session w1 = w_session w"
    "pm_stub (w_promises w1 ! p) = StubAt (length (w_stubs w))"
    using assms(2,5) by (auto simp: stub_get_def Let_def holds_import_def add_stub_def add_promise_def
        append_path_def nth_append split: prod.splits)
  have "sb_import_id ?n = Some i" "\<not> sb_disposed ?n" "sb_session ?n" by (simp_all add: mk_stub_def)
  with w1 stub_dispose_Ok [OF assms(6), of i]
  have w2: "w_stubs w2 = (w_stubs w1)[length (w_stubs w) := ?n\<lparr>sb_disposed := True\<rparr>]"
    "ss_imports (w_session w2) = ss_imports (drop_import i (w_session w))"
    by (simp_all add: upd_stub_def)
  have "int32 0 = 0" by (simp add: int32_id)
  with w1 w2 assms(1-4) show ?thesis by (simp add: drop_import_get nth_append Let_def)
qed

definition quiet_env :: "memory_transport env" where
  "quiet_env = sample_env\<lparr>en_marshal := \<lambda>_. Err (EMsg [])\<rparr>"

lemma get_child_dispose_drops_import_witness:
  "gm_get (ss_imports (w_session (snd (stub_dispose quiet_env 1 (snd (stub_get quiet_env 0 ''x'' sample_world)))))) 5
     = None"
proof -
  let ?w1 = "snd (stub_get quiet_env 0 ''x'' sample_world)" and ?e = "\<lparr>ie_import_id = 5, ie_ref_count = 1,
     ie_is_promise = False, ie_path = [], ie_created = 0, ie_last_accessed = 0\<rparr>"
  have l: "length (w_stubs sample_world) = 1" by code_simp
  have "holds_import 5 (w_stubs sample_world ! 0)" by code_simp
  moreover have "gm_get (ss_imports (w_session sample_world)) 5 = Some ?e" by code_simp
  moreover have "fst (stub_get quiet_env 0 ''x'' sample_world) = Ok 0" by code_simp
  then have "stub_get quiet_env 0 ''x'' sample_world = (Ok 0, ?w1)" by (metis prod.collapse)
  moreover have "fst (stub_dispose quiet_env 1 ?w1) = Ok ()" by code_simp
  then have "stub_dispose quiet_env 1 ?w1 = (Ok (), snd (stub_dispose quiet_env 1 ?w1))" by (metis prod.collapse)
  ultimately show ?thesis
    using get_child_dispose_drops_import [of 0 sample_world 5 ?e quiet_env "''x''" 0 ?w1 "()"
        "snd (stub_dispose quiet_env 1 ?w1)"] l by simp
qed

text \<open>
  Disposal happens once and is for good. After a \<open>Dispose\<close> that returned, the stub answers every
  \<open>Call\<close>, \<open>Get\<close> and \<open>Set\<close> with an error, \<open>Clone\<close> with a nil stub, and a further \<open>Dispose\<close> with
  success; none of them changes anything, so the release message goes out at most once.
\<close>

theorem dispose_final:
  assumes "stub_dispose E a w = (Ok u, w')" and "a < length (w_stubs w)"
  shows "stub_call E' c a m args w' = (Err (EMsg ''stub has been disposed''), w')
    \<and> stub_get E' a prop w' = (Err (EMsg ''stub has been disposed''), w')
    \<and> stub_set E' c a prop v w' = (Err (EMsg ''stub has been disposed''), w')
    \<and> stub_clone E' a extra w' = (Ok NilStub, w') \<and> stub_dispose E' a w' = (Ok (), w')"
proof -
  have "sb_disposed (w_stubs w' ! a)"
  proof (cases "sb_disposed (w_stubs w ! a)")
    case True
    with assms show ?thesis by (simp add: stub_dispose_def Let_def)
  next
    case False
    have "w_stubs w' = w_stubs (upd_stub a (\<lambda>s. s\<lparr>sb_disposed := True\<rparr>) w)"
    proof (cases "sb_session (w_stubs w ! a) \<and> sb_import_id (w_stubs w ! a) \<noteq> None")
      case True
      then show ?thesis using stub_dispose_Ok [OF assms(1) False] by auto
    next
      case no: False
      then have "w' = upd_stub a (\<lambda>s. s\<lparr>sb_disposed := True\<rparr>) w"
        using assms(1) False
        by (cases "sb_session (w_stubs w ! a)") (simp_all add: stub_dispose_def Let_def)
      then show ?thesis by simp
    qed
    then show ?thesis using assms(2) by (simp add: upd_stub_def)
  qed
  then show ?thesis
    by (simp add: stub_call_def stub_get_def stub_set_def stub_clone_def stub_dispose_def)
qed

lemma dispose_final_witness:
  "fst (stub_call quiet_env CtxLive 0 ''m'' [] (snd (stub_dispose quiet_env 0 sample_world)))
     = Err (EMsg ''stub has been disposed'')"
proof -
  have "fst (stub_dispose quiet_env 0 sample_world) = Ok ()" by code_simp
  then have "stub_dispose quiet_env 0 sample_world = (Ok (), snd (stub_dispose quiet_env 0 sample_world))"
    by (metis prod.collapse)
  moreover have "0 < length (w_stubs sample_world)" by code_simp
  ultimately show ?thesis
    using dispose_final [of quiet_env 0 sample_world "()" "snd (stub_dispose quiet_env 0 sample_world)"
        quiet_env CtxLive "''m''" "[]" "[]" VNil "[]"] by (metis fst_conv)
qed

text \<open>
  Sibling properties share memory. If the array behind a stub's path has room (a path of three
  elements made by \<open>Get\<close> has room for a fourth), then reading a second property of the stub
  overwrites the path of the promise made for the first: both now name the second property.
\<close>

theorem sibling_paths_alias:
  assumes "slice_wf (w_heap w) (sb_path (w_stubs w ! a))" and "a < length (w_stubs w)"
    and "sl_len (sb_path (w_stubs w ! a)) < sl_cap (sb_path (w_stubs w ! a))"
    and "stub_get E a x w = (Ok p1, w1)" and "stub_get E a y w1 = (Ok p2, w2)"
  shows "path_of w1 (pm_path (w_promises w1 ! p1)) = path_of w (sb_path (w_stubs w ! a)) @ [x]
    \<and> path_of w2 (pm_path (w_promises w2 ! p1)) = path_of w (sb_path (w_stubs w ! a)) @ [y]
    \<and> path_of w2 (pm_path (w_promises w2 ! p2)) = path_of w (sb_path (w_stubs w ! a)) @ [y]"
proof -
  let ?s = "sb_path (w_stubs w ! a)"
  obtain r1 h1 where a1: "slice_append ?s x (w_heap w) = (r1, h1)" by force
  obtain r2 h2 where a2: "slice_append ?s y h1 = (r2, h2)" by force
  note g1 = stub_get_Ok [OF assms(4)] and g2 = stub_get_Ok [OF assms(5)]
  have w1: "w_heap w1 = h1" "pm_path (w_promises w1 ! p1) = r1" "w_stubs w1 ! a = w_stubs w ! a"
    "p1 < length (w_promises w1)"
    using g1 a1 assms(2) by (simp_all add: blank_promise_def nth_append)
  have w2: "w_heap w2 = h2" "pm_path (w_promises w2 ! p1) = r1" "pm_path (w_promises w2 ! p2) = r2"
    using g2 w1 a2 by (simp_all add: blank_promise_def nth_append)
  show ?thesis
    using w1 w2 slice_append_alias [OF assms(1,3) a1 [symmetric] a2 [symmetric]]
      slice_append_val [OF assms(1), of x] a1
    by (simp add: path_of_def)
qed

definition chain_world :: "memory_transport world" where
  "chain_world = snd (stub_get quiet_env 2 ''c'' (snd (stub_get quiet_env 1 ''b''
     (snd (stub_get quiet_env 0 ''a'' sample_world)))))"

lemma sibling_paths_alias_witness:
  "path_of (snd (stub_get quiet_env 3 ''y'' (snd (stub_get quiet_env 3 ''x'' chain_world))))
     (pm_path (w_promises (snd (stub_get quiet_env 3 ''y'' (snd (stub_get quiet_env 3 ''x'' chain_world)))) ! 3))
   = [''a'', ''b'', ''c'', ''y'']"
proof -
  let ?w1 = "snd (stub_get quiet_env 3 ''x'' chain_world)"
  let ?w2 = "snd (stub_get quiet_env 3 ''y'' ?w1)"
  have "slice_wf (w_heap chain_world) (sb_path (w_stubs chain_world ! 3))" by code_simp
  moreover have "3 < length (w_stubs chain_world)" by code_simp
  moreover have "sl_len (sb_path (w_stubs chain_world ! 3)) < sl_cap (sb_path (w_stubs chain_world ! 3))" by code_simp
  moreover have "fst (stub_get quiet_env 3 ''x'' chain_world) = Ok 3" by code_simp
  then have "stub_get quiet_env 3 ''x'' chain_world = (Ok 3, ?w1)" by (metis prod.collapse)
  moreover have "fst (stub_get quiet_env 3 ''y'' ?w1) = Ok 4" by code_simp
  then have "stub_get quiet_env 3 ''y'' ?w1 = (Ok 4, ?w2)" by (metis prod.collapse)
  moreover have "path_of chain_world (sb_path (w_stubs chain_world ! 3)) = [''a'', ''b'', ''c'']" by code_simp
  ultimately show ?thesis
    using sibling_paths_alias [of chain_world 3 quiet_env "''x''" 3 ?w1 "''y''" 4 ?w2] by simp
qed

text \<open>
  Every call leaves a placeholder behind. On a live stub over an idle, open session, \<open>Call\<close>
  exports one nil placeholder under a fresh id whether or not the call can be sent, and the message
  it sends is the same for every id: the peer is not told under which id to answer.
\<close>

theorem call_leaves_placeholder:
  assumes "holds_import i (w_stubs w ! a)" and "lock_free (w_session w)" and "\<not> ss_closed (w_session w)"
  shows "ss_exports (w_session (snd (stub_call E c a m args w)))
      = gm_put (int32 (ss_next_export (w_session w) + 1)) (fresh_entry (en_now E) VNil) (ss_exports (w_session w))
    \<and> new_push_message v (Some k) = new_push_message v (Some k')"
proof -
  let ?w2 = "snd (append_path (sb_path (w_stubs w ! a)) m (count_call add_started w))"
  have free: "ss_readers (w_session ?w2) = 0" "\<not> ss_writer (w_session ?w2)"
    "ss_exports (w_session ?w2) = ss_exports (w_session w)"
    "ss_next_export (w_session ?w2) = ss_next_export (w_session w)"
    using assms(2) by (auto simp: append_path_def count_call_def upd_session_def upd_stats_def lock_free_def
        split: prod.splits)
  define ss where "ss = snd (export_value (en_now E) VNil (w_session ?w2))"
  have ex: "export_value (en_now E) VNil (w_session ?w2) = (Ok (int32 (ss_next_export (w_session w) + 1)), ss)"
    using free by (simp add: ss_def export_value_open)
  have ss: "ss_exports ss = gm_put (int32 (ss_next_export (w_session w) + 1)) (fresh_entry (en_now E) VNil)
      (ss_exports (w_session w))"
    using free by (simp add: ss_def export_value_open upd_stats_def)
  have core: "ss_exports (snd (session_send E c msg ss)) = ss_exports ss" for msg
    using session_send_same_core [of ss E c msg] by (simp add: same_core_def)
  have exps: "ss_exports (w_session w') = ss_exports ss"
    if "stub_call E c a m args w = (r, w')" for r w'
    using that assms(1) ex core
    by (auto simp: stub_call_def Let_def holds_import_def split_beta fresh_path_def add_promise_def
        count_call_def upd_session_def upd_stats_def split: outcome.splits prod.splits)
  show ?thesis
    using exps [of "fst (stub_call E c a m args w)" "snd (stub_call E c a m args w)"] ss
    by (simp add: new_push_message_def)
qed

lemma call_leaves_placeholder_witness:
  "ss_exports (w_session (snd (stub_call quiet_env CtxLive 0 ''m'' [] sample_world)))
   = [(1, fresh_entry 0 VNil)]"
proof -
  have "holds_import 5 (w_stubs sample_world ! 0)" "lock_free (w_session sample_world)"
    "\<not> ss_closed (w_session sample_world)" by code_simp+
  moreover have "gm_put (int32 (ss_next_export (w_session sample_world) + 1)) (fresh_entry (en_now quiet_env) VNil)
      (ss_exports (w_session sample_world)) = [(1, fresh_entry 0 VNil)]" by code_simp
  ultimately show ?thesis
    using call_leaves_placeholder [of 5 sample_world 0 quiet_env CtxLive "''m''" "[]" VNil 0 0] by simp
qed

end
