(* ===== verification/Promise.thy ===== *)
theory Promise
  imports Stub
begin

text \<open>
  \<open>promise.go\<close>: promises, chaining, waiting and the resolver. \<open>Await\<close> is several steps with other
  goroutines in between; the arguments \<open>mid\<close> (between its look at the state and the registration
  of its channel) and \<open>late\<close> (while it waits) say what they do to the world. A deadline that is
  in the past has expired; otherwise \<open>fires\<close> says whether it passes while \<open>Await\<close> waits.
\<close>

section \<open>Construction and chaining\<close>

definition default_promise_timeout :: int where "default_promise_timeout = 30000000000"

definition new_promise :: "'t env \<Rightarrow> bool \<Rightarrow> int \<Rightarrow> 't world \<Rightarrow> nat \<times> 't world" where
  "new_promise E ses eid w =
     (let (pp, w1) = fresh_path [] w
      in add_promise ((blank_promise ses pp (en_now E))\<lparr>pm_export_id := eid, pm_timeout := default_promise_timeout\<rparr>) w1)"

definition new_promise_with_stub :: "'t env \<Rightarrow> bool \<Rightarrow> stub_ref \<Rightarrow> slice \<Rightarrow> 't world \<Rightarrow> nat \<times> 't world" where
  "new_promise_with_stub E ses st p w =
     add_promise ((blank_promise ses p (en_now E))\<lparr>pm_stub := st, pm_timeout := default_promise_timeout\<rparr>) w"

definition upd_promise :: "nat \<Rightarrow> (promise \<Rightarrow> promise) \<Rightarrow> 't world \<Rightarrow> 't world" where
  "upd_promise a f w = w\<lparr>w_promises := (w_promises w)[a := f (w_promises w ! a)]\<rparr>"

text \<open>The stub of a chained promise: \<open>Clone\<close> on a nil \<open>*stubImpl\<close> dereferences it.\<close>

definition chained_stub :: "'t env \<Rightarrow> stub_ref \<Rightarrow> string \<Rightarrow> 't world \<Rightarrow> stub_ref result \<times> 't world" where
  "chained_stub E st x w =
     (case st of NoStub \<Rightarrow> (Ok NoStub, w) | NilStub \<Rightarrow> (Panic, w) | ForeignStub \<Rightarrow> (Ok NoStub, w)
      | StubAt a \<Rightarrow> stub_clone E a [x] w)"

definition promise_then :: "'t env \<Rightarrow> nat \<Rightarrow> string \<Rightarrow> gval list \<Rightarrow> 't world \<Rightarrow> nat result \<times> 't world" where
  "promise_then E a meth args w =
     (let p = w_promises w ! a;
          (pp, w1) = append_path (pm_path p) meth w;
          np = (blank_promise (pm_session p) pp (en_now E))\<lparr>pm_timeout := pm_timeout p\<rparr>
      in (case chained_stub E (pm_stub p) meth w1 of
            (Ok st, w2) \<Rightarrow> (let (n, w3) = add_promise (np\<lparr>pm_stub := st\<rparr>) w2 in (Ok n, w3))
          | (Err e, w2) \<Rightarrow> (Err e, w2) | (Panic, w2) \<Rightarrow> (Panic, w2) | (Hang, w2) \<Rightarrow> (Hang, w2)))"

definition promise_get :: "'t env \<Rightarrow> nat \<Rightarrow> string \<Rightarrow> 't world \<Rightarrow> nat result \<times> 't world" where
  "promise_get E a prop w =
     (let p = w_promises w ! a;
          (pp, w1) = append_path (pm_path p) prop w;
          np = (blank_promise (pm_session p) pp (en_now E))\<lparr>pm_timeout := pm_timeout p\<rparr>
      in (case chained_stub E (pm_stub p) prop w1 of
            (Ok st, w2) \<Rightarrow> (let (n, w3) = add_promise (np\<lparr>pm_stub := st\<rparr>) w2 in (Ok n, w3))
          | (Err e, w2) \<Rightarrow> (Err e, w2) | (Panic, w2) \<Rightarrow> (Panic, w2) | (Hang, w2) \<Rightarrow> (Hang, w2)))"

section \<open>Settling\<close>

text \<open>Close the channels in turn; closing a closed one panics.\<close>

fun close_all :: "nat list \<Rightarrow> bool list \<Rightarrow> bool list option" where
  "close_all [] cs = Some cs"
| "close_all (k # ks) cs = (if cs ! k then None else close_all ks (cs[k := True]))"

definition notify_waiters :: "nat \<Rightarrow> 't world \<Rightarrow> unit result \<times> 't world" where
  "notify_waiters a w =
     (let ks = pm_waiters (w_promises w ! a);
          w1 = upd_promise a (\<lambda>p. p\<lparr>pm_waiters := []\<rparr>) w
      in case close_all ks (w_chans w1) of
           None \<Rightarrow> (Panic, w1) | Some cs \<Rightarrow> (Ok (), w1\<lparr>w_chans := cs\<rparr>))"

definition count_settled :: "nat \<Rightarrow> (session_stats \<Rightarrow> session_stats) \<Rightarrow> 't world \<Rightarrow> 't world" where
  "count_settled a f w = (if pm_session (w_promises w ! a) then count_call f w else w)"

definition promise_resolve :: "nat \<Rightarrow> gval \<Rightarrow> 't world \<Rightarrow> unit result \<times> 't world" where
  "promise_resolve a v w =
     (if pm_state (w_promises w ! a) \<noteq> Pending then (Ok (), w)
      else case notify_waiters a (upd_promise a (\<lambda>p. p\<lparr>pm_state := Resolved, pm_result := v\<rparr>) w) of
        (Ok _, w1) \<Rightarrow> (Ok (), count_settled a add_completed w1)
      | r \<Rightarrow> r)"

definition promise_reject :: "nat \<Rightarrow> goerr option \<Rightarrow> 't world \<Rightarrow> unit result \<times> 't world" where
  "promise_reject a e w =
     (if pm_state (w_promises w ! a) \<noteq> Pending then (Ok (), w)
      else case notify_waiters a (upd_promise a (\<lambda>p. p\<lparr>pm_state := Rejected, pm_err := e\<rparr>) w) of
        (Ok _, w1) \<Rightarrow> (Ok (), count_settled a add_failed w1)
      | r \<Rightarrow> r)"

section \<open>Waiting\<close>

text \<open>\<open>return nil, p.err\<close>: a nil error is a success with a nil value.\<close>

definition settled_answer :: "promise \<Rightarrow> gval result" where
  "settled_answer p =
     (if pm_state p = Resolved then Ok (pm_result p)
      else case pm_err p of Some e \<Rightarrow> Err e | None \<Rightarrow> Ok VNil)"

definition effective_ctx :: "ctx option \<Rightarrow> int \<Rightarrow> bool \<Rightarrow> ctx" where
  "effective_ctx c timeout fires =
     (case c of Some c' \<Rightarrow> c' | None \<Rightarrow> if timeout \<le> 0 \<or> fires then CtxDeadline else CtxLive)"

definition register_waiter :: "nat \<Rightarrow> 't world \<Rightarrow> nat \<times> 't world" where
  "register_waiter a w =
     (let k = length (w_chans w)
      in (k, upd_promise a (\<lambda>p. p\<lparr>pm_waiters := pm_waiters p @ [k]\<rparr>) (w\<lparr>w_chans := w_chans w @ [False]\<rparr>)))"

datatype await_case = AwDone | AwCtx

definition send_pull :: "'t env \<Rightarrow> ctx \<Rightarrow> promise \<Rightarrow> 't world \<Rightarrow> unit result \<times> 't world" where
  "send_pull E cx p w =
     (if pm_export_id p = 0 then (Ok (), w)
      else if \<not> pm_session p then (Panic, w)
      else case session_send E cx (new_pull_message (pm_export_id p)) (w_session w) of
        (Ok _, ss) \<Rightarrow> (Ok (), w\<lparr>w_session := ss\<rparr>)
      | (Err e, ss) \<Rightarrow> (Err (EWrap ''failed to send pull request: '' e), w\<lparr>w_session := ss\<rparr>)
      | (Panic, ss) \<Rightarrow> (Panic, w\<lparr>w_session := ss\<rparr>)
      | (Hang, ss) \<Rightarrow> (Hang, w\<lparr>w_session := ss\<rparr>))"

definition promise_await :: "'t env \<Rightarrow> nat \<Rightarrow> ctx option \<Rightarrow> bool \<Rightarrow> ('t world \<Rightarrow> 't world)
    \<Rightarrow> ('t world \<Rightarrow> 't world) \<Rightarrow> nat \<Rightarrow> 't world \<Rightarrow> gval result \<times> 't world" where
  "promise_await E pick c fires mid late a w =
     (case pm_state (w_promises w ! a) of
        Resolved \<Rightarrow> (Ok (pm_result (w_promises w ! a)), w)
      | Rejected \<Rightarrow> (settled_answer (w_promises w ! a), w)
      | Pending \<Rightarrow>
          let (k, w1) = register_waiter a (mid w);
              p = w_promises w1 ! a;
              cx = effective_ctx c (pm_timeout p) fires
          in (case send_pull E cx p w1 of
                (Ok _, w2) \<Rightarrow>
                  let w3 = late w2
                  in (case go_select pick [(w_chans w3 ! k, AwDone), (ctx_done cx, AwCtx)] of
                        None \<Rightarrow> (Hang, w3)
                      | Some AwDone \<Rightarrow> (settled_answer (w_promises w3 ! a), w3)
                      | Some AwCtx \<Rightarrow> (Err (EWrap ''promise await cancelled: '' (ctx_error cx)), w3))
              | (Err e, w2) \<Rightarrow> (Err e, w2) | (Panic, w2) \<Rightarrow> (Panic, w2) | (Hang, w2) \<Rightarrow> (Hang, w2)))"

definition await_with_timeout :: "'t env \<Rightarrow> nat \<Rightarrow> int \<Rightarrow> bool \<Rightarrow> ('t world \<Rightarrow> 't world)
    \<Rightarrow> ('t world \<Rightarrow> 't world) \<Rightarrow> nat \<Rightarrow> 't world \<Rightarrow> gval result \<times> 't world" where
  "await_with_timeout E pick timeout fires mid late a w =
     promise_await E pick (Some (effective_ctx None timeout fires)) fires mid late a w"

definition is_resolved :: "promise \<Rightarrow> bool" where "is_resolved p \<longleftrightarrow> pm_state p = Resolved"
definition is_pending :: "promise \<Rightarrow> bool" where "is_pending p \<longleftrightarrow> pm_state p = Pending"
definition is_rejected :: "promise \<Rightarrow> bool" where "is_rejected p \<longleftrightarrow> pm_state p = Rejected"

definition set_timeout :: "nat \<Rightarrow> int \<Rightarrow> 't world \<Rightarrow> 't world" where
  "set_timeout a t w = upd_promise a (\<lambda>p. p\<lparr>pm_timeout := t\<rparr>) w"

definition promise_get_path :: "nat \<Rightarrow> 't world \<Rightarrow> slice \<times> 't world" where
  "promise_get_path a w = fresh_path (path_of w (pm_path (w_promises w ! a))) w"

definition promise_string :: "nat \<Rightarrow> 't world \<Rightarrow> string" where
  "promise_string a w =
     (let p = w_promises w ! a;
          st = (case pm_state p of Pending \<Rightarrow> ''pending'' | Resolved \<Rightarrow> ''resolved'' | Rejected \<Rightarrow> ''rejected'');
          path = path_string (path_of w (pm_path p))
      in if pm_export_id p \<noteq> 0
         then ''Promise{export:'' @ int_to_dec (pm_export_id p) @ '', path:'' @ path @ '', state:'' @ st @ ''}''
         else ''Promise{path:'' @ path @ '', state:'' @ st @ ''}'')"

section \<open>The resolver\<close>

type_synonym promise_resolver = "(int, nat) gomap"

definition new_promise_resolver :: promise_resolver where "new_promise_resolver = []"

definition register_promise :: "int \<Rightarrow> nat \<Rightarrow> promise_resolver \<Rightarrow> promise_resolver" where
  "register_promise i a r = gm_put i a r"

definition resolver_resolve :: "int \<Rightarrow> gval \<Rightarrow> promise_resolver \<times> 't world \<Rightarrow> bool result \<times> promise_resolver \<times> 't world" where
  "resolver_resolve i v rw =
     (case gm_get (fst rw) i of
        None \<Rightarrow> (Ok False, rw)
      | Some a \<Rightarrow>
          (case promise_resolve a v (snd rw) of
             (Ok _, w') \<Rightarrow> (Ok True, gm_del i (fst rw), w') | (Err e, w') \<Rightarrow> (Err e, gm_del i (fst rw), w')
           | (Panic, w') \<Rightarrow> (Panic, gm_del i (fst rw), w') | (Hang, w') \<Rightarrow> (Hang, gm_del i (fst rw), w')))"

definition resolver_reject :: "int \<Rightarrow> goerr option \<Rightarrow> promise_resolver \<times> 't world \<Rightarrow> bool result \<times> promise_resolver \<times> 't world" where
  "resolver_reject i e rw =
     (case gm_get (fst rw) i of
        None \<Rightarrow> (Ok False, rw)
      | Some a \<Rightarrow>
          (case promise_reject a e (snd rw) of
             (Ok _, w') \<Rightarrow> (Ok True, gm_del i (fst rw), w') | (Err e, w') \<Rightarrow> (Err e, gm_del i (fst rw), w')
           | (Panic, w') \<Rightarrow> (Panic, gm_del i (fst rw), w') | (Hang, w') \<Rightarrow> (Hang, gm_del i (fst rw), w')))"

definition pending_count :: "promise_resolver \<Rightarrow> nat" where "pending_count r = gm_len r"

fun reject_all :: "nat list \<Rightarrow> goerr option \<Rightarrow> 't world \<Rightarrow> unit result \<times> 't world" where
  "reject_all [] e w = (Ok (), w)"
| "reject_all (a # as) e w =
     (case promise_reject a e w of (Ok _, w') \<Rightarrow> reject_all as e w' | r \<Rightarrow> r)"

definition cleanup_promises :: "goerr option \<Rightarrow> promise_resolver \<times> 't world \<Rightarrow> unit result \<times> promise_resolver \<times> 't world" where
  "cleanup_promises e rw =
     (case reject_all (map snd (fst rw)) e (snd rw) of (r, w') \<Rightarrow> (r, new_promise_resolver, w'))"

section \<open>Settling a promise\<close>

definition waiters_ok :: "nat \<Rightarrow> 't world \<Rightarrow> bool" where
  "waiters_ok a w \<longleftrightarrow> distinct (pm_waiters (w_promises w ! a))
     \<and> (\<forall>k \<in> set (pm_waiters (w_promises w ! a)). k < length (w_chans w) \<and> \<not> w_chans w ! k)"

lemma close_all_Some:
  assumes "distinct ks" and "\<forall>k \<in> set ks. k < length cs \<and> \<not> cs ! k"
  shows "\<exists>cs'. close_all ks cs = Some cs' \<and> length cs' = length cs
    \<and> (\<forall>j < length cs. cs' ! j = (cs ! j \<or> j \<in> set ks))"
  using assms
proof (induction ks arbitrary: cs)
  case (Cons k ks)
  then have "\<forall>j \<in> set ks. j < length (cs[k := True]) \<and> \<not> cs[k := True] ! j"
    by (auto simp: nth_list_update)
  with Cons obtain cs' where "close_all ks (cs[k := True]) = Some cs'" "length cs' = length cs"
    "\<forall>j < length cs. cs' ! j = (cs[k := True] ! j \<or> j \<in> set ks)"
    by (metis distinct.simps(2) length_list_update)
  with Cons.prems show ?case by (auto simp: nth_list_update)
qed simp

lemma close_all_length: "close_all ks cs = Some cs' \<Longrightarrow> length cs' = length cs"
  by (induction ks cs rule: close_all.induct) (auto split: if_splits)

lemma upd_promise_fields [simp]:
  "w_chans (upd_promise a f w) = w_chans w" "w_session (upd_promise a f w) = w_session w"
  "length (w_promises (upd_promise a f w)) = length (w_promises w)"
  "a < length (w_promises w) \<Longrightarrow> w_promises (upd_promise a f w) ! a = f (w_promises w ! a)"
  "b \<noteq> a \<Longrightarrow> w_promises (upd_promise a f w) ! b = w_promises w ! b"
  by (simp_all add: upd_promise_def)

lemma count_settled_fields [simp]:
  "w_promises (count_settled a f w) = w_promises w" "w_chans (count_settled a f w) = w_chans w"
  by (simp_all add: count_settled_def count_call_def upd_session_def)

text \<open>What settling a pending promise does, for both operations.\<close>

lemma notify_waiters_ok:
  assumes "a < length (w_promises w)" and "waiters_ok a w"
  obtains w' where "notify_waiters a w = (Ok (), w')"
    and "w_promises w' = (w_promises w)[a := (w_promises w ! a)\<lparr>pm_waiters := []\<rparr>]"
    and "length (w_chans w') = length (w_chans w)"
    and "\<forall>j < length (w_chans w). w_chans w' ! j = (w_chans w ! j \<or> j \<in> set (pm_waiters (w_promises w ! a)))"
proof -
  from assms(2) obtain cs' where cs: "close_all (pm_waiters (w_promises w ! a)) (w_chans w) = Some cs'"
    "length cs' = length (w_chans w)"
    "\<forall>j < length (w_chans w). cs' ! j = (w_chans w ! j \<or> j \<in> set (pm_waiters (w_promises w ! a)))"
    using close_all_Some [of "pm_waiters (w_promises w ! a)" "w_chans w"] by (auto simp: waiters_ok_def)
  show ?thesis
    by (rule that [of "(upd_promise a (\<lambda>p. p\<lparr>pm_waiters := []\<rparr>) w)\<lparr>w_chans := cs'\<rparr>"])
      (use cs in \<open>simp_all add: notify_waiters_def upd_promise_def\<close>)
qed

datatype settling = SResolve gval | SReject "goerr option"

definition settle :: "nat \<Rightarrow> settling \<Rightarrow> 't world \<Rightarrow> unit result \<times> 't world" where
  "settle a op w = (case op of SResolve v \<Rightarrow> promise_resolve a v w | SReject e \<Rightarrow> promise_reject a e w)"

definition settled_as :: "settling \<Rightarrow> promise \<Rightarrow> promise" where
  "settled_as op p =
     (case op of SResolve v \<Rightarrow> p\<lparr>pm_state := Resolved, pm_result := v, pm_waiters := []\<rparr>
      | SReject e \<Rightarrow> p\<lparr>pm_state := Rejected, pm_err := e, pm_waiters := []\<rparr>)"

lemma settle_pending:
  assumes "a < length (w_promises w)" and "waiters_ok a w" and "pm_state (w_promises w ! a) = Pending"
  shows "fst (settle a op w) = Ok ()
    \<and> w_promises (snd (settle a op w)) = (w_promises w)[a := settled_as op (w_promises w ! a)]
    \<and> length (w_chans (snd (settle a op w))) = length (w_chans w)
    \<and> (\<forall>j < length (w_chans w). w_chans (snd (settle a op w)) ! j
        = (w_chans w ! j \<or> j \<in> set (pm_waiters (w_promises w ! a))))"
proof (cases op)
  case (SResolve v)
  let ?w1 = "upd_promise a (\<lambda>p. p\<lparr>pm_state := Resolved, pm_result := v\<rparr>) w"
  have "a < length (w_promises ?w1)" "waiters_ok a ?w1" using assms by (simp_all add: waiters_ok_def)
  then obtain w' where n: "notify_waiters a ?w1 = (Ok (), w')"
    "w_promises w' = (w_promises ?w1)[a := (w_promises ?w1 ! a)\<lparr>pm_waiters := []\<rparr>]"
    "length (w_chans w') = length (w_chans ?w1)"
    "\<forall>j < length (w_chans ?w1). w_chans w' ! j = (w_chans ?w1 ! j \<or> j \<in> set (pm_waiters (w_promises ?w1 ! a)))"
    by (rule notify_waiters_ok)
  with assms SResolve show ?thesis
    by (simp add: settle_def promise_resolve_def settled_as_def upd_promise_def)
next
  case (SReject e)
  let ?w1 = "upd_promise a (\<lambda>p. p\<lparr>pm_state := Rejected, pm_err := e\<rparr>) w"
  have "a < length (w_promises ?w1)" "waiters_ok a ?w1" using assms by (simp_all add: waiters_ok_def)
  then obtain w' where n: "notify_waiters a ?w1 = (Ok (), w')"
    "w_promises w' = (w_promises ?w1)[a := (w_promises ?w1 ! a)\<lparr>pm_waiters := []\<rparr>]"
    "length (w_chans w') = length (w_chans ?w1)"
    "\<forall>j < length (w_chans ?w1). w_chans w' ! j = (w_chans ?w1 ! j \<or> j \<in> set (pm_waiters (w_promises ?w1 ! a)))"
    by (rule notify_waiters_ok)
  with assms SReject show ?thesis
    by (simp add: settle_def promise_reject_def settled_as_def upd_promise_def)
qed

lemma settle_settled: "pm_state (w_promises w ! a) \<noteq> Pending \<Longrightarrow> settle a op w = (Ok (), w)"
  by (cases op) (simp_all add: settle_def promise_resolve_def promise_reject_def)

lemma register_waiter_ok:
  assumes "a < length (w_promises w)" and "waiters_ok a w" and "register_waiter a w = (k, w1)"
  shows "k = length (w_chans w) \<and> waiters_ok a w1
    \<and> w_promises w1 = (w_promises w)[a := (w_promises w ! a)\<lparr>pm_waiters := pm_waiters (w_promises w ! a) @ [k]\<rparr>]
    \<and> w_chans w1 = w_chans w @ [False] \<and> w_session w1 = w_session w"
  using assms by (auto simp: register_waiter_def Let_def waiters_ok_def upd_promise_def nth_append
      less_Suc_eq)

section \<open>Properties\<close>

definition pending_world :: "memory_transport world" where
  "pending_world = snd (new_promise sample_env True 0 (new_world sample_session))"

lemma pending_world_facts:
  "0 < length (w_promises pending_world)" "waiters_ok 0 pending_world"
  "pm_state (w_promises pending_world ! 0) = Pending" "pm_export_id (w_promises pending_world ! 0) = 0"
  by code_simp+

text \<open>
  C13: The first settlement wins. Settling a pending promise any number of times, with values and
  errors in any order, never panics and leaves exactly what the first one said; every caller
  registered before it has its channel closed, and no other channel is touched.
\<close>

theorem first_settlement_wins:
  assumes "a < length (w_promises w)" and "waiters_ok a w" and "pm_state (w_promises w ! a) = Pending"
    and "w' = fold (\<lambda>op w. snd (settle a op w)) (op # ops) w"
  shows "w_promises w' ! a = settled_as op (w_promises w ! a)
    \<and> (\<forall>j < length (w_chans w). w_chans w' ! j \<longleftrightarrow> w_chans w ! j \<or> j \<in> set (pm_waiters (w_promises w ! a)))
    \<and> (\<forall>op'. fst (settle a op' w') = Ok ())"
proof -
  let ?w1 = "snd (settle a op w)"
  note s = settle_pending [OF assms(1-3), of op]
  have st: "pm_state (w_promises ?w1 ! a) \<noteq> Pending"
    using s assms(1) by (cases op) (simp_all add: settled_as_def)
  then have "fold (\<lambda>op w. snd (settle a op w)) ops ?w1 = ?w1"
    by (induction ops) (simp_all add: settle_settled)
  with s st assms show ?thesis by (simp add: settle_settled)
qed

lemma first_settlement_wins_witness:
  "pm_result (w_promises (fold (\<lambda>op w. snd (settle 0 op w))
      [SResolve (VInt 1), SReject None, SResolve (VInt 2)] pending_world) ! 0) = VInt 1"
  using first_settlement_wins [OF pending_world_facts(1-3) refl, of "SResolve (VInt 1)" "[SReject None, SResolve (VInt 2)]"]
  by (simp add: settled_as_def)

text \<open>
  C14: A waiting \<open>Await\<close> gets the answer. If the promise is settled after \<open>Await\<close> registered (and its
  pull request, when it sends one, went out), \<open>Await\<close> under a live context returns exactly the value
  or the error of the settlement; on a settled promise it returns it at once.
\<close>

theorem await_delivers:
  assumes "a < length (w_promises w)" and "waiters_ok a w" and "pm_state (w_promises w ! a) = Pending"
    and "pm_export_id (w_promises w ! a) = 0
      \<or> (pm_session (w_promises w ! a) \<and> fst (session_send E CtxLive (new_pull_message (pm_export_id (w_promises w ! a)))
           (w_session w)) = Ok ())"
  shows "fst (promise_await E pick (Some CtxLive) fires (\<lambda>w. w) (\<lambda>w. snd (settle a op w)) a w)
      = settled_answer (settled_as op (w_promises w ! a))
    \<and> promise_await E pick c fires mid late a (snd (settle a op w))
      = (settled_answer (settled_as op (w_promises w ! a)), snd (settle a op w))"
proof
  let ?p = "w_promises w ! a"
  obtain k w1 where r: "register_waiter a w = (k, w1)" by force
  note reg = register_waiter_ok [OF assms(1,2) r]
  have p1: "w_promises w1 ! a = ?p\<lparr>pm_waiters := pm_waiters ?p @ [k]\<rparr>" using reg assms(1) by simp
  define ss where "ss = (if pm_export_id ?p = 0 then w_session w
     else snd (session_send E CtxLive (new_pull_message (pm_export_id ?p)) (w_session w)))"
  let ?w2 = "w1\<lparr>w_session := ss\<rparr>"
  have w2: "a < length (w_promises ?w2)" "waiters_ok a ?w2" "pm_state (w_promises ?w2 ! a) = Pending"
  proof -
    show "a < length (w_promises ?w2)" using reg assms(1) by simp
    have "waiters_ok a ?w2 = waiters_ok a w1" by (simp add: waiters_ok_def)
    with reg show "waiters_ok a ?w2" by simp
    show "pm_state (w_promises ?w2 ! a) = Pending" using p1 assms(3) by simp
  qed
  note s = settle_pending [OF w2, of op]
  have closed: "w_chans (snd (settle a op ?w2)) ! k"
    using s reg p1 by simp
  have ans: "settled_answer (w_promises (snd (settle a op ?w2)) ! a) = settled_answer (settled_as op ?p)"
    using s w2 p1 by (cases op) (simp_all add: settled_as_def settled_answer_def)
  have pulled: "send_pull E CtxLive (w_promises w1 ! a) w1 = (Ok (), ?w2)"
    using assms(4) reg p1 by (auto simp: ss_def send_pull_def split: prod.split outcome.split)
  have sel: "go_select pick [(True, AwDone), (False, AwCtx)] = Some AwDone"
    by (simp add: go_select_def)
  show "fst (promise_await E pick (Some CtxLive) fires (\<lambda>w. w) (\<lambda>w. snd (settle a op w)) a w)
      = settled_answer (settled_as op ?p)"
    using assms(3) r pulled closed ans sel
    by (simp add: promise_await_def effective_ctx_def ctx_done_def Let_def)
next
  note s = settle_pending [OF assms(1-3), of op]
  then show "promise_await E pick c fires mid late a (snd (settle a op w))
      = (settled_answer (settled_as op (w_promises w ! a)), snd (settle a op w))"
    using assms(1) by (cases op) (simp_all add: promise_await_def settled_as_def settled_answer_def)
qed

lemma await_delivers_witness:
  "fst (promise_await sample_env 0 (Some CtxLive) False (\<lambda>w. w) (\<lambda>w. snd (settle 0 (SResolve (VInt 3)) w)) 0 pending_world)
   = Ok (VInt 3)"
  using await_delivers [OF pending_world_facts(1-3), of sample_env 0 False "SResolve (VInt 3)"]
    pending_world_facts(4)
  by (simp add: settled_as_def settled_answer_def)

text \<open>
  A settlement can be missed. If the promise is settled after \<open>Await\<close> found it pending and before
  it registered its channel, nobody ever closes that channel: under a live context \<open>Await\<close> never
  returns, although the promise is settled.
\<close>

theorem await_lost_wakeup:
  assumes "a < length (w_promises w)" and "waiters_ok a w" and "pm_state (w_promises w ! a) = Pending"
    and "pm_export_id (w_promises w ! a) = 0"
  shows "fst (promise_await E pick (Some CtxLive) fires (\<lambda>w. snd (settle a op w)) (\<lambda>w. w) a w) = Hang
    \<and> pm_state (w_promises (snd (promise_await E pick (Some CtxLive) fires (\<lambda>w. snd (settle a op w)) (\<lambda>w. w) a w)) ! a)
      \<noteq> Pending"
proof -
  let ?w1 = "snd (settle a op w)"
  note s = settle_pending [OF assms(1-3), of op]
  obtain k w2 where r: "register_waiter a ?w1 = (k, w2)" by force
  have "a < length (w_promises ?w1)" using s assms(1) by simp
  moreover have p1: "w_promises ?w1 ! a = settled_as op (w_promises w ! a)" using s assms(1) by simp
  moreover have "waiters_ok a ?w1" unfolding waiters_ok_def p1 by (cases op) (simp_all add: settled_as_def)
  ultimately have reg: "k = length (w_chans ?w1)"
    "w_promises w2 ! a = (settled_as op (w_promises w ! a))\<lparr>pm_waiters :=
       pm_waiters (settled_as op (w_promises w ! a)) @ [k]\<rparr>"
    "w_chans w2 = w_chans ?w1 @ [False]"
    using register_waiter_ok [OF _ _ r] by auto
  have ex: "pm_export_id (w_promises w2 ! a) = 0" and st: "pm_state (w_promises w2 ! a) \<noteq> Pending"
    using reg assms(4) by (cases op; simp add: settled_as_def)+
  have "\<not> w_chans w2 ! k" using reg by simp
  then show ?thesis
    using assms(3) r ex st
    by (simp add: promise_await_def effective_ctx_def ctx_done_def go_select_def send_pull_def Let_def)
qed

lemma await_lost_wakeup_witness:
  "fst (promise_await sample_env 0 (Some CtxLive) False (\<lambda>w. snd (settle 0 (SResolve (VInt 3)) w)) (\<lambda>w. w) 0 pending_world)
   = Hang"
  using await_lost_wakeup [OF pending_world_facts, of sample_env 0 False "SResolve (VInt 3)"] by simp

text \<open>
  The resolver settles a registered promise once. A promise registered under an id is settled by
  the first resolution for that id, which answers true and forgets the registration; the same id
  then answers false and changes nothing, and registrations under other ids stay.
\<close>

theorem resolver_settles_once:
  assumes "a < length (w_promises w)" and "waiters_ok a w" and "pm_state (w_promises w ! a) = Pending"
    and "resolver_resolve i v (register_promise i a r, w) = (ok, r', w')"
  shows "ok = Ok True \<and> w_promises w' ! a = settled_as (SResolve v) (w_promises w ! a)
    \<and> resolver_resolve i v' (r', w') = (Ok False, r', w') \<and> resolver_reject i e (r', w') = (Ok False, r', w')
    \<and> (\<forall>j. j \<noteq> i \<longrightarrow> gm_get r' j = gm_get r j)"
proof -
  note s = settle_pending [OF assms(1-3), of "SResolve v"]
  then obtain w1 where w1: "promise_resolve a v w = (Ok (), w1)"
    "w_promises w1 = (w_promises w)[a := settled_as (SResolve v) (w_promises w ! a)]"
    by (metis (mono_tags, lifting) prod.collapse settle_def settling.simps(5))
  with assms(4) have "ok = Ok True" "w' = w1" "r' = gm_del i (gm_put i a r)"
    by (auto simp: resolver_resolve_def register_promise_def)
  with w1 assms(1) show ?thesis by (simp add: resolver_resolve_def resolver_reject_def)
qed

lemma resolver_settles_once_witness:
  "fst (resolver_resolve 4 (VBool True) (register_promise 4 0 new_promise_resolver, pending_world)) = Ok True"
  using resolver_settles_once [OF pending_world_facts(1-3), of 4 "VBool True" new_promise_resolver
      "fst (resolver_resolve 4 (VBool True) (register_promise 4 0 new_promise_resolver, pending_world))"
      "fst (snd (resolver_resolve 4 (VBool True) (register_promise 4 0 new_promise_resolver, pending_world)))"
      "snd (snd (resolver_resolve 4 (VBool True) (register_promise 4 0 new_promise_resolver, pending_world)))"
      VNil None]
  by simp

end
