(* ===== verification/Pipelining.thy ===== *)
theory Pipelining
  imports Promise
begin

text \<open>
  \<open>pipelining.go\<close>: pipelines of operations, the dependency graph and its topological sort, the
  execution of a pipeline, the batch processor and the builder. Operations and pipelines are
  objects by address over the world of stubs. Iterating over the graph (a Go map) visits its keys in
  an order the runtime chooses: \<open>order\<close>. \<open>Path\<close> is never used and \<open>Result\<close> is the operation's promise
  again, so the record of an operation has neither.
\<close>

section \<open>State\<close>

datatype pipeline_status = PsPending | PsRunning | PsCompleted | PsFailed | PsCancelled

definition pipeline_status_string :: "pipeline_status \<Rightarrow> string" where
  "pipeline_status_string s = (case s of PsPending \<Rightarrow> ''pending'' | PsRunning \<Rightarrow> ''running''
     | PsCompleted \<Rightarrow> ''completed'' | PsFailed \<Rightarrow> ''failed'' | PsCancelled \<Rightarrow> ''cancelled'')"

datatype operation_type = OtCall | OtGet | OtSet
datatype operation_status = OsPending | OsRunning | OsCompleted | OsFailed

record pipeline_options =
  po_batch_interval :: int
  po_max_batch_size :: int
  po_enable_optimization :: bool
  po_max_depth :: int
  po_timeout :: int

definition default_pipeline_options :: pipeline_options where
  "default_pipeline_options = \<lparr>po_batch_interval = 100000000, po_max_batch_size = 50,
     po_enable_optimization = True, po_max_depth = 10, po_timeout = 30000000000\<rparr>"

record pipeline =
  pl_id :: string
  pl_operations :: "nat list"
  pl_status :: pipeline_status
  pl_created :: int
  pl_started_at :: "int option"
  pl_completed_at :: "int option"
  pl_error :: "goerr option"
  pl_ctx :: ctx

record pipeline_operation =
  op_id :: string
  op_type :: operation_type
  op_target_id :: int
  op_method :: string
  op_arguments :: "gval list"
  op_result_id :: int
  op_dependencies :: "int list"
  op_promise :: "nat option"
  op_status :: operation_status
  op_started_at :: "int option"
  op_completed_at :: "int option"
  op_error :: "goerr option"
  op_pipeline :: "nat option"

record 't pipeline_manager =
  mg_world :: "'t world"
  mg_ops :: "pipeline_operation list"
  mg_pipes :: "pipeline list"
  mg_table :: "(string, nat) gomap"
  mg_batch_queue :: "nat list"
  mg_dependencies :: "(int, nat list) gomap"
  mg_options :: pipeline_options

definition new_pipeline_manager :: "'t world \<Rightarrow> pipeline_options list \<Rightarrow> 't pipeline_manager" where
  "new_pipeline_manager w options = \<lparr>mg_world = w, mg_ops = [], mg_pipes = [], mg_table = [],
     mg_batch_queue = [], mg_dependencies = [],
     mg_options = (case options of o1 # _ \<Rightarrow> o1 | [] \<Rightarrow> default_pipeline_options)\<rparr>"

definition upd_op :: "nat \<Rightarrow> (pipeline_operation \<Rightarrow> pipeline_operation) \<Rightarrow> 't pipeline_manager \<Rightarrow> 't pipeline_manager" where
  "upd_op a f m = m\<lparr>mg_ops := (mg_ops m)[a := f (mg_ops m ! a)]\<rparr>"

definition upd_pipe :: "nat \<Rightarrow> (pipeline \<Rightarrow> pipeline) \<Rightarrow> 't pipeline_manager \<Rightarrow> 't pipeline_manager" where
  "upd_pipe a f m = m\<lparr>mg_pipes := (mg_pipes m)[a := f (mg_pipes m ! a)]\<rparr>"

section \<open>Building\<close>

text \<open>
  The name is the clock in nanoseconds (\<open>now1\<close>; \<open>now2\<close> is the reading for \<open>Created\<close>); a second pipeline
  of the same instant takes its place in the table.
\<close>

definition create_pipeline :: "int \<Rightarrow> int \<Rightarrow> ctx \<Rightarrow> 't pipeline_manager \<Rightarrow> nat \<times> 't pipeline_manager" where
  "create_pipeline now1 now2 c m =
     (let pid = ''pipeline_'' @ int_to_dec now1; a = length (mg_pipes m);
          p = \<lparr>pl_id = pid, pl_operations = [], pl_status = PsPending, pl_created = now2,
               pl_started_at = None, pl_completed_at = None, pl_error = None, pl_ctx = c\<rparr>
      in (a, m\<lparr>mg_pipes := mg_pipes m @ [p], mg_table := gm_put pid a (mg_table m)\<rparr>))"

definition track_dependencies :: "nat \<Rightarrow> 't pipeline_manager \<Rightarrow> 't pipeline_manager" where
  "track_dependencies a m = m\<lparr>mg_dependencies :=
     fold (\<lambda>d t. gm_put d ((case gm_get t d of Some l \<Rightarrow> l | None \<Rightarrow> []) @ [a]) t)
       (op_dependencies (mg_ops m ! a)) (mg_dependencies m)\<rparr>"

definition add_operation :: "nat \<Rightarrow> nat \<Rightarrow> 't pipeline_manager \<Rightarrow> goerr option \<times> 't pipeline_manager" where
  "add_operation pa a m =
     (let p = mg_pipes m ! pa
      in if pl_status p \<noteq> PsPending then (Some (EMsg ''cannot add operation to %s pipeline''), m)
      else if int (length (pl_operations p)) \<ge> po_max_depth (mg_options m)
        then (Some (EMsg ''pipeline depth limit exceeded (%d)''), m)
      else
        let m1 = upd_op a (\<lambda>p. p\<lparr>op_pipeline := Some pa, op_status := OsPending\<rparr>) m;
            m2 = upd_pipe pa (\<lambda>p. p\<lparr>pl_operations := pl_operations p @ [a]\<rparr>) m1
        in (None, track_dependencies a m2))"

text \<open>
  The builder ignores the error of \<open>AddOperation\<close>. Its clock readings: one for the operation's name,
  one truncated to 32 bits for its result id.
\<close>

definition builder_add :: "operation_type \<Rightarrow> int \<Rightarrow> int \<Rightarrow> nat \<Rightarrow> int \<Rightarrow> string \<Rightarrow> gval list
    \<Rightarrow> 't pipeline_manager \<Rightarrow> 't pipeline_manager" where
  "builder_add ty now1 now2 pa target meth args m =
     (let oper = \<lparr>op_id = ''op_'' @ int_to_dec now1, op_type = ty, op_target_id = target, op_method = meth,
            op_arguments = args, op_result_id = int32 now2, op_dependencies = [], op_promise = None,
            op_status = OsPending, op_started_at = None, op_completed_at = None, op_error = None,
            op_pipeline = None\<rparr>
      in snd (add_operation pa (length (mg_ops m)) (m\<lparr>mg_ops := mg_ops m @ [oper]\<rparr>)))"

definition builder_call :: "int \<Rightarrow> int \<Rightarrow> nat \<Rightarrow> int \<Rightarrow> string \<Rightarrow> gval list \<Rightarrow> 't pipeline_manager \<Rightarrow> 't pipeline_manager" where
  "builder_call now1 now2 pa target meth args m = builder_add OtCall now1 now2 pa target meth args m"

definition builder_get :: "int \<Rightarrow> int \<Rightarrow> nat \<Rightarrow> int \<Rightarrow> string \<Rightarrow> 't pipeline_manager \<Rightarrow> 't pipeline_manager" where
  "builder_get now1 now2 pa target prop m = builder_add OtGet now1 now2 pa target prop [] m"

definition builder_depends_on :: "nat \<Rightarrow> int list \<Rightarrow> 't pipeline_manager \<Rightarrow> 't pipeline_manager" where
  "builder_depends_on pa ids m =
     (let ops = pl_operations (mg_pipes m ! pa)
      in if length ops > 0
         then upd_op (ops ! (length ops - 1)) (\<lambda>p. p\<lparr>op_dependencies := op_dependencies p @ ids\<rparr>) m
         else m)"

section \<open>The dependency graph and its order\<close>

type_synonym op_graph = "(nat, nat list) gomap"

definition ops_by_result :: "pipeline_operation list \<Rightarrow> nat list \<Rightarrow> (int, nat) gomap" where
  "ops_by_result os as = fold (\<lambda>a t. if op_result_id (os ! a) \<noteq> 0 then gm_put (op_result_id (os ! a)) a t else t) as []"

text \<open>The two nested loops of the second pass, as the list of edges they add.\<close>

definition edge_list :: "pipeline_operation list \<Rightarrow> nat list \<Rightarrow> (nat \<times> nat) list" where
  "edge_list os as = concat (map (\<lambda>a. List.map_filter
     (\<lambda>d. map_option (\<lambda>dep. (dep, a)) (gm_get (ops_by_result os as) d)) (op_dependencies (os ! a))) as)"

definition add_edge :: "nat \<times> nat \<Rightarrow> op_graph \<Rightarrow> op_graph" where
  "add_edge e g = gm_put (fst e) ((case gm_get g (fst e) of Some l \<Rightarrow> l | None \<Rightarrow> []) @ [snd e]) g"

definition build_dependency_graph :: "pipeline_operation list \<Rightarrow> nat list \<Rightarrow> op_graph" where
  "build_dependency_graph os as = fold add_edge (edge_list os as) (fold (\<lambda>a g. gm_put a [] g) as [])"

definition children :: "op_graph \<Rightarrow> nat \<Rightarrow> nat list" where
  "children g a = (case gm_get g a of Some l \<Rightarrow> l | None \<Rightarrow> [])"

text \<open>
  \<open>visit\<close>: the stack is the set of nodes with \<open>visiting\<close> true; \<open>result\<close> holds exactly the visited
  nodes. The fuel bounds the depth of the recursion; running out of it is \<open>Hang\<close>.
\<close>

function visit :: "nat \<Rightarrow> op_graph \<Rightarrow> nat list \<Rightarrow> nat \<Rightarrow> nat list \<Rightarrow> nat list result"
  and visit_list :: "nat \<Rightarrow> op_graph \<Rightarrow> nat list \<Rightarrow> nat list \<Rightarrow> nat list \<Rightarrow> nat list result"
where
  "visit 0 g stack a res = Hang"
| "visit (Suc n) g stack a res =
     (if a \<in> set stack then Err (EMsg ''circular dependency detected'')
      else if a \<in> set res then Ok res
      else (case visit_list n g (a # stack) (children g a) res of
              Ok res' \<Rightarrow> Ok (a # res') | e \<Rightarrow> e))"
| "visit_list n g stack [] res = Ok res"
| "visit_list n g stack (c # cs) res =
     (case visit n g stack c res of Ok res' \<Rightarrow> visit_list n g stack cs res' | e \<Rightarrow> e)"
  by pat_completeness auto
termination
  by (relation "measures [\<lambda>x. case x of Inl (n, _) \<Rightarrow> n | Inr (n, _) \<Rightarrow> n,
         \<lambda>x. case x of Inl _ \<Rightarrow> 0 | Inr (_, _, _, cs, _) \<Rightarrow> Suc (length cs)]") auto

definition topological_sort :: "op_graph \<Rightarrow> nat list \<Rightarrow> nat list result" where
  "topological_sort g order = visit_list (Suc (length g)) g [] order []"

definition group_for_batching :: "nat list \<Rightarrow> nat list" where
  "group_for_batching ops = ops"

definition optimize_pipeline :: "nat list \<Rightarrow> nat \<Rightarrow> 't pipeline_manager \<Rightarrow> nat list result" where
  "optimize_pipeline order pa m =
     (let ops = pl_operations (mg_pipes m ! pa)
      in if \<not> po_enable_optimization (mg_options m) then Ok ops
      else case topological_sort (build_dependency_graph (mg_ops m) ops) order of
        Ok sorted_ops \<Rightarrow> Ok (group_for_batching sorted_ops)
      | Err e \<Rightarrow> Err (EWrap ''dependency cycle detected: '' e)
      | Panic \<Rightarrow> Panic | Hang \<Rightarrow> Hang)"

section \<open>Execution\<close>

text \<open>
  The context of an operation ends with that of its pipeline, or when the time for an operation has
  run out: at once for a time that is not positive, or before the call (\<open>late\<close>, by operation).
\<close>

definition with_timeout :: "bool \<Rightarrow> int \<Rightarrow> ctx \<Rightarrow> ctx" where
  "with_timeout expired d c = (if c \<noteq> CtxLive then c else if d \<le> 0 \<or> expired then CtxDeadline else CtxLive)"

definition execute_operation :: "'t env \<Rightarrow> (nat \<Rightarrow> bool) \<Rightarrow> nat \<Rightarrow> 't pipeline_manager \<Rightarrow> unit result \<times> 't pipeline_manager" where
  "execute_operation E late a m =
     (let m1 = upd_op a (\<lambda>p. p\<lparr>op_status := OsRunning, op_started_at := Some (en_now E)\<rparr>) m;
          oper = mg_ops m1 ! a;
          c = with_timeout (late a) (po_timeout (mg_options m1))
                (case op_pipeline oper of Some pa \<Rightarrow> pl_ctx (mg_pipes m1 ! pa) | None \<Rightarrow> CtxLive);
          failed = (\<lambda>e m. (Err e, upd_op a (\<lambda>p. p\<lparr>op_status := OsFailed, op_error := Some e\<rparr>) m));
          done = (\<lambda>p m. (Ok (), upd_op a (\<lambda>q. q\<lparr>op_promise := Some p, op_status := OsCompleted,
                    op_completed_at := Some (en_now E)\<rparr>) m))
      in if op_pipeline oper = None then (Panic, m1)
      else case session_import_stub E (op_target_id oper) False (mg_world m1) of
        (Err e, w) \<Rightarrow> (Err (EWrap ''failed to create stub: '' e), m1\<lparr>mg_world := w\<rparr>)
      | (Panic, w) \<Rightarrow> (Panic, m1\<lparr>mg_world := w\<rparr>)
      | (Hang, w) \<Rightarrow> (Hang, m1\<lparr>mg_world := w\<rparr>)
      | (Ok s, w) \<Rightarrow>
          (case op_type oper of
             OtCall \<Rightarrow>
               (case stub_call E c s (op_method oper) (op_arguments oper) w of
                  (Ok p, w') \<Rightarrow> done p (m1\<lparr>mg_world := w'\<rparr>)
                | (Err e, w') \<Rightarrow> failed e (m1\<lparr>mg_world := w'\<rparr>)
                | (Panic, w') \<Rightarrow> (Panic, m1\<lparr>mg_world := w'\<rparr>)
                | (Hang, w') \<Rightarrow> (Hang, m1\<lparr>mg_world := w'\<rparr>))
           | OtGet \<Rightarrow>
               (case stub_get E s (op_method oper) w of
                  (Ok p, w') \<Rightarrow> done p (m1\<lparr>mg_world := w'\<rparr>)
                | (Err e, w') \<Rightarrow> failed e (m1\<lparr>mg_world := w'\<rparr>)
                | (Panic, w') \<Rightarrow> (Panic, m1\<lparr>mg_world := w'\<rparr>)
                | (Hang, w') \<Rightarrow> (Hang, m1\<lparr>mg_world := w'\<rparr>))
           | OtSet \<Rightarrow> (Err (EMsg ''unsupported operation type: %d''), m1\<lparr>mg_world := w\<rparr>)))"

definition cancel_pipeline :: "int \<Rightarrow> string \<Rightarrow> 't pipeline_manager \<Rightarrow> goerr option \<times> 't pipeline_manager" where
  "cancel_pipeline now pid m =
     (case gm_get (mg_table m) pid of
        None \<Rightarrow> (Some (EMsg ''pipeline %s not found''), m)
      | Some pa \<Rightarrow>
          if pl_status (mg_pipes m ! pa) \<in> {PsCompleted, PsFailed}
          then (Some (EMsg ''cannot cancel %s pipeline''), m)
          else (None, upd_pipe pa (\<lambda>p. p\<lparr>pl_status := PsCancelled, pl_completed_at := Some now,
                  pl_ctx := (if pl_ctx p = CtxLive then CtxCanceled else pl_ctx p)\<rparr>) m))"

definition fail_pipeline :: "int \<Rightarrow> nat \<Rightarrow> goerr \<Rightarrow> 't pipeline_manager \<Rightarrow> 't pipeline_manager" where
  "fail_pipeline now pa e m =
     upd_pipe pa (\<lambda>p. p\<lparr>pl_status := PsFailed, pl_error := Some e, pl_completed_at := Some now\<rparr>) m"

text \<open>
  The loop over the operations; before each one, and once after the last, another goroutine may act
  on the manager (\<open>others\<close>, by the number of operations left), for example to cancel the pipeline.
\<close>

fun execute_batched :: "'t env \<Rightarrow> (nat \<Rightarrow> bool) \<Rightarrow> (nat \<Rightarrow> 't pipeline_manager \<Rightarrow> 't pipeline_manager) \<Rightarrow> nat \<Rightarrow> nat list
    \<Rightarrow> 't pipeline_manager \<Rightarrow> unit result \<times> 't pipeline_manager" where
  "execute_batched E late others pa [] m = (Ok (), others 0 m)"
| "execute_batched E late others pa (a # as) m =
     (let m0 = others (Suc (length as)) m
      in if ctx_done (pl_ctx (mg_pipes m0 ! pa)) then (Err (ctx_error (pl_ctx (mg_pipes m0 ! pa))), m0)
      else case execute_operation E late a m0 of
        (Ok _, m1) \<Rightarrow> execute_batched E late others pa as m1
      | (Err e, m1) \<Rightarrow> (Err (EWrap ''operation %s failed: '' e), m1)
      | (Panic, m1) \<Rightarrow> (Panic, m1)
      | (Hang, m1) \<Rightarrow> (Hang, m1))"

definition execute_pipeline :: "'t env \<Rightarrow> (nat \<Rightarrow> bool) \<Rightarrow> nat list \<Rightarrow> (nat \<Rightarrow> 't pipeline_manager \<Rightarrow> 't pipeline_manager) \<Rightarrow> nat
    \<Rightarrow> 't pipeline_manager \<Rightarrow> unit result \<times> 't pipeline_manager" where
  "execute_pipeline E late order others pa m =
     (if pl_status (mg_pipes m ! pa) \<noteq> PsPending then (Err (EMsg ''pipeline is not in pending state''), m)
      else
        let m1 = upd_pipe pa (\<lambda>p. p\<lparr>pl_status := PsRunning, pl_started_at := Some (en_now E)\<rparr>) m
        in (case optimize_pipeline order pa m1 of
              Err e \<Rightarrow> (Err e, fail_pipeline (en_now E) pa e m1)
            | Panic \<Rightarrow> (Panic, m1)
            | Hang \<Rightarrow> (Hang, m1)
            | Ok ops \<Rightarrow>
                (case execute_batched E late others pa ops m1 of
                   (Err e, m2) \<Rightarrow> (Err e, fail_pipeline (en_now E) pa e m2)
                 | (Panic, m2) \<Rightarrow> (Panic, m2)
                 | (Hang, m2) \<Rightarrow> (Hang, m2)
                 | (Ok _, m2) \<Rightarrow>
                     (Ok (), upd_pipe pa (\<lambda>p. p\<lparr>pl_status := PsCompleted, pl_completed_at := Some (en_now E)\<rparr>) m2))))"

definition builder_execute :: "'t env \<Rightarrow> (nat \<Rightarrow> bool) \<Rightarrow> nat list \<Rightarrow> (nat \<Rightarrow> 't pipeline_manager \<Rightarrow> 't pipeline_manager) \<Rightarrow> nat
    \<Rightarrow> 't pipeline_manager \<Rightarrow> unit result \<times> 't pipeline_manager" where
  "builder_execute E late order others pa m = execute_pipeline E late order others pa m"

definition get_pipeline :: "string \<Rightarrow> 't pipeline_manager \<Rightarrow> nat option" where
  "get_pipeline pid m = gm_get (mg_table m) pid"

section \<open>Batches\<close>

definition target_groups :: "pipeline_operation list \<Rightarrow> nat list \<Rightarrow> (int, nat list) gomap" where
  "target_groups os batch = fold (\<lambda>a t. let d = op_target_id (os ! a)
     in gm_put d ((case gm_get t d of Some l \<Rightarrow> l | None \<Rightarrow> []) @ [a]) t) batch []"

text \<open>Errors are ignored; a panic or a hang ends the goroutine.\<close>

fun process_target_group :: "'t env \<Rightarrow> (nat \<Rightarrow> bool) \<Rightarrow> nat list \<Rightarrow> 't pipeline_manager \<Rightarrow> unit result \<times> 't pipeline_manager" where
  "process_target_group E late [] m = (Ok (), m)"
| "process_target_group E late (a # as) m =
     (case execute_operation E late a m of
        (Panic, m') \<Rightarrow> (Panic, m') | (Hang, m') \<Rightarrow> (Hang, m') | (_, m') \<Rightarrow> process_target_group E late as m')"

fun process_groups :: "'t env \<Rightarrow> (nat \<Rightarrow> bool) \<Rightarrow> (int \<times> nat list) list \<Rightarrow> 't pipeline_manager \<Rightarrow> unit result \<times> 't pipeline_manager" where
  "process_groups E late [] m = (Ok (), m)"
| "process_groups E late (g # gs) m =
     (case process_target_group E late (snd g) m of (Ok _, m') \<Rightarrow> process_groups E late gs m' | r \<Rightarrow> r)"

definition process_batch :: "'t env \<Rightarrow> (nat \<Rightarrow> bool) \<Rightarrow> nat list \<Rightarrow> 't pipeline_manager \<Rightarrow> unit result \<times> 't pipeline_manager" where
  "process_batch E late batch m = process_groups E late (target_groups (mg_ops m) batch) m"

definition batch_processor_round :: "'t env \<Rightarrow> (nat \<Rightarrow> bool) \<Rightarrow> 't pipeline_manager \<Rightarrow> unit result \<times> 't pipeline_manager" where
  "batch_processor_round E late m =
     (if length (mg_batch_queue m) > 0
      then process_batch E late (mg_batch_queue m) (m\<lparr>mg_batch_queue := []\<rparr>) else (Ok (), m))"

section \<open>Statistics\<close>

record pipeline_stats =
  pt_total :: int
  pt_completed :: int
  pt_failed :: int
  pt_cancelled :: int
  pt_average :: int
  pt_operations :: int

definition pipeline_duration :: "pipeline \<Rightarrow> int" where
  "pipeline_duration p =
     (case (pl_started_at p, pl_completed_at p) of (Some s, Some c) \<Rightarrow> c - s | _ \<Rightarrow> 0)"

definition pipeline_get_stats :: "'t pipeline_manager \<Rightarrow> pipeline_stats" where
  "pipeline_get_stats m =
     (let ps = map (\<lambda>e. mg_pipes m ! snd e) (mg_table m);
          done = filter (\<lambda>p. pl_status p = PsCompleted) ps;
          n = int (length done)
      in \<lparr>pt_total = int (length ps), pt_completed = n,
          pt_failed = int (length (filter (\<lambda>p. pl_status p = PsFailed) ps)),
          pt_cancelled = int (length (filter (\<lambda>p. pl_status p = PsCancelled) ps)),
          pt_average = (if n > 0 then go_quot (sum_list (map pipeline_duration done)) n else 0),
          pt_operations = sum_list (map (\<lambda>p. int (length (pl_operations p))) ps)\<rparr>)"

section \<open>The graph and the order\<close>

definition edges :: "op_graph \<Rightarrow> (nat \<times> nat) set" where
  "edges g = {(x, y). y \<in> set (children g x)}"

definition keys :: "op_graph \<Rightarrow> nat set" where
  "keys g = fst ` set g"

text \<open>A list in which every node stands before all its children, which are all in the list.\<close>

fun topo :: "op_graph \<Rightarrow> nat list \<Rightarrow> bool" where
  "topo g [] \<longleftrightarrow> True"
| "topo g (a # as) \<longleftrightarrow> set (children g a) \<subseteq> set as \<and> a \<notin> set as \<and> topo g as"

definition precedes :: "'a \<Rightarrow> 'a \<Rightarrow> 'a list \<Rightarrow> bool" where
  "precedes x y as \<longleftrightarrow> (\<exists>us vs ws. as = us @ x # vs @ y # ws)"

lemma topo_distinct: "topo g as \<Longrightarrow> distinct as"
  by (induction as) auto

lemma topo_closed: "topo g as \<Longrightarrow> x \<in> set as \<Longrightarrow> (x, y) \<in> edges g \<Longrightarrow> y \<in> set as"
  by (induction as) (auto simp: edges_def)

lemma topo_closed_trancl: "(x, y) \<in> (edges g)\<^sup>+ \<Longrightarrow> topo g as \<Longrightarrow> x \<in> set as \<Longrightarrow> y \<in> set as"
  by (induction rule: trancl_induct) (auto dest: topo_closed)

lemma topo_irrefl: "topo g as \<Longrightarrow> x \<in> set as \<Longrightarrow> (x, x) \<notin> (edges g)\<^sup>+"
proof (induction as)
  case (Cons a as)
  show ?case
  proof
    assume cyc: "(x, x) \<in> (edges g)\<^sup>+"
    with Cons have "x = a" by auto
    from cyc obtain y where y: "(x, y) \<in> edges g" and "(y, x) \<in> (edges g)\<^sup>*"
      by (meson tranclD)
    then have "y \<in> set as" using Cons.prems \<open>x = a\<close> by (auto simp: edges_def)
    with \<open>(y, x) \<in> (edges g)\<^sup>*\<close> Cons.prems have "x \<in> set as"
      by (metis rtranclD topo.simps(2) topo_closed_trancl)
    with Cons.prems \<open>x = a\<close> show False by simp
  qed
qed simp

lemma precedes_ConsI: "precedes x y as \<Longrightarrow> precedes x y (a # as)"
  by (auto simp: precedes_def) (metis append_Cons)

lemma topo_precedes: "topo g as \<Longrightarrow> x \<in> set as \<Longrightarrow> (x, y) \<in> edges g \<Longrightarrow> precedes x y as"
proof (induction as)
  case (Cons a as)
  show ?case
  proof (cases "x = a")
    case True
    with Cons.prems have "y \<in> set as" by (auto simp: edges_def)
    then obtain vs ws where "as = vs @ y # ws" by (meson split_list)
    with True show ?thesis unfolding precedes_def by (metis append_Nil)
  next
    case False
    with Cons show ?thesis by (auto intro: precedes_ConsI)
  qed
qed simp

lemma visit_ok:
  "visit n g stack a res = Ok res' \<Longrightarrow> topo g res \<Longrightarrow> set stack \<inter> set res = {} \<Longrightarrow> set res \<union> {a} \<subseteq> K
     \<Longrightarrow> edges g \<subseteq> K \<times> K
     \<Longrightarrow> topo g res' \<and> set stack \<inter> set res' = {} \<and> set res \<union> {a} \<subseteq> set res' \<and> set res' \<subseteq> K"
  "visit_list n g stack cs res = Ok res' \<Longrightarrow> topo g res \<Longrightarrow> set stack \<inter> set res = {} \<Longrightarrow> set res \<union> set cs \<subseteq> K
     \<Longrightarrow> edges g \<subseteq> K \<times> K
     \<Longrightarrow> topo g res' \<and> set stack \<inter> set res' = {} \<and> set res \<union> set cs \<subseteq> set res' \<and> set res' \<subseteq> K"
proof (induction n g stack a res and n g stack cs res arbitrary: res' and res' rule: visit_visit_list.induct)
  case (2 n g stack a res)
  show ?case
  proof (cases "a \<in> set stack \<or> a \<in> set res")
    case True
    with 2 show ?thesis by (auto split: if_splits)
  next
    case False
    with "2.prems"(1) obtain r where r: "visit_list n g (a # stack) (children g a) res = Ok r"
      and res': "res' = a # r" by (auto split: outcome.splits)
    have "set (children g a) \<subseteq> K" using "2.prems"(5) by (auto simp: edges_def)
    with 2 False r have "topo g r \<and> set (a # stack) \<inter> set r = {} \<and> set res \<union> set (children g a) \<subseteq> set r \<and> set r \<subseteq> K"
      by auto
    with False res' "2.prems"(4) show ?thesis by auto
  qed
next
  case (4 n g stack c cs res)
  from "4.prems"(1) obtain r where r: "visit n g stack c res = Ok r" and rest: "visit_list n g stack cs r = Ok res'"
    by (auto split: outcome.splits)
  with 4 have "topo g r \<and> set stack \<inter> set r = {} \<and> set res \<union> {c} \<subseteq> set r \<and> set r \<subseteq> K" by auto
  with "4.IH"(2) [OF r rest] "4.prems" show ?case by auto
qed auto

lemma visit_decides:
  "finite K \<Longrightarrow> edges g \<subseteq> K \<times> K \<Longrightarrow> distinct stack \<Longrightarrow> set stack \<subseteq> K \<Longrightarrow> a \<in> K \<Longrightarrow> card K < n + length stack
     \<Longrightarrow> (\<exists>r. visit n g stack a res = Ok r) \<or> visit n g stack a res = Err (EMsg ''circular dependency detected'')"
  "finite K \<Longrightarrow> edges g \<subseteq> K \<times> K \<Longrightarrow> distinct stack \<Longrightarrow> set stack \<subseteq> K \<Longrightarrow> set cs \<subseteq> K \<Longrightarrow> card K < n + length stack
     \<Longrightarrow> (\<exists>r. visit_list n g stack cs res = Ok r) \<or> visit_list n g stack cs res = Err (EMsg ''circular dependency detected'')"
proof (induction n g stack a res and n g stack cs res rule: visit_visit_list.induct)
  case (1 g stack a res)
  then have "length stack \<le> card K" by (metis card_mono distinct_card)
  with 1 show ?case by simp
next
  case (2 n g stack a res)
  have "set (children g a) \<subseteq> K" using "2.prems"(2) by (auto simp: edges_def)
  with 2 show ?case by (cases "a \<in> set stack"; cases "a \<in> set res") auto
next
  case (4 n g stack c cs res)
  then consider (ok) r where "visit n g stack c res = Ok r"
    | (err) "visit n g stack c res = Err (EMsg ''circular dependency detected'')" by auto
  then show ?case using 4 by cases auto
qed auto

lemma visit_err:
  "visit n g stack a res = Err e \<Longrightarrow> (\<And>s. s \<in> set stack \<Longrightarrow> (s, a) \<in> (edges g)\<^sup>+) \<Longrightarrow> \<not> acyclic (edges g)"
  "visit_list n g stack cs res = Err e \<Longrightarrow> (\<And>s c. s \<in> set stack \<Longrightarrow> c \<in> set cs \<Longrightarrow> (s, c) \<in> (edges g)\<^sup>+)
     \<Longrightarrow> \<not> acyclic (edges g)"
proof (induction n g stack a res and n g stack cs res rule: visit_visit_list.induct)
  case (2 n g stack a res)
  show ?case
  proof (cases "a \<in> set stack")
    case True
    with "2.prems"(2) show ?thesis by (auto simp: acyclic_def)
  next
    case False
    with "2.prems"(1) have err: "visit_list n g (a # stack) (children g a) res = Err e" and "a \<notin> set res"
      by (auto split: if_splits outcome.splits)
    have "(s, c) \<in> (edges g)\<^sup>+" if "s \<in> set (a # stack)" "c \<in> set (children g a)" for s c
    proof -
      have ac: "(a, c) \<in> edges g" using that by (simp add: edges_def)
      then show ?thesis using that "2.prems"(2) [of s] by (auto intro: trancl_into_trancl)
    qed
    with 2 False \<open>a \<notin> set res\<close> err show ?thesis by blast
  qed
next
  case (4 n g stack c cs res)
  then show ?case by (auto split: outcome.splits)
qed auto


lemma topological_sort_spec:
  assumes order: "set order = keys g" and closed: "edges g \<subseteq> keys g \<times> keys g"
  shows "if acyclic (edges g)
         then \<exists>r. topological_sort g order = Ok r \<and> topo g r \<and> set r = keys g
         else topological_sort g order = Err (EMsg ''circular dependency detected'')"
proof -
  let ?r = "topological_sort g order"
  have fin: "finite (keys g)" by (simp add: keys_def)
  have "card (keys g) \<le> length g"
    unfolding keys_def by (meson card_image_le card_length finite_set le_trans)
  then have dec: "(\<exists>r. ?r = Ok r) \<or> ?r = Err (EMsg ''circular dependency detected'')"
    unfolding topological_sort_def using closed order fin by (intro visit_decides(2)) auto
  have ok: "topo g r \<and> set r = keys g" if "?r = Ok r" for r
    using visit_ok(2) [of "Suc (length g)" g "[]" order "[]" r "keys g"] that order closed
    by (auto simp: topological_sort_def)
  have ac: "acyclic (edges g)" if r: "?r = Ok r" for r
  proof (rule acyclicI, rule allI)
    fix x
    show "(x, x) \<notin> (edges g)\<^sup>+"
    proof
      assume cyc: "(x, x) \<in> (edges g)\<^sup>+"
      then obtain y where "(x, y) \<in> edges g" by (meson tranclD)
      with closed ok [OF r] have "x \<in> set r" by auto
      with cyc ok [OF r] show False by (meson topo_irrefl)
    qed
  qed
  have nac: "\<not> acyclic (edges g)" if "?r = Err e" for e
    using that visit_err(2) [of "Suc (length g)" g "[]" order "[]" e] by (simp add: topological_sort_def)
  show ?thesis using dec ok ac nac by auto
qed

lemma children_put: "children (gm_put k l g) x = (if x = k then l else children g x)"
  by (simp add: children_def)

lemma keys_put: "keys (gm_put k l g) = insert k (keys g)"
  by (simp add: keys_def dom_map_of_conv_image_fst [symmetric])

lemma add_edge_eq: "add_edge e g = gm_put (fst e) (children g (fst e) @ [snd e]) g"
  by (simp add: add_edge_def children_def)

lemma add_edges:
  "children (fold add_edge es g) x = children g x @ map snd (filter (\<lambda>e. fst e = x) es)"
  "keys (fold add_edge es g) = keys g \<union> fst ` set es"
  by (induction es arbitrary: g) (auto simp: add_edge_eq children_put keys_put)

lemma init_graph:
  "children (fold (\<lambda>a g. gm_put a [] g) as g) x = (if x \<in> set as then [] else children g x)"
  "keys (fold (\<lambda>a g. gm_put a [] g) as g) = keys g \<union> set as"
  by (induction as arbitrary: g) (auto simp: children_put keys_put)

lemma set_edge_list:
  "(x, a) \<in> set (edge_list os as) \<longleftrightarrow>
     a \<in> set as \<and> (\<exists>d \<in> set (op_dependencies (os ! a)). gm_get (ops_by_result os as) d = Some x)"
  by (force simp: edge_list_def map_filter_def)

lemma ops_by_result_fold:
  "gm_get (fold (\<lambda>a t. if op_result_id (os ! a) \<noteq> 0 then gm_put (op_result_id (os ! a)) a t else t) as t) d = Some x
    \<Longrightarrow> x \<in> set as \<and> op_result_id (os ! x) = d \<and> d \<noteq> 0 \<or> gm_get t d = Some x"
proof (induction as arbitrary: t)
  case (Cons a as)
  from Cons.prems have "x \<in> set as \<and> op_result_id (os ! x) = d \<and> d \<noteq> 0
    \<or> gm_get (if op_result_id (os ! a) \<noteq> 0 then gm_put (op_result_id (os ! a)) a t else t) d = Some x"
    by (intro Cons.IH) simp
  then show ?case by (auto split: if_splits)
qed simp

lemma ops_by_result_Some:
  "gm_get (ops_by_result os as) d = Some x \<Longrightarrow> x \<in> set as \<and> op_result_id (os ! x) = d \<and> d \<noteq> 0"
  using ops_by_result_fold [of os as "[]" d x] by (simp add: ops_by_result_def)

lemma edge_list_from: "(x, a) \<in> set (edge_list os as) \<Longrightarrow> x \<in> set as"
  by (auto simp: set_edge_list dest: ops_by_result_Some)

lemma keys_Nil [simp]: "keys [] = {}"
  by (simp add: keys_def)

lemma children_Nil [simp]: "children [] x = []"
  by (simp add: children_def)

lemma graph_keys: "keys (build_dependency_graph os as) = set as"
  by (auto simp: build_dependency_graph_def add_edges init_graph dest: edge_list_from)

lemma graph_children:
  "set (children (build_dependency_graph os as) x) = {a. (x, a) \<in> set (edge_list os as)}"
  by (auto simp: build_dependency_graph_def add_edges init_graph image_iff)

text \<open>Operation \<open>a\<close> depends on operation \<open>x\<close>, which is to produce one of the ids \<open>a\<close> waits for.\<close>

definition waits_for :: "pipeline_operation list \<Rightarrow> nat list \<Rightarrow> (nat \<times> nat) set" where
  "waits_for os as = {(x, a). a \<in> set as \<and>
     (\<exists>d \<in> set (op_dependencies (os ! a)). gm_get (ops_by_result os as) d = Some x)}"

lemma graph_edges: "edges (build_dependency_graph os as) = waits_for os as"
  by (auto simp: edges_def waits_for_def graph_children set_edge_list)

lemma graph_closed: "edges (build_dependency_graph os as) \<subseteq> keys (build_dependency_graph os as) \<times> keys (build_dependency_graph os as)"
  by (auto simp: graph_keys graph_edges waits_for_def dest: ops_by_result_Some)

section \<open>Running the operations\<close>

lemma upd_op_fields [simp]:
  "mg_pipes (upd_op a f m) = mg_pipes m" "mg_options (upd_op a f m) = mg_options m"
  "mg_table (upd_op a f m) = mg_table m" "mg_dependencies (upd_op a f m) = mg_dependencies m"
  "mg_world (upd_op a f m) = mg_world m" "mg_ops (upd_op a f m) = (mg_ops m)[a := f (mg_ops m ! a)]"
  by (simp_all add: upd_op_def)

lemma upd_pipe_fields [simp]:
  "mg_ops (upd_pipe a f m) = mg_ops m" "mg_options (upd_pipe a f m) = mg_options m"
  "mg_table (upd_pipe a f m) = mg_table m" "mg_dependencies (upd_pipe a f m) = mg_dependencies m"
  "mg_world (upd_pipe a f m) = mg_world m" "mg_pipes (upd_pipe a f m) = (mg_pipes m)[a := f (mg_pipes m ! a)]"
  by (simp_all add: upd_pipe_def)

text \<open>What executing one operation leaves alone, and what a success leaves behind.\<close>

lemma execute_operation_frame:
  assumes "execute_operation E late a m = (r, m')"
  shows "mg_pipes m' = mg_pipes m \<and> length (mg_ops m') = length (mg_ops m)
    \<and> (\<forall>b. b \<noteq> a \<longrightarrow> mg_ops m' ! b = mg_ops m ! b)
    \<and> (r = Ok () \<longrightarrow> a < length (mg_ops m) \<longrightarrow> op_status (mg_ops m' ! a) = OsCompleted \<and> op_promise (mg_ops m' ! a) \<noteq> None)"
  using assms unfolding execute_operation_def Let_def
  by (auto split: if_splits prod.splits outcome.splits operation_type.splits)

lemma execute_batched_frame:
  assumes "execute_batched E late others pa as m = (r, m')" and "\<And>k m. length (mg_pipes (others k m)) = length (mg_pipes m)"
  shows "length (mg_pipes m') = length (mg_pipes m)"
  using assms
proof (induction E late others pa as m rule: execute_batched.induct)
  case (2 E late others pa a as m)
  obtain x m1 where x: "execute_operation E late a (others (Suc (length as)) m) = (x, m1)" by force
  with execute_operation_frame [OF x] 2 show ?case
    by (cases x) (auto simp: Let_def split: if_splits)
qed auto

section \<open>Properties\<close>

text \<open>A pipeline of two property reads, the first waiting for the result of the second; and a cycle.\<close>

definition sample_manager :: "memory_transport pipeline_manager" where
  "sample_manager = builder_get 2 20 0 5 ''b'' (builder_depends_on 0 [20] (builder_get 1 10 0 5 ''a''
     (snd (create_pipeline 7 8 CtxLive (new_pipeline_manager (new_world sample_session) [])))))"

definition cyclic_manager :: "memory_transport pipeline_manager" where
  "cyclic_manager = builder_depends_on 0 [10] sample_manager"

lemma sample_manager_facts:
  "pl_operations (mg_pipes sample_manager ! 0) = [0, 1]" "length (mg_pipes sample_manager) = 1"
  "length (mg_ops sample_manager) = 2" "pl_status (mg_pipes sample_manager ! 0) = PsPending"
  "po_enable_optimization (mg_options sample_manager)" "po_max_depth (mg_options sample_manager) = 10"
  by code_simp+

text \<open>
  C16: The optimiser's order is a correct schedule. Whatever order the runtime iterates the graph in,
  when the optimisation succeeds its result holds every operation of the pipeline exactly once, and
  an operation that waits for a result id stands after the operation that produces it.
\<close>

theorem optimize_order_correct:
  assumes "po_enable_optimization (mg_options m)" and "set order = set (pl_operations (mg_pipes m ! pa))"
    and "optimize_pipeline order pa m = Ok srt"
  shows "distinct srt \<and> set srt = set (pl_operations (mg_pipes m ! pa))
    \<and> (\<forall>(x, a) \<in> waits_for (mg_ops m) (pl_operations (mg_pipes m ! pa)). precedes x a srt)"
proof -
  let ?g = "build_dependency_graph (mg_ops m) (pl_operations (mg_pipes m ! pa))"
  have "topological_sort ?g order = Ok srt"
    using assms by (auto simp: optimize_pipeline_def group_for_batching_def split: outcome.splits)
  with topological_sort_spec [of order ?g] graph_closed assms(2) have t: "topo ?g srt" "set srt = keys ?g"
    by (auto simp: graph_keys split: if_splits)
  have "precedes x a srt" if "(x, a) \<in> waits_for (mg_ops m) (pl_operations (mg_pipes m ! pa))" for x a
    using topo_precedes [OF t(1), of x a] t(2) that graph_closed [of "mg_ops m" "pl_operations (mg_pipes m ! pa)"]
    by (auto simp flip: graph_edges)
  with t show ?thesis by (auto simp: topo_distinct graph_keys)
qed

lemma optimize_order_correct_witness:
  "optimize_pipeline [0, 1] 0 sample_manager = Ok [1, 0] \<and> precedes 1 0 [1::nat, 0]
    \<and> (1, 0) \<in> waits_for (mg_ops sample_manager) [0, 1]"
proof -
  have o: "optimize_pipeline [0, 1] 0 sample_manager = Ok [1, 0]" by code_simp
  have "gm_get (ops_by_result (mg_ops sample_manager) [0, 1]) 20 = Some 1"
    "op_dependencies (mg_ops sample_manager ! 0) = [20]" by code_simp+
  then have w: "(1, 0) \<in> waits_for (mg_ops sample_manager) [0, 1]" by (auto simp: waits_for_def)
  from o w optimize_order_correct [of sample_manager "[0, 1]" 0 "[1, 0]"] show ?thesis
    by (simp add: sample_manager_facts) blast
qed

text \<open>
  C15: The optimiser always returns, and it refuses exactly the cycles: the depth-first search needs no
  more recursion than there are operations, an acyclic pipeline is ordered, and a pipeline in which
  some operation waits (through others) for its own result is refused with the cycle error, in every
  iteration order.
\<close>

theorem optimize_decides_cycles:
  assumes "po_enable_optimization (mg_options m)" and "set order = set (pl_operations (mg_pipes m ! pa))"
  shows "if acyclic (waits_for (mg_ops m) (pl_operations (mg_pipes m ! pa)))
    then \<exists>srt. optimize_pipeline order pa m = Ok srt
    else optimize_pipeline order pa m
      = Err (EWrap ''dependency cycle detected: '' (EMsg ''circular dependency detected''))"
proof -
  let ?as = "pl_operations (mg_pipes m ! pa)" and ?E = "EMsg ''circular dependency detected''"
  let ?g = "build_dependency_graph (mg_ops m) ?as"
  have "if acyclic (waits_for (mg_ops m) ?as) then \<exists>r. topological_sort ?g order = Ok r
    else topological_sort ?g order = Err ?E"
    using topological_sort_spec [of order ?g, OF _ graph_closed] assms(2)
    by (auto simp: graph_keys graph_edges split: if_splits)
  then show ?thesis using assms(1)
    by (auto simp: optimize_pipeline_def group_for_batching_def Let_def split: if_splits)
qed

lemma optimize_decides_cycles_witness:
  "optimize_pipeline [0, 1] 0 cyclic_manager
     = Err (EWrap ''dependency cycle detected: '' (EMsg ''circular dependency detected''))"
proof -
  have f: "po_enable_optimization (mg_options cyclic_manager)" "pl_operations (mg_pipes cyclic_manager ! 0) = [0, 1]"
    by code_simp+
  have "gm_get (ops_by_result (mg_ops cyclic_manager) [0, 1]) 20 = Some 1" "op_dependencies (mg_ops cyclic_manager ! 0) = [20]"
    "gm_get (ops_by_result (mg_ops cyclic_manager) [0, 1]) 10 = Some 0" "op_dependencies (mg_ops cyclic_manager ! 1) = [10]"
    by code_simp+
  then have "(1, 0) \<in> waits_for (mg_ops cyclic_manager) [0, 1]" "(0, 1) \<in> waits_for (mg_ops cyclic_manager) [0, 1]"
    by (auto simp: waits_for_def)
  then have "\<not> acyclic (waits_for (mg_ops cyclic_manager) [0, 1])"
    unfolding acyclic_def using trancl.trancl_into_trancl [OF trancl.r_into_trancl [of 1 0], of _ 1] by blast
  with f optimize_decides_cycles [of cyclic_manager "[0, 1]" 0] show ?thesis by simp
qed

text \<open>
  A pipeline that is executed ends \<open>Completed\<close> or \<open>Failed\<close>, never \<open>Cancelled\<close>: whatever other
  goroutines do meanwhile, when \<open>ExecutePipeline\<close> returns it has overwritten the status, with \<open>Completed\<close>
  on success and with \<open>Failed\<close> and the returned error otherwise. So a successful \<open>CancelPipeline\<close> of a
  running pipeline leaves no trace in the status or in the statistics.
\<close>

theorem execute_overwrites_status:
  assumes "execute_pipeline E late order others pa m = (r, m')" and "pa < length (mg_pipes m)"
    and "pl_status (mg_pipes m ! pa) = PsPending" and "\<And>k m. length (mg_pipes (others k m)) = length (mg_pipes m)"
  shows "(r = Ok () \<longrightarrow> pl_status (mg_pipes m' ! pa) = PsCompleted)
    \<and> (\<forall>e. r = Err e \<longrightarrow> pl_status (mg_pipes m' ! pa) = PsFailed \<and> pl_error (mg_pipes m' ! pa) = Some e)"
proof -
  let ?m1 = "upd_pipe pa (\<lambda>p. p\<lparr>pl_status := PsRunning, pl_started_at := Some (en_now E)\<rparr>) m"
  have run: "length (mg_pipes m2) = length (mg_pipes m)" if "execute_batched E late others pa ops ?m1 = (x, m2)" for ops x m2
    using execute_batched_frame [OF that assms(4)] by simp
  show ?thesis
  proof (cases "optimize_pipeline order pa ?m1")
    case (Ok ops)
    obtain x m2 where x: "execute_batched E late others pa ops ?m1 = (x, m2)" by force
    with run [OF x] assms Ok show ?thesis
      by (cases x) (auto simp: execute_pipeline_def Let_def fail_pipeline_def)
  qed (use assms in \<open>auto simp: execute_pipeline_def Let_def fail_pipeline_def\<close>)
qed

definition empty_manager :: "memory_transport pipeline_manager" where
  "empty_manager = snd (create_pipeline 7 8 CtxLive (new_pipeline_manager (new_world sample_session) []))"

lemma execute_overwrites_status_witness:
  "let others = (\<lambda>k m. snd (cancel_pipeline 9 ''pipeline_7'' m));
       (r, m) = execute_pipeline quiet_env (\<lambda>_. False) [] others 0 empty_manager
   in fst (cancel_pipeline 9 ''pipeline_7'' empty_manager) = None \<and> r = Ok () \<and> pl_status (mg_pipes m ! 0) = PsCompleted"
proof -
  let ?o = "\<lambda>(k::nat) m. snd (cancel_pipeline 9 ''pipeline_7'' m)"
  have l: "\<And>k m :: memory_transport pipeline_manager. length (mg_pipes (?o k m)) = length (mg_pipes m)"
    by (simp add: cancel_pipeline_def upd_pipe_def split: option.splits)
  have r: "fst (execute_pipeline quiet_env (\<lambda>_. False) [] ?o 0 empty_manager) = Ok ()" by code_simp
  have c: "fst (cancel_pipeline 9 ''pipeline_7'' empty_manager) = None" "length (mg_pipes empty_manager) = 1"
    "pl_status (mg_pipes empty_manager ! 0) = PsPending" by code_simp+
  obtain m where m: "execute_pipeline quiet_env (\<lambda>_. False) [] ?o 0 empty_manager = (Ok (), m)"
    using r by (metis prod.collapse)
  from execute_overwrites_status [OF m _ _ l] r m c show ?thesis by simp
qed

text \<open>
  Execution runs a prefix of the schedule. Undisturbed, the operations before the first error are
  all \<open>Completed\<close> with a promise, the operations after it are untouched, and \<open>Ok\<close> is returned exactly
  when all were run: an operation is never run after one before it failed.
\<close>

theorem execution_stops_at_first_error:
  assumes "execute_batched E late (\<lambda>_ m. m) pa as m = (r, m')" and "distinct as" and "set as \<subseteq> {..<length (mg_ops m)}"
  shows "\<exists>us vs. as = us @ vs \<and> (r = Ok () \<longleftrightarrow> vs = [])
    \<and> (\<forall>a \<in> set us. op_status (mg_ops m' ! a) = OsCompleted \<and> op_promise (mg_ops m' ! a) \<noteq> None)
    \<and> (\<forall>b. b \<notin> set us \<longrightarrow> b \<notin> set (take 1 vs) \<longrightarrow> mg_ops m' ! b = mg_ops m ! b)"
  using assms
proof (induction E late "\<lambda>(_::nat) (m :: 'a pipeline_manager). m" pa as m rule: execute_batched.induct)
  case (1 E pa m)
  then show ?case by auto
next
  case (2 E late pa a as m)
  show ?case
  proof (cases "ctx_done (pl_ctx (mg_pipes m ! pa))")
    case True
    with 2 show ?thesis by (intro exI [of _ "[]"] exI [of _ "a # as"]) auto
  next
    case False
    obtain x m1 where x: "execute_operation E late a m = (x, m1)" by force
    note fr = execute_operation_frame [OF x]
    show ?thesis
    proof (cases "x = Ok ()")
      case True
      with False x 2 fr have "\<exists>us vs. as = us @ vs \<and> (r = Ok () \<longleftrightarrow> vs = [])
          \<and> (\<forall>a \<in> set us. op_status (mg_ops m' ! a) = OsCompleted \<and> op_promise (mg_ops m' ! a) \<noteq> None)
          \<and> (\<forall>b. b \<notin> set us \<longrightarrow> b \<notin> set (take 1 vs) \<longrightarrow> mg_ops m' ! b = mg_ops m1 ! b)"
        by (intro "2.hyps") auto
      then obtain us vs where uv: "as = us @ vs" "r = Ok () \<longleftrightarrow> vs = []"
        "\<forall>a \<in> set us. op_status (mg_ops m' ! a) = OsCompleted \<and> op_promise (mg_ops m' ! a) \<noteq> None"
        "\<forall>b. b \<notin> set us \<longrightarrow> b \<notin> set (take 1 vs) \<longrightarrow> mg_ops m' ! b = mg_ops m1 ! b" by blast
      moreover have "a \<notin> set us" "a \<notin> set (take 1 vs)" using 2(3) uv(1) by (auto dest: in_set_takeD)
      ultimately show ?thesis using fr True 2(4) by (intro exI [of _ "a # us"] exI [of _ vs]) auto
    next
      case False': False
      with False x 2(2) have "r \<noteq> Ok () \<and> m' = m1" by (cases x) auto
      with fr show ?thesis by (intro exI [of _ "[]"] exI [of _ "a # as"]) auto
    qed
  qed
qed

lemma execution_stops_at_first_error_witness:
  "\<exists>us vs. [1, 0] = us @ vs \<and> (\<forall>a \<in> set us. op_status
      (mg_ops (snd (execute_batched quiet_env (\<lambda>_. False) (\<lambda>_ m. m) 0 [1, 0] sample_manager)) ! a) = OsCompleted)"
  using execution_stops_at_first_error [of quiet_env "\<lambda>_. False" 0 "[1, 0]" sample_manager] sample_manager_facts(3)
  by (cases "execute_batched quiet_env (\<lambda>_. False) (\<lambda>_ m. m) 0 [1, 0] sample_manager") auto

text \<open>
  The builder drops operations silently. Once the depth limit is reached, \<open>Call\<close> and \<open>Get\<close> change
  nothing in the pipeline, and the \<open>DependsOn\<close> that follows adds its dependencies to the operation
  before; and at no time does the builder's \<open>AddOperation\<close> enter a dependency in the manager's table,
  because \<open>DependsOn\<close> comes after it.
\<close>

theorem builder_drops_silently:
  assumes "pl_operations (mg_pipes m ! pa) = as @ [a]" and "a < length (mg_ops m)"
    and "po_max_depth (mg_options m) \<le> int (Suc (length as))"
    and "m' = builder_add ty now1 now2 pa target meth args m"
  shows "mg_pipes m' = mg_pipes m
    \<and> mg_ops (builder_depends_on pa ids m') ! a = (mg_ops m ! a)\<lparr>op_dependencies := op_dependencies (mg_ops m ! a) @ ids\<rparr>
    \<and> mg_dependencies (builder_depends_on pa ids (builder_add ty now1 now2 pb target meth args m2)) = mg_dependencies m2"
  using assms
  by (simp add: builder_add_def add_operation_def builder_depends_on_def track_dependencies_def Let_def nth_append)

definition shallow_manager :: "memory_transport pipeline_manager" where
  "shallow_manager = sample_manager\<lparr>mg_options := default_pipeline_options\<lparr>po_max_depth := 2\<rparr>\<rparr>"

lemma builder_drops_silently_witness:
  "mg_pipes (builder_get 3 30 0 5 ''c'' shallow_manager) = mg_pipes sample_manager"
  using builder_drops_silently [of shallow_manager 0 "[0]" 1 "builder_get 3 30 0 5 ''c'' shallow_manager"
      OtGet 3 30 5 "''c''" "[]" "[]" 0 shallow_manager]
  by (simp add: shallow_manager_def sample_manager_facts builder_get_def)

end
