(* ===== verification/RateLimiting.thy ===== *)
theory RateLimiting
  imports Tables RpcTypes Channels Transport
begin

text \<open>
  \<open>rate_limiting.go\<close>: token buckets, quotas and their combination. A bucket (a quota) is an object by
  address in a heap, the table maps keys to addresses, so a caller's pointer outlives its entry.
  Every operation takes its clock readings, and the entry the runtime's map iteration yields first
  when one is evicted (\<open>pick\<close>). Two readings taken at once when an object is created are one. The
  locale \<open>metered_source\<close> states what bounds a source of permits; it is interpreted on the bucket.
\<close>

section \<open>Token buckets\<close>

record rate_limit_stats =
  rt_key :: string
  rt_allowed :: int
  rt_denied :: int
  rt_current :: int
  rt_max :: int
  rt_refill_rate :: int
  rt_last_refill :: int

record token_bucket_config =
  tc_capacity :: int
  tc_refill :: int
  tc_cleanup :: int
  tc_max_buckets :: int

record token_bucket =
  tb_capacity :: int
  tb_tokens :: int
  tb_refill_rate :: int
  tb_last_refill :: int
  tb_stats :: rate_limit_stats

record token_limiter =
  tl_heap :: "token_bucket list"
  tl_table :: "(string, nat) gomap"
  tl_config :: token_bucket_config

definition default_token_bucket_config :: token_bucket_config where
  "default_token_bucket_config = \<lparr>tc_capacity = 100, tc_refill = 1000000000,
     tc_cleanup = 300000000000, tc_max_buckets = 10000\<rparr>"

definition new_token_bucket_limiter :: "token_bucket_config \<Rightarrow> token_limiter" where
  "new_token_bucket_limiter c = \<lparr>tl_heap = [], tl_table = [], tl_config = c\<rparr>"

definition fresh_bucket :: "token_bucket_config \<Rightarrow> string \<Rightarrow> int \<Rightarrow> token_bucket" where
  "fresh_bucket c key now = \<lparr>tb_capacity = tc_capacity c, tb_tokens = tc_capacity c,
     tb_refill_rate = tc_refill c, tb_last_refill = now,
     tb_stats = \<lparr>rt_key = key, rt_allowed = 0, rt_denied = 0, rt_current = tc_capacity c,
       rt_max = tc_capacity c, rt_refill_rate = tc_refill c, rt_last_refill = now\<rparr>\<rparr>"

definition get_bucket :: "nat \<Rightarrow> int \<Rightarrow> string \<Rightarrow> token_limiter \<Rightarrow> nat \<times> token_limiter" where
  "get_bucket pick now key L =
     (case gm_get (tl_table L) key of
        Some a \<Rightarrow> (a, L)
      | None \<Rightarrow>
          let t = (if int (gm_len (tl_table L)) \<ge> tc_max_buckets (tl_config L)
                   then gm_evict pick (tl_table L) else tl_table L);
              a = length (tl_heap L)
          in (a, L\<lparr>tl_heap := tl_heap L @ [fresh_bucket (tl_config L) key now], tl_table := gm_put key a t\<rparr>))"

definition upd_bucket :: "nat \<Rightarrow> token_bucket \<Rightarrow> token_limiter \<Rightarrow> token_limiter" where
  "upd_bucket a b L = L\<lparr>tl_heap := (tl_heap L)[a := b]\<rparr>"

text \<open>A zero refill interval divides by zero as soon as any time has passed.\<close>

definition refill :: "int \<Rightarrow> token_bucket \<Rightarrow> token_bucket result" where
  "refill now b =
     (let elapsed = time_sub now (tb_last_refill b)
      in if elapsed \<ge> tb_refill_rate b
         then case go_div elapsed (tb_refill_rate b) of
           Ok intervals \<Rightarrow>
             let t = int64 (tb_tokens b + int64 intervals);
                 t' = (if t > tb_capacity b then tb_capacity b else t)
             in Ok (b\<lparr>tb_tokens := t', tb_last_refill := now,
                  tb_stats := (tb_stats b)\<lparr>rt_last_refill := now, rt_current := t'\<rparr>\<rparr>)
         | Err e \<Rightarrow> Err e | Panic \<Rightarrow> Panic | Hang \<Rightarrow> Hang
         else Ok b)"

definition take_tokens :: "int \<Rightarrow> int \<Rightarrow> token_bucket \<Rightarrow> bool result \<times> token_bucket" where
  "take_tokens n now b =
     (case refill now b of
        Ok b1 \<Rightarrow>
          if tb_tokens b1 \<ge> n
          then (Ok True, b1\<lparr>tb_tokens := int64 (tb_tokens b1 - n),
                 tb_stats := (tb_stats b1)\<lparr>rt_allowed := int64 (rt_allowed (tb_stats b1) + 1),
                   rt_current := int64 (tb_tokens b1 - n)\<rparr>\<rparr>)
          else (Ok False, b1\<lparr>tb_stats := (tb_stats b1)\<lparr>rt_denied := int64 (rt_denied (tb_stats b1) + 1)\<rparr>\<rparr>)
      | Err e \<Rightarrow> (Err e, b) | Panic \<Rightarrow> (Panic, b) | Hang \<Rightarrow> (Hang, b))"

definition reserve_time :: "int \<Rightarrow> int \<Rightarrow> token_bucket \<Rightarrow> int result \<times> token_bucket" where
  "reserve_time now since b =
     (case refill now b of
        Ok b1 \<Rightarrow>
          if tb_tokens b1 > 0 then (Ok 0, b1)
          else let until = int64 (tb_refill_rate b1 - time_sub since (tb_last_refill b1))
               in (Ok (if until < 0 then 0 else until), b1)
      | Err e \<Rightarrow> (Err e, b) | Panic \<Rightarrow> (Panic, b) | Hang \<Rightarrow> (Hang, b))"

definition tbl_allow_n :: "nat \<Rightarrow> int \<Rightarrow> int \<Rightarrow> string \<Rightarrow> int \<Rightarrow> token_limiter \<Rightarrow> bool result \<times> token_limiter" where
  "tbl_allow_n pick created now key n L =
     (let (a, L1) = get_bucket pick created key L;
          (r, b) = take_tokens n now (tl_heap L1 ! a)
      in (r, upd_bucket a b L1))"

definition tbl_allow :: "nat \<Rightarrow> int \<Rightarrow> int \<Rightarrow> string \<Rightarrow> token_limiter \<Rightarrow> bool result \<times> token_limiter" where
  "tbl_allow pick created now key L = tbl_allow_n pick created now key 1 L"

definition tbl_reserve :: "nat \<Rightarrow> int \<Rightarrow> int \<Rightarrow> int \<Rightarrow> string \<Rightarrow> token_limiter \<Rightarrow> int result \<times> token_limiter" where
  "tbl_reserve pick created now since key L =
     (let (a, L1) = get_bucket pick created key L;
          (r, b) = reserve_time now since (tl_heap L1 ! a)
      in (r, upd_bucket a b L1))"

text \<open>
  One round of the loop of \<open>Wait\<close>: its clock readings, and what the \<open>select\<close> after it finds. The list
  of rounds is what has happened so far: at its end the caller is still waiting (\<open>Hang\<close>).
\<close>

record wait_round =
  wr_pick :: nat
  wr_created :: int
  wr_allow :: int
  wr_reserve :: int
  wr_since :: int
  wr_fired :: bool
  wr_ctx :: ctx
  wr_sel :: nat

datatype wait_case = WcTimer | WcDone

fun tbl_wait :: "wait_round list \<Rightarrow> string \<Rightarrow> token_limiter \<Rightarrow> unit result \<times> token_limiter" where
  "tbl_wait [] key L = (Hang, L)"
| "tbl_wait (r # rs) key L =
     (case tbl_allow (wr_pick r) (wr_created r) (wr_allow r) key L of
        (Ok True, L1) \<Rightarrow> (Ok (), L1)
      | (Ok False, L1) \<Rightarrow>
          (case tbl_reserve (wr_pick r) (wr_created r) (wr_reserve r) (wr_since r) key L1 of
             (Ok duration, L2) \<Rightarrow>
               (case go_select (wr_sel r) [(wr_fired r, WcTimer), (ctx_done (wr_ctx r), WcDone)] of
                  Some WcTimer \<Rightarrow> tbl_wait rs key L2
                | Some WcDone \<Rightarrow> (Err (ctx_error (wr_ctx r)), L2)
                | None \<Rightarrow> (Hang, L2))
           | (Err e, L2) \<Rightarrow> (Err e, L2) | (Panic, L2) \<Rightarrow> (Panic, L2) | (Hang, L2) \<Rightarrow> (Hang, L2))
      | (Err e, L1) \<Rightarrow> (Err e, L1) | (Panic, L1) \<Rightarrow> (Panic, L1) | (Hang, L1) \<Rightarrow> (Hang, L1))"

definition tbl_get_limit :: "nat \<Rightarrow> int \<Rightarrow> string \<Rightarrow> token_limiter \<Rightarrow> (int \<times> int) \<times> token_limiter" where
  "tbl_get_limit pick created key L =
     (let (a, L1) = get_bucket pick created key L
      in ((tb_capacity (tl_heap L1 ! a), tb_refill_rate (tl_heap L1 ! a)), L1))"

definition tbl_set_limit :: "nat \<Rightarrow> int \<Rightarrow> string \<Rightarrow> int \<Rightarrow> int \<Rightarrow> token_limiter \<Rightarrow> token_limiter" where
  "tbl_set_limit pick created key requests window L =
     (let (a, L1) = get_bucket pick created key L; b = tl_heap L1 ! a
      in upd_bucket a (b\<lparr>tb_capacity := requests, tb_refill_rate := window,
           tb_tokens := (if tb_tokens b > requests then requests else tb_tokens b)\<rparr>) L1)"

definition tbl_reset :: "string \<Rightarrow> token_limiter \<Rightarrow> token_limiter" where
  "tbl_reset key L = L\<lparr>tl_table := gm_del key (tl_table L)\<rparr>"

definition tbl_stats :: "nat \<Rightarrow> int \<Rightarrow> string \<Rightarrow> token_limiter \<Rightarrow> rate_limit_stats \<times> token_limiter" where
  "tbl_stats pick created key L =
     (let (a, L1) = get_bucket pick created key L in (tb_stats (tl_heap L1 ! a), L1))"

definition tbl_cleanup :: "int \<Rightarrow> token_limiter \<Rightarrow> token_limiter" where
  "tbl_cleanup now L =
     (let cutoff = now + int64 (- tc_cleanup (tl_config L))
      in L\<lparr>tl_table := gm_prune (\<lambda>_ a. tb_last_refill (tl_heap L ! a) < cutoff) (tl_table L)\<rparr>)"

section \<open>Quotas\<close>

record quota_stats =
  qt_total :: int
  qt_allowed :: int
  qt_denied :: int
  qt_exceeded :: int
  qt_last_reset :: int
  qt_average :: float64

record quota_config =
  qc_default :: int
  qc_reset :: int
  qc_cleanup :: int
  qc_max :: int

record quota =
  qu_key :: string
  qu_limit :: int
  qu_used :: int
  qu_start :: int
  qu_end :: int
  qu_period :: int
  qu_stats :: quota_stats

record quota_manager =
  qm_heap :: "quota list"
  qm_table :: "(string, nat) gomap"
  qm_config :: quota_config

record quota_info =
  qi_key :: string
  qi_limit :: int
  qi_used :: int
  qi_remaining :: int
  qi_start :: int
  qi_end :: int
  qi_reset_in :: int

definition default_quota_config :: quota_config where
  "default_quota_config = \<lparr>qc_default = 10000, qc_reset = 86400000000000, qc_cleanup = 3600000000000, qc_max = 10000\<rparr>"

definition new_quota_manager :: "quota_config \<Rightarrow> quota_manager" where
  "new_quota_manager c = \<lparr>qm_heap = [], qm_table = [], qm_config = c\<rparr>"

definition get_quota :: "nat \<Rightarrow> int \<Rightarrow> string \<Rightarrow> quota_manager \<Rightarrow> nat \<times> quota_manager" where
  "get_quota pick now key M =
     (case gm_get (qm_table M) key of
        Some a \<Rightarrow> (a, M)
      | None \<Rightarrow>
          let t = (if int (gm_len (qm_table M)) \<ge> qc_max (qm_config M) then gm_evict pick (qm_table M) else qm_table M);
              a = length (qm_heap M);
              q = \<lparr>qu_key = key, qu_limit = qc_default (qm_config M), qu_used = 0, qu_start = now,
                   qu_end = now + qc_reset (qm_config M), qu_period = qc_reset (qm_config M),
                   qu_stats = \<lparr>qt_total = 0, qt_allowed = 0, qt_denied = 0, qt_exceeded = 0,
                     qt_last_reset = now, qt_average = 0\<rparr>\<rparr>
          in (a, M\<lparr>qm_heap := qm_heap M @ [q], qm_table := gm_put key a t\<rparr>))"

definition upd_quota :: "nat \<Rightarrow> quota \<Rightarrow> quota_manager \<Rightarrow> quota_manager" where
  "upd_quota a q M = M\<lparr>qm_heap := (qm_heap M)[a := q]\<rparr>"

definition reset_window :: "int \<Rightarrow> quota \<Rightarrow> quota" where
  "reset_window now q = q\<lparr>qu_used := 0, qu_start := now, qu_end := now + qu_period q,
     qu_stats := (qu_stats q)\<lparr>qt_last_reset := now\<rparr>\<rparr>"

definition check_reset :: "int \<Rightarrow> int \<Rightarrow> quota \<Rightarrow> quota" where
  "check_reset now now' q = (if now > qu_end q then reset_window now' q else q)"

definition check_usage :: "int \<Rightarrow> int \<Rightarrow> int \<Rightarrow> quota \<Rightarrow> bool \<times> quota" where
  "check_usage now now' amount q =
     (let q1 = check_reset now now' q in (int64 (qu_used q1 + amount) \<le> qu_limit q1, q1))"

definition update_average_usage :: "quota \<Rightarrow> quota" where
  "update_average_usage q =
     (if qu_limit q > 0
      then let current = f64_round (f64_round (f64_of_int (qu_used q) / f64_of_int (qu_limit q)) * 100);
               avg = qt_average (qu_stats q)
           in q\<lparr>qu_stats := (qu_stats q)\<lparr>qt_average :=
                (if avg = 0 then current else f64_round (f64_round (avg + current) / 2))\<rparr>\<rparr>
      else q)"

definition quota_use :: "int \<Rightarrow> int \<Rightarrow> int \<Rightarrow> quota \<Rightarrow> bool \<times> quota" where
  "quota_use now now' amount q =
     (let q1 = check_reset now now' q;
          q2 = q1\<lparr>qu_stats := (qu_stats q1)\<lparr>qt_total := int64 (qt_total (qu_stats q1) + 1)\<rparr>\<rparr>
      in if int64 (qu_used q2 + amount) \<le> qu_limit q2
         then (True, update_average_usage (q2\<lparr>qu_used := int64 (qu_used q2 + amount),
                qu_stats := (qu_stats q2)\<lparr>qt_allowed := int64 (qt_allowed (qu_stats q2) + 1)\<rparr>\<rparr>))
         else (False, q2\<lparr>qu_stats := (qu_stats q2)\<lparr>qt_denied := int64 (qt_denied (qu_stats q2) + 1),
                qt_exceeded := int64 (qt_exceeded (qu_stats q2) + 1)\<rparr>\<rparr>))"

definition qm_check_quota :: "nat \<Rightarrow> int \<Rightarrow> string \<Rightarrow> int \<Rightarrow> quota_manager \<Rightarrow> bool \<times> quota_manager" where
  "qm_check_quota pick now key amount M =
     (let (a, M1) = get_quota pick now key M; (r, q) = check_usage now now amount (qm_heap M1 ! a)
      in (r, upd_quota a q M1))"

definition qm_use_quota :: "nat \<Rightarrow> int \<Rightarrow> string \<Rightarrow> int \<Rightarrow> quota_manager \<Rightarrow> bool \<times> quota_manager" where
  "qm_use_quota pick now key amount M =
     (let (a, M1) = get_quota pick now key M; (r, q) = quota_use now now amount (qm_heap M1 ! a)
      in (r, upd_quota a q M1))"

definition qm_get_quota_info :: "nat \<Rightarrow> int \<Rightarrow> string \<Rightarrow> quota_manager \<Rightarrow> quota_info \<times> quota_manager" where
  "qm_get_quota_info pick now key M =
     (let (a, M1) = get_quota pick now key M; q = qm_heap M1 ! a
      in (\<lparr>qi_key = key, qi_limit = qu_limit q, qi_used = qu_used q, qi_remaining = int64 (qu_limit q - qu_used q),
           qi_start = qu_start q, qi_end = qu_end q, qi_reset_in = time_sub (qu_end q) now\<rparr>, M1))"

definition qm_set_quota :: "nat \<Rightarrow> int \<Rightarrow> string \<Rightarrow> int \<Rightarrow> int \<Rightarrow> quota_manager \<Rightarrow> quota_manager" where
  "qm_set_quota pick now key limit period M =
     (let (a, M1) = get_quota pick now key M
      in upd_quota a (reset_window now ((qm_heap M1 ! a)\<lparr>qu_limit := limit, qu_period := period\<rparr>)) M1)"

definition qm_reset_quota :: "nat \<Rightarrow> int \<Rightarrow> string \<Rightarrow> quota_manager \<Rightarrow> quota_manager" where
  "qm_reset_quota pick now key M =
     (let (a, M1) = get_quota pick now key M in upd_quota a (reset_window now (qm_heap M1 ! a)) M1)"

definition qm_get_stats :: "nat \<Rightarrow> int \<Rightarrow> string \<Rightarrow> quota_manager \<Rightarrow> quota_stats \<times> quota_manager" where
  "qm_get_stats pick now key M =
     (let (a, M1) = get_quota pick now key M in (qu_stats (qm_heap M1 ! a), M1))"

definition qm_cleanup :: "int \<Rightarrow> quota_manager \<Rightarrow> quota_manager" where
  "qm_cleanup now M =
     (let cutoff = now + int64 (int64 (- qc_cleanup (qm_config M)) * 2)
      in M\<lparr>qm_table := gm_prune (\<lambda>_ a. qt_last_reset (qu_stats (qm_heap M ! a)) < cutoff \<and> qu_used (qm_heap M ! a) = 0)
             (qm_table M)\<rparr>)"

definition reset_expired_quotas :: "int \<Rightarrow> quota_manager \<Rightarrow> quota_manager" where
  "reset_expired_quotas now M =
     fold (\<lambda>e M. upd_quota (snd e) (check_reset now now (qm_heap M ! snd e)) M) (qm_table M) M"

section \<open>Both together\<close>

record rate_quota =
  rq_limiter :: token_limiter
  rq_quota :: quota_manager

definition new_rate_limit_quota_manager :: "token_bucket_config \<Rightarrow> quota_config \<Rightarrow> rate_quota" where
  "new_rate_limit_quota_manager c q =
     \<lparr>rq_limiter = new_token_bucket_limiter c, rq_quota = new_quota_manager q\<rparr>"

definition quota_step :: "(quota_manager \<Rightarrow> bool \<times> quota_manager) \<Rightarrow> rate_quota \<Rightarrow> unit result \<times> rate_quota" where
  "quota_step f R =
     (let (ok, M) = f (rq_quota R)
      in (if ok then Ok () else Err (EMsg ''quota exceeded for %s''), R\<lparr>rq_quota := M\<rparr>))"

definition limited_step :: "nat \<Rightarrow> int \<Rightarrow> int \<Rightarrow> string \<Rightarrow> (quota_manager \<Rightarrow> bool \<times> quota_manager) \<Rightarrow> rate_quota \<Rightarrow> unit result \<times> rate_quota" where
  "limited_step pick created now key f R =
     (case tbl_allow pick created now key (rq_limiter R) of
        (Ok True, L) \<Rightarrow> quota_step f (R\<lparr>rq_limiter := L\<rparr>)
      | (Ok False, L) \<Rightarrow> (Err (EMsg ''rate limit exceeded for %s''), R\<lparr>rq_limiter := L\<rparr>)
      | (Err e, L) \<Rightarrow> (Err e, R\<lparr>rq_limiter := L\<rparr>)
      | (Panic, L) \<Rightarrow> (Panic, R\<lparr>rq_limiter := L\<rparr>)
      | (Hang, L) \<Rightarrow> (Hang, R\<lparr>rq_limiter := L\<rparr>))"

definition check_request :: "nat \<Rightarrow> int \<Rightarrow> int \<Rightarrow> string \<Rightarrow> int \<Rightarrow> rate_quota \<Rightarrow> unit result \<times> rate_quota" where
  "check_request pick created now key amount R = limited_step pick created now key (qm_check_quota pick now key amount) R"

definition use_request :: "nat \<Rightarrow> int \<Rightarrow> int \<Rightarrow> string \<Rightarrow> int \<Rightarrow> rate_quota \<Rightarrow> unit result \<times> rate_quota" where
  "use_request pick created now key amount R = limited_step pick created now key (qm_use_quota pick now key amount) R"

definition wait_for_request :: "wait_round list \<Rightarrow> nat \<Rightarrow> int \<Rightarrow> string \<Rightarrow> int \<Rightarrow> rate_quota \<Rightarrow> unit result \<times> rate_quota" where
  "wait_for_request rounds pick now key amount R =
     (case tbl_wait rounds key (rq_limiter R) of
        (Ok _, L) \<Rightarrow> quota_step (qm_use_quota pick now key amount) (R\<lparr>rq_limiter := L\<rparr>)
      | (Err e, L) \<Rightarrow> (Err (EWrap ''rate limit wait failed: '' e), R\<lparr>rq_limiter := L\<rparr>)
      | (Panic, L) \<Rightarrow> (Panic, R\<lparr>rq_limiter := L\<rparr>)
      | (Hang, L) \<Rightarrow> (Hang, R\<lparr>rq_limiter := L\<rparr>))"

definition rlqm_set_rate_limit :: "nat \<Rightarrow> int \<Rightarrow> string \<Rightarrow> int \<Rightarrow> int \<Rightarrow> rate_quota \<Rightarrow> rate_quota" where
  "rlqm_set_rate_limit pick now key requests window R =
     R\<lparr>rq_limiter := tbl_set_limit pick now key requests window (rq_limiter R)\<rparr>"

definition rlqm_set_quota :: "nat \<Rightarrow> int \<Rightarrow> string \<Rightarrow> int \<Rightarrow> int \<Rightarrow> rate_quota \<Rightarrow> rate_quota" where
  "rlqm_set_quota pick now key limit period R = R\<lparr>rq_quota := qm_set_quota pick now key limit period (rq_quota R)\<rparr>"

definition rlqm_reset :: "nat \<Rightarrow> int \<Rightarrow> string \<Rightarrow> rate_quota \<Rightarrow> rate_quota" where
  "rlqm_reset pick now key R =
     R\<lparr>rq_limiter := tbl_reset key (rq_limiter R), rq_quota := qm_reset_quota pick now key (rq_quota R)\<rparr>"

definition rlqm_rate_limit_stats :: "nat \<Rightarrow> int \<Rightarrow> string \<Rightarrow> rate_quota \<Rightarrow> rate_limit_stats \<times> rate_quota" where
  "rlqm_rate_limit_stats pick now key R = (let (x, L) = tbl_stats pick now key (rq_limiter R) in (x, R\<lparr>rq_limiter := L\<rparr>))"

definition rlqm_quota_stats :: "nat \<Rightarrow> int \<Rightarrow> string \<Rightarrow> rate_quota \<Rightarrow> quota_stats \<times> rate_quota" where
  "rlqm_quota_stats pick now key R = (let (x, M) = qm_get_stats pick now key (rq_quota R) in (x, R\<lparr>rq_quota := M\<rparr>))"

definition rlqm_quota_info :: "nat \<Rightarrow> int \<Rightarrow> string \<Rightarrow> rate_quota \<Rightarrow> quota_info \<times> rate_quota" where
  "rlqm_quota_info pick now key R = (let (x, M) = qm_get_quota_info pick now key (rq_quota R) in (x, R\<lparr>rq_quota := M\<rparr>))"

section \<open>Sources of permits\<close>

text \<open>
  A source hands out permits against a credit that grows with time: one permit per \<open>rate\<close> units. What
  a run of requests obtains is bounded by the initial credit and the time that has passed, as long as
  the clock stays within a horizon (the arithmetic wraps beyond it).
\<close>

locale metered_source =
  fixes take :: "int \<Rightarrow> int \<Rightarrow> 's \<Rightarrow> bool result \<times> 's"
    and credit :: "'s \<Rightarrow> int" and clock :: "'s \<Rightarrow> int" and rate :: "'s \<Rightarrow> int"
    and ok :: "'s \<Rightarrow> bool" and horizon :: int
  assumes credit_nonneg: "ok s \<Longrightarrow> 0 \<le> credit s"
    and rate_pos: "ok s \<Longrightarrow> 0 < rate s"
    and take_law: "ok s \<Longrightarrow> 0 \<le> n \<Longrightarrow> clock s \<le> t \<Longrightarrow> t - clock s < horizon \<Longrightarrow> take n t s = (r, s')
      \<Longrightarrow> ok s' \<and> rate s' = rate s \<and> clock s \<le> clock s' \<and> clock s' \<le> t \<and> is_ok r
        \<and> (credit s' + (if r = Ok True then n else 0)) * rate s - clock s' \<le> credit s * rate s - clock s"
begin

text \<open>The permits a run obtains, and the state it ends in.\<close>

fun obtained :: "(int \<times> int) list \<Rightarrow> 's \<Rightarrow> int \<times> 's" where
  "obtained [] s = (0, s)"
| "obtained ((n, t) # rs) s =
     (let (r, s') = take n t s; (m, s'') = obtained rs s' in ((if r = Ok True then n else 0) + m, s''))"

lemma obtained_bound:
  assumes "obtained rs s = (m, s')" and "ok s" and "sorted (clock s # map snd rs)" and "\<forall>(n, t) \<in> set rs. 0 \<le> n \<and> t < clock s + horizon"
  shows "ok s' \<and> clock s \<le> clock s' \<and> clock s' \<le> last (clock s # map snd rs)
    \<and> (credit s' + m) * rate s - clock s' \<le> credit s * rate s - clock s"
  using assms
proof (induction rs arbitrary: s m)
  case Nil
  then show ?case by simp
next
  case (Cons r rs)
  obtain n t where r: "r = (n, t)" by force
  obtain x s1 where x: "take n t s = (x, s1)" by force
  obtain k s2 where k: "obtained rs s1 = (k, s2)" by force
  have m: "m = (if x = Ok True then n else 0) + k" "s' = s2" using Cons.prems(1) r x k by auto
  from Cons.prems(3,4) r have t: "clock s \<le> t" "0 \<le> n" "t - clock s < horizon" by auto
  note law = take_law [OF Cons.prems(2) t(2,1,3) x]
  have "sorted (clock s1 # map snd rs)" "\<forall>(n, t) \<in> set rs. 0 \<le> n \<and> t < clock s1 + horizon"
    using Cons.prems(3,4) law r by (fastforce)+
  from m k Cons.IH [of s1 k] this law
  have ih: "ok s2 \<and> clock s1 \<le> clock s2 \<and> clock s2 \<le> last (clock s1 # map snd rs)
    \<and> (credit s2 + k) * rate s - clock s2 \<le> credit s1 * rate s - clock s1" by simp
  have "last (clock s1 # map snd rs) \<le> last (t # map snd rs)" using law by (cases rs) auto
  with ih law m r show ?case by (auto simp: algebra_simps)
qed

lemma run_bounded:
  assumes "ok s" and "sorted (clock s # map snd rs)" and "\<forall>(n, t) \<in> set rs. 0 \<le> n \<and> t < clock s + horizon"
  shows "fst (obtained rs s) * rate s \<le> credit s * rate s + (last (clock s # map snd rs) - clock s)"
proof -
  obtain m s' where m: "obtained rs s = (m, s')" by force
  from obtained_bound [OF m assms] have "ok s'" "clock s' \<le> last (clock s # map snd rs)"
    "(credit s' + m) * rate s - clock s' \<le> credit s * rate s - clock s" by auto
  moreover have "0 \<le> credit s' * rate s" using credit_nonneg [OF \<open>ok s'\<close>] rate_pos [OF assms(1)] by simp
  ultimately show ?thesis using m by (simp add: algebra_simps)
qed

end

section \<open>The bucket as a source\<close>

text \<open>Bounds within which the bucket's arithmetic is exact.\<close>

definition bucket_ok :: "token_bucket \<Rightarrow> bool" where
  "bucket_ok b \<longleftrightarrow> 0 < tb_refill_rate b \<and> tb_refill_rate b \<le> max_int64 \<and> 0 \<le> tb_tokens b \<and> tb_tokens b \<le> tb_capacity b
     \<and> tb_capacity b < 4611686018427387904"

abbreviation horizon_ns :: int where "horizon_ns \<equiv> 4611686018427387904"

lemma refill_exact:
  assumes "bucket_ok b" and "tb_last_refill b \<le> now" and "now - tb_last_refill b < horizon_ns"
  shows "\<exists>b'. refill now b = Ok b' \<and> bucket_ok b' \<and> tb_refill_rate b' = tb_refill_rate b
    \<and> tb_capacity b' = tb_capacity b \<and> tb_last_refill b \<le> tb_last_refill b' \<and> tb_last_refill b' \<le> now
    \<and> tb_tokens b \<le> tb_tokens b'
    \<and> (tb_refill_rate b \<le> now - tb_last_refill b \<longrightarrow> 0 < tb_capacity b \<longrightarrow> 0 < tb_tokens b')
    \<and> (now - tb_last_refill b < tb_refill_rate b \<longrightarrow> tb_last_refill b' = tb_last_refill b)
    \<and> (tb_refill_rate b \<le> now - tb_last_refill b \<longrightarrow> tb_last_refill b' = now)
    \<and> tb_tokens b' * tb_refill_rate b - tb_last_refill b' \<le> tb_tokens b * tb_refill_rate b - tb_last_refill b"
proof -
  define e where "e = now - tb_last_refill b"
  define k where "k = e div tb_refill_rate b"
  have e: "0 \<le> e" "e < horizon_ns" and r: "0 < tb_refill_rate b" using assms by (auto simp: e_def bucket_ok_def)
  have sub: "time_sub now (tb_last_refill b) = e" using e by (simp add: time_sub_def e_def)
  have k: "0 \<le> k" "k \<le> e" "k * tb_refill_rate b \<le> e"
    using e r zdiv_mono2 [of e 1 "tb_refill_rate b"] pos_mod_sign [OF r, of e]
    by (auto simp: k_def pos_imp_zdiv_nonneg_iff minus_mod_eq_div_mult [symmetric])
  show ?thesis
  proof (cases "tb_refill_rate b \<le> e")
    case True
    then have k1: "1 \<le> k" using r pos_imp_zdiv_pos_iff [OF r, of e] by (simp add: k_def)
    have q: "go_quot e (tb_refill_rate b) = k" using e r by (simp add: go_quot_nonneg k_def)
    have w: "int64 k = k" "int64 (tb_tokens b + k) = tb_tokens b + k"
      using k e assms(1) by (auto intro!: int64_id simp: bucket_ok_def)
    have "min (tb_capacity b) (tb_tokens b + k) * tb_refill_rate b \<le> (tb_tokens b + k) * tb_refill_rate b"
      using r by (intro mult_right_mono) auto
    then have "min (tb_capacity b) (tb_tokens b + k) * tb_refill_rate b \<le> tb_tokens b * tb_refill_rate b + e"
      using k(3) by (simp add: algebra_simps)
    moreover define t where "t = min (tb_capacity b) (tb_tokens b + k)"
    moreover have "refill now b = Ok (b\<lparr>tb_tokens := t, tb_last_refill := now,
        tb_stats := (tb_stats b)\<lparr>rt_last_refill := now, rt_current := t\<rparr>\<rparr>)"
      using True r by (auto simp: refill_def go_div_def Let_def sub q w t_def)
    moreover have "0 \<le> t" "t \<le> tb_capacity b" "tb_tokens b \<le> t" "0 < tb_capacity b \<longrightarrow> 0 < t"
      using k1 assms(1) by (auto simp: t_def bucket_ok_def)
    ultimately show ?thesis using True assms by (simp add: bucket_ok_def e_def)
  next
    case False
    with sub assms show ?thesis by (simp add: refill_def Let_def e_def bucket_ok_def)
  qed
qed

interpretation bucket: metered_source take_tokens tb_tokens tb_last_refill tb_refill_rate bucket_ok horizon_ns
proof unfold_locales
  fix s s' :: token_bucket and n t r
  show "bucket_ok s \<Longrightarrow> 0 \<le> tb_tokens s" "bucket_ok s \<Longrightarrow> 0 < tb_refill_rate s" by (auto simp: bucket_ok_def)
  assume a: "bucket_ok s" "0 \<le> n" "tb_last_refill s \<le> t" "t - tb_last_refill s < horizon_ns"
    "take_tokens n t s = (r, s')"
  from refill_exact [OF a(1,3,4)] obtain b where b: "refill t s = Ok b" "bucket_ok b"
    "tb_refill_rate b = tb_refill_rate s" "tb_last_refill s \<le> tb_last_refill b" "tb_last_refill b \<le> t"
    "tb_tokens b * tb_refill_rate s - tb_last_refill b \<le> tb_tokens s * tb_refill_rate s - tb_last_refill s" by auto
  show "bucket_ok s' \<and> tb_refill_rate s' = tb_refill_rate s \<and> tb_last_refill s \<le> tb_last_refill s'
    \<and> tb_last_refill s' \<le> t \<and> is_ok r
    \<and> (tb_tokens s' + (if r = Ok True then n else 0)) * tb_refill_rate s - tb_last_refill s'
      \<le> tb_tokens s * tb_refill_rate s - tb_last_refill s"
  proof (cases "n \<le> tb_tokens b")
    case True
    then have "int64 (tb_tokens b - n) = tb_tokens b - n" using a(2) b(2) by (intro int64_id) (auto simp: bucket_ok_def)
    with True a b show ?thesis by (auto simp: take_tokens_def bucket_ok_def)
  next
    case False
    with a b show ?thesis by (auto simp: take_tokens_def bucket_ok_def)
  qed
qed

section \<open>Properties\<close>

text \<open>The permits a run of \<open>AllowN\<close> calls obtains from a bucket.\<close>

fun granted :: "(int \<times> int) list \<Rightarrow> token_bucket \<Rightarrow> int \<times> token_bucket" where
  "granted [] b = (0, b)"
| "granted ((n, t) # rs) b =
     (let (r, b') = take_tokens n t b; (m, b'') = granted rs b' in ((if r = Ok True then n else 0) + m, b''))"

lemma granted_obtained: "granted rs b = bucket.obtained rs b"
  by (induction rs b rule: granted.induct) (auto simp: Let_def split: prod.splits)

definition sample_bucket :: token_bucket where
  "sample_bucket = fresh_bucket default_token_bucket_config ''k'' 0"

lemma sample_bucket_ok: "bucket_ok sample_bucket" "tb_last_refill sample_bucket = 0"
  "tb_tokens sample_bucket = 100" "tb_refill_rate sample_bucket = 1000000000" "tb_capacity sample_bucket = 100"
  by (simp_all add: sample_bucket_def fresh_bucket_def default_token_bucket_config_def bucket_ok_def)

text \<open>
  C17: A token bucket enforces its rate. Over any run of requests for non-negative amounts, in the order
  of time, the permits granted cost at most the tokens that were in the bucket and one token per
  refill interval that has passed. (While the clock stays within 2^62 ns of the first refill, after
  which the counter could wrap.)
\<close>

theorem token_bucket_bound:
  assumes "bucket_ok b" and "sorted (tb_last_refill b # map snd rs)"
    and "\<forall>(n, t) \<in> set rs. 0 \<le> n \<and> t < tb_last_refill b + horizon_ns"
  shows "fst (granted rs b) * tb_refill_rate b
    \<le> tb_tokens b * tb_refill_rate b + (last (tb_last_refill b # map snd rs) - tb_last_refill b)"
  unfolding granted_obtained using bucket.run_bounded [OF assms] .

lemma token_bucket_bound_witness:
  "fst (granted [(60, 5), (60, 7), (30, 9)] sample_bucket) * 1000000000 \<le> 100000000009"
  using token_bucket_bound [OF sample_bucket_ok(1), of "[(60, 5), (60, 7), (30, 9)]"]
  by (simp add: sample_bucket_ok)

lemma get_bucket_present:
  "gm_get (tl_table L) key = Some a \<Longrightarrow> get_bucket pick now key L = (a, L)"
  by (simp add: get_bucket_def)

lemma upd_bucket_fields [simp]:
  "tl_table (upd_bucket a b L) = tl_table L" "tl_config (upd_bucket a b L) = tl_config L"
  "tl_heap (upd_bucket a b L) = (tl_heap L)[a := b]"
  by (simp_all add: upd_bucket_def)

lemma reserve_promise:
  assumes "bucket_ok b" and "0 < tb_capacity b" and "tb_last_refill b \<le> t0" and "t0 \<le> t1" and "t1 - tb_last_refill b < horizon_ns"
    and "reserve_time t0 t1 b = (r, b')"
  shows "\<exists>d. r = Ok d \<and> 0 \<le> d \<and> (\<forall>t. t1 + d \<le> t \<longrightarrow> t - tb_last_refill b < horizon_ns \<longrightarrow> fst (take_tokens 1 t b') = Ok True)"
proof -
  have "t0 - tb_last_refill b < horizon_ns" using assms by simp
  from refill_exact [OF assms(1,3) this] obtain b1 where b1: "refill t0 b = Ok b1" "bucket_ok b1"
    "tb_capacity b1 = tb_capacity b" "tb_last_refill b \<le> tb_last_refill b1" "tb_last_refill b1 \<le> t0"
    "tb_refill_rate b1 = tb_refill_rate b" by auto
  have since: "time_sub t1 (tb_last_refill b1) = t1 - tb_last_refill b1" using b1 assms by (intro time_sub_exact) auto
  let ?d = "if 0 < tb_tokens b1 then 0 else
     (let u = int64 (tb_refill_rate b1 - (t1 - tb_last_refill b1)) in if u < 0 then 0 else u)"
  have r: "r = Ok ?d" "b' = b1" using assms(6) b1 since by (auto simp: reserve_time_def Let_def split: if_splits)
  have ready: "fst (take_tokens 1 t b1) = Ok True"
    if t: "tb_last_refill b1 \<le> t" "t - tb_last_refill b < horizon_ns"
      and "0 < tb_tokens b1 \<or> tb_refill_rate b1 \<le> t - tb_last_refill b1" for t
  proof -
    have "t - tb_last_refill b1 < horizon_ns" using t b1 by simp
    from refill_exact [OF b1(2) t(1) this] that(3) b1(3) assms(2) obtain b2 where "refill t b1 = Ok b2" "0 < tb_tokens b2"
      by auto
    then show ?thesis by (simp add: take_tokens_def)
  qed
  have "int64 (tb_refill_rate b1 - (t1 - tb_last_refill b1)) = tb_refill_rate b1 - (t1 - tb_last_refill b1)"
    using b1 assms by (intro int64_id) (auto simp: bucket_ok_def)
  with r ready b1 assms show ?thesis by (auto simp: Let_def split: if_splits)
qed

text \<open>
  \<open>Wait\<close> returns. For a key whose bucket has a positive capacity and refill interval, a caller
  under a live context who is not disturbed gets its permit in the first round of the loop or, once
  the timer set to the duration \<open>Reserve\<close> answered has fired, in the second.
\<close>

theorem wait_returns:
  assumes "gm_get (tl_table L) key = Some a" and "a < length (tl_heap L)" and "bucket_ok (tl_heap L ! a)"
    and "0 < tb_capacity (tl_heap L ! a)" and "tb_last_refill (tl_heap L ! a) \<le> wr_allow r1"
    and "wr_allow r1 \<le> wr_reserve r1" and "wr_reserve r1 \<le> wr_since r1" and "wr_ctx r1 = CtxLive" and "wr_fired r1"
    and "\<forall>d. fst (tbl_reserve (wr_pick r1) (wr_created r1) (wr_reserve r1) (wr_since r1) key
           (snd (tbl_allow (wr_pick r1) (wr_created r1) (wr_allow r1) key L))) = Ok d \<longrightarrow> wr_since r1 + d \<le> wr_allow r2"
    and "wr_since r1 \<le> wr_allow r2" and "wr_allow r2 - tb_last_refill (tl_heap L ! a) < horizon_ns"
  shows "fst (tbl_wait (r1 # r2 # rs) key L) = Ok ()"
proof -
  obtain x b where x: "take_tokens 1 (wr_allow r1) (tl_heap L ! a) = (x, b)" by force
  obtain y b' where y: "reserve_time (wr_reserve r1) (wr_since r1) b = (y, b')" by force
  let ?L1 = "upd_bucket a b L" and ?L2 = "upd_bucket a b' (upd_bucket a b L)"
  have al: "tbl_allow (wr_pick r) (wr_created r) (wr_allow r) key L' =
      (case take_tokens 1 (wr_allow r) (tl_heap L' ! a) of (r', c) \<Rightarrow> (r', upd_bucket a c L'))"
    if "gm_get (tl_table L') key = Some a" for r L'
    using that by (simp add: tbl_allow_def tbl_allow_n_def get_bucket_present split: prod.splits)
  have re: "tbl_reserve (wr_pick r1) (wr_created r1) (wr_reserve r1) (wr_since r1) key ?L1 = (y, ?L2)"
    using assms(1,2) y by (simp add: tbl_reserve_def get_bucket_present)
  have hz: "wr_allow r1 - tb_last_refill (tl_heap L ! a) < horizon_ns" using assms(6,7,11,12) by simp
  note law = bucket.take_law [OF assms(3) _ assms(5) hz x, simplified]
  have cap: "tb_capacity b = tb_capacity (tl_heap L ! a)"
    using refill_exact [OF assms(3,5) hz] x by (auto simp: take_tokens_def split: if_splits)
  have s: "wr_since r1 - tb_last_refill b < horizon_ns" using law assms(11,12) by simp
  from reserve_promise [OF _ _ _ assms(7) s y] law cap assms(4,6) obtain d where d: "y = Ok d" "0 \<le> d"
    "\<forall>t. wr_since r1 + d \<le> t \<longrightarrow> t - tb_last_refill b < horizon_ns \<longrightarrow> fst (take_tokens 1 t b') = Ok True" by force
  with assms(10) re al [OF assms(1), of r1] x have "wr_since r1 + d \<le> wr_allow r2" by simp
  with d law assms(12) have two: "fst (take_tokens 1 (wr_allow r2) b') = Ok True" by auto
  have "gm_get (tl_table ?L2) key = Some a" using assms(1) by simp
  note al2 = al [OF this, of r2]
  from two obtain c where c: "take_tokens 1 (wr_allow r2) b' = (Ok True, c)" by (metis prod.collapse)
  from law obtain v where v: "x = Ok v" by (auto simp: is_ok_iff)
  show ?thesis using x v al [OF assms(1), of r1] re d(1) al2 c assms(2,8,9)
    by (cases v) (simp_all add: go_select_def ctx_done_def)
qed

definition empty_limiter :: token_limiter where
  "empty_limiter = \<lparr>tl_heap = [sample_bucket\<lparr>tb_tokens := 0\<rparr>], tl_table = [(''k'', 0)],
     tl_config = default_token_bucket_config\<lparr>tc_max_buckets := 1\<rparr>\<rparr>"

definition sample_round :: "int \<Rightarrow> wait_round" where
  "sample_round t = \<lparr>wr_pick = 0, wr_created = t, wr_allow = t, wr_reserve = t, wr_since = t,
     wr_fired = True, wr_ctx = CtxLive, wr_sel = 0\<rparr>"

lemma wait_returns_witness: "fst (tbl_wait [sample_round 1, sample_round 1000000000] ''k'' empty_limiter) = Ok ()"
proof -
  have r: "fst (tbl_reserve 0 1 1 1 ''k'' (snd (tbl_allow 0 1 1 ''k'' empty_limiter))) = Ok 999999999" by code_simp
  have "bucket_ok (sample_bucket\<lparr>tb_tokens := 0\<rparr>)" using sample_bucket_ok by (simp add: bucket_ok_def)
  with r show ?thesis
    by (intro wait_returns [of _ _ 0]) (simp_all add: empty_limiter_def sample_round_def sample_bucket_ok)
qed

text \<open>
  A full table forgives. When the table of buckets is full and the runtime's iteration yields the
  key \<open>k\<close> first, one request for any other new key evicts the bucket of \<open>k\<close>, however recently it was
  used; the next requests for \<open>k\<close> start from a full bucket, whatever \<open>k\<close> had used up.
\<close>

theorem eviction_refreshes:
  assumes "gm_wf (tl_table L)" and "tc_max_buckets (tl_config L) = int (gm_len (tl_table L))"
    and "tl_table L \<noteq> []" and "fst (tl_table L ! (pick mod gm_len (tl_table L))) = k" and "gm_get (tl_table L) k' = None"
    and "0 < tc_refill (tl_config L)" and "0 \<le> t" and "t < tc_refill (tl_config L)" and "t \<le> max_int64"
    and "L1 = snd (tbl_allow pick created now k' L)"
  shows "fst (tbl_allow_n pick2 0 t k n L1) = Ok (n \<le> tc_capacity (tl_config L))"
proof -
  have "gm_get (tl_table L) k \<noteq> None" using gm_evict_present [OF assms(1,3), of pick] assms(4) by simp
  then have ne: "k \<noteq> k'" using assms(5) by auto
  obtain r b where rb: "take_tokens 1 now (fresh_bucket (tl_config L) k' created) = (r, b)" by force
  have L1: "L1 = L\<lparr>tl_heap := tl_heap L @ [b], tl_table := gm_put k' (length (tl_heap L)) (gm_del k (tl_table L))\<rparr>"
    using assms rb by (simp add: tbl_allow_def tbl_allow_n_def get_bucket_def gm_evict_def upd_bucket_def Let_def)
  have "get_bucket pick2 0 k L1 = (length (tl_heap L1), snd (get_bucket pick2 0 k L1))"
    "tl_heap (snd (get_bucket pick2 0 k L1)) = tl_heap L1 @ [fresh_bucket (tl_config L) k 0]"
    using ne by (simp_all add: L1 get_bucket_def Let_def)
  moreover have "refill t (fresh_bucket (tl_config L) k 0) = Ok (fresh_bucket (tl_config L) k 0)"
    using assms by (simp add: refill_def fresh_bucket_def time_sub_def)
  then have "fst (take_tokens n t (fresh_bucket (tl_config L) k 0)) = Ok (n \<le> tc_capacity (tl_config L))"
    by (simp add: take_tokens_def) (simp add: fresh_bucket_def)
  moreover obtain L2 where "get_bucket pick2 0 k L1 = (length (tl_heap L1), L2)" using calculation(1) by blast
  ultimately show ?thesis
    by (simp add: tbl_allow_n_def split_beta)
qed

lemma eviction_refreshes_witness:
  "fst (tbl_allow_n 0 0 5 ''k'' 100 empty_limiter) = Ok False
    \<and> fst (tbl_allow_n 0 0 5 ''k'' 100 (snd (tbl_allow 0 5 5 ''other'' empty_limiter))) = Ok True"
proof
  show "fst (tbl_allow_n 0 0 5 ''k'' 100 empty_limiter) = Ok False" by code_simp
  show "fst (tbl_allow_n 0 0 5 ''k'' 100 (snd (tbl_allow 0 5 5 ''other'' empty_limiter))) = Ok True"
    using eviction_refreshes [of empty_limiter 0 "''k''" "''other''" 5 _ 5 5 0 100]
    by (simp add: empty_limiter_def gm_wf_def default_token_bucket_config_def)
qed

section \<open>Quotas in a window\<close>

text \<open>The amounts a run of \<open>use\<close> calls consumes.\<close>

fun consumed :: "(int \<times> int) list \<Rightarrow> quota \<Rightarrow> int \<times> quota" where
  "consumed [] q = (0, q)"
| "consumed ((n, t) # rs) q =
     (let (r, q') = quota_use t t n q; (m, q'') = consumed rs q' in ((if r then n else 0) + m, q''))"

lemma update_average_usage_fields [simp]:
  "qu_used (update_average_usage q) = qu_used q" "qu_limit (update_average_usage q) = qu_limit q"
  "qu_end (update_average_usage q) = qu_end q"
  by (simp_all add: update_average_usage_def Let_def)

lemma quota_use_window:
  assumes "t \<le> qu_end q" and "quota_use t t n q = (r, q')"
  shows "qu_end q' = qu_end q \<and> qu_limit q' = qu_limit q \<and> r = (int64 (qu_used q + n) \<le> qu_limit q)
    \<and> qu_used q' = (if r then int64 (qu_used q + n) else qu_used q)"
  using assms by (auto simp: quota_use_def check_reset_def Let_def split: if_splits)

text \<open>
  A quota bounds a window, up to overflow. Within one window, uses of non-negative amounts that
  cannot overflow the counter consume at most what is left of the limit, and the counter is exact;
  but one use whose sum exceeds the int64 range is always granted, and leaves the counter negative.
\<close>

theorem quota_window_bound:
  assumes "0 \<le> qu_used q" and "qu_used q \<le> qu_limit q"
    and "\<forall>(n, t) \<in> set rs. 0 \<le> n \<and> t \<le> qu_end q \<and> n \<le> max_int64 - qu_limit q"
    and "0 \<le> n" and "n \<le> max_int64" and "qu_limit q \<le> max_int64" and "t \<le> qu_end q" and "max_int64 < qu_used q + n"
  shows "fst (consumed rs q) \<le> qu_limit q - qu_used q
    \<and> qu_used (snd (consumed rs q)) = qu_used q + fst (consumed rs q)
    \<and> fst (quota_use t t n q) \<and> qu_used (snd (quota_use t t n q)) < 0"
proof -
  have "fst (consumed rs q) \<le> qu_limit q - qu_used q \<and> qu_used (snd (consumed rs q)) = qu_used q + fst (consumed rs q)"
    using assms(1-3,6)
  proof (induction rs arbitrary: q)
    case (Cons x rs)
    obtain n t where x: "x = (n, t)" by force
    obtain r q' where u: "quota_use t t n q = (r, q')" by force
    have "t \<le> qu_end q" using Cons.prems(3) x by auto
    note w = quota_use_window [OF this u]
    have i: "int64 (qu_used q + n) = qu_used q + n" using Cons.prems x by (intro int64_id) auto
    have "fst (consumed rs q') \<le> qu_limit q' - qu_used q' \<and> qu_used (snd (consumed rs q')) = qu_used q' + fst (consumed rs q')"
      using Cons.prems w i x by (intro Cons.IH) (auto split: if_splits)
    with w i x u show ?case by (auto split: prod.splits if_splits)
  qed simp
  moreover have "int64 (qu_used q + n) = qu_used q + n - 18446744073709551616"
    using int64_id [of "qu_used q + n - 18446744073709551616"] int64_minus_2_64 [of "qu_used q + n"] assms by simp
  moreover obtain r q' where u: "quota_use t t n q = (r, q')" by force
  moreover have "qu_used q + n - 18446744073709551616 \<le> qu_limit q" "qu_used q + n - 18446744073709551616 < 0"
    using assms by linarith+
  ultimately show ?thesis using quota_use_window [OF assms(7) u] by simp
qed

definition sample_quota :: quota where
  "sample_quota = qm_heap (snd (get_quota 0 0 ''k'' (new_quota_manager default_quota_config))) ! 0"

lemma quota_window_bound_witness:
  "fst (consumed [(6000, 1), (4000, 2)] (sample_quota\<lparr>qu_used := 1\<rparr>)) \<le> 9999
    \<and> fst (quota_use 3 3 max_int64 (sample_quota\<lparr>qu_used := 1\<rparr>))"
  using quota_window_bound [of "sample_quota\<lparr>qu_used := 1\<rparr>" "[(6000, 1), (4000, 2)]" max_int64 3]
  by (simp add: sample_quota_def get_quota_def new_quota_manager_def default_quota_config_def Let_def)

end
