(* ===== verification/Security.thy ===== *)
theory Security
  imports Tables RpcTypes ValueTypes "HOL-Library.Sublist"
begin

text \<open>
  \<open>security.go\<close>: capabilities and their store, authentication, authorization, delegation and
  revocation. A stored capability is an object by address, because \<open>Create\<close> and \<open>Delegate\<close> hand the
  stored pointer to the caller; the attributes and operations are values (the code copies them in
  \<open>Clone\<close>; that \<open>CreateCapability\<close> keeps the caller's slice is not modelled). Random identifiers are
  arguments. The locale \<open>capability_store\<close> states what revocation relies on.
\<close>

section \<open>Capabilities\<close>

record capability =
  cp_id :: string
  cp_resource :: string
  cp_operations :: "string list"
  cp_attributes :: "(string, string) gomap"
  cp_issued_at :: int
  cp_expires_at :: "int option"
  cp_issuer :: string
  cp_subject :: string
  cp_delegatable :: bool
  cp_used :: bool
  cp_use_count :: int
  cp_max_uses :: int

definition cap_is_valid :: "int \<Rightarrow> capability \<Rightarrow> bool" where
  "cap_is_valid now c =
     (if cp_max_uses c > 0 \<and> cp_use_count c \<ge> cp_max_uses c then False
      else case cp_expires_at c of Some t \<Rightarrow> \<not> now > t | None \<Rightarrow> True)"

definition matches_resource :: "capability \<Rightarrow> string \<Rightarrow> bool" where
  "matches_resource c r =
     (if cp_resource c = ''*'' then True
      else if cp_resource c = r then True
      else if suffix ''*'' (cp_resource c) then prefix (butlast (cp_resource c)) r
      else False)"

definition can_perform :: "int \<Rightarrow> string \<Rightarrow> string \<Rightarrow> capability \<Rightarrow> bool" where
  "can_perform now resource operation c =
     (if \<not> cap_is_valid now c then False
      else if \<not> matches_resource c resource then False
      else list_ex (\<lambda>x. x = operation \<or> x = ''*'') (cp_operations c))"

definition cap_use :: "int \<Rightarrow> capability \<Rightarrow> unit result \<times> capability" where
  "cap_use now c =
     (if \<not> cap_is_valid now c then (Err (EMsg ''capability is not valid''), c)
      else let n = int64 (cp_use_count c + 1)
        in (Ok (), c\<lparr>cp_use_count := n, cp_used := (if cp_max_uses c > 0 \<and> n \<ge> cp_max_uses c then True else cp_used c)\<rparr>))"

definition cap_clone :: "capability \<Rightarrow> capability" where
  "cap_clone c = c"

section \<open>The store\<close>

record capability_store =
  cs_heap :: "capability list"
  cs_table :: "(string, nat) gomap"

definition new_memory_capability_store :: capability_store where
  "new_memory_capability_store = \<lparr>cs_heap = [], cs_table = []\<rparr>"

definition cs_store :: "nat \<Rightarrow> capability_store \<Rightarrow> capability_store" where
  "cs_store a s = s\<lparr>cs_table := gm_put (cp_id (cs_heap s ! a)) a (cs_table s)\<rparr>"

definition cs_retrieve :: "string \<Rightarrow> capability_store \<Rightarrow> capability result" where
  "cs_retrieve cid s =
     (case gm_get (cs_table s) cid of
        None \<Rightarrow> Err (EMsg ''capability not found: %s'')
      | Some a \<Rightarrow> Ok (cap_clone (cs_heap s ! a)))"

text \<open>
  \<open>Validate\<close> checks a clone taken under the read lock and marks the stored capability under the write
  lock afterwards, ignoring the error; \<open>others\<close> is what happens between the two.
\<close>

definition cs_mark_used :: "int \<Rightarrow> string \<Rightarrow> capability_store \<Rightarrow> capability_store" where
  "cs_mark_used now cid s =
     (case gm_get (cs_table s) cid of
        None \<Rightarrow> s
      | Some a \<Rightarrow> s\<lparr>cs_heap := (cs_heap s)[a := snd (cap_use now (cs_heap s ! a))]\<rparr>)"

definition cs_validate_with :: "(capability_store \<Rightarrow> capability_store) \<Rightarrow> int \<Rightarrow> string \<Rightarrow> string \<Rightarrow> string
    \<Rightarrow> capability_store \<Rightarrow> capability result \<times> capability_store" where
  "cs_validate_with others now cid resource operation s =
     (case cs_retrieve cid s of
        Ok c \<Rightarrow>
          if \<not> can_perform now resource operation c
          then (Err (EMsg ''capability %s does not allow %s on %s''), s)
          else (Ok c, cs_mark_used now cid (others s))
      | Err e \<Rightarrow> (Err e, s) | Panic \<Rightarrow> (Panic, s) | Hang \<Rightarrow> (Hang, s))"

definition cs_validate :: "int \<Rightarrow> string \<Rightarrow> string \<Rightarrow> string \<Rightarrow> capability_store \<Rightarrow> capability result \<times> capability_store" where
  "cs_validate now cid resource operation s = cs_validate_with (\<lambda>s. s) now cid resource operation s"

definition cs_revoke :: "string \<Rightarrow> capability_store \<Rightarrow> capability_store" where
  "cs_revoke cid s = s\<lparr>cs_table := gm_del cid (cs_table s)\<rparr>"

definition cs_list :: "string \<Rightarrow> capability_store \<Rightarrow> capability list" where
  "cs_list subject s =
     map cap_clone (filter (\<lambda>c. cp_subject c = subject) (map (\<lambda>e. cs_heap s ! snd e) (cs_table s)))"

definition cs_cleanup :: "int \<Rightarrow> capability_store \<Rightarrow> capability_store" where
  "cs_cleanup now s = s\<lparr>cs_table := gm_prune (\<lambda>_ a. \<not> cap_is_valid now (cs_heap s ! a)
     \<or> (case cp_expires_at (cs_heap s ! a) of Some t \<Rightarrow> now > t | None \<Rightarrow> False)) (cs_table s)\<rparr>"

section \<open>The manager\<close>

record security_config =
  sc_require_authentication :: bool
  sc_require_authorization :: bool
  sc_capability_ttl :: int
  sc_max_capabilities :: int
  sc_enable_delegation :: bool
  sc_session_timeout :: int
  sc_cleanup_interval :: int

record security_context =
  sx_session_id :: string
  sx_subject :: string
  sx_authenticated :: bool
  sx_capabilities :: "string list"
  sx_created_at :: int
  sx_last_used :: int

text \<open>
  The token provider is an object by address; any other implementation of \<open>AuthProvider\<close> is its
  scheme and its answer to credentials.
\<close>

datatype auth_provider = TokenAuth nat | OtherAuth string "(string, gval) gomap \<Rightarrow> string result"

record security_manager =
  sm_store :: capability_store
  sm_tokens :: "(string, string) gomap list"
  sm_providers :: "(string, auth_provider) gomap"
  sm_sessions :: "(string, security_context) gomap"
  sm_config :: security_config

definition default_security_config :: security_config where
  "default_security_config = \<lparr>sc_require_authentication = True, sc_require_authorization = True,
     sc_capability_ttl = 86400000000000, sc_max_capabilities = 100, sc_enable_delegation = True,
     sc_session_timeout = 1800000000000, sc_cleanup_interval = 300000000000\<rparr>"

definition context_is_valid :: "int \<Rightarrow> int \<Rightarrow> security_context \<Rightarrow> bool" where
  "context_is_valid now timeout x \<longleftrightarrow> time_sub now (sx_last_used x) < timeout"

definition new_security_manager :: "security_config \<Rightarrow> security_manager" where
  "new_security_manager c = \<lparr>sm_store = new_memory_capability_store, sm_tokens = [], sm_providers = [],
     sm_sessions = [], sm_config = c\<rparr>"

definition new_token_auth_provider :: "security_manager \<Rightarrow> nat \<times> security_manager" where
  "new_token_auth_provider m = (length (sm_tokens m), m\<lparr>sm_tokens := sm_tokens m @ [[]]\<rparr>)"

definition add_token :: "nat \<Rightarrow> string \<Rightarrow> string \<Rightarrow> security_manager \<Rightarrow> security_manager" where
  "add_token a token subject m = m\<lparr>sm_tokens := (sm_tokens m)[a := gm_put token subject (sm_tokens m ! a)]\<rparr>"

definition remove_token :: "nat \<Rightarrow> string \<Rightarrow> security_manager \<Rightarrow> security_manager" where
  "remove_token a token m = m\<lparr>sm_tokens := (sm_tokens m)[a := gm_del token (sm_tokens m ! a)]\<rparr>"

definition token_authenticate :: "(string, string) gomap \<Rightarrow> (string, gval) gomap \<Rightarrow> string result" where
  "token_authenticate tokens credentials =
     (case gm_get credentials ''token'' of
        Some (VStr token) \<Rightarrow>
          (case gm_get tokens token of Some subject \<Rightarrow> Ok subject | None \<Rightarrow> Err (EMsg ''invalid token''))
      | _ \<Rightarrow> Err (EMsg ''token not provided''))"

definition token_auth_scheme :: string where
  "token_auth_scheme = ''bearer''"

definition auth_scheme :: "auth_provider \<Rightarrow> string" where
  "auth_scheme p = (case p of TokenAuth _ \<Rightarrow> token_auth_scheme | OtherAuth s _ \<Rightarrow> s)"

definition register_auth_provider :: "auth_provider \<Rightarrow> security_manager \<Rightarrow> security_manager" where
  "register_auth_provider p m = m\<lparr>sm_providers := gm_put (auth_scheme p) p (sm_providers m)\<rparr>"

definition sm_authenticate :: "string \<Rightarrow> int \<Rightarrow> string \<Rightarrow> (string, gval) gomap \<Rightarrow> security_manager
    \<Rightarrow> security_context result \<times> security_manager" where
  "sm_authenticate sid now scheme credentials m =
     (case gm_get (sm_providers m) scheme of
        None \<Rightarrow> (Err (EMsg ''unsupported auth scheme: %s''), m)
      | Some p \<Rightarrow>
          (case (case p of TokenAuth a \<Rightarrow> token_authenticate (sm_tokens m ! a) credentials | OtherAuth _ f \<Rightarrow> f credentials) of
             Err e \<Rightarrow> (Err (EWrap ''authentication failed: '' e), m)
           | Panic \<Rightarrow> (Panic, m) | Hang \<Rightarrow> (Hang, m)
           | Ok subject \<Rightarrow>
               let x = \<lparr>sx_session_id = sid, sx_subject = subject, sx_authenticated = True, sx_capabilities = [],
                        sx_created_at = now, sx_last_used = now\<rparr>
               in (Ok x, m\<lparr>sm_sessions := gm_put sid x (sm_sessions m)\<rparr>)))"

definition get_security_context :: "int \<Rightarrow> string \<Rightarrow> security_manager \<Rightarrow> security_context result \<times> security_manager" where
  "get_security_context now sid m =
     (case gm_get (sm_sessions m) sid of
        None \<Rightarrow> (Err (EMsg ''session not found: %s''), m)
      | Some x \<Rightarrow>
          if \<not> context_is_valid now (sc_session_timeout (sm_config m)) x
          then (Err (EMsg ''session expired: %s''), m)
          else let x' = x\<lparr>sx_last_used := now\<rparr>
            in (Ok x', m\<lparr>sm_sessions := gm_put sid x' (sm_sessions m)\<rparr>))"

text \<open>The new capability's address is the result: the caller holds the stored object.\<close>

definition add_capability :: "capability \<Rightarrow> security_manager \<Rightarrow> nat result \<times> security_manager" where
  "add_capability c m =
     (let a = length (cs_heap (sm_store m))
      in (Ok a, m\<lparr>sm_store := cs_store a ((sm_store m)\<lparr>cs_heap := cs_heap (sm_store m) @ [c]\<rparr>)\<rparr>))"

definition create_capability :: "string \<Rightarrow> int \<Rightarrow> string \<Rightarrow> string \<Rightarrow> string list \<Rightarrow> (string, string) gomap
    \<Rightarrow> security_manager \<Rightarrow> nat result \<times> security_manager" where
  "create_capability cid now subject resource operations attributes m =
     (if int (length (cs_list subject (sm_store m))) \<ge> sc_max_capabilities (sm_config m)
      then (Err (EMsg ''subject %s has too many capabilities (%d)''), m)
      else add_capability \<lparr>cp_id = cid, cp_resource = resource, cp_operations = operations,
        cp_attributes = attributes, cp_issued_at = now,
        cp_expires_at = (if sc_capability_ttl (sm_config m) > 0 then Some (now + sc_capability_ttl (sm_config m)) else None),
        cp_issuer = ''security-manager'', cp_subject = subject,
        cp_delegatable = sc_enable_delegation (sm_config m), cp_used = False, cp_use_count = 0, cp_max_uses = 0\<rparr> m)"

definition intersect_operations :: "string list \<Rightarrow> string list \<Rightarrow> string list" where
  "intersect_operations a b = filter (\<lambda>x. list_ex (\<lambda>y. x = y) b) a"

definition delegate_capability :: "string \<Rightarrow> int \<Rightarrow> string \<Rightarrow> string \<Rightarrow> string list \<Rightarrow> security_manager
    \<Rightarrow> nat result \<times> security_manager" where
  "delegate_capability cid now original_id new_subject restricted m =
     (if \<not> sc_enable_delegation (sm_config m) then (Err (EMsg ''capability delegation is disabled''), m)
      else case cs_retrieve original_id (sm_store m) of
        Err e \<Rightarrow> (Err (EWrap ''failed to retrieve original capability: '' e), m)
      | Panic \<Rightarrow> (Panic, m) | Hang \<Rightarrow> (Hang, m)
      | Ok original \<Rightarrow>
          if \<not> cp_delegatable original then (Err (EMsg ''capability %s is not delegatable''), m)
          else add_capability ((cap_clone original)\<lparr>cp_id := cid, cp_subject := new_subject,
            cp_issuer := cp_subject original, cp_issued_at := now,
            cp_operations := (if length restricted > 0
              then intersect_operations (cp_operations original) restricted else cp_operations original),
            cp_delegatable := False\<rparr>) m)"

fun validate_any :: "int \<Rightarrow> string list \<Rightarrow> string \<Rightarrow> string \<Rightarrow> capability_store \<Rightarrow> bool \<times> capability_store" where
  "validate_any now [] resource operation s = (False, s)"
| "validate_any now (cid # cids) resource operation s =
     (case cs_validate now cid resource operation s of
        (Ok _, s') \<Rightarrow> (True, s')
      | (_, s') \<Rightarrow> validate_any now cids resource operation s')"

definition check_authorization :: "int \<Rightarrow> string \<Rightarrow> string \<Rightarrow> string \<Rightarrow> security_manager \<Rightarrow> unit result \<times> security_manager" where
  "check_authorization now sid resource operation m =
     (if \<not> sc_require_authorization (sm_config m) then (Ok (), m)
      else case get_security_context now sid m of
        (Err e, m1) \<Rightarrow> (Err (EWrap ''authorization failed: '' e), m1)
      | (Panic, m1) \<Rightarrow> (Panic, m1) | (Hang, m1) \<Rightarrow> (Hang, m1)
      | (Ok x, m1) \<Rightarrow>
          if sc_require_authentication (sm_config m) \<and> \<not> sx_authenticated x
          then (Err (EMsg ''authentication required''), m1)
          else let (found, s) = validate_any now (sx_capabilities x) resource operation (sm_store m1)
            in (if found then Ok () else Err (EMsg ''access denied: no valid capability for %s on %s''), m1\<lparr>sm_store := s\<rparr>))"

definition grant_capability :: "int \<Rightarrow> string \<Rightarrow> string \<Rightarrow> security_manager \<Rightarrow> unit result \<times> security_manager" where
  "grant_capability now sid cid m =
     (case gm_get (sm_sessions m) sid of
        None \<Rightarrow> (Err (EMsg ''session not found: %s''), m)
      | Some x \<Rightarrow>
          (case cs_retrieve cid (sm_store m) of
             Err e \<Rightarrow> (Err (EWrap ''invalid capability: '' e), m)
           | Panic \<Rightarrow> (Panic, m) | Hang \<Rightarrow> (Hang, m)
           | Ok _ \<Rightarrow> (Ok (), m\<lparr>sm_sessions := gm_put sid (x\<lparr>sx_capabilities := sx_capabilities x @ [cid],
                 sx_last_used := now\<rparr>) (sm_sessions m)\<rparr>)))"

text \<open>From each session the first occurrence is removed.\<close>

definition revoke_capability :: "string \<Rightarrow> security_manager \<Rightarrow> unit result \<times> security_manager" where
  "revoke_capability cid m =
     (Ok (), m\<lparr>sm_store := cs_revoke cid (sm_store m),
       sm_sessions := gm_map (\<lambda>_ x. x\<lparr>sx_capabilities := remove1 cid (sx_capabilities x)\<rparr>) (sm_sessions m)\<rparr>)"

definition sm_logout :: "string \<Rightarrow> security_manager \<Rightarrow> unit result \<times> security_manager" where
  "sm_logout sid m = (Ok (), m\<lparr>sm_sessions := gm_del sid (sm_sessions m)\<rparr>)"

definition sm_cleanup :: "int \<Rightarrow> security_manager \<Rightarrow> security_manager" where
  "sm_cleanup now m = m\<lparr>
     sm_sessions := gm_prune (\<lambda>_ x. \<not> context_is_valid now (sc_session_timeout (sm_config m)) x) (sm_sessions m),
     sm_store := cs_cleanup now (sm_store m)\<rparr>"

definition sm_active_sessions :: "security_manager \<Rightarrow> nat" where
  "sm_active_sessions m = gm_len (sm_sessions m)"

section \<open>What revocation relies on\<close>

text \<open>
  A store whose steps may add entries only under names they announce: what was revoked stays away
  until a step announces it.
\<close>

locale revocable_store =
  fixes present :: "'s \<Rightarrow> 'k \<Rightarrow> bool" and revoke :: "'k \<Rightarrow> 's \<Rightarrow> 's"
    and step :: "'e \<Rightarrow> 's \<Rightarrow> 's" and adds :: "'e \<Rightarrow> 'k option"
  assumes revoke_absent: "\<not> present (revoke k s) k"
    and step_announces: "present (step e s) k \<Longrightarrow> adds e \<noteq> Some k \<Longrightarrow> present s k"
begin

lemma absent_stays: "\<forall>e \<in> set es. adds e \<noteq> Some k \<Longrightarrow> \<not> present s k \<Longrightarrow> \<not> present (fold step es s) k"
  by (induction es arbitrary: s) (auto dest: step_announces)

lemma revoked_stays: "\<forall>e \<in> set es. adds e \<noteq> Some k \<Longrightarrow> \<not> present (fold step es (revoke k s)) k"
  by (simp add: absent_stays revoke_absent)

end

text \<open>The operations of the manager as events.\<close>

datatype security_event =
    SeAuthenticate string int string "(string, gval) gomap"
  | SeContext int string
  | SeCreate string int string string "string list" "(string, string) gomap"
  | SeDelegate string int string string "string list"
  | SeCheck int string string string
  | SeGrant int string string
  | SeRevoke string
  | SeLogout string
  | SeCleanup int

fun security_step :: "security_event \<Rightarrow> security_manager \<Rightarrow> security_manager" where
  "security_step (SeAuthenticate sid now sch cr) m = snd (sm_authenticate sid now sch cr m)"
| "security_step (SeContext now sid) m = snd (get_security_context now sid m)"
| "security_step (SeCreate cid now su r ops attrs) m = snd (create_capability cid now su r ops attrs m)"
| "security_step (SeDelegate cid now orig su ops) m = snd (delegate_capability cid now orig su ops m)"
| "security_step (SeCheck now sid r oper) m = snd (check_authorization now sid r oper m)"
| "security_step (SeGrant now sid cid) m = snd (grant_capability now sid cid m)"
| "security_step (SeRevoke cid) m = snd (revoke_capability cid m)"
| "security_step (SeLogout sid) m = snd (sm_logout sid m)"
| "security_step (SeCleanup now) m = sm_cleanup now m"

fun event_adds :: "security_event \<Rightarrow> string option" where
  "event_adds (SeCreate cid _ _ _ _ _) = Some cid"
| "event_adds (SeDelegate cid _ _ _ _) = Some cid"
| "event_adds _ = None"

definition stored :: "security_manager \<Rightarrow> string \<Rightarrow> bool" where
  "stored m cid \<longleftrightarrow> gm_get (cs_table (sm_store m)) cid \<noteq> None"

lemma cs_validate_table: "cs_validate now cid r oper s = (x, s') \<Longrightarrow> cs_table s' = cs_table s"
  by (auto simp: cs_validate_def cs_validate_with_def cs_mark_used_def split: outcome.splits if_splits option.splits)

lemma cs_validate_Ok:
  "fst (cs_validate now cid r oper s) = Ok c \<longleftrightarrow> cs_retrieve cid s = Ok c \<and> can_perform now r oper c"
  by (auto simp: cs_validate_def cs_validate_with_def split: outcome.splits)

lemma cs_validate_refused: "(\<forall>c. fst (cs_validate now cid r oper s) \<noteq> Ok c) \<Longrightarrow> snd (cs_validate now cid r oper s) = s"
  by (auto simp: cs_validate_def cs_validate_with_def split: outcome.splits)

lemma validate_any_cases:
  "validate_any now cids r oper s = (b, s') \<Longrightarrow>
     cs_table s' = cs_table s \<and> (b \<longleftrightarrow> (\<exists>cid \<in> set cids. \<exists>c. cs_retrieve cid s = Ok c \<and> can_perform now r oper c))"
proof (induction now cids r oper s rule: validate_any.induct)
  case (2 now cid cids r oper s)
  obtain x s1 where x: "cs_validate now cid r oper s = (x, s1)" by force
  show ?case
  proof (cases "is_ok x")
    case True
    then obtain c where c: "x = Ok c" by (auto simp: is_ok_iff)
    with "2.prems" x have "b" "s' = s1" by auto
    moreover have "cs_retrieve cid s = Ok c" "can_perform now r oper c"
      using cs_validate_Ok [of now cid r oper s c] x c by auto
    ultimately show ?thesis using cs_validate_table [OF x] by auto
  next
    case False
    then have no: "\<forall>c. fst (cs_validate now cid r oper s) \<noteq> Ok c" using x by (auto simp: is_ok_iff)
    with x have s1: "s1 = s" using cs_validate_refused by fastforce
    with False x 2 have "cs_table s' = cs_table s
        \<and> (b \<longleftrightarrow> (\<exists>cid \<in> set cids. \<exists>c. cs_retrieve cid s = Ok c \<and> can_perform now r oper c))"
      by (cases x) auto
    with no show ?thesis by (auto simp: cs_validate_Ok)
  qed
qed simp

lemma check_authorization_table: "cs_table (sm_store (snd (check_authorization now sid r oper m))) = cs_table (sm_store m)"
  by (auto simp: check_authorization_def get_security_context_def Let_def split: option.splits prod.splits
      dest!: validate_any_cases)

interpretation manager: revocable_store stored "\<lambda>cid m. snd (revoke_capability cid m)" security_step event_adds
proof unfold_locales
  fix cid m
  show "\<not> stored (snd (revoke_capability cid m)) cid" by (simp add: stored_def revoke_capability_def cs_revoke_def)
next
  fix e m cid
  assume "stored (security_step e m) cid" "event_adds e \<noteq> Some cid"
  then show "stored m cid"
  proof (cases e)
    case (SeCleanup now)
    with \<open>stored (security_step e m) cid\<close> have "\<exists>x. x \<in> set (cs_table (sm_store m)) \<and> fst x = cid"
      by (auto simp: stored_def sm_cleanup_def cs_cleanup_def gm_prune_def dest!: map_of_SomeD)
    then show ?thesis by (force simp: stored_def map_of_eq_None_iff)
  qed (auto simp: stored_def sm_authenticate_def get_security_context_def create_capability_def
      delegate_capability_def add_capability_def cs_store_def grant_capability_def revoke_capability_def
      cs_revoke_def sm_logout_def check_authorization_table Let_def
      split: if_splits option.splits outcome.splits auth_provider.splits)
qed

section \<open>Properties\<close>

lemma cs_retrieve_table: "cs_retrieve cid s = Ok c \<Longrightarrow> gm_get (cs_table s) cid \<noteq> None"
  by (auto simp: cs_retrieve_def split: option.splits)

text \<open>
  C18: Authorization is decided by the capabilities of the session. When authorization is required, a
  check succeeds exactly when the session exists and has not timed out, is authenticated if that is
  required, and lists some capability that is in the store and, at this moment, allows the operation on
  the resource.
\<close>

theorem authorization_decision:
  assumes "sc_require_authorization (sm_config m)"
  shows "fst (check_authorization now sid r oper m) = Ok () \<longleftrightarrow>
    (\<exists>x. gm_get (sm_sessions m) sid = Some x \<and> context_is_valid now (sc_session_timeout (sm_config m)) x
      \<and> (sc_require_authentication (sm_config m) \<longrightarrow> sx_authenticated x)
      \<and> (\<exists>cid \<in> set (sx_capabilities x). \<exists>c. cs_retrieve cid (sm_store m) = Ok c \<and> can_perform now r oper c))"
proof (cases "gm_get (sm_sessions m) sid")
  case None
  with assms show ?thesis by (simp add: check_authorization_def get_security_context_def)
next
  case (Some x)
  obtain b s where v: "validate_any now (sx_capabilities x) r oper (sm_store m) = (b, s)" by force
  from validate_any_cases [OF v] Some assms v show ?thesis
    by (auto simp: check_authorization_def get_security_context_def Let_def)
qed

text \<open>A manager with one session, of the subject of the capability granted to it.\<close>

definition sample_manager_sec :: security_manager where
  "sample_manager_sec = (let m0 = new_security_manager default_security_config;
     (a, m1) = new_token_auth_provider m0;
     m2 = register_auth_provider (TokenAuth a) (add_token a ''t'' ''alice'' m1);
     (_, m3) = sm_authenticate ''s'' 0 ''bearer'' [(''token'', VStr ''t'')] m2;
     (_, m4) = create_capability ''c'' 0 ''alice'' ''file.*'' [''read'', ''write''] [] m3
     in snd (grant_capability 0 ''s'' ''c'' m4))"

lemma authorization_decision_witness:
  "fst (check_authorization 5 ''s'' ''file.abc'' ''read'' sample_manager_sec) = Ok ()"
proof -
  have f: "sc_require_authorization (sm_config sample_manager_sec)" by code_simp
  obtain x where x: "gm_get (sm_sessions sample_manager_sec) ''s'' = Some x"
    "context_is_valid 5 (sc_session_timeout (sm_config sample_manager_sec)) x" "sx_authenticated x"
    "sx_capabilities x = [''c'']"
    by (auto simp: sample_manager_sec_def Let_def new_security_manager_def default_security_config_def
        new_token_auth_provider_def register_auth_provider_def add_token_def sm_authenticate_def auth_scheme_def
        token_auth_scheme_def token_authenticate_def create_capability_def cs_list_def new_memory_capability_store_def
        add_capability_def cs_store_def grant_capability_def cs_retrieve_def cap_clone_def context_is_valid_def time_sub_def)
  have "\<exists>c. cs_retrieve ''c'' (sm_store sample_manager_sec) = Ok c \<and> can_perform 5 ''file.abc'' ''read'' c"
    by (intro exI [of _ "cs_heap (sm_store sample_manager_sec) ! 0"]) code_simp
  with x show ?thesis unfolding authorization_decision [OF f] by (intro exI [of _ x]) simp
qed

text \<open>
  C19: A revoked capability never authorises again. After \<open>RevokeCapability\<close>, through any sequence of
  operations of the manager that does not create a capability under the same identifier, validating
  it fails without effect, and any authorization that is granted rests on another capability.
\<close>

theorem revoked_never_authorises:
  assumes "\<forall>e \<in> set es. event_adds e \<noteq> Some cid" and "m' = fold security_step es (snd (revoke_capability cid m))"
  shows "cs_validate now cid r oper (sm_store m') = (Err (EMsg ''capability not found: %s''), sm_store m')
    \<and> (fst (check_authorization now sid r oper m') = Ok () \<longrightarrow> sc_require_authorization (sm_config m') \<longrightarrow>
        (\<exists>x cid'. gm_get (sm_sessions m') sid = Some x \<and> cid' \<in> set (sx_capabilities x) \<and> cid' \<noteq> cid
          \<and> stored m' cid'))"
proof -
  have no: "\<not> stored m' cid" unfolding assms(2) using assms(1) by (rule manager.revoked_stays)
  have "(\<exists>x cid'. gm_get (sm_sessions m') sid = Some x \<and> cid' \<in> set (sx_capabilities x) \<and> cid' \<noteq> cid \<and> stored m' cid')"
    if granted: "fst (check_authorization now sid r oper m') = Ok ()" "sc_require_authorization (sm_config m')"
  proof -
    obtain x where x: "gm_get (sm_sessions m') sid = Some x"
      using granted by (cases "gm_get (sm_sessions m') sid") (auto simp: check_authorization_def get_security_context_def)
    obtain b s where v: "validate_any now (sx_capabilities x) r oper (sm_store m') = (b, s)" by force
    have b using granted x v by (auto simp: check_authorization_def get_security_context_def Let_def split: if_splits)
    with validate_any_cases [OF v] obtain cid' c where "cid' \<in> set (sx_capabilities x)" "cs_retrieve cid' (sm_store m') = Ok c"
      by auto
    with no x cs_retrieve_table [of cid' "sm_store m'" c] show ?thesis
      by (intro exI [of _ x] exI [of _ cid']) (auto simp: stored_def)
  qed
  with no show ?thesis
    by (simp add: stored_def cs_validate_def cs_validate_with_def cs_retrieve_def)
qed

lemma revoked_never_authorises_witness:
  "fst (cs_validate 9 ''c'' ''file.abc'' ''read'' (sm_store (fold security_step
      [SeGrant 5 ''s'' ''c'', SeDelegate ''d'' 6 ''c'' ''bob'' [], SeCheck 7 ''s'' ''file.abc'' ''read'']
      (snd (revoke_capability ''c'' sample_manager_sec))))) = Err (EMsg ''capability not found: %s'')"
proof -
  let ?es = "[SeGrant 5 ''s'' ''c'', SeDelegate ''d'' 6 ''c'' ''bob'' [], SeCheck 7 ''s'' ''file.abc'' ''read'']"
  have "\<forall>e \<in> set ?es. event_adds e \<noteq> Some ''c''" by simp
  from revoked_never_authorises [OF this refl, THEN conjunct1, THEN arg_cong [where f = fst]]
  show ?thesis unfolding fst_conv .
qed

text \<open>
  C21: Delegation attenuates, and outlives its source. A delegated capability allows, at any time, only
  what the original as it was then allows, names the new subject, cannot be delegated again, and
  leaves every other stored capability alone; but it stays in the store when the original is revoked.
\<close>

theorem delegation_attenuates:
  assumes "delegate_capability cid now orig su ops m = (Ok a, m')" and "cs_retrieve orig (sm_store m) = Ok c"
  shows "\<exists>d. cs_retrieve cid (sm_store m') = Ok d \<and> (\<forall>t r oper. can_perform t r oper d \<longrightarrow> can_perform t r oper c)
    \<and> cp_subject d = su \<and> fst (delegate_capability cid' now' cid su' ops' m') = Err (EMsg ''capability %s is not delegatable'')
    \<and> (orig \<noteq> cid \<longrightarrow> cs_retrieve cid (sm_store (snd (revoke_capability orig m'))) = Ok d)"
proof -
  define d where "d = c\<lparr>cp_id := cid, cp_subject := su, cp_issuer := cp_subject c, cp_issued_at := now,
      cp_operations := (if length ops > 0 then intersect_operations (cp_operations c) ops else cp_operations c),
      cp_delegatable := False\<rparr>"
  have m': "m' = snd (add_capability d m)" and en: "sc_enable_delegation (sm_config m)"
    using assms by (auto simp: delegate_capability_def cap_clone_def d_def split: if_splits)
  have ret: "cs_retrieve cid (sm_store m') = Ok d" "sm_config m' = sm_config m"
    by (simp_all add: m' add_capability_def cs_store_def cs_retrieve_def cap_clone_def Let_def)
       (simp add: d_def)
  have "can_perform t r oper c" if "can_perform t r oper d" for t r oper
    using that by (auto simp: can_perform_def d_def cap_is_valid_def matches_resource_def intersect_operations_def
        list_ex_iff split: if_splits option.splits)
  moreover have "fst (delegate_capability cid' now' cid su' ops' m') = Err (EMsg ''capability %s is not delegatable'')"
    using ret en by (simp add: delegate_capability_def d_def)
  moreover have "cs_retrieve cid (sm_store (snd (revoke_capability orig m'))) = Ok d" if "orig \<noteq> cid"
    using ret that by (auto simp: revoke_capability_def cs_revoke_def cs_retrieve_def split: option.splits if_splits)
  ultimately show ?thesis using ret by (intro exI [of _ d]) (simp add: d_def)
qed

lemma delegation_attenuates_witness:
  "\<exists>d. cs_retrieve ''d'' (sm_store (snd (revoke_capability ''c'' (snd (delegate_capability ''d'' 6 ''c'' ''bob'' [''read''] sample_manager_sec)))))
     = Ok d"
proof -
  have "fst (delegate_capability ''d'' 6 ''c'' ''bob'' [''read''] sample_manager_sec) = Ok 1" by code_simp
  then obtain m' where m': "delegate_capability ''d'' 6 ''c'' ''bob'' [''read''] sample_manager_sec = (Ok 1, m')"
    by (metis prod.collapse)
  have "is_ok (cs_retrieve ''c'' (sm_store sample_manager_sec))" by code_simp
  then obtain c where c: "cs_retrieve ''c'' (sm_store sample_manager_sec) = Ok c" by (auto simp: is_ok_iff)
  from delegation_attenuates [OF m' c, of "[]" 0 "[]" "[]"] m' show ?thesis by auto
qed

end
