(* ===== verification/Resources.thy ===== *)
theory Resources
  imports Tables RpcTypes Channels
begin

text \<open>
  \<open>resource_management.go\<close>: resources under management, their reference counts, the cleanup queue and
  its workers, idle cleanup, contexts, leak tracking and \<open>Stop\<close>. Managed resources are objects by
  address. A resource is a string, a byte slice, another comparable value by identity, or another
  value that Go cannot compare (using it as a map key panics). A cleanup function is what it returns;
  \<open>rm_log\<close> records, by address, the managed resources whose cleanup function ran, \<open>rm_aborted\<close> those run
  for resources that were never managed. A \<open>TrackResource\<close> call is two steps, so that others can come between
  its checks and its insertion. Goroutines (workers, the ticker, context watchers, spawned
  disposals) are events. Stack traces, finalizers set on objects and GC hints are left out.
\<close>

section \<open>State\<close>

datatype resource = RsString string | RsBytes bytes | RsRef nat | RsUncomparable nat

definition rs_hashable :: "resource \<Rightarrow> bool" where
  "rs_hashable r = (case r of RsString _ \<Rightarrow> True | RsRef _ \<Rightarrow> True | _ \<Rightarrow> False)"

datatype resource_type = RtStub | RtPromise | RtCallback | RtSubscription | RtTransport | RtSession | RtGeneric

definition resource_type_string :: "resource_type \<Rightarrow> string" where
  "resource_type_string t = (case t of RtStub \<Rightarrow> ''stub'' | RtPromise \<Rightarrow> ''promise'' | RtCallback \<Rightarrow> ''callback''
     | RtSubscription \<Rightarrow> ''subscription'' | RtTransport \<Rightarrow> ''transport'' | RtSession \<Rightarrow> ''session'' | RtGeneric \<Rightarrow> ''generic'')"

type_synonym cleanup_func = "goerr option"

record resource_options =
  ro_enable_finalizers :: bool
  ro_cleanup_interval :: int
  ro_cleanup_workers :: int
  ro_max_idle :: int
  ro_leak_detection :: bool
  ro_gc_interval :: int
  ro_max_resources :: int

record managed_resource =
  mr_id :: int
  mr_resource :: resource
  mr_type :: resource_type
  mr_context :: nat
  mr_cleanup :: "cleanup_func option"
  mr_created :: int
  mr_last_accessed :: int
  mr_access_count :: int
  mr_disposed :: bool
  mr_ref_count :: int
  mr_tags :: "(string, string) gomap"
  mr_size :: int

record context_info =
  ci_created :: int
  ci_resources :: "int list"

record resource_manager =
  rm_heap :: "managed_resource list"
  rm_resources :: "(int, nat) gomap"
  rm_next_id :: int
  rm_contexts :: "(nat, context_info) gomap"
  rm_queue :: "nat chan"
  rm_references :: "(resource, int) gomap"
  rm_options :: resource_options
  rm_running :: bool
  rm_done :: bool
  rm_spawned :: "nat list"
  rm_log :: "nat list"
  rm_aborted :: nat

definition default_resource_options :: resource_options where
  "default_resource_options = \<lparr>ro_enable_finalizers = True, ro_cleanup_interval = 30000000000,
     ro_cleanup_workers = 2, ro_max_idle = 300000000000, ro_leak_detection = True,
     ro_gc_interval = 60000000000, ro_max_resources = 10000\<rparr>"

definition new_resource_manager :: "resource_options list \<Rightarrow> resource_manager" where
  "new_resource_manager options = \<lparr>rm_heap = [], rm_resources = [], rm_next_id = 0, rm_contexts = [],
     rm_queue = make_chan 1000, rm_references = [],
     rm_options = (case options of x # _ \<Rightarrow> x | [] \<Rightarrow> default_resource_options),
     rm_running = True, rm_done = False, rm_spawned = [], rm_log = [], rm_aborted = 0\<rparr>"

definition upd_res :: "nat \<Rightarrow> (managed_resource \<Rightarrow> managed_resource) \<Rightarrow> resource_manager \<Rightarrow> resource_manager" where
  "upd_res a f m = m\<lparr>rm_heap := (rm_heap m)[a := f (rm_heap m ! a)]\<rparr>"

section \<open>Tracking\<close>

definition is_stopped :: "resource_manager \<Rightarrow> bool" where
  "is_stopped m \<longleftrightarrow> \<not> rm_running m"

definition estimate_size :: "resource \<Rightarrow> int" where
  "estimate_size r = (case r of RsString s \<Rightarrow> int (length s) | RsBytes b \<Rightarrow> int (length b) | _ \<Rightarrow> 64)"

definition track_context :: "int \<Rightarrow> nat \<Rightarrow> int \<Rightarrow> resource_manager \<Rightarrow> resource_manager" where
  "track_context now c rid m =
     (let i = (case gm_get (rm_contexts m) c of Some i \<Rightarrow> i | None \<Rightarrow> \<lparr>ci_created = now, ci_resources = []\<rparr>)
      in m\<lparr>rm_contexts := gm_put c (i\<lparr>ci_resources := ci_resources i @ [rid]\<rparr>) (rm_contexts m)\<rparr>)"

text \<open>The references table holds the time of tracking; storing or deleting an uncomparable key panics.\<close>

definition track_reference :: "int \<Rightarrow> resource \<Rightarrow> resource_manager \<Rightarrow> unit result \<times> resource_manager" where
  "track_reference now r m =
     (if \<not> ro_leak_detection (rm_options m) then (Ok (), m)
      else if \<not> rs_hashable r then (Panic, m)
      else (Ok (), m\<lparr>rm_references := gm_put r now (rm_references m)\<rparr>))"

definition untrack_reference :: "resource \<Rightarrow> resource_manager \<Rightarrow> unit result \<times> resource_manager" where
  "untrack_reference r m =
     (if \<not> ro_leak_detection (rm_options m) then (Ok (), m)
      else if \<not> rs_hashable r then (Panic, m)
      else (Ok (), m\<lparr>rm_references := gm_del r (rm_references m)\<rparr>))"

definition fresh_resource :: "int \<Rightarrow> nat \<Rightarrow> resource \<Rightarrow> resource_type \<Rightarrow> cleanup_func option \<Rightarrow> int \<Rightarrow> managed_resource" where
  "fresh_resource now c r ty cl rid =
     \<lparr>mr_id = rid, mr_resource = r, mr_type = ty, mr_context = c, mr_cleanup = cl, mr_created = now,
      mr_last_accessed = now, mr_access_count = 0, mr_disposed = False, mr_ref_count = 1, mr_tags = [],
      mr_size = estimate_size r\<rparr>"

text \<open>
  \<open>TrackResource\<close> in two halves. The first makes the checks, draws the number and makes the object; the
  second enters it under the lock. Between them other goroutines may act (\<open>others\<close>): track further
  resources, or stop the manager.
\<close>

definition track_begin :: "int \<Rightarrow> nat \<Rightarrow> resource \<Rightarrow> resource_type \<Rightarrow> cleanup_func option \<Rightarrow> resource_manager
    \<Rightarrow> nat result \<times> resource_manager" where
  "track_begin now c r ty cl m =
     (if is_stopped m then (Err (EMsg ''resource manager is stopped''), m)
      else if int (gm_len (rm_resources m)) \<ge> ro_max_resources (rm_options m)
        then (Err (EMsg ''resource limit exceeded (%d)''), m)
      else
        let rid = int64 (rm_next_id m + 1)
        in (Ok (length (rm_heap m)),
            m\<lparr>rm_next_id := rid, rm_heap := rm_heap m @ [fresh_resource now c r ty cl rid]\<rparr>))"

definition track_insert :: "int \<Rightarrow> nat \<Rightarrow> resource_manager \<Rightarrow> int result \<times> resource_manager" where
  "track_insert now a m =
     (let mr = rm_heap m ! a;
          m1 = m\<lparr>rm_resources := gm_put (mr_id mr) a (rm_resources m)\<rparr>;
          m2 = track_context now (mr_context mr) (mr_id mr) m1
      in if ro_leak_detection (rm_options m2)
         then (case track_reference now (mr_resource mr) m2 of
             (Ok _, m3) \<Rightarrow> (Ok (mr_id mr), m3) | (Err e, m3) \<Rightarrow> (Err e, m3) | (Panic, m3) \<Rightarrow> (Panic, m3) | (Hang, m3) \<Rightarrow> (Hang, m3))
         else (Ok (mr_id mr), m2))"

definition track_resource :: "(resource_manager \<Rightarrow> resource_manager) \<Rightarrow> int \<Rightarrow> nat \<Rightarrow> resource \<Rightarrow> resource_type
    \<Rightarrow> cleanup_func option \<Rightarrow> resource_manager \<Rightarrow> int result \<times> resource_manager" where
  "track_resource others now c r ty cl m =
     (case track_begin now c r ty cl m of
        (Ok a, m1) \<Rightarrow> track_insert now a (others m1)
      | (Err e, m1) \<Rightarrow> (Err e, m1) | (Panic, m1) \<Rightarrow> (Panic, m1) | (Hang, m1) \<Rightarrow> (Hang, m1))"

section \<open>Disposal\<close>

definition dispose_resource :: "nat \<Rightarrow> resource_manager \<Rightarrow> goerr option result \<times> resource_manager" where
  "dispose_resource a m =
     (let mr = rm_heap m ! a
      in if mr_disposed mr then (Ok None, m)
      else
        let m1 = upd_res a (\<lambda>r. r\<lparr>mr_disposed := True\<rparr>) m;
            (err, m2) = (case mr_cleanup mr of
                Some r \<Rightarrow> (r, m1\<lparr>rm_log := rm_log m1 @ [a]\<rparr>) | None \<Rightarrow> (None, m1));
            m3 = m2\<lparr>rm_resources := gm_del (mr_id mr) (rm_resources m2)\<rparr>
        in if ro_leak_detection (rm_options m3)
           then (case untrack_reference (mr_resource mr) m3 of
               (Ok _, m4) \<Rightarrow> (Ok err, m4) | (Err e, m4) \<Rightarrow> (Err e, m4) | (Panic, m4) \<Rightarrow> (Panic, m4) | (Hang, m4) \<Rightarrow> (Hang, m4))
           else (Ok err, m3))"

definition untrack_resource :: "int \<Rightarrow> resource_manager \<Rightarrow> goerr option result \<times> resource_manager" where
  "untrack_resource rid m =
     (case gm_get (rm_resources m) rid of
        None \<Rightarrow> (Ok (Some (EMsg ''resource %d not found'')), m)
      | Some a \<Rightarrow> dispose_resource a (m\<lparr>rm_resources := gm_del rid (rm_resources m)\<rparr>))"

definition access_resource :: "int \<Rightarrow> int \<Rightarrow> resource_manager \<Rightarrow> goerr option \<times> resource_manager" where
  "access_resource now rid m =
     (case gm_get (rm_resources m) rid of
        None \<Rightarrow> (Some (EMsg ''resource %d not found''), m)
      | Some a \<Rightarrow> (None, upd_res a (\<lambda>r. r\<lparr>mr_last_accessed := now, mr_access_count := int64 (mr_access_count r + 1)\<rparr>) m))"

definition rm_add_ref :: "int \<Rightarrow> resource_manager \<Rightarrow> goerr option \<times> resource_manager" where
  "rm_add_ref rid m =
     (case gm_get (rm_resources m) rid of
        None \<Rightarrow> (Some (EMsg ''resource %d not found''), m)
      | Some a \<Rightarrow> (None, upd_res a (\<lambda>r. r\<lparr>mr_ref_count := int32 (mr_ref_count r + 1)\<rparr>) m))"

definition rm_release :: "int \<Rightarrow> resource_manager \<Rightarrow> goerr option result \<times> resource_manager" where
  "rm_release rid m =
     (case gm_get (rm_resources m) rid of
        None \<Rightarrow> (Ok (Some (EMsg ''resource %d not found'')), m)
      | Some a \<Rightarrow>
          let n = int32 (mr_ref_count (rm_heap m ! a) - 1);
              m1 = upd_res a (\<lambda>r. r\<lparr>mr_ref_count := n\<rparr>) m
          in if n \<le> 0
             then if ch_can_send (rm_queue m1)
               then (case ch_send a (rm_queue m1) of
                   Ok q \<Rightarrow> (Ok None, m1\<lparr>rm_queue := q\<rparr>) | Err e \<Rightarrow> (Err e, m1) | Panic \<Rightarrow> (Panic, m1) | Hang \<Rightarrow> (Hang, m1))
               else (Ok None, m1\<lparr>rm_spawned := rm_spawned m1 @ [a]\<rparr>)
             else (Ok None, m1))"

text \<open>
  \<open>made\<close> is the answer of the factory: a resource with its cleanup function, or an error. Its tracking
  begins like any other; when that is refused, the cleanup function runs at once.
\<close>

definition contextual_begin :: "int \<Rightarrow> nat \<Rightarrow> (resource \<times> cleanup_func option) + goerr \<Rightarrow> resource_manager
    \<Rightarrow> nat result \<times> resource_manager" where
  "contextual_begin now c made m =
     (case made of
        Inr e \<Rightarrow> (Err (EWrap ''failed to create resource: '' e), m)
      | Inl (r, cl) \<Rightarrow>
          (case track_begin now c r RtGeneric cl m of
             (Ok a, m1) \<Rightarrow> (Ok a, m1)
           | (Err e, m1) \<Rightarrow> (Err e, if cl \<noteq> None then m1\<lparr>rm_aborted := Suc (rm_aborted m1)\<rparr> else m1)
           | (Panic, m1) \<Rightarrow> (Panic, m1) | (Hang, m1) \<Rightarrow> (Hang, m1)))"

definition create_contextual_resource :: "(resource_manager \<Rightarrow> resource_manager) \<Rightarrow> int \<Rightarrow> nat
    \<Rightarrow> (resource \<times> cleanup_func option) + goerr \<Rightarrow> resource_manager \<Rightarrow> int result \<times> resource_manager" where
  "create_contextual_resource others now c made m =
     (case contextual_begin now c made m of
        (Ok a, m1) \<Rightarrow> track_insert now a (others m1)
      | (Err e, m1) \<Rightarrow> (Err e, m1) | (Panic, m1) \<Rightarrow> (Panic, m1) | (Hang, m1) \<Rightarrow> (Hang, m1))"

definition get_resource :: "int \<Rightarrow> int \<Rightarrow> resource_manager \<Rightarrow> resource result \<times> resource_manager" where
  "get_resource now rid m =
     (case gm_get (rm_resources m) rid of
        None \<Rightarrow> (Err (EMsg ''resource %d not found''), m)
      | Some a \<Rightarrow>
          if mr_disposed (rm_heap m ! a) then (Err (EMsg ''resource %d is disposed''), m)
          else (Ok (mr_resource (rm_heap m ! a)), snd (access_resource now rid m)))"

definition set_resource_tag :: "int \<Rightarrow> string \<Rightarrow> string \<Rightarrow> resource_manager \<Rightarrow> goerr option \<times> resource_manager" where
  "set_resource_tag rid key val m =
     (case gm_get (rm_resources m) rid of
        None \<Rightarrow> (Some (EMsg ''resource %d not found''), m)
      | Some a \<Rightarrow> (None, upd_res a (\<lambda>r. r\<lparr>mr_tags := gm_put key val (mr_tags r)\<rparr>) m))"

section \<open>Goroutines\<close>

datatype worker_case = WkQueue | WkDone

text \<open>One round of a cleanup worker: its result says whether the worker goes on.\<close>

definition cleanup_worker_step :: "nat \<Rightarrow> resource_manager \<Rightarrow> bool result \<times> resource_manager" where
  "cleanup_worker_step pick m =
     (case go_select pick [(ch_can_recv (rm_queue m), WkQueue), (rm_done m, WkDone)] of
        None \<Rightarrow> (Hang, m)
      | Some WkDone \<Rightarrow> (Ok False, m)
      | Some WkQueue \<Rightarrow>
          (case ch_recv (rm_queue m) of
             (Some a, q) \<Rightarrow>
               (case dispose_resource a (m\<lparr>rm_queue := q\<rparr>) of
                  (Ok _, m') \<Rightarrow> (Ok True, m') | (Err e, m') \<Rightarrow> (Err e, m') | (Panic, m') \<Rightarrow> (Panic, m') | (Hang, m') \<Rightarrow> (Hang, m'))
           | (None, q) \<Rightarrow> (Panic, m)))"

text \<open>A full queue skips the resource; the \<open>break\<close> leaves the \<open>select\<close> only.\<close>

definition cleanup_idle_resources :: "int \<Rightarrow> resource_manager \<Rightarrow> resource_manager" where
  "cleanup_idle_resources now m =
     (let threshold = now + int64 (- ro_max_idle (rm_options m));
          idle = filter (\<lambda>a. mr_last_accessed (rm_heap m ! a) < threshold \<and> mr_ref_count (rm_heap m ! a) \<le> 0)
                   (map snd (rm_resources m))
      in fold (\<lambda>a m. if ch_can_send (rm_queue m)
           then (case ch_enq a (rm_queue m) of Some q \<Rightarrow> m\<lparr>rm_queue := q\<rparr> | None \<Rightarrow> m) else m) idle m)"

definition run_spawned :: "nat \<Rightarrow> resource_manager \<Rightarrow> goerr option result \<times> resource_manager" where
  "run_spawned k m =
     (if k < length (rm_spawned m)
      then dispose_resource (rm_spawned m ! k) (m\<lparr>rm_spawned := take k (rm_spawned m) @ drop (Suc k) (rm_spawned m)\<rparr>)
      else (Ok None, m))"

definition watch_context :: "int \<Rightarrow> resource_manager \<Rightarrow> goerr option result \<times> resource_manager" where
  "watch_context rid m = untrack_resource rid m"

fun dispose_all :: "nat list \<Rightarrow> resource_manager \<Rightarrow> unit result \<times> resource_manager" where
  "dispose_all [] m = (Ok (), m)"
| "dispose_all (a # as) m =
     (case dispose_resource a m of
        (Ok _, m') \<Rightarrow> dispose_all as m' | (Err e, m') \<Rightarrow> (Err e, m') | (Panic, m') \<Rightarrow> (Panic, m') | (Hang, m') \<Rightarrow> (Hang, m'))"

definition rm_stop :: "resource_manager \<Rightarrow> unit result \<times> resource_manager" where
  "rm_stop m =
     (if \<not> rm_running m then (Ok (), m)
      else dispose_all (map snd (rm_resources m)) (m\<lparr>rm_running := False, rm_done := True, rm_resources := []\<rparr>))"

definition mr_finalize :: "managed_resource \<Rightarrow> cleanup_func option" where
  "mr_finalize r = (if \<not> mr_disposed r then mr_cleanup r else None)"

section \<open>Reports\<close>

record resource_stats =
  rr_total :: int
  rr_active :: int
  rr_by_type :: "(string, int) gomap"
  rr_memory :: int
  rr_references :: int
  rr_contexts :: int

definition get_resource_stats :: "resource_manager \<Rightarrow> resource_stats" where
  "get_resource_stats m =
     (let rs = map (\<lambda>e. rm_heap m ! snd e) (rm_resources m)
      in \<lparr>rr_total = int (length rs), rr_active = int (length (filter (\<lambda>r. \<not> mr_disposed r) rs)),
          rr_by_type = fold (\<lambda>r t. let k = resource_type_string (mr_type r)
             in gm_put k ((case gm_get t k of Some n \<Rightarrow> n | None \<Rightarrow> 0) + 1) t) rs [],
          rr_memory = fold (\<lambda>r n. int64 (n + mr_size r)) rs 0,
          rr_references = int (gm_len (rm_references m)), rr_contexts = int (gm_len (rm_contexts m))\<rparr>)"

definition get_leak_report :: "resource_manager \<Rightarrow> (resource \<times> int) list option" where
  "get_leak_report m = (if \<not> ro_leak_detection (rm_options m) then None else Some (rm_references m))"

section \<open>Every cleanup function runs once\<close>

text \<open>What holds of the objects, whether or not the table knows them.\<close>

definition cleaned_exactly :: "resource_manager \<Rightarrow> bool" where
  "cleaned_exactly m \<longleftrightarrow> distinct (rm_log m)
     \<and> set (rm_log m) = {a. a < length (rm_heap m) \<and> mr_disposed (rm_heap m ! a) \<and> mr_cleanup (rm_heap m ! a) \<noteq> None}"

definition objects_ok :: "resource_manager \<Rightarrow> bool" where
  "objects_ok m \<longleftrightarrow> cleaned_exactly m
     \<and> (\<forall>a < length (rm_heap m). mr_id (rm_heap m ! a) = int a + 1
          \<and> (ro_leak_detection (rm_options m) \<longrightarrow> rs_hashable (mr_resource (rm_heap m ! a))))
     \<and> (\<forall>a \<in> set (ch_buf (rm_queue m)) \<union> set (rm_spawned m) \<union> snd ` set (rm_resources m). a < length (rm_heap m))
     \<and> (\<forall>(i, a) \<in> set (rm_resources m). i = int a + 1)
     \<and> gm_wf (rm_resources m) \<and> rm_next_id m = int (length (rm_heap m)) \<and> \<not> ch_closed (rm_queue m)"

text \<open>Every object not disposed of, \<open>X\<close> apart, is in the table.\<close>

definition known_but :: "nat set \<Rightarrow> resource_manager \<Rightarrow> bool" where
  "known_but X m \<longleftrightarrow> (\<forall>a < length (rm_heap m). a \<notin> X \<longrightarrow> \<not> mr_disposed (rm_heap m ! a)
     \<longrightarrow> gm_get (rm_resources m) (int a + 1) = Some a)"

lemma upd_res_fields [simp]:
  "rm_heap (upd_res a f m) = (rm_heap m)[a := f (rm_heap m ! a)]" "rm_resources (upd_res a f m) = rm_resources m"
  "rm_next_id (upd_res a f m) = rm_next_id m" "rm_queue (upd_res a f m) = rm_queue m"
  "rm_options (upd_res a f m) = rm_options m" "rm_spawned (upd_res a f m) = rm_spawned m"
  "rm_log (upd_res a f m) = rm_log m" "rm_running (upd_res a f m) = rm_running m"
  "rm_contexts (upd_res a f m) = rm_contexts m" "rm_references (upd_res a f m) = rm_references m"
  "rm_done (upd_res a f m) = rm_done m"
  by (simp_all add: upd_res_def)

lemma set_gm_del: "set (gm_del k t) \<subseteq> set t"
  by (induction t) auto

lemma set_gm_put: "set (gm_put k v t) \<subseteq> insert (k, v) (set t)"
  by (induction t) auto

text \<open>Changes of a managed resource that leave its identity and its disposal alone.\<close>

lemma objects_ok_heap:
  assumes "objects_ok m" and "length h = length (rm_heap m)"
    and "\<And>b. b < length h \<Longrightarrow> mr_id (h ! b) = mr_id (rm_heap m ! b) \<and> mr_resource (h ! b) = mr_resource (rm_heap m ! b)
      \<and> mr_disposed (h ! b) = mr_disposed (rm_heap m ! b) \<and> mr_cleanup (h ! b) = mr_cleanup (rm_heap m ! b)"
  shows "objects_ok (m\<lparr>rm_heap := h\<rparr>) \<and> (known_but X m \<longrightarrow> known_but X (m\<lparr>rm_heap := h\<rparr>))"
proof -
  have "{a. a < length h \<and> mr_disposed (h ! a) \<and> mr_cleanup (h ! a) \<noteq> None}
      = {a. a < length (rm_heap m) \<and> mr_disposed (rm_heap m ! a) \<and> mr_cleanup (rm_heap m ! a) \<noteq> None}"
    using assms(2,3) by auto
  then have "cleaned_exactly (m\<lparr>rm_heap := h\<rparr>)" using assms(1) by (simp add: objects_ok_def cleaned_exactly_def)
  then show ?thesis using assms by (simp add: objects_ok_def known_but_def)
qed

lemma objects_ok_upd:
  assumes "objects_ok m" and "\<And>r. mr_id (f r) = mr_id r \<and> mr_resource (f r) = mr_resource r
      \<and> mr_disposed (f r) = mr_disposed r \<and> mr_cleanup (f r) = mr_cleanup r"
  shows "objects_ok (upd_res a f m) \<and> (known_but X m \<longrightarrow> known_but X (upd_res a f m))"
  unfolding upd_res_def using assms
  by (intro objects_ok_heap; cases "a < length (rm_heap m)") (simp_all add: nth_list_update)

lemma dispose_resource_spec:
  assumes "objects_ok m" and "a < length (rm_heap m)" and "dispose_resource a m = (x, m')"
  shows "is_ok x \<and> objects_ok m' \<and> length (rm_heap m') = length (rm_heap m)
    \<and> (\<forall>b < length (rm_heap m). mr_disposed (rm_heap m' ! b) = (b = a \<or> mr_disposed (rm_heap m ! b))
         \<and> mr_cleanup (rm_heap m' ! b) = mr_cleanup (rm_heap m ! b))
    \<and> rm_running m' = rm_running m \<and> rm_options m' = rm_options m \<and> (known_but (insert a X) m \<longrightarrow> known_but X m')"
proof (cases "mr_disposed (rm_heap m ! a)")
  case True
  with assms show ?thesis by (auto simp: dispose_resource_def Let_def known_but_def)
next
  case False
  let ?m1 = "upd_res a (\<lambda>r. r\<lparr>mr_disposed := True\<rparr>) m"
  have id: "mr_id (rm_heap m ! a) = int a + 1" using assms by (simp add: objects_ok_def)
  have m': "is_ok x \<and> rm_heap m' = rm_heap ?m1 \<and> rm_resources m' = gm_del (int a + 1) (rm_resources m)
      \<and> rm_log m' = rm_log m @ (if mr_cleanup (rm_heap m ! a) \<noteq> None then [a] else [])
      \<and> rm_queue m' = rm_queue m \<and> rm_spawned m' = rm_spawned m \<and> rm_options m' = rm_options m
      \<and> rm_next_id m' = rm_next_id m \<and> rm_running m' = rm_running m"
    using assms False id
    by (auto simp: dispose_resource_def Let_def untrack_reference_def objects_ok_def split: if_splits option.splits)
  have al: "a \<notin> set (rm_log m)" using assms False by (auto simp: objects_ok_def cleaned_exactly_def)
  have cl: "cleaned_exactly m'"
    using assms(1,2) m' al by (auto simp: objects_ok_def cleaned_exactly_def nth_list_update)
  have ids: "mr_id (rm_heap m' ! b) = int b + 1 \<and> (ro_leak_detection (rm_options m') \<longrightarrow> rs_hashable (mr_resource (rm_heap m' ! b)))"
    if "b < length (rm_heap m')" for b
    using that m' assms(1,2) by (auto simp: objects_ok_def nth_list_update)
  have "objects_ok m'"
    using assms(1) m' cl ids set_gm_del [of "int a + 1" "rm_resources m"] unfolding objects_ok_def
    by (simp add: gm.wf_del) blast
  moreover have "known_but X m'" if "known_but (insert a X) m"
    using that m' by (auto simp: known_but_def nth_list_update)
  ultimately show ?thesis using m' assms(2) by (auto simp: nth_list_update)
qed

lemma dispose_all_spec:
  assumes "objects_ok m" and "set as \<subseteq> {..<length (rm_heap m)}" and "dispose_all as m = (x, m')"
  shows "x = Ok () \<and> objects_ok m' \<and> length (rm_heap m') = length (rm_heap m) \<and> rm_running m' = rm_running m
    \<and> (\<forall>b < length (rm_heap m). mr_disposed (rm_heap m' ! b) = (b \<in> set as \<or> mr_disposed (rm_heap m ! b)))"
  using assms
proof (induction as m rule: dispose_all.induct)
  case (2 a as m)
  obtain y m1 where y: "dispose_resource a m = (y, m1)" by force
  from dispose_resource_spec [OF "2.prems"(1) _ y] "2.prems"(2) have d: "is_ok y" "objects_ok m1"
    "length (rm_heap m1) = length (rm_heap m)" "rm_running m1 = rm_running m"
    "\<forall>b < length (rm_heap m). mr_disposed (rm_heap m1 ! b) = (b = a \<or> mr_disposed (rm_heap m ! b))" by auto
  from d(1) obtain v where v: "y = Ok v" by (auto simp: is_ok_iff)
  with y "2.prems"(3) have "dispose_all as m1 = (x, m')" by simp
  from "2.IH" [OF y [symmetric] v d(2) _ this] "2.prems"(2) d show ?case by auto
qed auto

text \<open>
  The operations and goroutines as events. A call of \<open>TrackResource\<close> (or of
  \<open>CreateContextualResource\<close>) is two of them: \<open>ReBegin\<close> (\<open>ReContextual\<close>), which passes the checks and puts
  the object among those in flight, and \<open>ReInsert\<close>, which enters one of these. Anything may happen in
  between, the stop of the manager included. The other operations take effect where they hold the
  lock of the table or of the object: a lookup and the change that follows it are one event, and so are
  \<open>Stop\<close>'s exchange of the table and its disposals, which only touch what that exchange took out.
\<close>

datatype resource_event =
    ReBegin int nat resource resource_type "cleanup_func option" | ReInsert int nat
  | ReContextual int nat "(resource \<times> cleanup_func option) + goerr"
  | ReUntrack int | ReAccess int int | ReAddRef int | ReRelease int | ReGet int int | ReTag int string string
  | ReWorker nat | ReIdle int | ReSpawned nat | ReStop

type_synonym resource_world = "resource_manager \<times> nat list"

definition launched :: "nat result \<times> resource_manager \<Rightarrow> nat list \<Rightarrow> resource_world" where
  "launched p fl = (snd p, case fst p of Ok a \<Rightarrow> fl @ [a] | _ \<Rightarrow> fl)"

fun resource_step :: "resource_event \<Rightarrow> resource_world \<Rightarrow> resource_world" where
  "resource_step (ReBegin now c r ty cl) (m, fl) = launched (track_begin now c r ty cl m) fl"
| "resource_step (ReInsert now k) (m, fl) =
     (if k < length fl then (snd (track_insert now (fl ! k) m), take k fl @ drop (Suc k) fl) else (m, fl))"
| "resource_step (ReContextual now c made) (m, fl) = launched (contextual_begin now c made m) fl"
| "resource_step (ReUntrack rid) (m, fl) = (snd (untrack_resource rid m), fl)"
| "resource_step (ReAccess now rid) (m, fl) = (snd (access_resource now rid m), fl)"
| "resource_step (ReAddRef rid) (m, fl) = (snd (rm_add_ref rid m), fl)"
| "resource_step (ReRelease rid) (m, fl) = (snd (rm_release rid m), fl)"
| "resource_step (ReGet now rid) (m, fl) = (snd (get_resource now rid m), fl)"
| "resource_step (ReTag rid k v) (m, fl) = (snd (set_resource_tag rid k v m), fl)"
| "resource_step (ReWorker pick) (m, fl) = (snd (cleanup_worker_step pick m), fl)"
| "resource_step (ReIdle now) (m, fl) = (cleanup_idle_resources now m, fl)"
| "resource_step (ReSpawned k) (m, fl) = (snd (run_spawned k m), fl)"
| "resource_step ReStop (m, fl) = (snd (rm_stop m), fl)"

definition resource_run :: "resource_event list \<Rightarrow> resource_world \<Rightarrow> resource_world" where
  "resource_run es w = fold resource_step es w"

text \<open>Leak detection needs comparable resources.\<close>

fun event_hashable :: "resource_event \<Rightarrow> bool" where
  "event_hashable (ReBegin _ _ r _ _) \<longleftrightarrow> rs_hashable r"
| "event_hashable (ReContextual _ _ (Inl (r, _))) \<longleftrightarrow> rs_hashable r"
| "event_hashable _ \<longleftrightarrow> True"

text \<open>
  The invariant: the objects not disposed of are in the table or in \<open>F\<close>, those in flight; and once the
  manager is stopped they belong to \<open>L\<close>, those in flight when it stopped.
\<close>

definition manager_ok :: "nat set \<Rightarrow> nat set \<Rightarrow> resource_manager \<Rightarrow> bool" where
  "manager_ok F L m \<longleftrightarrow> objects_ok m \<and> known_but F m
     \<and> (\<not> rm_running m \<longrightarrow> (\<forall>a < length (rm_heap m). \<not> mr_disposed (rm_heap m ! a) \<longrightarrow> a \<in> L))"

lemma track_reference_hashable:
  "rs_hashable r \<Longrightarrow> track_reference now r m = (Ok (), m\<lparr>rm_references :=
     (if ro_leak_detection (rm_options m) then gm_put r now (rm_references m) else rm_references m)\<rparr>)"
  by (simp add: track_reference_def)

lemma track_begin_ok:
  assumes "manager_ok F L m" and "rs_hashable r" and "int (length (rm_heap m)) < max_int64"
    and "track_begin now c r ty cl m = (x, m')"
  shows "rm_running m' = rm_running m \<and>
    (case x of Ok a \<Rightarrow> a = length (rm_heap m) \<and> length (rm_heap m') = Suc a \<and> manager_ok (insert a F) L m' \<and> rm_running m
     | _ \<Rightarrow> m' = m)"
proof (cases "is_stopped m \<or> int (gm_len (rm_resources m)) \<ge> ro_max_resources (rm_options m)")
  case True
  then have "\<exists>e. track_begin now c r ty cl m = (Err e, m)" by (auto simp: track_begin_def)
  with assms(4) show ?thesis by auto
next
  case False
  let ?n = "length (rm_heap m)"
  have i: "int64 (rm_next_id m + 1) = int ?n + 1"
    using assms by (auto simp: manager_ok_def objects_ok_def intro!: int64_id)
  define mr where "mr = fresh_resource now c r ty cl (int ?n + 1)"
  have mr: "mr_id mr = int ?n + 1" "mr_resource mr = r" "\<not> mr_disposed mr" "mr_cleanup mr = cl"
    by (simp_all add: mr_def fresh_resource_def)
  have x: "x = Ok ?n" and m': "m' = m\<lparr>rm_next_id := int ?n + 1, rm_heap := rm_heap m @ [mr]\<rparr>"
    using assms(4) False by (auto simp: track_begin_def i mr_def Let_def)
  have ok: "objects_ok m" "known_but F m" using assms(1) by (simp_all add: manager_ok_def)
  have cl: "cleaned_exactly m'" using ok(1) mr
    by (auto simp: objects_ok_def cleaned_exactly_def m' nth_append less_Suc_eq)
  have ids: "mr_id (rm_heap m' ! a) = int a + 1 \<and> (ro_leak_detection (rm_options m') \<longrightarrow> rs_hashable (mr_resource (rm_heap m' ! a)))"
    if "a < length (rm_heap m')" for a
    using that ok(1) assms(2) mr by (auto simp: m' objects_ok_def nth_append less_Suc_eq)
  have "objects_ok m'" using ok(1) cl ids by (auto simp: objects_ok_def m' less_Suc_eq)
  moreover have "known_but (insert ?n F) m'"
    using ok(2) by (auto simp: known_but_def m' nth_append less_Suc_eq)
  ultimately show ?thesis using False by (simp add: manager_ok_def x m' is_stopped_def)
qed

lemma track_insert_eq:
  assumes "objects_ok m" and "a < length (rm_heap m)"
  shows "snd (track_insert now a m) = m\<lparr>rm_resources := gm_put (int a + 1) a (rm_resources m),
      rm_contexts := rm_contexts (track_context now (mr_context (rm_heap m ! a)) (int a + 1) m),
      rm_references := (if ro_leak_detection (rm_options m)
        then gm_put (mr_resource (rm_heap m ! a)) now (rm_references m) else rm_references m)\<rparr>"
  using assms by (auto simp: track_insert_def Let_def track_reference_hashable track_context_def objects_ok_def)

lemma track_insert_result:
  assumes "objects_ok m" and "a < length (rm_heap m)"
  shows "fst (track_insert now a m) = Ok (int a + 1)"
  using assms by (auto simp: track_insert_def Let_def track_reference_hashable track_context_def objects_ok_def)

lemma track_insert_ok:
  assumes "manager_ok (insert a F) L m" and "a < length (rm_heap m)"
  shows "manager_ok F L (snd (track_insert now a m)) \<and> rm_heap (snd (track_insert now a m)) = rm_heap m
    \<and> rm_running (snd (track_insert now a m)) = rm_running m"
proof -
  let ?m' = "snd (track_insert now a m)"
  have ok: "objects_ok m" "known_but (insert a F) m" using assms(1) by (simp_all add: manager_ok_def)
  note m' = track_insert_eq [OF ok(1) assms(2), of now]
  have set: "set (rm_resources ?m') \<subseteq> insert (int a + 1, a) (set (rm_resources m))"
    unfolding m' by simp (rule set_gm_put)
  have bound: "\<forall>b \<in> set (ch_buf (rm_queue ?m')) \<union> set (rm_spawned ?m') \<union> snd ` set (rm_resources ?m'). b < length (rm_heap ?m')"
    using ok(1) assms(2) image_mono [OF set, of snd] unfolding objects_ok_def by (auto simp: m')
  have keys: "\<forall>(i, b) \<in> set (rm_resources ?m'). i = int b + 1"
    using ok(1) set unfolding objects_ok_def by auto
  have "objects_ok ?m'" unfolding objects_ok_def using bound keys ok(1)
    by (simp add: m' objects_ok_def cleaned_exactly_def gm.wf_put)
  moreover have "known_but F ?m'" using ok(2) by (auto simp: known_but_def m')
  ultimately show ?thesis using assms(1) by (simp add: manager_ok_def m')
qed

text \<open>Updates of the other fields.\<close>

lemma manager_ok_upd:
  assumes "manager_ok F L m" and "\<And>r. mr_id (f r) = mr_id r \<and> mr_resource (f r) = mr_resource r
      \<and> mr_disposed (f r) = mr_disposed r \<and> mr_cleanup (f r) = mr_cleanup r"
  shows "manager_ok F L (upd_res a f m)"
proof -
  have "mr_disposed (rm_heap (upd_res a f m) ! b) = mr_disposed (rm_heap m ! b)" for b
    using assms(2) by (cases "a < length (rm_heap m)") (simp_all add: nth_list_update list_update_beyond not_less)
  with objects_ok_upd [of m f a F] assms show ?thesis by (simp add: manager_ok_def)
qed

lemma manager_ok_table:
  assumes "manager_ok F L m" and "gm_get (rm_resources m) rid = Some a"
  shows "a < length (rm_heap m) \<and> rid = int a + 1"
proof -
  have e: "(rid, a) \<in> set (rm_resources m)" using assms(2) by (rule map_of_SomeD)
  then have "a \<in> snd ` set (rm_resources m)" by (metis image_eqI snd_conv)
  moreover have "\<forall>a \<in> snd ` set (rm_resources m). a < length (rm_heap m)" "\<forall>(i, a) \<in> set (rm_resources m). i = int a + 1"
    using assms(1) by (simp_all add: manager_ok_def objects_ok_def)
  ultimately show ?thesis using e by blast
qed

lemma objects_ok_del:
  assumes "objects_ok m"
  shows "objects_ok (m\<lparr>rm_resources := gm_del k (rm_resources m)\<rparr>)"
proof -
  have "snd ` set (gm_del k (rm_resources m)) \<subseteq> snd ` set (rm_resources m)" by (rule image_mono [OF set_gm_del])
  then have "\<forall>a \<in> set (ch_buf (rm_queue m)) \<union> set (rm_spawned m) \<union> snd ` set (gm_del k (rm_resources m)). a < length (rm_heap m)"
    using assms unfolding objects_ok_def by blast
  moreover have "\<forall>(i, a) \<in> set (gm_del k (rm_resources m)). i = int a + 1"
    using assms set_gm_del [of k "rm_resources m"] unfolding objects_ok_def by blast
  ultimately show ?thesis using assms by (simp add: objects_ok_def cleaned_exactly_def gm.wf_del)
qed

lemma manager_ok_enqueue:
  "manager_ok F L m \<Longrightarrow> a < length (rm_heap m) \<Longrightarrow> manager_ok F L (m\<lparr>rm_queue := (rm_queue m)\<lparr>ch_buf := ch_buf (rm_queue m) @ [a]\<rparr>\<rparr>)"
  "manager_ok F L m \<Longrightarrow> a < length (rm_heap m) \<Longrightarrow> manager_ok F L (m\<lparr>rm_spawned := rm_spawned m @ [a]\<rparr>)"
  by (auto simp: manager_ok_def objects_ok_def cleaned_exactly_def known_but_def)

lemma manager_ok_dispose:
  assumes "objects_ok m" and "known_but (insert a F) m" and "a < length (rm_heap m)" and "dispose_resource a m = (x, m')"
    and "\<not> rm_running m \<longrightarrow> (\<forall>a < length (rm_heap m). \<not> mr_disposed (rm_heap m ! a) \<longrightarrow> a \<in> L)"
  shows "manager_ok F L m' \<and> length (rm_heap m') = length (rm_heap m) \<and> is_ok x \<and> rm_running m' = rm_running m"
  using dispose_resource_spec [OF assms(1,3,4), of F] assms(2,5) by (auto simp: manager_ok_def)

lemma untrack_resource_ok:
  assumes "manager_ok F L m" and "untrack_resource rid m = (x, m')"
  shows "manager_ok F L m' \<and> length (rm_heap m') = length (rm_heap m) \<and> is_ok x \<and> rm_running m' = rm_running m"
proof (cases "gm_get (rm_resources m) rid")
  case None
  with assms show ?thesis by (auto simp: untrack_resource_def)
next
  case (Some a)
  let ?m = "m\<lparr>rm_resources := gm_del rid (rm_resources m)\<rparr>"
  note t = manager_ok_table [OF assms(1) Some]
  have "objects_ok ?m" using assms(1) by (simp add: manager_ok_def objects_ok_del)
  moreover have "known_but (insert a F) ?m" using assms(1) t by (auto simp: manager_ok_def known_but_def)
  moreover have "dispose_resource a ?m = (x, m')" using assms(2) Some by (simp add: untrack_resource_def)
  ultimately show ?thesis using manager_ok_dispose [of ?m a F x m' L] t assms(1) by (auto simp: manager_ok_def)
qed

lemma rm_stop_ok:
  assumes "manager_ok F L m" and "rm_running m \<longrightarrow> F \<subseteq> L" and "rm_stop m = (x, m')"
  shows "manager_ok F L m' \<and> length (rm_heap m') = length (rm_heap m) \<and> x = Ok () \<and> \<not> rm_running m'"
proof (cases "rm_running m")
  case False
  with assms show ?thesis by (auto simp: rm_stop_def)
next
  case True
  let ?m = "m\<lparr>rm_running := False, rm_done := True, rm_resources := []\<rparr>" and ?as = "map snd (rm_resources m)"
  have d: "dispose_all ?as ?m = (x, m')" using assms True by (simp add: rm_stop_def)
  have "objects_ok ?m" "set ?as \<subseteq> {..<length (rm_heap ?m)}"
    using assms(1) by (auto simp: manager_ok_def objects_ok_def cleaned_exactly_def)
  note s = dispose_all_spec [OF this d]
  have all: "b \<in> F" if "b < length (rm_heap m)" "\<not> mr_disposed (rm_heap m' ! b)" for b
  proof (rule ccontr)
    assume "b \<notin> F"
    with that s assms(1) have "gm_get (rm_resources m) (int b + 1) = Some b" by (simp add: manager_ok_def known_but_def)
    then have "b \<in> set ?as" by (force dest!: map_of_SomeD)
    with s that show False by simp
  qed
  with s assms(2) True show ?thesis by (auto simp: manager_ok_def known_but_def)
qed

lemma worker_ok:
  assumes "manager_ok F L m" and "cleanup_worker_step pick m = (x, m')"
  shows "manager_ok F L m' \<and> length (rm_heap m') = length (rm_heap m) \<and> rm_running m' = rm_running m"
proof (cases "go_select pick [(ch_can_recv (rm_queue m), WkQueue), (rm_done m, WkDone)] = Some WkQueue")
  case True
  then have "ch_can_recv (rm_queue m)" using go_select_ready [OF True] by auto
  then obtain a as where as: "ch_buf (rm_queue m) = a # as"
    using assms(1) by (cases "ch_buf (rm_queue m)") (auto simp: ch_can_recv_def manager_ok_def objects_ok_def)
  define q where "q = (rm_queue m)\<lparr>ch_buf := as\<rparr>"
  have q: "ch_recv (rm_queue m) = (Some a, q)" "ch_buf (rm_queue m) = a # ch_buf q" "ch_closed q = ch_closed (rm_queue m)"
    using as by (simp_all add: ch_recv_def q_def)
  let ?m = "m\<lparr>rm_queue := q\<rparr>"
  obtain y m2 where d: "dispose_resource a ?m = (y, m2)" by force
  have "objects_ok ?m" "known_but (insert a F) ?m" "a < length (rm_heap ?m)"
    using assms(1) q by (auto simp: manager_ok_def objects_ok_def cleaned_exactly_def known_but_def)
  from manager_ok_dispose [OF this d] assms(1) have "manager_ok F L m2" "length (rm_heap m2) = length (rm_heap m)" "rm_running m2 = rm_running m"
    by (auto simp: manager_ok_def)
  with True q d assms(2) show ?thesis by (cases y) (auto simp: cleanup_worker_step_def)
next
  case False
  with assms show ?thesis by (auto simp: cleanup_worker_step_def split: option.splits worker_case.splits)
qed

lemma run_spawned_ok:
  assumes "manager_ok F L m" and "run_spawned k m = (x, m')"
  shows "manager_ok F L m' \<and> length (rm_heap m') = length (rm_heap m) \<and> rm_running m' = rm_running m"
proof (cases "k < length (rm_spawned m)")
  case True
  let ?m = "m\<lparr>rm_spawned := take k (rm_spawned m) @ drop (Suc k) (rm_spawned m)\<rparr>"
  have "objects_ok ?m" "known_but (insert (rm_spawned m ! k) F) ?m" "rm_spawned m ! k < length (rm_heap ?m)"
    using assms(1) True by (auto simp: manager_ok_def objects_ok_def cleaned_exactly_def known_but_def dest: in_set_takeD in_set_dropD)
  from manager_ok_dispose [OF this] True assms show ?thesis by (auto simp: run_spawned_def manager_ok_def)
next
  case False
  with assms show ?thesis by (simp add: run_spawned_def)
qed

lemma release_ok:
  assumes "manager_ok F L m"
  shows "manager_ok F L (snd (rm_release rid m)) \<and> rm_running (snd (rm_release rid m)) = rm_running m \<and> length (rm_heap (snd (rm_release rid m))) = length (rm_heap m)"
proof (cases "gm_get (rm_resources m) rid")
  case (Some a)
  let ?m1 = "upd_res a (\<lambda>r. r\<lparr>mr_ref_count := int32 (mr_ref_count (rm_heap m ! a) - 1)\<rparr>) m"
  have "manager_ok F L ?m1" using assms by (intro manager_ok_upd) auto
  moreover have "a < length (rm_heap ?m1)" using manager_ok_table [OF assms Some] by simp
  ultimately show ?thesis using Some manager_ok_enqueue [of F L ?m1 a]
    by (auto simp: rm_release_def ch_send_def Let_def)
qed (use assms in \<open>simp add: rm_release_def\<close>)

lemma idle_ok:
  assumes "manager_ok F L m"
  shows "manager_ok F L (cleanup_idle_resources now m) \<and> rm_running (cleanup_idle_resources now m) = rm_running m \<and> length (rm_heap (cleanup_idle_resources now m)) = length (rm_heap m)"
proof -
  let ?f = "\<lambda>a m. if ch_can_send (rm_queue m) then (case ch_enq a (rm_queue m) of Some q \<Rightarrow> m\<lparr>rm_queue := q\<rparr> | None \<Rightarrow> m) else m"
  have all: "manager_ok F L (fold ?f as m) \<and> rm_heap (fold ?f as m) = rm_heap m \<and> rm_running (fold ?f as m) = rm_running m"
    if "manager_ok F L m" "\<forall>a \<in> set as. a < length (rm_heap m)" for as and m :: resource_manager
    using that
  proof (induction as arbitrary: m)
    case (Cons a as)
    have "manager_ok F L (?f a m) \<and> rm_heap (?f a m) = rm_heap m \<and> rm_running (?f a m) = rm_running m"
      using Cons.prems manager_ok_enqueue(1) [of F L m a] by (simp add: ch_enq_def ch_send_def)
    with Cons show ?case by simp
  qed simp
  have "\<forall>a \<in> set (filter (\<lambda>a. mr_last_accessed (rm_heap m ! a) < now + int64 (- ro_max_idle (rm_options m))
      \<and> mr_ref_count (rm_heap m ! a) \<le> 0) (map snd (rm_resources m))). a < length (rm_heap m)"
    using assms by (auto simp: manager_ok_def objects_ok_def)
  from all [OF assms this] show ?thesis by (simp only: cleanup_idle_resources_def Let_def simp_thms)
qed

section \<open>Properties\<close>

text \<open>Between events the objects in flight exist.\<close>

fun world_ok :: "nat set \<Rightarrow> resource_world \<Rightarrow> bool" where
  "world_ok L (m, fl) \<longleftrightarrow> manager_ok (set fl) L m \<and> set fl \<subseteq> {..<length (rm_heap m)}"

lemma manager_ok_mono: "manager_ok F L m \<Longrightarrow> F \<subseteq> F' \<Longrightarrow> manager_ok F' L m"
  by (auto simp: manager_ok_def known_but_def)

lemma set_remove_nth: "k < length xs \<Longrightarrow> set xs \<subseteq> insert (xs ! k) (set (take k xs @ drop (Suc k) xs))"
  by (metis Cons_nth_drop_Suc append_take_drop_id list.set(2) set_append Un_insert_right subsetI)

text \<open>The parts of a state that a quiet step keeps.\<close>

definition quiet_step :: "nat list \<Rightarrow> nat set \<Rightarrow> resource_manager \<Rightarrow> resource_world \<Rightarrow> bool" where
  "quiet_step fl L m w \<longleftrightarrow> world_ok L w \<and> rm_running (fst w) = rm_running m
     \<and> length (rm_heap m) \<le> length (rm_heap (fst w)) \<and> length (rm_heap (fst w)) \<le> Suc (length (rm_heap m))"

lemma quiet_step_same_flight:
  "set fl \<subseteq> {..<length (rm_heap m)} \<Longrightarrow> manager_ok (set fl) L m' \<Longrightarrow> rm_running m' = rm_running m
     \<Longrightarrow> length (rm_heap m') = length (rm_heap m) \<Longrightarrow> quiet_step fl L m (m', fl)"
  by (simp add: quiet_step_def)

lemma launched_ok:
  assumes "world_ok L (m, fl)" and "rs_hashable r" and "int (length (rm_heap m)) < max_int64"
  shows "quiet_step fl L m (launched (track_begin now c r ty cl m) fl)"
proof -
  obtain x m1 where x: "track_begin now c r ty cl m = (x, m1)" by force
  note b = track_begin_ok [OF _ assms(2,3) x, of "set fl" L]
  from assms(1) b have "rm_running m1 = rm_running m" by simp
  with assms(1) b show ?thesis
    by (cases x) (auto simp: quiet_step_def launched_def x less_Suc_eq intro: manager_ok_mono)
qed

lemma resource_step_ok:
  assumes "world_ok L (m, fl)" and "event_hashable e" and "int (length (rm_heap m)) < max_int64" and "e \<noteq> ReStop"
  shows "quiet_step fl L m (resource_step e (m, fl))"
proof -
  have ok: "manager_ok (set fl) L m" and fl: "set fl \<subseteq> {..<length (rm_heap m)}" using assms(1) by simp_all
  note same = quiet_step_same_flight [OF fl]
  have upd: "quiet_step fl L m (upd_res a f m, fl)" if "\<And>r. mr_id (f r) = mr_id r \<and> mr_resource (f r) = mr_resource r
      \<and> mr_disposed (f r) = mr_disposed r \<and> mr_cleanup (f r) = mr_cleanup r" for a f
    using ok that by (intro same manager_ok_upd) auto
  have still: "quiet_step fl L m (m, fl)" using ok by (intro same) auto
  have access: "quiet_step fl L m (snd (access_resource now rid m), fl)" for now rid
    using upd still by (auto simp: access_resource_def split: option.splits)
  show ?thesis
  proof (cases e)
    case (ReBegin now c r ty cl)
    with launched_ok assms show ?thesis by simp
  next
    case (ReInsert now k)
    show ?thesis
    proof (cases "k < length fl")
      case True
      let ?fl = "take k fl @ drop (Suc k) fl"
      have k: "fl ! k < length (rm_heap m)" using fl True by (simp add: subset_iff)
      have "manager_ok (insert (fl ! k) (set ?fl)) L m" using manager_ok_mono [OF ok set_remove_nth [OF True]] .
      note ins = track_insert_ok [OF this k, of now]
      have "set ?fl \<subseteq> {..<length (rm_heap m)}" using fl by (auto dest: in_set_takeD in_set_dropD)
      with ins ReInsert True show ?thesis by (simp add: quiet_step_def)
    qed (use still ReInsert in simp)
  next
    case (ReContextual now c made)
    show ?thesis
    proof (cases made)
      case (Inl p)
      obtain r cl where p: "p = (r, cl)" by force
      obtain x m1 where x: "track_begin now c r RtGeneric cl m = (x, m1)" by force
      from assms(2) ReContextual Inl p have "rs_hashable r" by simp
      from launched_ok [OF assms(1) this assms(3), of now c RtGeneric cl]
      have q: "quiet_step fl L m (launched (x, m1) fl)" by (simp add: x)
      moreover have "manager_ok F L (m1\<lparr>rm_aborted := k\<rparr>) = manager_ok F L m1" for F k
        by (simp add: manager_ok_def objects_ok_def cleaned_exactly_def known_but_def)
      ultimately show ?thesis using ReContextual Inl p
        by (cases x) (auto simp: contextual_begin_def x launched_def quiet_step_def)
    qed (use still ReContextual in \<open>simp add: contextual_begin_def launched_def\<close>)
  next
    case (ReUntrack rid)
    obtain x m' where "untrack_resource rid m = (x, m')" by force
    with ReUntrack untrack_resource_ok [OF ok this] show ?thesis by (simp add: same)
  next
    case (ReAccess now rid)
    with access show ?thesis by simp
  next
    case (ReAddRef rid)
    with upd still show ?thesis by (auto simp: rm_add_ref_def split: option.splits)
  next
    case (ReRelease rid)
    with release_ok [OF ok, of rid] show ?thesis by (simp add: same)
  next
    case (ReGet now rid)
    with access [of now rid] still show ?thesis by (auto simp: get_resource_def split: option.splits)
  next
    case (ReTag rid k v)
    with upd still show ?thesis by (auto simp: set_resource_tag_def split: option.splits)
  next
    case (ReWorker pick)
    obtain x m' where "cleanup_worker_step pick m = (x, m')" by force
    with ReWorker worker_ok [OF ok this] show ?thesis by (simp add: same)
  next
    case (ReIdle now)
    with idle_ok [OF ok, of now] show ?thesis by (simp add: same)
  next
    case (ReSpawned k)
    obtain x m' where "run_spawned k m = (x, m')" by force
    with ReSpawned run_spawned_ok [OF ok this] show ?thesis by (simp add: same)
  qed (use assms(4) in simp)
qed

lemma stop_step_ok:
  assumes "world_ok L (m, fl)" and "rm_running m \<longrightarrow> set fl \<subseteq> L"
  shows "world_ok L (resource_step ReStop (m, fl)) \<and> \<not> rm_running (fst (resource_step ReStop (m, fl)))
    \<and> length (rm_heap (fst (resource_step ReStop (m, fl)))) = length (rm_heap m)"
proof -
  obtain x m' where x: "rm_stop m = (x, m')" by force
  from rm_stop_ok [OF _ assms(2) x] assms(1) x show ?thesis by simp
qed

text \<open>Runs: with every object allowed to be left over, and after the stop.\<close>

lemma resource_run_ok:
  assumes "world_ok L w" and "\<forall>e \<in> set es. event_hashable e"
    and "int (length (rm_heap (fst w)) + length es) < max_int64"
    and "ReStop \<in> set es \<longrightarrow> L = UNIV \<or> \<not> rm_running (fst w)"
  shows "world_ok L (resource_run es w)
    \<and> length (rm_heap (fst (resource_run es w))) \<le> length (rm_heap (fst w)) + length es
    \<and> (ReStop \<notin> set es \<or> \<not> rm_running (fst w) \<longrightarrow> rm_running (fst (resource_run es w)) = rm_running (fst w))"
  using assms
proof (induction es arbitrary: w)
  case (Cons e es)
  obtain m fl where w: "w = (m, fl)" by force
  let ?w = "resource_step e w"
  have "world_ok L ?w \<and> length (rm_heap (fst ?w)) \<le> Suc (length (rm_heap m))
      \<and> (if e = ReStop then \<not> rm_running (fst ?w) else rm_running (fst ?w) = rm_running m)"
  proof (cases "e = ReStop")
    case True
    with stop_step_ok [of L m fl] Cons.prems(1,4) show ?thesis by (auto simp: w)
  next
    case False
    with resource_step_ok [of L m fl e] Cons.prems(1,2,3) show ?thesis by (simp add: w quiet_step_def)
  qed
  with Cons.IH [of ?w] Cons.prems(2-4) show ?case
    by (auto simp: resource_run_def w split: if_splits)
qed (simp add: resource_run_def)

lemma new_manager_ok: "world_ok L (new_resource_manager options, [])" "rm_running (new_resource_manager options)"
    "rm_heap (new_resource_manager options) = []"
  by (simp_all add: new_resource_manager_def manager_ok_def objects_ok_def cleaned_exactly_def known_but_def make_chan_def)

lemma resource_run_append: "resource_run (es1 @ e # es2) w = resource_run es2 (resource_step e (resource_run es1 w))"
  by (simp add: resource_run_def)

lemma resource_run_Cons: "resource_run (e # es) w = resource_run es (resource_step e w)" "resource_run [] w = w"
  by (simp_all add: resource_run_def)

text \<open>
  C20: Every cleanup function runs exactly once. Take any history of a new manager (tracking of
  comparable values, uses, releases, workers, idle rounds, cancelled contexts, stops) in which the
  checks and the insertion of a \<open>TrackResource\<close> call are separate events, with any others between
  them. No cleanup function has run twice; those that ran are those of the resources disposed of; every
  resource that is neither disposed of nor in flight, inside its \<open>TrackResource\<close>, is in the
  table. And once \<open>Stop\<close> was called every resource is disposed of, except those that were in flight at
  that moment: their late insertion is missed by the stop. (Below 2^63 events.)
\<close>

theorem cleanup_exactly_once:
  assumes "\<forall>e \<in> set es. event_hashable e" and "int (length es) < max_int64"
    and "(m, flight) = resource_run es (new_resource_manager options, [])"
  shows "distinct (rm_log m)
    \<and> set (rm_log m) = {a. a < length (rm_heap m) \<and> mr_disposed (rm_heap m ! a) \<and> mr_cleanup (rm_heap m ! a) \<noteq> None}
    \<and> (\<forall>a < length (rm_heap m). \<not> mr_disposed (rm_heap m ! a) \<longrightarrow> a \<in> set flight
         \<or> gm_get (rm_resources m) (mr_id (rm_heap m ! a)) = Some a)
    \<and> (\<forall>before after. es = before @ ReStop # after \<and> ReStop \<notin> set before \<longrightarrow>
         (\<forall>a < length (rm_heap m). \<not> mr_disposed (rm_heap m ! a) \<longrightarrow>
            a \<in> set (snd (resource_run before (new_resource_manager options, [])))))"
proof -
  let ?w = "(new_resource_manager options, [])"
  have "world_ok UNIV (m, flight)"
    unfolding assms(3) using resource_run_ok [OF new_manager_ok(1) assms(1)] assms(2) by (simp add: new_manager_ok)
  then have ok: "objects_ok m" "known_but (set flight) m" by (simp_all add: manager_ok_def)
  have stopped: "a \<in> set (snd (resource_run before ?w))"
    if e: "es = before @ ReStop # after" "ReStop \<notin> set before" and a: "a < length (rm_heap m)" "\<not> mr_disposed (rm_heap m ! a)"
    for before after a
  proof -
    obtain m1 fl1 where w1: "resource_run before ?w = (m1, fl1)" by force
    have "world_ok (set fl1) (m1, fl1)" "rm_running m1" "length (rm_heap m1) \<le> length before"
      using resource_run_ok [OF new_manager_ok(1) [of "set fl1" options], of before] e assms(1,2) by (auto simp: w1 new_manager_ok(2,3))
    note s = stop_step_ok [OF this(1)] this(3)
    let ?w2 = "resource_step ReStop (m1, fl1)"
    have m: "(m, flight) = resource_run after ?w2" using assms(3) by (simp only: e(1) resource_run_append w1)
    have "world_ok (set fl1) (m, flight) \<and> \<not> rm_running m"
      using resource_run_ok [of "set fl1" ?w2 after] s e(1) assms(1,2) unfolding m [symmetric] by auto
    with a show ?thesis by (auto simp: manager_ok_def w1)
  qed
  from ok stopped show ?thesis by (auto simp: objects_ok_def cleaned_exactly_def known_but_def)
qed

definition late_prefix :: "resource_event list" where
  "late_prefix = [ReBegin 0 0 (RsRef 7) RtStub (Some None), ReBegin 1 0 (RsString ''x'') RtGeneric (Some None),
     ReInsert 2 0, ReRelease 1, ReWorker 0]"

lemma late_prefix_flight: "snd (resource_run late_prefix (new_resource_manager [], [])) = [1]"
  by (simp add: late_prefix_def resource_run_def launched_def track_begin_def is_stopped_def
      default_resource_options_def new_resource_manager_def Let_def)

definition late_world :: resource_world where
  "late_world = resource_run (late_prefix @ ReStop # [ReInsert 3 0]) (new_resource_manager [], [])"

lemma late_world_heap: "length (rm_heap (fst late_world)) = 2"
  by code_simp

lemma cleanup_exactly_once_witness:
  "distinct (rm_log (fst late_world)) \<and> mr_disposed (rm_heap (fst late_world) ! 0)"
proof -
  have "\<forall>e \<in> set (late_prefix @ ReStop # [ReInsert 3 0]). event_hashable e"
    "int (length (late_prefix @ ReStop # [ReInsert 3 0])) < max_int64" "ReStop \<notin> set late_prefix"
    by (simp_all add: late_prefix_def rs_hashable_def)
  with cleanup_exactly_once [OF this(1,2), of "fst late_world" "snd late_world" "[]"] late_prefix_flight late_world_heap
  show ?thesis by (force simp: late_world_def)
qed

text \<open>
  The stop misses a late insertion. When a call of \<open>TrackResource\<close> has passed its checks and the manager
  is then stopped, the call still enters its resource and reports success; the resource is in the table
  of a stopped manager, its cleanup function has not run, and stopping again does nothing.
\<close>

theorem stop_misses_late_tracking:
  assumes "manager_ok F L m" and "rs_hashable r" and "int (length (rm_heap m)) < max_int64"
    and "track_begin now c r ty cl m = (Ok a, m1)" and "m2 = snd (rm_stop m1)" and "(x, m3) = track_insert now a m2"
  shows "x = Ok (int a + 1) \<and> gm_get (rm_resources m3) (int a + 1) = Some a \<and> \<not> mr_disposed (rm_heap m3 ! a)
    \<and> a \<notin> set (rm_log m3) \<and> rm_stop m3 = (Ok (), m3)"
proof -
  have b: "a = length (rm_heap m)" "length (rm_heap m1) = Suc a" "manager_ok (insert a F) UNIV m1" "rm_running m1"
    and m1: "rm_resources m1 = rm_resources m" "\<not> mr_disposed (rm_heap m1 ! a)"
    using track_begin_ok [OF _ assms(2-4), of F UNIV] assms(1,4)
    by (auto simp: manager_ok_def track_begin_def fresh_resource_def Let_def split: if_splits)
  let ?m = "m1\<lparr>rm_running := False, rm_done := True, rm_resources := []\<rparr>" and ?as = "map snd (rm_resources m1)"
  obtain y where "dispose_all ?as ?m = (y, m2)" using b(4) assms(5) by (cases "dispose_all ?as ?m") (simp add: rm_stop_def)
  moreover have ob: "objects_ok ?m" "set ?as \<subseteq> {..<a}" using assms(1) b
    by (auto simp: manager_ok_def objects_ok_def cleaned_exactly_def m1)
  moreover have "set ?as \<subseteq> {..<length (rm_heap ?m)}" using ob(2) b(2) by (auto simp del: set_map)
  ultimately have m2: "objects_ok m2" "length (rm_heap m2) = Suc a" "\<not> rm_running m2" "\<not> mr_disposed (rm_heap m2 ! a)"
    using dispose_all_spec [of ?m ?as y m2] b m1(2) ob(2) by (auto simp del: set_map)
  then have a: "manager_ok UNIV UNIV m2" "a < length (rm_heap m2)" "mr_id (rm_heap m2 ! a) = int a + 1"
    by (auto simp: manager_ok_def known_but_def objects_ok_def)
  have m3: "m3 = snd (track_insert now a m2)" using assms(6) by (metis snd_conv)
  have "x = Ok (int a + 1)" using assms(6) track_insert_result [OF m2(1) a(2), of now] by (metis fst_conv)
  with m2 a(2) show ?thesis by (auto simp: m3 track_insert_eq rm_stop_def objects_ok_def cleaned_exactly_def)
qed

lemma stop_misses_late_tracking_witness:
  "gm_get (rm_resources (snd (track_insert 0 0 (snd (rm_stop (snd (track_begin 0 0 (RsRef 7) RtStub (Some None)
     (new_resource_manager [])))))))) 1 = Some 0"
proof -
  let ?m = "new_resource_manager []"
  obtain m1 where b: "track_begin 0 0 (RsRef 7) RtStub (Some None) ?m = (Ok 0, m1)"
    by (simp add: track_begin_def is_stopped_def default_resource_options_def new_resource_manager_def Let_def)
  have "manager_ok {} {} ?m" "rs_hashable (RsRef 7)" "int (length (rm_heap ?m)) < max_int64"
    using new_manager_ok(1) [of "{}" "[]"] by (simp_all add: new_manager_ok(3) rs_hashable_def)
  from stop_misses_late_tracking [OF this b refl prod.collapse] show ?thesis by (simp add: b)
qed

text \<open>
  A reference taken back is not honoured. When the last reference to a resource is released and
  another caller then takes a reference before a worker reaches the queue, both calls succeed and the
  count is one again; the worker disposes of the resource all the same.
\<close>

theorem resurrection_ignored:
  assumes "manager_ok F L m" and "gm_get (rm_resources m) rid = Some a" and "mr_ref_count (rm_heap m ! a) = 1"
    and "ch_buf (rm_queue m) = []" and "0 < ch_cap (rm_queue m)" and "\<not> rm_done m"
    and "(r1, m1) = rm_release rid m" and "(r2, m2) = rm_add_ref rid m1" and "(r3, m3) = cleanup_worker_step pick m2"
  shows "r1 = Ok None \<and> r2 = None \<and> mr_ref_count (rm_heap m2 ! a) = 1 \<and> r3 = Ok True
    \<and> mr_disposed (rm_heap m3 ! a) \<and> mr_ref_count (rm_heap m3 ! a) = 1"
proof -
  have a: "a < length (rm_heap m)" using manager_ok_table [OF assms(1,2)] by simp
  have open_q: "\<not> ch_closed (rm_queue m)" using assms(1) by (simp add: manager_ok_def objects_ok_def)
  have z: "int32 0 = 0" "int32 1 = 1" by (simp_all add: int32_id)
  have m1: "r1 = Ok None" "m1 = (upd_res a (\<lambda>r. r\<lparr>mr_ref_count := 0\<rparr>) m)\<lparr>rm_queue := (rm_queue m)\<lparr>ch_buf := [a]\<rparr>\<rparr>"
    using assms(2-5,7) open_q z by (simp_all add: rm_release_def ch_can_send_def ch_send_def)
  have m2: "r2 = None" "m2 = upd_res a (\<lambda>r. r\<lparr>mr_ref_count := 1\<rparr>) m1"
    using assms(2,8) a z by (simp_all add: m1 rm_add_ref_def upd_res_def)
  define q where "q = (rm_queue m)\<lparr>ch_buf := []\<rparr>"
  obtain y m4 where d: "dispose_resource a (m2\<lparr>rm_queue := q\<rparr>) = (y, m4)" by force
  have "manager_ok F L (upd_res a (\<lambda>r. r\<lparr>mr_ref_count := 1\<rparr>) m)" using assms(1) by (intro manager_ok_upd) auto
  moreover have m2': "m2\<lparr>rm_queue := q\<rparr> = (upd_res a (\<lambda>r. r\<lparr>mr_ref_count := 1\<rparr>) m)\<lparr>rm_queue := q\<rparr>"
    using a by (simp add: m2 m1 upd_res_def)
  ultimately have ok: "objects_ok (m2\<lparr>rm_queue := q\<rparr>)"
    by (auto simp: manager_ok_def objects_ok_def cleaned_exactly_def q_def)
  have "a < length (rm_heap (m2\<lparr>rm_queue := q\<rparr>))" using a by (simp add: m2 m1)
  note s = dispose_resource_spec [OF ok this d, of "{}"]
  have rc: "mr_ref_count (rm_heap m4 ! a) = 1"
    using d a s by (auto simp: dispose_resource_def Let_def m2 m1 untrack_reference_def split: if_splits option.splits)
  have "r3 = Ok True" "m3 = m4"
    using assms(6,9) s d m1 m2 by (auto simp: cleanup_worker_step_def go_select_def ch_can_recv_def ch_recv_def q_def is_ok_iff)
  with s rc m1 m2 a show ?thesis by simp
qed

definition one_resource :: resource_manager where
  "one_resource = fst (resource_run [ReBegin 0 0 (RsRef 7) RtStub (Some None), ReInsert 0 0] (new_resource_manager [], []))"

lemma one_resource_ok: "manager_ok {} UNIV one_resource"
proof -
  let ?es = "[ReBegin 0 0 (RsRef 7) RtStub (Some None), ReInsert 0 0]"
  obtain m fl where w: "resource_run ?es (new_resource_manager [], []) = (m, fl)" by force
  have "fl = []" using w by (simp add: resource_run_def launched_def track_begin_def is_stopped_def
      default_resource_options_def new_resource_manager_def Let_def)
  with resource_run_ok [OF new_manager_ok(1) [of UNIV "[]"], of ?es] w show ?thesis
    by (simp add: one_resource_def new_manager_ok rs_hashable_def)
qed

lemma resurrection_ignored_witness:
  "mr_disposed (rm_heap (snd (cleanup_worker_step 0 (snd (rm_add_ref 1 (snd (rm_release 1 one_resource)))))) ! 0)"
proof -
  have "gm_get (rm_resources one_resource) 1 = Some 0" "mr_ref_count (rm_heap one_resource ! 0) = 1"
    "ch_buf (rm_queue one_resource) = []" "ch_cap (rm_queue one_resource) = 1000" "\<not> rm_done one_resource"
    by (simp_all add: one_resource_def resource_run_def launched_def new_resource_manager_def make_chan_def track_begin_def track_insert_def is_stopped_def
        default_resource_options_def fresh_resource_def track_reference_def rs_hashable_def track_context_def int64_id Let_def)
  from resurrection_ignored [OF one_resource_ok this(1,2,3) _ this(5) prod.collapse prod.collapse prod.collapse, of 0] this(4)
  show ?thesis by simp
qed

end

