(* ===== verification/TransportManager.thy ===== *)
theory TransportManager
  imports Transport Tables Codecs "HOL-Library.Multiset"
begin

text \<open>
  \<open>transport_manager.go\<close>: providers and their priorities, the active transports, failover, health
  checks and load balancers. Transports are objects by address over a state \<open>'t\<close> with the operations
  of the interface. What a provider creates is an argument of the model: its answer may differ from
  one attempt to the next, so it takes the number of attempts made so far. The tickers are not modelled.
\<close>

section \<open>Configuration and providers\<close>

record failover_config =
  fc_enable :: bool
  fc_timeout :: int
  fc_max_attempts :: int
  fc_backoff :: float64
  fc_health_interval :: int

definition default_failover_config :: failover_config where
  "default_failover_config = \<lparr>fc_enable = True, fc_timeout = 5000000000, fc_max_attempts = 3,
     fc_backoff = 2, fc_health_interval = 30000000000\<rparr>"

record health_check_config =
  hk_enabled :: bool
  hk_interval :: int
  hk_timeout :: int
  hk_healthy :: int
  hk_unhealthy :: int
  hk_method :: string

record 't transport_provider =
  pv_type :: string
  pv_priority :: int
  pv_supports :: "string \<Rightarrow> bool"
  pv_health :: health_check_config
  pv_create :: "nat \<Rightarrow> string \<Rightarrow> 't result"

definition http_supports_endpoint :: "string \<Rightarrow> bool" where
  "http_supports_endpoint e \<longleftrightarrow> length e > 7 \<and> (take 7 e = ''http://'' \<or> take 8 e = ''https://'')"

definition http_health_config :: health_check_config where
  "http_health_config = \<lparr>hk_enabled = True, hk_interval = 30000000000, hk_timeout = 5000000000,
     hk_healthy = 2, hk_unhealthy = 3, hk_method = ''ping''\<rparr>"

definition http_transport_provider :: "(nat \<Rightarrow> string \<Rightarrow> 't result) \<Rightarrow> int \<Rightarrow> 't transport_provider" where
  "http_transport_provider create priority = \<lparr>pv_type = ''http'', pv_priority = priority,
     pv_supports = http_supports_endpoint, pv_health = http_health_config, pv_create = create\<rparr>"

definition ws_supports_endpoint :: "string \<Rightarrow> bool" where
  "ws_supports_endpoint e \<longleftrightarrow> length e > 5 \<and> (take 5 e = ''ws://'' \<or> take 6 e = ''wss://'')"

definition ws_health_config :: health_check_config where
  "ws_health_config = \<lparr>hk_enabled = True, hk_interval = 15000000000, hk_timeout = 3000000000,
     hk_healthy = 1, hk_unhealthy = 2, hk_method = ''echo''\<rparr>"

text \<open>Creating a websocket transport is making it and then connecting it.\<close>

definition ws_create :: "(nat \<Rightarrow> string \<Rightarrow> 't result) \<Rightarrow> ('t \<Rightarrow> 't result) \<Rightarrow> nat \<Rightarrow> string \<Rightarrow> 't result" where
  "ws_create new connect n e = bind_outcome (new n e) connect"

definition websocket_transport_provider :: "(nat \<Rightarrow> string \<Rightarrow> 't result) \<Rightarrow> ('t \<Rightarrow> 't result) \<Rightarrow> int \<Rightarrow> 't transport_provider" where
  "websocket_transport_provider new connect priority = \<lparr>pv_type = ''websocket'', pv_priority = priority,
     pv_supports = ws_supports_endpoint, pv_health = ws_health_config, pv_create = ws_create new connect\<rparr>"

section \<open>Health checks\<close>

record transport_health =
  th_transport :: nat
  th_config :: health_check_config
  th_healthy :: bool
  th_successes :: int
  th_failures :: int
  th_last_check :: int

record health_checker =
  hc_transports :: "(nat, transport_health) gomap"
  hc_interval :: int
  hc_running :: bool
  hc_stop_closed :: bool

definition new_health_checker :: "int \<Rightarrow> health_checker" where
  "new_health_checker interval = \<lparr>hc_transports = [], hc_interval = interval, hc_running = False, hc_stop_closed = False\<rparr>"

definition hc_start :: "health_checker \<Rightarrow> health_checker" where
  "hc_start h = (if hc_running h then h else h\<lparr>hc_running := True\<rparr>)"

text \<open>A second stop after a second start closes a closed channel.\<close>

definition hc_stop :: "health_checker \<Rightarrow> unit result \<times> health_checker" where
  "hc_stop h =
     (if \<not> hc_running h then (Ok (), h)
      else if hc_stop_closed h then (Panic, h\<lparr>hc_running := False\<rparr>)
      else (Ok (), h\<lparr>hc_running := False, hc_stop_closed := True\<rparr>))"

definition hc_monitor :: "int \<Rightarrow> nat \<Rightarrow> health_check_config \<Rightarrow> health_checker \<Rightarrow> health_checker" where
  "hc_monitor now a c h =
     (if \<not> hk_enabled c then h
      else h\<lparr>hc_transports := gm_put a \<lparr>th_transport = a, th_config = c, th_healthy = True, th_successes = 0,
             th_failures = 0, th_last_check = now\<rparr> (hc_transports h)\<rparr>)"

definition hc_stop_monitoring :: "nat \<Rightarrow> health_checker \<Rightarrow> health_checker" where
  "hc_stop_monitoring a h = h\<lparr>hc_transports := gm_del a (hc_transports h)\<rparr>"

definition ping_check :: "'t \<Rightarrow> bool" where
  "ping_check t \<longleftrightarrow> True"

definition echo_message :: "int \<Rightarrow> string" where
  "echo_message now = ''{\"type\":\"healthCheck\",\"timestamp\":'' @ int_to_dec now @ ''}''"

text \<open>The message as bytes; the transport's own error, panic or hang is the check's.\<close>

definition echo_check :: "'t transport_ops \<Rightarrow> ctx \<Rightarrow> int \<Rightarrow> 't \<Rightarrow> bool result \<times> 't" where
  "echo_check ops c now t =
     (case tr_send ops c (map (\<lambda>x. word_of_nat (of_char x)) (echo_message now)) t of
        (Ok _, t1) \<Rightarrow>
          (case tr_receive ops c t1 of
             (Ok _, t2) \<Rightarrow> (Ok True, t2) | (Err e, t2) \<Rightarrow> (Ok False, t2) | (Panic, t2) \<Rightarrow> (Panic, t2) | (Hang, t2) \<Rightarrow> (Hang, t2))
      | (Err e, t1) \<Rightarrow> (Ok False, t1) | (Panic, t1) \<Rightarrow> (Panic, t1) | (Hang, t1) \<Rightarrow> (Hang, t1))"

definition perform_health_check :: "'t transport_ops \<Rightarrow> ctx \<Rightarrow> int \<Rightarrow> transport_health \<Rightarrow> 't \<Rightarrow> bool result \<times> 't" where
  "perform_health_check ops c now th t =
     (if hk_method (th_config th) = ''ping'' then (Ok (ping_check t), t)
      else if hk_method (th_config th) = ''echo'' then echo_check ops c now t
      else (Ok (ping_check t), t))"

definition update_health :: "int \<Rightarrow> bool \<Rightarrow> transport_health \<Rightarrow> transport_health" where
  "update_health now healthy th =
     (let th = th\<lparr>th_last_check := now\<rparr>
      in if healthy
         then let n = int64 (th_successes th + 1)
           in th\<lparr>th_successes := n, th_failures := 0,
                 th_healthy := (if \<not> th_healthy th \<and> n \<ge> hk_healthy (th_config th) then True else th_healthy th)\<rparr>
         else let n = int64 (th_failures th + 1)
           in th\<lparr>th_failures := n, th_successes := 0,
                 th_healthy := (if th_healthy th \<and> n \<ge> hk_unhealthy (th_config th) then False else th_healthy th)\<rparr>)"

section \<open>The manager\<close>

record 't transport_manager =
  tm_providers :: "(string, 't transport_provider) gomap"
  tm_active :: "(string, nat) gomap"
  tm_config :: failover_config
  tm_checker :: "health_checker option"
  tm_heap :: "'t list"
  tm_attempts :: nat
  tm_active_count :: int
  tm_failovers :: int

definition new_transport_manager :: "failover_config list \<Rightarrow> 't transport_manager" where
  "new_transport_manager config =
     (let c = (case config of x # _ \<Rightarrow> x | [] \<Rightarrow> default_failover_config)
      in \<lparr>tm_providers = [], tm_active = [], tm_config = c,
          tm_checker = (if fc_enable c then Some (hc_start (new_health_checker (fc_health_interval c))) else None),
          tm_heap = [], tm_attempts = 0, tm_active_count = 0, tm_failovers = 0\<rparr>)"

definition register_provider :: "'t transport_provider \<Rightarrow> 't transport_manager \<Rightarrow> goerr option \<times> 't transport_manager" where
  "register_provider p m =
     (if gm_get (tm_providers m) (pv_type p) \<noteq> None
      then (Some (EMsg ''transport provider %s already registered''), m)
      else (None, m\<lparr>tm_providers := gm_put (pv_type p) p (tm_providers m)\<rparr>))"

text \<open>The exchange sort by priority, with its two loops.\<close>

definition swap_lower :: "('a \<Rightarrow> int) \<Rightarrow> nat \<Rightarrow> nat \<Rightarrow> 'a list \<Rightarrow> 'a list" where
  "swap_lower f i j xs = (if f (xs ! i) < f (xs ! j) then xs[i := xs ! j, j := xs ! i] else xs)"

definition exchange_round :: "('a \<Rightarrow> int) \<Rightarrow> nat \<Rightarrow> 'a list \<Rightarrow> 'a list" where
  "exchange_round f i xs = fold (swap_lower f i) [i + 1..<length xs] xs"

definition exchange_sort :: "('a \<Rightarrow> int) \<Rightarrow> 'a list \<Rightarrow> 'a list" where
  "exchange_sort f xs = fold (exchange_round f) [0..<length xs - 1] xs"

definition find_suitable_providers :: "string \<Rightarrow> 't transport_manager \<Rightarrow> 't transport_provider list" where
  "find_suitable_providers e m =
     exchange_sort pv_priority (filter (\<lambda>p. pv_supports p e) (map snd (tm_providers m)))"

text \<open>The loop over the providers: the first that creates a transport, or the last error.\<close>

fun try_providers :: "'t transport_provider list \<Rightarrow> string \<Rightarrow> nat \<Rightarrow> goerr option
    \<Rightarrow> ('t transport_provider \<times> 't) option result \<times> goerr option \<times> nat" where
  "try_providers [] e n prev = (Ok None, prev, n)"
| "try_providers (p # ps) e n prev =
     (case pv_create p n e of
        Ok t \<Rightarrow> (Ok (Some (p, t)), prev, Suc n)
      | Err er \<Rightarrow> try_providers ps e (Suc n) (Some er)
      | Panic \<Rightarrow> (Panic, prev, Suc n) | Hang \<Rightarrow> (Hang, prev, Suc n))"

text \<open>
  \<open>fmt.Errorf\<close> with \<open>%w\<close> of the last error; with no error at all the text says so. Between the look
  into the table of active transports and the creation others may act.
\<close>

definition wrap_last :: "string \<Rightarrow> goerr option \<Rightarrow> goerr" where
  "wrap_last s prev = (case prev of Some e \<Rightarrow> EWrap s e | None \<Rightarrow> EMsg (s @ ''%!w(<nil>)''))"

definition get_transport :: "('t transport_manager \<Rightarrow> 't transport_manager) \<Rightarrow> int \<Rightarrow> string \<Rightarrow> 't transport_manager
    \<Rightarrow> nat result \<times> 't transport_manager" where
  "get_transport others now e m =
     (case gm_get (tm_active m) e of
        Some a \<Rightarrow> (Ok a, m)
      | None \<Rightarrow>
          let m0 = others m; ps = find_suitable_providers e m0
          in if length ps = 0 then (Err (EMsg ''no suitable transport provider for endpoint: %s''), m0)
          else (case try_providers ps e (tm_attempts m0) None of
              (Ok (Some (p, t)), prev, n) \<Rightarrow>
                let a = length (tm_heap m0);
                    m1 = m0\<lparr>tm_attempts := n, tm_heap := tm_heap m0 @ [t], tm_active := gm_put e a (tm_active m0),
                         tm_checker := map_option (hc_monitor now a (pv_health p)) (tm_checker m0),
                         tm_active_count := int64 (tm_active_count m0 + 1)\<rparr>
                in (Ok a, m1)
            | (Ok None, prev, n) \<Rightarrow> (Err (wrap_last ''failed to create transport: '' prev), m0\<lparr>tm_attempts := n\<rparr>)
            | (Err er, _, n) \<Rightarrow> (Err er, m0\<lparr>tm_attempts := n\<rparr>)
            | (Panic, _, n) \<Rightarrow> (Panic, m0\<lparr>tm_attempts := n\<rparr>)
            | (Hang, _, n) \<Rightarrow> (Hang, m0\<lparr>tm_attempts := n\<rparr>)))"

definition get_transport_with_context :: "ctx \<Rightarrow> int \<Rightarrow> string \<Rightarrow> 't transport_manager \<Rightarrow> nat result \<times> 't transport_manager" where
  "get_transport_with_context c now e m = get_transport (\<lambda>m. m) now e m"

text \<open>The attempts that are left, and the pause before the next one (which is added to the clock).\<close>

fun failover_loop :: "nat \<Rightarrow> bool \<Rightarrow> int \<Rightarrow> goerr option \<Rightarrow> int \<Rightarrow> string \<Rightarrow> 't transport_manager \<Rightarrow> nat result \<times> 't transport_manager" where
  "failover_loop 0 again backoff prev now e m = (Err (wrap_last ''failover exhausted after %d attempts: '' prev), m)"
| "failover_loop (Suc k) again backoff prev now e m =
     (let now' = (if again then now + backoff else now);
          backoff' = (if again then f64_to_int64 (f64_round (f64_of_int backoff * fc_backoff (tm_config m))) else backoff);
          m1 = (if again then m\<lparr>tm_failovers := int64 (tm_failovers m + 1)\<rparr> else m)
      in case get_transport_with_context CtxLive now' e m1 of
        (Ok a, m2) \<Rightarrow> (Ok a, m2)
      | (Err er, m2) \<Rightarrow> failover_loop k True backoff' (Some er) now' e m2
      | (Panic, m2) \<Rightarrow> (Panic, m2) | (Hang, m2) \<Rightarrow> (Hang, m2))"

definition get_transport_with_failover :: "int \<Rightarrow> string \<Rightarrow> 't transport_manager \<Rightarrow> nat result \<times> 't transport_manager" where
  "get_transport_with_failover now e m =
     (if \<not> fc_enable (tm_config m) then get_transport (\<lambda>m. m) now e m
      else failover_loop (nat (fc_max_attempts (tm_config m))) False 1000000000 None now e m)"

definition remove_transport :: "'t transport_ops \<Rightarrow> string \<Rightarrow> 't transport_manager \<Rightarrow> goerr option \<times> 't transport_manager" where
  "remove_transport ops e m =
     (case gm_get (tm_active m) e of
        None \<Rightarrow> (Some (EMsg ''transport not found for endpoint: %s''), m)
      | Some a \<Rightarrow>
          let (err, t) = tr_close ops (tm_heap m ! a)
          in (err, m\<lparr>tm_heap := (tm_heap m)[a := t], tm_active := gm_del e (tm_active m),
               tm_checker := map_option (hc_stop_monitoring a) (tm_checker m),
               tm_active_count := int64 (tm_active_count m - 1)\<rparr>))"

definition tm_stats :: "'t transport_manager \<Rightarrow> int \<times> int" where
  "tm_stats m = (int (gm_len (tm_active m)), tm_failovers m)"

fun close_transports :: "'t transport_ops \<Rightarrow> nat list \<Rightarrow> goerr option \<Rightarrow> 't list \<Rightarrow> goerr option \<times> 't list" where
  "close_transports ops [] prev ts = (prev, ts)"
| "close_transports ops (a # as) prev ts =
     (let (err, t) = tr_close ops (ts ! a)
      in close_transports ops as (if err \<noteq> None then err else prev) (ts[a := t]))"

definition tm_close :: "'t transport_ops \<Rightarrow> 't transport_manager \<Rightarrow> goerr option result \<times> 't transport_manager" where
  "tm_close ops m =
     (let (prev, ts) = close_transports ops (map snd (tm_active m)) None (tm_heap m);
          m1 = m\<lparr>tm_heap := ts, tm_active := []\<rparr>
      in case tm_checker m1 of
        None \<Rightarrow> (Ok prev, m1\<lparr>tm_active_count := 0\<rparr>)
      | Some h \<Rightarrow>
          (case hc_stop h of
             (Ok _, h') \<Rightarrow> (Ok prev, m1\<lparr>tm_checker := Some h', tm_active_count := 0\<rparr>)
           | (Err er, h') \<Rightarrow> (Err er, m1\<lparr>tm_checker := Some h'\<rparr>)
           | (Panic, h') \<Rightarrow> (Panic, m1\<lparr>tm_checker := Some h'\<rparr>)
           | (Hang, h') \<Rightarrow> (Hang, m1\<lparr>tm_checker := Some h'\<rparr>)))"

definition check_transport_health :: "'t transport_ops \<Rightarrow> ctx \<Rightarrow> int \<Rightarrow> nat \<Rightarrow> 't transport_manager \<Rightarrow> unit result \<times> 't transport_manager" where
  "check_transport_health ops c now a m =
     (case tm_checker m of
        None \<Rightarrow> (Ok (), m)
      | Some h \<Rightarrow>
          (case gm_get (hc_transports h) a of
             None \<Rightarrow> (Ok (), m)
           | Some th \<Rightarrow>
               (case perform_health_check ops c now th (tm_heap m ! a) of
                  (Ok healthy, t) \<Rightarrow> (Ok (), m\<lparr>tm_heap := (tm_heap m)[a := t],
                     tm_checker := Some (h\<lparr>hc_transports := gm_put a (update_health now healthy th) (hc_transports h)\<rparr>)\<rparr>)
                | (Err er, t) \<Rightarrow> (Err er, m\<lparr>tm_heap := (tm_heap m)[a := t]\<rparr>)
                | (Panic, t) \<Rightarrow> (Panic, m\<lparr>tm_heap := (tm_heap m)[a := t]\<rparr>)
                | (Hang, t) \<Rightarrow> (Hang, m\<lparr>tm_heap := (tm_heap m)[a := t]\<rparr>))))"

fun check_all :: "'t transport_ops \<Rightarrow> ctx \<Rightarrow> int \<Rightarrow> nat list \<Rightarrow> 't transport_manager \<Rightarrow> unit result \<times> 't transport_manager" where
  "check_all ops c now [] m = (Ok (), m)"
| "check_all ops c now (a # as) m =
     (case check_transport_health ops c now a m of (Ok _, m1) \<Rightarrow> check_all ops c now as m1 | r \<Rightarrow> r)"

definition perform_health_checks :: "'t transport_ops \<Rightarrow> ctx \<Rightarrow> int \<Rightarrow> 't transport_manager \<Rightarrow> unit result \<times> 't transport_manager" where
  "perform_health_checks ops c now m =
     (case tm_checker m of None \<Rightarrow> (Ok (), m) | Some h \<Rightarrow> check_all ops c now (map fst (hc_transports h)) m)"

section \<open>Load balancers\<close>

definition round_robin_select :: "'a list \<Rightarrow> int \<Rightarrow> 'a result \<times> int" where
  "round_robin_select ts counter =
     (if length ts = 0 then (Err (EMsg ''no transports available''), counter)
      else let i = go_rem counter (int (length ts))
        in (if 0 \<le> i \<and> i < int (length ts) then Ok (ts ! nat i) else Panic, int64 (counter + 1)))"

definition round_robin_type :: string where "round_robin_type = ''round-robin''"

definition set_weight :: "nat \<Rightarrow> int \<Rightarrow> (nat, int) gomap \<Rightarrow> (nat, int) gomap" where
  "set_weight a w ws = gm_put a w ws"

definition weight_of :: "(nat, int) gomap \<Rightarrow> nat \<Rightarrow> int" where
  "weight_of ws a = (let w = (case gm_get ws a of Some w \<Rightarrow> w | None \<Rightarrow> 0) in if w \<le> 0 then 1 else w)"

fun pick_weighted :: "(nat, int) gomap \<Rightarrow> int \<Rightarrow> int \<Rightarrow> nat list \<Rightarrow> nat option" where
  "pick_weighted ws target current [] = None"
| "pick_weighted ws target current (a # as) =
     (let c = int64 (current + weight_of ws a) in if c > target then Some a else pick_weighted ws target c as)"

definition weighted_select :: "int \<Rightarrow> nat list \<Rightarrow> (nat, int) gomap \<Rightarrow> nat result" where
  "weighted_select now ts ws =
     (if length ts = 0 then Err (EMsg ''no transports available'')
      else let total = fold (\<lambda>a n. int64 (n + weight_of ws a)) ts 0
        in if total = 0 then Ok (ts ! 0)
        else (case pick_weighted ws (go_rem now total) 0 ts of Some a \<Rightarrow> Ok a | None \<Rightarrow> Ok (ts ! 0)))"

definition weighted_type :: string where "weighted_type = ''weighted''"

section \<open>The exchange sort\<close>

lemma length_swap_lower [simp]: "length (swap_lower f i j xs) = length xs"
  by (simp add: swap_lower_def)

lemma mset_swap_lower: "i < length xs \<Longrightarrow> j < length xs \<Longrightarrow> mset (swap_lower f i j xs) = mset xs"
  using mset_swap [of j xs i] by (simp add: swap_lower_def)

text \<open>The first \<open>i\<close> elements are at least as high as all after them.\<close>

definition settled :: "('a \<Rightarrow> int) \<Rightarrow> nat \<Rightarrow> 'a list \<Rightarrow> bool" where
  "settled f i xs \<longleftrightarrow> (\<forall>a < i. \<forall>b. a < b \<longrightarrow> b < length xs \<longrightarrow> f (xs ! b) \<le> f (xs ! a))"

lemma settled_swap:
  assumes "settled f i xs" and "i < j" and "j < length xs"
  shows "settled f i (swap_lower f i j xs)"
  using assms by (auto simp: settled_def swap_lower_def nth_list_update)

lemma swap_lower_round:
  assumes "settled f i xs" and "i < k" and "k \<le> length xs"
  defines "ys \<equiv> fold (swap_lower f i) [i + 1..<k] xs"
  shows "length ys = length xs \<and> mset ys = mset xs \<and> settled f i ys \<and> (\<forall>j. i < j \<longrightarrow> j < k \<longrightarrow> f (ys ! j) \<le> f (ys ! i))"
  using assms(2,3) unfolding ys_def
proof (induction k)
  case (Suc k)
  show ?case
  proof (cases "i = k")
    case True
    with assms(1) show ?thesis by simp
  next
    case False
    let ?z = "fold (swap_lower f i) [i + 1..<k] xs"
    from False Suc have z: "length ?z = length xs" "mset ?z = mset xs" "settled f i ?z"
      "\<forall>j. i < j \<longrightarrow> j < k \<longrightarrow> f (?z ! j) \<le> f (?z ! i)" by auto
    have e: "fold (swap_lower f i) [i + 1..<Suc k] xs = swap_lower f i k ?z" using False Suc.prems by simp
    have ik: "i < k" "k < length ?z" using False Suc.prems z(1) by auto
    have "f (swap_lower f i k ?z ! j) \<le> f (swap_lower f i k ?z ! i)" if "i < j" "j < Suc k" for j
      using that ik z(4) by (fastforce simp: swap_lower_def nth_list_update less_Suc_eq)
    with z ik settled_swap [OF z(3) ik] mset_swap_lower [of i ?z k f] show ?thesis unfolding e by simp
  qed
qed simp

lemma exchange_round_settles:
  assumes "settled f i xs" and "i < length xs"
  shows "length (exchange_round f i xs) = length xs \<and> mset (exchange_round f i xs) = mset xs
    \<and> settled f (Suc i) (exchange_round f i xs)"
  using swap_lower_round [OF assms order_refl] by (auto simp: exchange_round_def settled_def less_Suc_eq)

lemma exchange_rounds:
  "k \<le> length xs \<Longrightarrow> length (fold (exchange_round f) [0..<k] xs) = length xs
     \<and> mset (fold (exchange_round f) [0..<k] xs) = mset xs \<and> settled f k (fold (exchange_round f) [0..<k] xs)"
proof (induction k)
  case 0
  then show ?case by (simp add: settled_def)
next
  case (Suc k)
  let ?z = "fold (exchange_round f) [0..<k] xs"
  from Suc have z: "length ?z = length xs" "mset ?z = mset xs" "settled f k ?z" "k < length ?z" by auto
  from exchange_round_settles [OF z(3,4)] z show ?case by simp
qed

lemma exchange_sort_descends:
  "mset (exchange_sort f xs) = mset xs \<and> sorted_wrt (\<lambda>x y. f y \<le> f x) (exchange_sort f xs)"
  using exchange_rounds [of "length xs - 1" xs f]
  by (auto simp: exchange_sort_def settled_def sorted_wrt_iff_nth_less)

text \<open>The priorities come out as a reference sort puts them.\<close>

lemma exchange_sort_reference: "map f (exchange_sort f xs) = rev (sort (map f xs))"
proof -
  have "sorted (rev (map f (exchange_sort f xs)))"
    using exchange_sort_descends [of f xs] by (simp add: sorted_wrt_rev sorted_wrt_map)
  moreover have "mset (rev (map f (exchange_sort f xs))) = mset (map f xs)"
    using exchange_sort_descends [of f xs] by simp
  ultimately have "sort (map f xs) = rev (map f (exchange_sort f xs))" by (intro properties_for_sort) auto
  then show ?thesis by simp
qed

section \<open>Selection and health\<close>

lemma try_providers_some:
  "try_providers ps e n prev = (Ok (Some (p, t)), prev', n') \<Longrightarrow>
     \<exists>us vs. ps = us @ p # vs \<and> pv_create p (n + length us) e = Ok t
       \<and> (\<forall>k < length us. \<exists>er. pv_create (us ! k) (n + k) e = Err er)"
proof (induction ps arbitrary: n prev)
  case (Cons q ps)
  show ?case
  proof (cases "pv_create q n e")
    case (Ok x)
    with Cons.prems show ?thesis by (intro exI [of _ "[]"] exI [of _ ps]) auto
  next
    case (Err er)
    with Cons.prems have "try_providers ps e (Suc n) (Some er) = (Ok (Some (p, t)), prev', n')" by simp
    from Cons.IH [OF this] obtain us vs where u: "ps = us @ p # vs" "pv_create p (Suc n + length us) e = Ok t"
      "\<forall>k < length us. \<exists>er. pv_create (us ! k) (Suc n + k) e = Err er" by blast
    have "\<exists>er. pv_create ((q # us) ! k) (n + k) e = Err er" if "k < length (q # us)" for k
      using that u(3) Err by (cases k) auto
    with u show ?thesis by (intro exI [of _ "q # us"] exI [of _ vs]) simp
  qed (use Cons.prems in auto)
qed simp

text \<open>The number of equal results at the end of a history, and a run of health checks.\<close>

definition trailing :: "bool \<Rightarrow> bool list \<Rightarrow> nat" where
  "trailing b rs = length (takeWhile (\<lambda>x. x = b) (rev rs))"

definition health_run :: "bool list \<Rightarrow> transport_health \<Rightarrow> transport_health" where
  "health_run rs th = fold (update_health 0) rs th"

lemma trailing_snoc [simp]: "trailing b (rs @ [x]) = (if x = b then Suc (trailing b rs) else 0)"
  by (simp add: trailing_def)

lemma trailing_Nil [simp]: "trailing b [] = 0"
  by (simp add: trailing_def)

lemma trailing_le: "trailing b rs \<le> length rs"
  unfolding trailing_def by (metis length_rev length_takeWhile_le)

lemma health_run_snoc: "health_run (rs @ [x]) th = update_health 0 x (health_run rs th)"
  by (simp add: health_run_def)

lemma health_run_counts:
  assumes "th_successes th = 0" and "th_failures th = 0" and "int (length rs) < max_int64"
  shows "th_successes (health_run rs th) = int (trailing True rs) \<and> th_failures (health_run rs th) = int (trailing False rs)
    \<and> th_config (health_run rs th) = th_config th"
  using assms(3)
proof (induction rs rule: rev_induct)
  case Nil
  with assms show ?case by (simp add: health_run_def)
next
  case (snoc x rs)
  have "int64 (1 + int (trailing b rs)) = 1 + int (trailing b rs)" for b
    using trailing_le [of b rs] snoc.prems by (intro int64_id) auto
  with snoc show ?case by (auto simp: health_run_snoc update_health_def Let_def add.commute)
qed

lemma health_run_flips:
  assumes "th_healthy th" and "th_successes th = 0" and "th_failures th = 0" and "int (length rs) < max_int64"
    and "1 \<le> hk_healthy (th_config th)" and "1 \<le> hk_unhealthy (th_config th)"
  shows "(hk_unhealthy (th_config th) \<le> int (trailing False rs) \<longrightarrow> \<not> th_healthy (health_run rs th))
    \<and> (hk_healthy (th_config th) \<le> int (trailing True rs) \<longrightarrow> th_healthy (health_run rs th))"
  using assms(4)
proof (induction rs rule: rev_induct)
  case Nil
  with assms show ?case by simp
next
  case (snoc x rs)
  have len: "int (length rs) < max_int64" using snoc.prems by simp
  note c = health_run_counts [OF assms(2,3) len]
  have "int64 (1 + int (trailing b rs)) = 1 + int (trailing b rs)" for b
    using trailing_le [of b rs] snoc.prems by (intro int64_id) auto
  with snoc.IH [OF len] c assms(5,6) show ?case
    by (auto simp: health_run_snoc update_health_def Let_def add.commute)
qed

section \<open>Balancing by weight\<close>

text \<open>The reference: every transport as often as its weight says, and the element at a position.\<close>

definition weight_wheel :: "(nat, int) gomap \<Rightarrow> nat list \<Rightarrow> nat list" where
  "weight_wheel ws ts = concat (map (\<lambda>a. replicate (nat (weight_of ws a)) a) ts)"

lemma weight_of_pos: "1 \<le> weight_of ws a"
  by (simp add: weight_of_def Let_def)

lemma length_weight_wheel: "int (length (weight_wheel ws ts)) = sum_list (map (weight_of ws) ts)"
proof (induction ts)
  case (Cons a ts)
  then show ?case using weight_of_pos [of ws a] by (simp add: weight_wheel_def)
qed (simp add: weight_wheel_def)

lemma sum_weights_nonneg: "0 \<le> sum_list (map (weight_of ws) ts)"
  unfolding length_weight_wheel [symmetric] by simp

lemma total_weight:
  "0 \<le> n \<Longrightarrow> n + sum_list (map (weight_of ws) ts) \<le> max_int64 \<Longrightarrow>
     fold (\<lambda>a n. int64 (n + weight_of ws a)) ts n = n + sum_list (map (weight_of ws) ts)"
proof (induction ts arbitrary: n)
  case (Cons a ts)
  have "int64 (n + weight_of ws a) = n + weight_of ws a"
    using Cons.prems weight_of_pos [of ws a] sum_weights_nonneg [of ws ts] by (intro int64_id) auto
  with Cons weight_of_pos [of ws a] show ?case by (simp add: add.assoc)
qed simp

lemma pick_weighted_wheel:
  assumes "0 \<le> c" and "c \<le> target" and "target < c + sum_list (map (weight_of ws) ts)"
    and "c + sum_list (map (weight_of ws) ts) \<le> max_int64"
  shows "pick_weighted ws target c ts = Some (weight_wheel ws ts ! nat (target - c))"
  using assms
proof (induction ts arbitrary: c)
  case (Cons a ts)
  have w: "1 \<le> weight_of ws a" by (rule weight_of_pos)
  have c: "int64 (c + weight_of ws a) = c + weight_of ws a"
    using Cons.prems w sum_weights_nonneg [of ws ts] by (intro int64_id) auto
  show ?case
  proof (cases "target < c + weight_of ws a")
    case True
    with c Cons.prems show ?thesis by (simp add: weight_wheel_def nth_append nat_less_iff)
  next
    case False
    with c w Cons.prems have "pick_weighted ws target c (a # ts) = Some (weight_wheel ws ts ! nat (target - (c + weight_of ws a)))"
      by (simp add: Let_def Cons.IH)
    also have "nat (target - (c + weight_of ws a)) = nat (target - c) - nat (weight_of ws a)"
      using False w Cons.prems(2) by simp
    finally show ?thesis using False w Cons.prems(2) by (simp add: weight_wheel_def nth_append nat_less_iff)
  qed
qed simp

section \<open>Checks and active transports\<close>

lemma check_transport_health_active [simp]: "tm_active (snd (check_transport_health ops c now a m)) = tm_active m"
  by (auto simp: check_transport_health_def split: option.splits prod.splits outcome.splits)

lemma check_all_active [simp]: "tm_active (snd (check_all ops c now as m)) = tm_active m"
proof (induction "as" arbitrary: m)
  case (Cons a "as")
  then show ?case using check_transport_health_active [of ops c now a m]
    by (auto simp del: check_transport_health_active split: prod.splits outcome.splits)
qed simp

section \<open>Properties\<close>

text \<open>
  C22: The manager picks the best provider that works. A transport created for an endpoint comes from a
  registered provider that supports the endpoint; every supporting provider of higher priority was
  tried before and failed, the priorities tried are those a reference sort yields, and the transport
  is stored for the endpoint.
\<close>

theorem best_provider_selected:
  assumes "get_transport (\<lambda>m. m) now e m = (Ok a, m')" and "gm_get (tm_active m) e = None"
  shows "\<exists>us p vs. set (us @ p # vs) = {p \<in> snd ` set (tm_providers m). pv_supports p e}
    \<and> map pv_priority (us @ p # vs) = rev (sort (map pv_priority (filter (\<lambda>p. pv_supports p e) (map snd (tm_providers m)))))
    \<and> (\<forall>k < length us. \<exists>er. pv_create (us ! k) (tm_attempts m + k) e = Err er)
    \<and> pv_create p (tm_attempts m + length us) e = Ok (tm_heap m' ! a) \<and> gm_get (tm_active m') e = Some a"
proof -
  let ?ps = "find_suitable_providers e m"
  obtain p t prev n where t: "try_providers ?ps e (tm_attempts m) None = (Ok (Some (p, t)), prev, n)"
    and m': "tm_heap m' = tm_heap m @ [t]" "a = length (tm_heap m)" "tm_active m' = gm_put e a (tm_active m)"
    using assms by (auto simp: get_transport_def Let_def split: if_splits prod.splits outcome.splits option.splits)
  from try_providers_some [OF t] obtain us vs where u: "?ps = us @ p # vs" "pv_create p (tm_attempts m + length us) e = Ok t"
    "\<forall>k < length us. \<exists>er. pv_create (us ! k) (tm_attempts m + k) e = Err er" by blast
  have "set (us @ p # vs) = set (filter (\<lambda>p. pv_supports p e) (map snd (tm_providers m)))"
    unfolding u(1) [symmetric] find_suitable_providers_def by (rule mset_eq_setD [OF exchange_sort_descends [THEN conjunct1]])
  moreover have "map pv_priority (us @ p # vs) = rev (sort (map pv_priority (filter (\<lambda>p. pv_supports p e) (map snd (tm_providers m)))))"
    unfolding u(1) [symmetric] find_suitable_providers_def by (rule exchange_sort_reference)
  ultimately show ?thesis using u m' by (intro exI [of _ us] exI [of _ p] exI [of _ vs]) auto
qed

definition sample_tm :: "memory_transport transport_manager" where
  "sample_tm = snd (register_provider (websocket_transport_provider (\<lambda>n e. Err (EMsg [])) Ok 9)
     (snd (register_provider ((http_transport_provider (\<lambda>n e. Ok (transport1 new_memory_transport_pair)) 5)
       \<lparr>pv_supports := \<lambda>e. True\<rparr>) (new_transport_manager []))))"

lemma best_provider_selected_witness:
  "\<exists>m' p. get_transport (\<lambda>m. m) 0 ''ws://h'' sample_tm = (Ok 0, m') \<and> pv_create (p :: memory_transport transport_provider) 1 ''ws://h'' = Ok (tm_heap m' ! 0)"
proof -
  obtain m' where m': "get_transport (\<lambda>m. m) 0 ''ws://h'' sample_tm = (Ok 0, m')"
    and none: "gm_get (tm_active sample_tm) ''ws://h'' = None" "tm_attempts sample_tm = 0"
    by (auto simp: sample_tm_def new_transport_manager_def default_failover_config_def register_provider_def
        websocket_transport_provider_def http_transport_provider_def ws_create_def ws_supports_endpoint_def get_transport_def
        find_suitable_providers_def exchange_sort_def exchange_round_def swap_lower_def Let_def)
  from best_provider_selected [OF m' none(1)] obtain us p vs where
    u: "pv_create p (length us) ''ws://h'' = Ok (tm_heap m' ! 0)" "set (us @ p # vs) = {p \<in> snd ` set (tm_providers sample_tm). pv_supports p ''ws://h''}"
    using none(2) by auto
  have "p \<in> set (us @ p # vs)" by simp
  then have "pv_create p (length us) ''ws://h'' = pv_create p 1 ''ws://h''"
    unfolding u(2) by (auto simp: sample_tm_def new_transport_manager_def register_provider_def websocket_transport_provider_def
        http_transport_provider_def ws_create_def Let_def)
  with u(1) have "pv_create p 1 ''ws://h'' = Ok (tm_heap m' ! 0)" by simp
  with m' show ?thesis by blast
qed

text \<open>
  C24: Health has hysteresis. A transport that starts healthy is unhealthy once as many checks in a row
  have failed as its threshold says, healthy again once as many in a row have succeeded as the other
  threshold says, and between the thresholds a check leaves its health as it was.
\<close>

theorem health_hysteresis:
  assumes "th_healthy th" and "th_successes th = 0" and "th_failures th = 0" and "int (length rs) + 1 < max_int64"
    and "1 \<le> hk_healthy (th_config th)" and "1 \<le> hk_unhealthy (th_config th)"
  shows "th_healthy (health_run (rs @ [x]) th) \<longleftrightarrow>
    (if hk_unhealthy (th_config th) \<le> int (trailing False (rs @ [x])) then False
     else if hk_healthy (th_config th) \<le> int (trailing True (rs @ [x])) then True
     else th_healthy (health_run rs th))"
proof -
  have len: "int (length rs) < max_int64" "int (length (rs @ [x])) < max_int64" using assms(4) by simp_all
  note c = health_run_counts [OF assms(2,3) len(1)]
  have "int64 (1 + int (trailing b rs)) = 1 + int (trailing b rs)" for b
    using trailing_le [of b rs] len by (intro int64_id) auto
  with c have "th_healthy (health_run (rs @ [x]) th) = th_healthy (health_run rs th)"
    if "\<not> hk_unhealthy (th_config th) \<le> int (trailing False (rs @ [x]))" "\<not> hk_healthy (th_config th) \<le> int (trailing True (rs @ [x]))"
    using that by (auto simp: health_run_snoc update_health_def Let_def add.commute split: if_splits)
  then show ?thesis using health_run_flips [OF assms(1,2,3) len(2) assms(5,6)] by auto
qed

definition sample_health :: transport_health where
  "sample_health = \<lparr>th_transport = 0, th_config = http_health_config, th_healthy = True, th_successes = 0, th_failures = 0, th_last_check = 0\<rparr>"

lemma health_hysteresis_witness:
  "\<not> th_healthy (health_run [False, False, False] sample_health) \<and> th_healthy (health_run [False, False, True, False] sample_health)"
  using health_hysteresis [of sample_health "[False, False]" False] health_hysteresis [of sample_health "[False, False, True]" False]
    health_hysteresis [of sample_health "[False, False]" True] health_hysteresis [of sample_health "[False]" False]
    health_hysteresis [of sample_health "[]" False]
  by (simp add: sample_health_def http_health_config_def trailing_def health_run_def)

text \<open>
  An echo check eats a message. On an open memory transport with a message waiting, a health check
  by echo reports success, removes the oldest waiting message, which no receiver will see, and leaves
  its own test message to the peer's application.
\<close>

theorem echo_check_eats_message:
  assumes "\<not> mt_closed t" and "\<not> mt_close_ch_closed t" and "ch_buf (mt_recv_ch t) = x # xs"
    and "length (ch_buf (mt_send_ch t)) < ch_cap (mt_send_ch t)" and "\<not> ch_closed (mt_send_ch t)"
    and "length (echo_message now) \<le> message_size_limit"
    and "(r, t') = echo_check (mt_ops pick) CtxLive now t"
  shows "r = Ok True \<and> ch_buf (mt_recv_ch t') = xs
    \<and> (\<exists>test. ch_buf (mt_send_ch t') = ch_buf (mt_send_ch t) @ [test])"
proof -
  let ?m = "map (\<lambda>x. word_of_nat (of_char x)) (echo_message now) :: bytes"
  have "mt_send pick CtxLive ?m t = (Ok (), (snd (mt_send pick CtxLive ?m t)))"
    "mt_recv_ch (snd (mt_send pick CtxLive ?m t)) = mt_recv_ch t"
    "\<not> mt_closed (snd (mt_send pick CtxLive ?m t))" "\<not> mt_close_ch_closed (snd (mt_send pick CtxLive ?m t))"
    "ch_buf (mt_send_ch (snd (mt_send pick CtxLive ?m t))) = ch_buf (mt_send_ch t) @ [?m]"
    using assms by (simp_all add: mt_send_def go_select_def ch_can_send_def ch_send_def ctx_done_def)
  then obtain t1 where t1: "mt_send pick CtxLive ?m t = (Ok (), t1)" "mt_recv_ch t1 = mt_recv_ch t" "\<not> mt_closed t1"
    "\<not> mt_close_ch_closed t1" "ch_buf (mt_send_ch t1) = ch_buf (mt_send_ch t) @ [?m]" by metis
  with assms(3,7) show ?thesis
    by (auto simp: echo_check_def mt_ops_def mt_receive_def go_select_def ch_can_recv_def ch_recv_def ctx_done_def)
qed

definition waiting_transport :: memory_transport where
  "waiting_transport = (transport1 new_memory_transport_pair)\<lparr>mt_recv_ch := (make_chan 16)\<lparr>ch_buf := [[7]]\<rparr>\<rparr>"

lemma echo_check_eats_message_witness:
  "ch_buf (mt_recv_ch (snd (echo_check (mt_ops 0) CtxLive 5 waiting_transport))) = []"
proof -
  have "length (echo_message 5) \<le> message_size_limit"
    by (simp add: echo_message_def int_to_dec_def nat_to_dec.simps message_size_limit_def)
  then show ?thesis
    using echo_check_eats_message [OF _ _ _ _ _ _ prod.collapse, of waiting_transport "[7]" "[]" 5 0]
    by (simp add: waiting_transport_def transport1_def mk_transport_def new_memory_transport_pair_def new_mem_end_def make_chan_def)
qed

text \<open>
  C23: Weighted selection is fair. While the weights add up within an int64, the transport selected at
  an instant is the one on the wheel, where every transport stands as often in a row as its weight says
  (once, when it has none or a weight that is not positive), at the position the instant has modulo
  the length of the wheel.
\<close>

theorem weighted_selection_wheel:
  assumes "ts \<noteq> []" and "0 \<le> now" and "sum_list (map (weight_of ws) ts) \<le> max_int64"
  shows "weighted_select now ts ws = Ok (weight_wheel ws ts ! (nat now mod length (weight_wheel ws ts)))
    \<and> int (length (weight_wheel ws ts)) = sum_list (map (weight_of ws) ts)"
proof -
  let ?n = "sum_list (map (weight_of ws) ts)"
  obtain a as where ts: "ts = a # as" using assms(1) by (cases ts) auto
  have pos: "0 < ?n" using weight_of_pos [of ws a] sum_weights_nonneg [of ws "as"] unfolding ts by simp
  have "go_rem now ?n = now mod ?n" using assms(2) pos by (simp add: go_rem_nonneg)
  moreover have "pick_weighted ws (now mod ?n) 0 ts = Some (weight_wheel ws ts ! nat (now mod ?n - 0))"
    using assms pos by (intro pick_weighted_wheel) auto
  moreover have "nat (now mod ?n) = nat now mod length (weight_wheel ws ts)"
    using assms(2) by (simp add: length_weight_wheel [symmetric] nat_mod_distrib)
  ultimately show ?thesis
    using assms total_weight [of 0 ws ts] pos by (simp add: weighted_select_def length_weight_wheel)
qed

lemma weighted_selection_wheel_witness:
  "map (\<lambda>t. weighted_select t [4, 7] (set_weight 7 2 [])) [0, 1, 2, 3] = [Ok 4, Ok 7, Ok 7, Ok 4]"
  using weighted_selection_wheel [of "[4, 7]" 0 "set_weight 7 2 []"] weighted_selection_wheel [of "[4, 7]" 1 "set_weight 7 2 []"]
    weighted_selection_wheel [of "[4, 7]" 2 "set_weight 7 2 []"] weighted_selection_wheel [of "[4, 7]" 3 "set_weight 7 2 []"]
  by (simp add: weight_wheel_def weight_of_def set_weight_def)

text \<open>
  Health is not looked at. Whatever the checks find, and whatever others do before the table is read
  again, a transport that is active for an endpoint is what the manager returns for it.
\<close>

theorem unhealthy_still_served:
  assumes "gm_get (tm_active m) e = Some a" and "perform_health_checks ops c now m = (r, m')"
  shows "get_transport others now' e m' = (Ok a, m')"
proof -
  have "tm_active m' = tm_active m"
    using assms(2) by (auto simp: perform_health_checks_def split: option.splits dest: arg_cong [where f = "\<lambda>x. tm_active (snd x)"])
  with assms(1) show ?thesis by (simp add: get_transport_def)
qed

definition sick_tm :: "memory_transport transport_manager" where
  "sick_tm = (new_transport_manager [])\<lparr>tm_heap := [(transport1 new_memory_transport_pair)\<lparr>mt_closed := True\<rparr>],
     tm_active := [(''e'', 0)], tm_checker := Some (hc_monitor 0 0 (ws_health_config\<lparr>hk_unhealthy := 1\<rparr>) (new_health_checker 1))\<rparr>"

lemma unhealthy_still_served_witness:
  "case perform_health_checks (mt_ops 0) CtxLive 5 sick_tm of (r, m') \<Rightarrow>
     map_option (\<lambda>h. map (th_healthy \<circ> snd) (hc_transports h)) (tm_checker m') = Some [False]
     \<and> fst (get_transport (\<lambda>m. m) 9 ''e'' m') = Ok 0"
proof -
  obtain r m' where p: "perform_health_checks (mt_ops 0) CtxLive 5 sick_tm = (r, m')" by fastforce
  have "gm_get (tm_active sick_tm) ''e'' = Some 0" by (simp add: sick_tm_def)
  from unhealthy_still_served [OF this p, of "\<lambda>m. m" 9] have "fst (get_transport (\<lambda>m. m) 9 ''e'' m') = Ok 0" by simp
  moreover have "map_option (\<lambda>h. map (th_healthy \<circ> snd) (hc_transports h)) (tm_checker m') = Some [False]"
    using p by (auto simp: sick_tm_def perform_health_checks_def check_transport_health_def perform_health_check_def
        hc_monitor_def new_health_checker_def ws_health_config_def echo_check_def mt_ops_def mt_send_def
        update_health_def Let_def int64_id)
  ultimately show ?thesis unfolding p by simp
qed

end
