(* ===== verification/Streaming.thy ===== *)
theory Streaming
  imports Session
begin

text \<open>
  \<open>streaming.go\<close>: stream readers, stream writers and their manager. A stream talks through the
  session: what \<open>SendRequest\<close> accepted is kept as a history next to the session. The arrays behind the
  buffer of a reader are explicit, because the chunks it returns are views into them. The clock is the
  environment's; callbacks the code spawns are recorded with their argument. The buffer of a writer has no
  lock: the functions take what the goroutine of the automatic flush, or a caller beside it, does meanwhile.
\<close>

section \<open>Options and statistics\<close>

record stream_options =
  sop_chunk_size :: int
  sop_buffer_size :: int
  sop_threshold :: int
  sop_flush_interval :: int
  sop_compression :: bool
  sop_progress :: bool
  sop_error :: bool
  sop_backpressure :: bool

definition default_stream_options :: stream_options where
  "default_stream_options = \<lparr>sop_chunk_size = 65536, sop_buffer_size = 1048576, sop_threshold = 524288,
     sop_flush_interval = 100000000, sop_compression = True, sop_progress = False, sop_error = False,
     sop_backpressure = False\<rparr>"

text \<open>The end time is \<open>None\<close> while it is the zero time.\<close>

record stream_stats =
  sst_bytes :: int
  sst_chunks :: int
  sst_start :: int
  sst_end :: "int option"
  sst_duration :: int
  sst_bps :: int
  sst_errors :: int
  sst_backpressure :: int

definition new_stream_stats :: "int \<Rightarrow> stream_stats" where
  "new_stream_stats now = \<lparr>sst_bytes = 0, sst_chunks = 0, sst_start = now, sst_end = None, sst_duration = 0,
     sst_bps = 0, sst_errors = 0, sst_backpressure = 0\<rparr>"

text \<open>\<open>int64(d.Seconds())\<close>: whole seconds and the fraction, each a float64, added and truncated.\<close>

definition whole_seconds :: "int \<Rightarrow> int" where
  "whole_seconds d = f64_to_int64 (f64_round (f64_of_int (go_quot d 1000000000)
     + f64_round (f64_of_int (go_rem d 1000000000) / 1000000000)))"

text \<open>The counters of a transfer of \<open>n\<close> bytes; the throughput is not computed when it divides by zero.\<close>

definition count_transfer :: "int \<Rightarrow> int \<Rightarrow> stream_stats \<Rightarrow> unit result \<times> stream_stats" where
  "count_transfer now n st =
     (let st = st\<lparr>sst_bytes := add64 (sst_bytes st) n, sst_chunks := add64 (sst_chunks st) 1\<rparr>;
          elapsed = time_sub now (sst_start st)
      in if elapsed > 0
         then (case go_div (sst_bytes st) (whole_seconds elapsed) of
                 Ok q \<Rightarrow> (Ok (), st\<lparr>sst_bps := int64 q\<rparr>) | r \<Rightarrow> (bind_outcome r (\<lambda>_. Ok ()), st))
         else (Ok (), st))"

definition final_stats :: "int \<Rightarrow> stream_stats \<Rightarrow> unit result \<times> stream_stats" where
  "final_stats now st =
     (let st = st\<lparr>sst_end := Some now, sst_duration := time_sub now (sst_start st)\<rparr>
      in if sst_duration st > 0
         then (case go_div (sst_bytes st) (whole_seconds (sst_duration st)) of
                 Ok q \<Rightarrow> (Ok (), st\<lparr>sst_bps := int64 q\<rparr>) | r \<Rightarrow> (bind_outcome r (\<lambda>_. Ok ()), st))
         else (Ok (), st))"

section \<open>The session a stream uses\<close>

record 't link =
  lk_session :: "'t session"
  lk_accepted :: "gval list"

text \<open>\<open>w\<close> says whether a writer of the session's lock arrives meanwhile (see \<open>send_request\<close>).\<close>

definition link_request :: "'t env \<Rightarrow> ctx \<Rightarrow> bool \<Rightarrow> gval \<Rightarrow> 't link \<Rightarrow> int result \<times> 't link" where
  "link_request E c w v k =
     (case send_request E c v w (lk_session k) of (r, s) \<Rightarrow>
        (r, k\<lparr>lk_session := s, lk_accepted := lk_accepted k @ (if is_ok r then [v] else [])\<rparr>))"

definition stream_id :: "int \<Rightarrow> int \<Rightarrow> string" where
  "stream_id i now = ''stream_'' @ int_to_dec i @ ''_'' @ int_to_dec now"

section \<open>Readers\<close>

text \<open>
  The buffer is the first \<open>rd_len\<close> cells of the array \<open>rd_array\<close>; \<open>rd_producing\<close> is the number of chunks
  the simulated source has sent, while it runs.
\<close>

record stream_reader =
  rd_id :: string
  rd_import :: int
  rd_path :: "string list"
  rd_options :: stream_options
  rd_arrays :: "bytes list"
  rd_array :: nat
  rd_len :: nat
  rd_pos :: nat
  rd_closed :: bool
  rd_err :: "goerr option"
  rd_stats :: stream_stats
  rd_stats_locked :: bool
  rd_data :: "bytes chan"
  rd_errors :: "goerr chan"
  rd_close_ch_closed :: bool
  rd_backpressure :: bool
  rd_producing :: "nat option"
  rd_progress_calls :: "stream_stats list"
  rd_backpressure_calls :: "bool list"

definition new_stream_reader :: "int \<Rightarrow> int \<Rightarrow> string list \<Rightarrow> stream_options list \<Rightarrow> stream_reader result" where
  "new_stream_reader now i path options =
     (let opts = (case options of x # _ \<Rightarrow> x | [] \<Rightarrow> default_stream_options)
      in if sop_buffer_size opts < 0 then Panic
      else Ok \<lparr>rd_id = stream_id i now, rd_import = i, rd_path = path, rd_options = opts,
             rd_arrays = [replicate (nat (sop_buffer_size opts)) 0], rd_array = 0, rd_len = 0, rd_pos = 0,
             rd_closed = False, rd_err = None, rd_stats = new_stream_stats now, rd_stats_locked = False,
             rd_data = make_chan 10, rd_errors = make_chan 1, rd_close_ch_closed = False,
             rd_backpressure = False, rd_producing = None, rd_progress_calls = [], rd_backpressure_calls = []\<rparr>)"

text \<open>A chunk is a view: an array and the bounds of the slice. What it holds depends on when one looks.\<close>

record chunk =
  ck_array :: nat
  ck_from :: nat
  ck_to :: nat

definition chunk_bytes :: "stream_reader \<Rightarrow> chunk \<Rightarrow> bytes" where
  "chunk_bytes r c = drop (ck_from c) (take (ck_to c) (rd_arrays r ! ck_array c))"

definition reader_update_stats :: "int \<Rightarrow> int \<Rightarrow> stream_reader \<Rightarrow> unit result \<times> stream_reader" where
  "reader_update_stats now n r =
     (if rd_stats_locked r then (Hang, r)
      else case count_transfer now n (rd_stats r) of
        (Ok _, st) \<Rightarrow> (Ok (), r\<lparr>rd_stats := st,
           rd_progress_calls := rd_progress_calls r @ (if sop_progress (rd_options r) then [st] else [])\<rparr>)
      | (x, st) \<Rightarrow> (x, r\<lparr>rd_stats := st\<rparr>))"

definition reader_check_backpressure :: "'t env \<Rightarrow> ctx \<Rightarrow> bool \<Rightarrow> stream_reader \<Rightarrow> 't link \<Rightarrow> unit result \<times> stream_reader \<times> 't link" where
  "reader_check_backpressure E c w r k =
     (let should = (int (rd_len r) - int (rd_pos r) > sop_threshold (rd_options r))
      in if should = rd_backpressure r then (Ok (), r, k)
      else
        let r1 = r\<lparr>rd_backpressure := should, rd_backpressure_calls := rd_backpressure_calls r
              @ (if sop_backpressure (rd_options r) then [should] else [])\<rparr>
        in case link_request E c w (VMap [(''type'', VStr ''streamBackpressure''), (''streamID'', VStr (rd_id r)),
               (''backpressure'', VBool should)]) k of
             (Panic, k1) \<Rightarrow> (Panic, r1, k1)
           | (Hang, k1) \<Rightarrow> (Hang, r1, k1)
           | (_, k1) \<Rightarrow>
               if rd_stats_locked r1 then (Hang, r1, k1)
               else (Ok (), r1\<lparr>rd_stats := (rd_stats r1)\<lparr>sst_backpressure := add64 (sst_backpressure (rd_stats r1)) 1\<rparr>\<rparr>, k1))"

text \<open>
  \<open>append(buffer[:0], data...)\<close>: in place when the data fit, else in a new array, to which the runtime
  gives \<open>spare\<close> further cells.
\<close>

definition reader_load :: "nat \<Rightarrow> bytes \<Rightarrow> stream_reader \<Rightarrow> stream_reader" where
  "reader_load spare d r =
     (let arr = rd_arrays r ! rd_array r
      in if length d \<le> length arr
         then r\<lparr>rd_arrays := (rd_arrays r)[rd_array r := d @ drop (length d) arr], rd_len := length d, rd_pos := 0\<rparr>
         else r\<lparr>rd_arrays := rd_arrays r @ [d @ replicate spare 0], rd_array := length (rd_arrays r),
                rd_len := length d, rd_pos := 0\<rparr>)"

text \<open>The next \<open>n\<close> bytes of the buffer from \<open>rd_pos\<close>; slicing with a negative length panics.\<close>

definition reader_take :: "int \<Rightarrow> int \<Rightarrow> stream_reader \<Rightarrow> chunk result \<times> stream_reader" where
  "reader_take now n r =
     (if n < 0 then (Panic, r)
      else
        let c = \<lparr>ck_array = rd_array r, ck_from = rd_pos r, ck_to = rd_pos r + nat n\<rparr>
        in case reader_update_stats now n (r\<lparr>rd_pos := rd_pos r + nat n\<rparr>) of
             (Ok _, r1) \<Rightarrow> (Ok c, r1) | (Err e, r1) \<Rightarrow> (Err e, r1) | (Panic, r1) \<Rightarrow> (Panic, r1) | (Hang, r1) \<Rightarrow> (Hang, r1))"

datatype read_case = RcData | RcError | RcCtx | RcClose

definition reader_read :: "'t env \<Rightarrow> nat \<Rightarrow> nat \<Rightarrow> ctx \<Rightarrow> ctx \<Rightarrow> bool \<Rightarrow> stream_reader \<Rightarrow> 't link \<Rightarrow> chunk result \<times> stream_reader \<times> 't link" where
  "reader_read E pick spare c cb w r k =
     (if rd_closed r then (Err err_eof, r, k)
      else case rd_err r of
        Some e \<Rightarrow> (Err e, r, k)
      | None \<Rightarrow>
          if rd_pos r < rd_len r then
            let cs = sop_chunk_size (rd_options r);
                n = (if int64 (int (rd_pos r) + cs) > int (rd_len r) then int (rd_len r) - int (rd_pos r) else cs)
            in case reader_take (en_now E) n r of (x, r1) \<Rightarrow> (x, r1, k)
          else (case go_select pick [(ch_can_recv (rd_data r), RcData), (ch_can_recv (rd_errors r), RcError),
                  (ctx_done c, RcCtx), (rd_close_ch_closed r, RcClose)] of
              None \<Rightarrow> (Hang, r, k)
            | Some RcData \<Rightarrow>
                (case ch_recv (rd_data r) of (x, ch) \<Rightarrow>
                  let d = (case x of Some d \<Rightarrow> d | None \<Rightarrow> []); r0 = r\<lparr>rd_data := ch\<rparr>
                  in if length d = 0 then (Err err_eof, r0, k)
                  else (case reader_check_backpressure E cb w (reader_load spare d r0) k of
                      (Ok _, r1, k1) \<Rightarrow>
                        (case reader_take (en_now E) (min (sop_chunk_size (rd_options r1)) (int (rd_len r1))) r1 of
                           (y, r2) \<Rightarrow> (y, r2, k1))
                    | (Err e, r1, k1) \<Rightarrow> (Err e, r1, k1)
                    | (Panic, r1, k1) \<Rightarrow> (Panic, r1, k1)
                    | (Hang, r1, k1) \<Rightarrow> (Hang, r1, k1)))
            | Some RcError \<Rightarrow>
                (case ch_recv (rd_errors r) of (x, ch) \<Rightarrow>
                  (case x of Some e \<Rightarrow> (Err e, r\<lparr>rd_errors := ch, rd_err := Some e\<rparr>, k)
                           | None \<Rightarrow> (Panic, r\<lparr>rd_errors := ch\<rparr>, k)))
            | Some RcCtx \<Rightarrow> (Err (ctx_error c), r, k)
            | Some RcClose \<Rightarrow> (Err err_eof, r, k)))"

text \<open>The panic of a division in \<open>Close\<close> leaves the mutex of the statistics locked.\<close>

definition reader_close :: "'t env \<Rightarrow> ctx \<Rightarrow> bool \<Rightarrow> stream_reader \<Rightarrow> 't link \<Rightarrow> goerr option result \<times> stream_reader \<times> 't link" where
  "reader_close E c w r k =
     (if rd_closed r then (Ok None, r, k)
      else
        let r1 = r\<lparr>rd_closed := True, rd_close_ch_closed := True\<rparr>
        in case link_request E c w (VMap [(''type'', VStr ''streamClose''), (''streamID'', VStr (rd_id r))]) k of
             (Panic, k1) \<Rightarrow> (Panic, r1, k1)
           | (Hang, k1) \<Rightarrow> (Hang, r1, k1)
           | (res, k1) \<Rightarrow>
               let err = (case res of Err e \<Rightarrow> Some e | _ \<Rightarrow> None)
               in if rd_stats_locked r1 then (Hang, r1, k1)
               else (case final_stats (en_now E) (rd_stats r1) of
                   (Ok _, st) \<Rightarrow> (Ok err, r1\<lparr>rd_stats := st\<rparr>, k1)
                 | (_, st) \<Rightarrow> (Panic, r1\<lparr>rd_stats := st, rd_stats_locked := True\<rparr>, k1)))"

definition reader_stats :: "stream_reader \<Rightarrow> stream_stats result" where
  "reader_stats r = (if rd_stats_locked r then Hang else Ok (rd_stats r))"

text \<open>The goroutine of a reader: the request, then the simulated source.\<close>

definition reader_init :: "'t env \<Rightarrow> ctx \<Rightarrow> bool \<Rightarrow> stream_reader \<Rightarrow> 't link \<Rightarrow> unit result \<times> stream_reader \<times> 't link" where
  "reader_init E c w r k =
     (case link_request E c w (VMap [(''type'', VStr ''streamInit''), (''streamID'', VStr (rd_id r)),
          (''importID'', VInt (rd_import r)), (''path'', VSlice (map VStr (rd_path r))),
          (''chunkSize'', VInt (sop_chunk_size (rd_options r))),
          (''compressed'', VBool (sop_compression (rd_options r)))]) k of
        (Ok _, k1) \<Rightarrow> (Ok (), r\<lparr>rd_producing := Some 0\<rparr>, k1)
      | (Err e, k1) \<Rightarrow>
          if \<not> ch_can_send (rd_errors r) then (Hang, r, k1)
          else (case ch_send (EWrap ''failed to initialize stream: '' e) (rd_errors r) of
              Ok ch \<Rightarrow> (Ok (), r\<lparr>rd_errors := ch\<rparr>, k1) | x \<Rightarrow> (bind_outcome x (\<lambda>_. Ok ()), r, k1))
      | (Panic, k1) \<Rightarrow> (Panic, r, k1) | (Hang, k1) \<Rightarrow> (Hang, r, k1))"

text \<open>One round of the simulated source; \<open>late\<close> says whether the reader is closed between the two looks.\<close>

definition reader_produce :: "nat \<Rightarrow> bool \<Rightarrow> stream_reader \<Rightarrow> unit result \<times> stream_reader" where
  "reader_produce pick late r =
     (case rd_producing r of
        None \<Rightarrow> (Ok (), r)
      | Some i \<Rightarrow>
          if i < 5 then
            if rd_close_ch_closed r then (Ok (), r\<lparr>rd_producing := None\<rparr>)
            else if sop_chunk_size (rd_options r) < 0 then (Panic, r)
            else
              let d = replicate (nat (sop_chunk_size (rd_options r))) (word_of_nat i)
              in (case go_select pick [(ch_can_send (rd_data r), True), (late, False)] of
                    None \<Rightarrow> (Hang, r)
                  | Some False \<Rightarrow> (Ok (), r\<lparr>rd_producing := None\<rparr>)
                  | Some True \<Rightarrow>
                      (case ch_send d (rd_data r) of
                         Ok ch \<Rightarrow> (Ok (), r\<lparr>rd_data := ch, rd_producing := Some (Suc i)\<rparr>)
                       | x \<Rightarrow> (bind_outcome x (\<lambda>_. Ok ()), r)))
          else if \<not> ch_can_send (rd_data r) then (Hang, r)
          else (case ch_send [] (rd_data r) of
              Ok ch \<Rightarrow> (Ok (), r\<lparr>rd_data := ch, rd_producing := None\<rparr>) | x \<Rightarrow> (bind_outcome x (\<lambda>_. Ok ()), r)))"

section \<open>Writers\<close>

record stream_writer =
  wr_id :: string
  wr_import :: int
  wr_path :: "string list"
  wr_options :: stream_options
  wr_buffer :: bytes
  wr_closed :: bool
  wr_err :: "goerr option"
  wr_stats :: stream_stats
  wr_stats_locked :: bool
  wr_ticker :: bool
  wr_close_ch_closed :: bool
  wr_backpressure :: bool
  wr_progress_calls :: "stream_stats list"
  wr_error_calls :: "goerr list"

definition new_stream_writer :: "int \<Rightarrow> int \<Rightarrow> string list \<Rightarrow> stream_options list \<Rightarrow> stream_writer result" where
  "new_stream_writer now i path options =
     (let opts = (case options of x # _ \<Rightarrow> x | [] \<Rightarrow> default_stream_options)
      in if sop_buffer_size opts < 0 then Panic
      else Ok \<lparr>wr_id = stream_id i now, wr_import = i, wr_path = path, wr_options = opts, wr_buffer = [],
             wr_closed = False, wr_err = None, wr_stats = new_stream_stats now, wr_stats_locked = False,
             wr_ticker = (sop_flush_interval opts > 0), wr_close_ch_closed = False, wr_backpressure = False,
             wr_progress_calls = [], wr_error_calls = []\<rparr>)"

definition writer_update_stats :: "int \<Rightarrow> int \<Rightarrow> stream_writer \<Rightarrow> unit result \<times> stream_writer" where
  "writer_update_stats now n wr =
     (if wr_stats_locked wr then (Hang, wr)
      else case count_transfer now n (wr_stats wr) of
        (Ok _, st) \<Rightarrow> (Ok (), wr\<lparr>wr_stats := st,
           wr_progress_calls := wr_progress_calls wr @ (if sop_progress (wr_options wr) then [st] else [])\<rparr>)
      | (x, st) \<Rightarrow> (x, wr\<lparr>wr_stats := st\<rparr>))"

definition data_message :: "stream_writer \<Rightarrow> gval" where
  "data_message wr = VMap [(''type'', VStr ''streamData''), (''streamID'', VStr (wr_id wr)),
     (''data'', VBytes (wr_buffer wr)), (''compressed'', VBool (sop_compression (wr_options wr)))]"

text \<open>The buffer has no lock: \<open>mid\<close> is what other goroutines do to the writer while the request is sent.\<close>

definition writer_flush :: "'t env \<Rightarrow> (stream_writer \<Rightarrow> stream_writer) \<Rightarrow> ctx \<Rightarrow> bool \<Rightarrow> stream_writer \<Rightarrow> 't link
    \<Rightarrow> unit result \<times> stream_writer \<times> 't link" where
  "writer_flush E mid c w wr k =
     (if length (wr_buffer wr) = 0 then (Ok (), wr, k)
      else case link_request E c w (data_message wr) k of
        (Err e, k1) \<Rightarrow>
          let wr1 = mid wr
          in (Err e, wr1\<lparr>wr_err := Some e, wr_error_calls := wr_error_calls wr1 @ (if sop_error (wr_options wr1) then [e] else [])\<rparr>, k1)
      | (Ok _, k1) \<Rightarrow> (Ok (), (mid wr)\<lparr>wr_buffer := []\<rparr>, k1)
      | (Panic, k1) \<Rightarrow> (Panic, mid wr, k1)
      | (Hang, k1) \<Rightarrow> (Hang, mid wr, k1))"

text \<open>Under backpressure a write waits for a while, or for its context; \<open>wait\<close> is what happens meanwhile.\<close>

definition writer_admit :: "nat \<Rightarrow> (stream_writer \<Rightarrow> stream_writer) \<Rightarrow> ctx \<Rightarrow> stream_writer \<Rightarrow> unit result \<times> stream_writer" where
  "writer_admit pick wait c wr =
     (if \<not> wr_backpressure wr then (Ok (), wr)
      else case go_select pick [(ctx_done c, True), (True, False)] of
        Some True \<Rightarrow> (Err (ctx_error c), wait wr)
      | _ \<Rightarrow> if wr_backpressure (wait wr) then (Err (EMsg ''stream backpressure active''), wait wr) else (Ok (), wait wr))"

definition writer_write :: "'t env \<Rightarrow> nat \<Rightarrow> (stream_writer \<Rightarrow> stream_writer) \<Rightarrow> (stream_writer \<Rightarrow> stream_writer) \<Rightarrow> ctx \<Rightarrow> bool
    \<Rightarrow> bytes \<Rightarrow> stream_writer \<Rightarrow> 't link \<Rightarrow> unit result \<times> stream_writer \<times> 't link" where
  "writer_write E pick wait mid c w d wr k =
     (if wr_closed wr then (Err (EMsg ''stream is closed''), wr, k)
      else case wr_err wr of
        Some e \<Rightarrow> (Err e, wr, k)
      | None \<Rightarrow>
          (case writer_admit pick wait c wr of
             (Ok _, wr0) \<Rightarrow>
               let wr1 = wr0\<lparr>wr_buffer := wr_buffer wr0 @ d\<rparr>
               in if int (length (wr_buffer wr1)) \<ge> sop_chunk_size (wr_options wr1)
                  then writer_flush E mid c w wr1 k
                  else (case writer_update_stats (en_now E) (int (length d)) wr1 of (x, wr2) \<Rightarrow> (x, wr2, k))
           | (x, wr0) \<Rightarrow> (x, wr0, k)))"

definition finalize_message :: "stream_writer \<Rightarrow> gval" where
  "finalize_message wr = VMap [(''type'', VStr ''streamFinalize''), (''streamID'', VStr (wr_id wr))]"

definition writer_close :: "'t env \<Rightarrow> (stream_writer \<Rightarrow> stream_writer) \<Rightarrow> ctx \<Rightarrow> bool \<Rightarrow> stream_writer \<Rightarrow> 't link
    \<Rightarrow> goerr option result \<times> stream_writer \<times> 't link" where
  "writer_close E mid c w wr k =
     (if wr_closed wr then (Ok None, wr, k)
      else
        let wr1 = wr\<lparr>wr_closed := True, wr_close_ch_closed := True, wr_ticker := False\<rparr>
        in case writer_flush E mid c w wr1 k of
             (Err e, wr2, k2) \<Rightarrow> (Ok (Some e), wr2, k2)
           | (Panic, wr2, k2) \<Rightarrow> (Panic, wr2, k2)
           | (Hang, wr2, k2) \<Rightarrow> (Hang, wr2, k2)
           | (Ok _, wr2, k2) \<Rightarrow>
               (case link_request E c w (finalize_message wr2) k2 of
                  (Panic, k3) \<Rightarrow> (Panic, wr2, k3)
                | (Hang, k3) \<Rightarrow> (Hang, wr2, k3)
                | (res, k3) \<Rightarrow>
                    let err = (case res of Err e \<Rightarrow> Some e | _ \<Rightarrow> None)
                    in if wr_stats_locked wr2 then (Hang, wr2, k3)
                    else (case final_stats (en_now E) (wr_stats wr2) of
                        (Ok _, st) \<Rightarrow> (Ok err, wr2\<lparr>wr_stats := st\<rparr>, k3)
                      | (_, st) \<Rightarrow> (Panic, wr2\<lparr>wr_stats := st, wr_stats_locked := True\<rparr>, k3))))"

definition writer_stats :: "stream_writer \<Rightarrow> stream_stats result" where
  "writer_stats wr = (if wr_stats_locked wr then Hang else Ok (wr_stats wr))"

text \<open>A round of the automatic flush: a tick (when \<open>tick\<close> is due) or the end; true means go on.\<close>

definition writer_auto_flush :: "'t env \<Rightarrow> nat \<Rightarrow> bool \<Rightarrow> (stream_writer \<Rightarrow> stream_writer) \<Rightarrow> ctx \<Rightarrow> bool \<Rightarrow> stream_writer \<Rightarrow> 't link
    \<Rightarrow> bool result \<times> stream_writer \<times> 't link" where
  "writer_auto_flush E pick tick mid c w wr k =
     (case go_select pick [(tick, True), (wr_close_ch_closed wr, False)] of
        None \<Rightarrow> (Hang, wr, k)
      | Some False \<Rightarrow> (Ok False, wr, k)
      | Some True \<Rightarrow>
          (case writer_flush E mid c w wr k of
             (Panic, wr1, k1) \<Rightarrow> (Panic, wr1, k1) | (Hang, wr1, k1) \<Rightarrow> (Hang, wr1, k1) | (_, wr1, k1) \<Rightarrow> (Ok True, wr1, k1)))"

section \<open>The manager\<close>

datatype stream_object = ReaderAt nat | WriterAt nat

record 't stream_manager =
  mg_link :: "'t link"
  mg_readers :: "stream_reader list"
  mg_writers :: "stream_writer list"
  mg_streams :: "(string, stream_object) gomap"
  mg_start :: int

definition new_stream_manager :: "'t session \<Rightarrow> int \<Rightarrow> 't stream_manager" where
  "new_stream_manager s now = \<lparr>mg_link = \<lparr>lk_session = s, lk_accepted = []\<rparr>, mg_readers = [], mg_writers = [],
     mg_streams = [], mg_start = now\<rparr>"

text \<open>The goroutine of a new reader is \<open>reader_init\<close> and then \<open>reader_produce\<close>, run on their own.\<close>

definition create_stream_reader :: "int \<Rightarrow> int \<Rightarrow> string list \<Rightarrow> stream_options list \<Rightarrow> 't stream_manager \<Rightarrow> nat result \<times> 't stream_manager" where
  "create_stream_reader now i path options m =
     (case new_stream_reader now i path options of
        Ok r \<Rightarrow> (let a = length (mg_readers m)
                in (Ok a, m\<lparr>mg_readers := mg_readers m @ [r], mg_streams := gm_put (rd_id r) (ReaderAt a) (mg_streams m)\<rparr>))
      | x \<Rightarrow> (bind_outcome x (\<lambda>_. Panic), m))"

definition create_stream_writer :: "int \<Rightarrow> int \<Rightarrow> string list \<Rightarrow> stream_options list \<Rightarrow> 't stream_manager \<Rightarrow> nat result \<times> 't stream_manager" where
  "create_stream_writer now i path options m =
     (case new_stream_writer now i path options of
        Ok wr \<Rightarrow> (let a = length (mg_writers m)
                 in (Ok a, m\<lparr>mg_writers := mg_writers m @ [wr], mg_streams := gm_put (wr_id wr) (WriterAt a) (mg_streams m)\<rparr>))
      | x \<Rightarrow> (bind_outcome x (\<lambda>_. Panic), m))"

definition close_stream :: "'t env \<Rightarrow> ctx \<Rightarrow> bool \<Rightarrow> string \<Rightarrow> 't stream_manager \<Rightarrow> goerr option result \<times> 't stream_manager" where
  "close_stream E c w i m =
     (case gm_get (mg_streams m) i of
        None \<Rightarrow> (Ok (Some (EMsg ''stream not found: %s'')), m)
      | Some obj \<Rightarrow>
          let m1 = m\<lparr>mg_streams := gm_del i (mg_streams m)\<rparr>
          in case obj of
               ReaderAt a \<Rightarrow>
                 (case reader_close E c w (mg_readers m1 ! a) (mg_link m1) of (x, r, k) \<Rightarrow>
                    (x, m1\<lparr>mg_readers := (mg_readers m1)[a := r], mg_link := k\<rparr>))
             | WriterAt a \<Rightarrow>
                 (case writer_close E (\<lambda>wr. wr) c w (mg_writers m1 ! a) (mg_link m1) of (x, wr, k) \<Rightarrow>
                    (x, m1\<lparr>mg_writers := (mg_writers m1)[a := wr], mg_link := k\<rparr>)))"

fun close_streams :: "'t env \<Rightarrow> ctx \<Rightarrow> bool \<Rightarrow> string list \<Rightarrow> goerr option \<Rightarrow> 't stream_manager \<Rightarrow> goerr option result \<times> 't stream_manager" where
  "close_streams E c w [] prev m = (Ok prev, m)"
| "close_streams E c w (i # is) prev m =
     (case close_stream E c w i m of
        (Ok err, m1) \<Rightarrow> close_streams E c w is (if err \<noteq> None then err else prev) m1
      | (x, m1) \<Rightarrow> (x, m1))"

definition close_all_streams :: "'t env \<Rightarrow> ctx \<Rightarrow> bool \<Rightarrow> 't stream_manager \<Rightarrow> goerr option result \<times> 't stream_manager" where
  "close_all_streams E c w m = close_streams E c w (map fst (mg_streams m)) None m"

definition stream_count :: "'t stream_manager \<Rightarrow> nat" where
  "stream_count m = gm_len (mg_streams m)"

definition object_stats :: "'t stream_manager \<Rightarrow> stream_object \<Rightarrow> stream_stats result" where
  "object_stats m obj = (case obj of ReaderAt a \<Rightarrow> reader_stats (mg_readers m ! a) | WriterAt a \<Rightarrow> writer_stats (mg_writers m ! a))"

fun add_stats :: "'t stream_manager \<Rightarrow> stream_object list \<Rightarrow> stream_stats \<Rightarrow> stream_stats result" where
  "add_stats m [] agg = Ok agg"
| "add_stats m (obj # objs) agg =
     bind_outcome (object_stats m obj) (\<lambda>st. add_stats m objs (agg\<lparr>sst_bytes := add64 (sst_bytes agg) (sst_bytes st),
        sst_chunks := add64 (sst_chunks agg) (sst_chunks st), sst_errors := add64 (sst_errors agg) (sst_errors st),
        sst_backpressure := add64 (sst_backpressure agg) (sst_backpressure st)\<rparr>))"

definition global_stats :: "int \<Rightarrow> 't stream_manager \<Rightarrow> stream_stats result" where
  "global_stats now m =
     bind_outcome (add_stats m (map snd (mg_streams m)) (new_stream_stats (mg_start m))) (\<lambda>agg.
       case final_stats now agg of (x, st) \<Rightarrow> bind_outcome x (\<lambda>_. Ok st))"

section \<open>Requests\<close>

lemma link_request_accepts:
  "link_request E c w v k = (r, k') \<Longrightarrow> lk_accepted k' = lk_accepted k @ (if is_ok r then [v] else [])"
  by (auto simp: link_request_def split: prod.splits)

text \<open>The bytes that the data messages of a stream carry.\<close>

definition payload :: "string \<Rightarrow> gval \<Rightarrow> bytes" where
  "payload i v = (case v of
       VMap fs \<Rightarrow> (if map_of fs ''type'' = Some (VStr ''streamData'') \<and> map_of fs ''streamID'' = Some (VStr i)
                  then (case map_of fs ''data'' of Some (VBytes b) \<Rightarrow> b | _ \<Rightarrow> []) else [])
     | _ \<Rightarrow> [])"

definition streamed :: "string \<Rightarrow> gval list \<Rightarrow> bytes" where
  "streamed i vs = concat (map (payload i) vs)"

lemma streamed_simps [simp]:
  "streamed i [] = []" "streamed i (vs @ ws) = streamed i vs @ streamed i ws"
  "streamed (wr_id wr) [data_message wr] = wr_buffer wr" "streamed i [finalize_message wr] = []"
  by (simp_all add: streamed_def payload_def data_message_def finalize_message_def)

text \<open>What no operation of a writer changes.\<close>

definition same_stream :: "stream_writer \<Rightarrow> stream_writer \<Rightarrow> bool" where
  "same_stream wr wr' \<longleftrightarrow> wr_id wr' = wr_id wr \<and> wr_options wr' = wr_options wr
     \<and> wr_backpressure wr' = wr_backpressure wr \<and> wr_close_ch_closed wr' = wr_close_ch_closed wr"

lemma writer_flush_keeps:
  assumes "writer_flush E (\<lambda>wr. wr) c w wr k = (r, wr', k')"
  shows "streamed (wr_id wr) (lk_accepted k') @ wr_buffer wr' = streamed (wr_id wr) (lk_accepted k) @ wr_buffer wr
    \<and> same_stream wr wr' \<and> wr_closed wr' = wr_closed wr \<and> (r = Ok () \<longrightarrow> wr_buffer wr' = [])"
proof (cases "wr_buffer wr = []")
  case False
  obtain x k1 where x: "link_request E c w (data_message wr) k = (x, k1)" by force
  from assms False x link_request_accepts [OF x] show ?thesis
    by (cases x) (auto simp: writer_flush_def same_stream_def)
qed (use assms in \<open>simp add: writer_flush_def same_stream_def\<close>)

lemma writer_update_stats_keeps:
  "writer_update_stats now n wr = (r, wr') \<Longrightarrow>
     wr_buffer wr' = wr_buffer wr \<and> same_stream wr wr' \<and> wr_closed wr' = wr_closed wr"
  by (auto simp: writer_update_stats_def same_stream_def split: if_splits prod.splits outcome.splits)

lemma writer_write_keeps:
  assumes "writer_write E pick (\<lambda>wr. wr) (\<lambda>wr. wr) c w d wr k = (Ok u, wr', k')"
  shows "streamed (wr_id wr) (lk_accepted k') @ wr_buffer wr' = streamed (wr_id wr) (lk_accepted k) @ wr_buffer wr @ d
    \<and> same_stream wr wr' \<and> wr_closed wr' = wr_closed wr"
proof -
  have adm: "writer_admit pick (\<lambda>wr. wr) c wr = (Ok u', wr0) \<Longrightarrow> wr0 = wr" for u' wr0
    by (auto simp: writer_admit_def split: if_splits option.splits bool.splits)
  let ?wr1 = "wr\<lparr>wr_buffer := wr_buffer wr @ d\<rparr>"
  from assms obtain "(writer_flush E (\<lambda>wr. wr) c w ?wr1 k = (Ok u, wr', k')) \<or> (writer_update_stats (en_now E) (int (length d)) ?wr1 = (Ok u, wr') \<and> k' = k)"
    by (auto simp: writer_write_def Let_def split: if_splits option.splits prod.splits outcome.splits dest!: adm)
  then show ?thesis
    by (auto dest!: writer_flush_keeps writer_update_stats_keeps simp: same_stream_def)
qed

text \<open>
  The goroutine of the automatic flush exists when the flush interval is positive; only then can
  anything happen to the writer beside a call of its user (\<open>f\<close>), or beside an automatic flush.
\<close>

definition beside :: "(stream_writer \<Rightarrow> stream_writer) \<Rightarrow> stream_writer \<Rightarrow> stream_writer" where
  "beside f wr = (if 0 < sop_flush_interval (wr_options wr) then f wr else wr)"

definition quiet :: "stream_writer \<Rightarrow> (stream_writer \<Rightarrow> stream_writer) \<Rightarrow> bool" where
  "quiet wr f \<longleftrightarrow> sop_flush_interval (wr_options wr) \<le> 0 \<or> (\<forall>x. f x = x)"

lemma beside_quiet: "quiet wr f \<Longrightarrow> wr_options x = wr_options wr \<Longrightarrow> beside f x = x"
  by (auto simp: beside_def quiet_def)

lemma quiet_same_stream: "same_stream wr wr' \<Longrightarrow> quiet wr' f = quiet wr f"
  by (simp add: quiet_def same_stream_def)

lemma writer_flush_quiet:
  "quiet wr f \<Longrightarrow> wr_options x = wr_options wr \<Longrightarrow> writer_flush E (beside f) c w x k = writer_flush E (\<lambda>wr. wr) c w x k"
  by (auto simp: writer_flush_def beside_quiet Let_def split: prod.split outcome.split)

lemma writer_write_quiet:
  "quiet wr f \<Longrightarrow> quiet wr g
     \<Longrightarrow> writer_write E pick (beside f) (beside g) c w d wr k = writer_write E pick (\<lambda>wr. wr) (\<lambda>wr. wr) c w d wr k"
proof -
  assume f: "quiet wr f" and g: "quiet wr g"
  have adm: "writer_admit pick (beside f) c wr = writer_admit pick (\<lambda>wr. wr) c wr"
    using f by (auto simp: writer_admit_def beside_quiet split: option.split bool.split)
  have "snd (writer_admit pick (\<lambda>wr. wr) c wr) = wr"
    by (auto simp: writer_admit_def split: option.splits bool.splits)
  with adm show ?thesis
    by (auto simp: writer_write_def Let_def writer_flush_quiet [OF g] split: option.splits prod.splits outcome.splits)
qed

lemma writer_close_quiet:
  assumes "quiet wr f" and "wr_options x = wr_options wr"
  shows "writer_close E (beside f) c w x k = writer_close E (\<lambda>wr. wr) c w x k"
proof -
  let ?x = "x\<lparr>wr_closed := True, wr_close_ch_closed := True, wr_ticker := False\<rparr>"
  have "writer_flush E (beside f) c w ?x k = writer_flush E (\<lambda>wr. wr) c w ?x k"
    using assms by (intro writer_flush_quiet) simp_all
  then show ?thesis by (simp only: writer_close_def Let_def)
qed

lemma writer_auto_flush_quiet:
  "quiet wr f \<Longrightarrow> writer_auto_flush E pick t (beside f) c w wr k = writer_auto_flush E pick t (\<lambda>wr. wr) c w wr k"
  by (auto simp: writer_auto_flush_def writer_flush_quiet [of wr] split: option.split bool.split)

text \<open>
  A life of a writer: writes and flushes of its user, one after the other, up to the first that does not
  return nil, and rounds of the automatic flush. Each comes with what happens beside it.
\<close>

datatype writer_event =
    WWrite nat "stream_writer \<Rightarrow> stream_writer" "stream_writer \<Rightarrow> stream_writer" bytes
  | WFlush "stream_writer \<Rightarrow> stream_writer" | WTick "stream_writer \<Rightarrow> stream_writer"

type_synonym 't writer_life = "('t env \<times> ctx \<times> bool \<times> writer_event) list"

definition writer_event_step :: "'t env \<Rightarrow> ctx \<Rightarrow> bool \<Rightarrow> writer_event \<Rightarrow> stream_writer \<Rightarrow> 't link \<Rightarrow> unit result \<times> stream_writer \<times> 't link" where
  "writer_event_step E c w e wr k =
     (case e of
        WWrite pick wait mid d \<Rightarrow> writer_write E pick (beside wait) (beside mid) c w d wr k
      | WFlush mid \<Rightarrow> writer_flush E (beside mid) c w wr k
      | WTick mid \<Rightarrow>
          if 0 < sop_flush_interval (wr_options wr)
          then (case writer_auto_flush E 0 True (beside mid) c w wr k of
                  (Ok _, x) \<Rightarrow> (Ok (), x) | (Err e, x) \<Rightarrow> (Err e, x) | (Panic, x) \<Rightarrow> (Panic, x) | (Hang, x) \<Rightarrow> (Hang, x))
          else (Ok (), wr, k))"

fun writer_run :: "'t writer_life \<Rightarrow> stream_writer \<Rightarrow> 't link \<Rightarrow> unit result \<times> stream_writer \<times> 't link" where
  "writer_run [] wr k = (Ok (), wr, k)"
| "writer_run ((E, c, w, e) # evs) wr k =
     (case writer_event_step E c w e wr k of (Ok _, wr1, k1) \<Rightarrow> writer_run evs wr1 k1 | x \<Rightarrow> x)"

fun event_bytes :: "writer_event \<Rightarrow> bytes" where
  "event_bytes (WWrite _ _ _ d) = d"
| "event_bytes _ = []"

definition written :: "'t writer_life \<Rightarrow> bytes" where
  "written evs = concat (map (\<lambda>(E, c, w, e). event_bytes e) evs)"

text \<open>No flush of the life overlaps anything else.\<close>

fun quiet_event :: "stream_writer \<Rightarrow> writer_event \<Rightarrow> bool" where
  "quiet_event wr (WWrite _ f g _) \<longleftrightarrow> quiet wr f \<and> quiet wr g"
| "quiet_event wr (WFlush f) \<longleftrightarrow> quiet wr f"
| "quiet_event wr (WTick f) \<longleftrightarrow> quiet wr f"

definition no_overlap :: "stream_writer \<Rightarrow> 't writer_life \<Rightarrow> bool" where
  "no_overlap wr evs \<longleftrightarrow> (\<forall>(E, c, w, e) \<in> set evs. quiet_event wr e)"

lemma quiet_event_same_stream: "same_stream wr wr' \<Longrightarrow> quiet_event wr' e = quiet_event wr e"
  by (cases e) (simp_all add: quiet_same_stream)

lemma writer_event_keeps:
  assumes "writer_event_step E c w e wr k = (Ok u, wr', k')" and "quiet_event wr e"
  shows "streamed (wr_id wr) (lk_accepted k') @ wr_buffer wr' = streamed (wr_id wr) (lk_accepted k) @ wr_buffer wr @ event_bytes e
    \<and> same_stream wr wr' \<and> wr_closed wr' = wr_closed wr"
proof (cases e)
  case (WWrite pick f g d)
  with assms writer_write_keeps [of E pick c w d wr k u wr' k'] show ?thesis
    by (simp add: writer_event_step_def writer_write_quiet)
next
  case (WFlush f)
  with assms writer_flush_keeps [of E c w wr k "Ok u" wr' k'] show ?thesis
    by (auto simp: writer_event_step_def writer_flush_quiet [of wr])
next
  case (WTick f)
  show ?thesis
  proof (cases "0 < sop_flush_interval (wr_options wr)")
    case True
    with assms WTick obtain b where "writer_auto_flush E 0 True (\<lambda>wr. wr) c w wr k = (Ok b, wr', k')"
      by (auto simp: writer_event_step_def writer_auto_flush_quiet split: prod.splits outcome.splits)
    then have "(wr' = wr \<and> k' = k) \<or> (\<exists>x. writer_flush E (\<lambda>wr. wr) c w wr k = (x, wr', k'))"
      by (auto simp: writer_auto_flush_def split: option.splits bool.splits prod.splits outcome.splits)
    with WTick show ?thesis by (auto dest!: writer_flush_keeps simp: same_stream_def)
  next
    case False
    with assms(1) WTick show ?thesis by (simp add: writer_event_step_def same_stream_def)
  qed
qed

lemma writer_run_keeps:
  "writer_run evs wr k = (Ok u, wr', k') \<Longrightarrow> no_overlap wr evs \<Longrightarrow>
     streamed (wr_id wr) (lk_accepted k') @ wr_buffer wr' = streamed (wr_id wr) (lk_accepted k) @ wr_buffer wr @ written evs
     \<and> same_stream wr wr' \<and> wr_closed wr' = wr_closed wr"
proof (induction evs wr k rule: writer_run.induct)
  case (2 E c w e evs wr k)
  from "2.prems"(1) obtain u' wr1 k1 where e: "writer_event_step E c w e wr k = (Ok u', wr1, k1)"
    and r: "writer_run evs wr1 k1 = (Ok u, wr', k')" by (auto split: prod.splits outcome.splits)
  from "2.prems"(2) have q: "quiet_event wr e" "no_overlap wr evs" by (auto simp: no_overlap_def)
  note s = writer_event_keeps [OF e q(1)]
  then have "quiet_event wr1 = quiet_event wr" by (intro ext quiet_event_same_stream) simp
  with q(2) have "no_overlap wr1 evs" by (simp add: no_overlap_def)
  from "2.IH" [OF e [symmetric] refl refl r this] s show ?case by (auto simp: same_stream_def written_def)
qed (simp add: same_stream_def written_def)

section \<open>Reading\<close>

text \<open>The bytes a reader has received and not yet returned.\<close>

definition unread :: "stream_reader \<Rightarrow> bytes" where
  "unread r = drop (rd_pos r) (take (rd_len r) (rd_arrays r ! rd_array r)) @ concat (ch_buf (rd_data r))"

definition reader_wf :: "stream_reader \<Rightarrow> bool" where
  "reader_wf r \<longleftrightarrow> rd_array r < length (rd_arrays r) \<and> rd_pos r \<le> rd_len r
     \<and> rd_len r \<le> length (rd_arrays r ! rd_array r) \<and> int (rd_len r) < 4611686018427387904"

definition same_buffer :: "stream_reader \<Rightarrow> stream_reader \<Rightarrow> bool" where
  "same_buffer r r' \<longleftrightarrow> rd_arrays r' = rd_arrays r \<and> rd_array r' = rd_array r \<and> rd_len r' = rd_len r
     \<and> rd_data r' = rd_data r \<and> rd_options r' = rd_options r \<and> rd_pos r' = rd_pos r \<and> rd_closed r' = rd_closed r \<and> rd_err r' = rd_err r"

lemma reader_update_stats_keeps: "reader_update_stats now n r = (x, r') \<Longrightarrow> same_buffer r r'"
  by (auto simp: reader_update_stats_def same_buffer_def split: if_splits prod.splits outcome.splits)

lemma reader_check_backpressure_keeps: "reader_check_backpressure E c w r k = (x, r', k') \<Longrightarrow> same_buffer r r'"
  by (auto simp: reader_check_backpressure_def same_buffer_def Let_def split: if_splits prod.splits outcome.splits)

text \<open>Taking \<open>n\<close> bytes that are there: the chunk shows them and the rest stays.\<close>

lemma reader_take_keeps:
  assumes "reader_take now n r = (Ok ck, r')" and "reader_wf r" and "rd_pos r + nat n \<le> rd_len r"
  shows "unread r = chunk_bytes r' ck @ unread r' \<and> reader_wf r' \<and> length (chunk_bytes r' ck) = nat n \<and> 0 \<le> n
    \<and> rd_options r' = rd_options r \<and> rd_arrays r' = rd_arrays r \<and> rd_pos r' = rd_pos r + nat n
    \<and> ck = \<lparr>ck_array = rd_array r, ck_from = rd_pos r, ck_to = rd_pos r + nat n\<rparr> \<and> rd_array r' = rd_array r \<and> rd_len r' = rd_len r"
proof -
  obtain u where u: "reader_update_stats now n (r\<lparr>rd_pos := rd_pos r + nat n\<rparr>) = (Ok u, r')"
    and n: "0 \<le> n" and ck: "ck = \<lparr>ck_array = rd_array r, ck_from = rd_pos r, ck_to = rd_pos r + nat n\<rparr>"
    using assms(1) by (auto simp: reader_take_def Let_def split: if_splits prod.splits outcome.splits)
  let ?a = "rd_arrays r ! rd_array r"
  have "drop (rd_pos r) (take (rd_len r) ?a) = drop (rd_pos r) (take (rd_pos r + nat n) ?a) @ drop (rd_pos r + nat n) (take (rd_len r) ?a)"
    by (rule nth_equalityI) (use assms(2,3) in \<open>auto simp: reader_wf_def nth_append\<close>)
  with reader_update_stats_keeps [OF u] n ck assms(2,3) show ?thesis
    by (auto simp: same_buffer_def unread_def chunk_bytes_def reader_wf_def)
qed

lemma reader_load_wf:
  assumes "reader_wf r" and "int (length d) < 4611686018427387904"
  shows "reader_wf (reader_load spare d r) \<and> rd_pos (reader_load spare d r) = 0 \<and> rd_len (reader_load spare d r) = length d
    \<and> rd_options (reader_load spare d r) = rd_options r
    \<and> unread (reader_load spare d r) = d @ concat (ch_buf (rd_data r))"
  using assms by (auto simp: reader_load_def reader_wf_def unread_def Let_def nth_append)

text \<open>Blocks and chunks of less than 2^62 bytes, so that positions do not overflow.\<close>

definition reader_ok :: "stream_reader \<Rightarrow> bool" where
  "reader_ok r \<longleftrightarrow> reader_wf r \<and> (\<forall>d \<in> set (ch_buf (rd_data r)). int (length d) < 4611686018427387904)
     \<and> 0 \<le> sop_chunk_size (rd_options r) \<and> sop_chunk_size (rd_options r) < 4611686018427387904"

text \<open>A successful read returns from the buffer, or loads the next block first.\<close>

lemma reader_read_cases:
  assumes "reader_read E pick spare c cb w r k = (Ok ck, r', k')" and "reader_ok r"
  obtains (buffer) n where "rd_pos r < rd_len r" "n = min (sop_chunk_size (rd_options r)) (int (rd_len r) - int (rd_pos r))"
      "reader_take (en_now E) n r = (Ok ck, r')" "k' = k"
    | (block) d ds r1 where "rd_pos r = rd_len r" "ch_buf (rd_data r) = d # ds" "d \<noteq> []"
      "same_buffer (reader_load spare d (r\<lparr>rd_data := (rd_data r)\<lparr>ch_buf := ds\<rparr>\<rparr>)) r1"
      "reader_take (en_now E) (min (sop_chunk_size (rd_options r)) (int (length d))) r1 = (Ok ck, r')"
proof (cases "rd_pos r < rd_len r")
  case True
  have "int64 (int (rd_pos r) + sop_chunk_size (rd_options r)) = int (rd_pos r) + sop_chunk_size (rd_options r)"
    using assms(2) by (intro int64_id) (auto simp: reader_ok_def reader_wf_def)
  with True assms show ?thesis
    by (intro buffer [of "min (sop_chunk_size (rd_options r)) (int (rd_len r) - int (rd_pos r))"])
       (auto simp: reader_read_def Let_def reader_take_def min_def split: if_splits option.splits prod.splits outcome.splits)
next
  case False
  then have pos: "rd_pos r = rd_len r" using assms(2) by (auto simp: reader_ok_def reader_wf_def)
  from assms(1) False obtain d ds r1 k1 u where d: "ch_buf (rd_data r) = d # ds" "d \<noteq> []"
      "reader_check_backpressure E cb w (reader_load spare d (r\<lparr>rd_data := (rd_data r)\<lparr>ch_buf := ds\<rparr>\<rparr>)) k = (Ok u, r1, k1)"
      "reader_take (en_now E) (min (sop_chunk_size (rd_options r1)) (int (rd_len r1))) r1 = (Ok ck, r')"
    by (auto simp: reader_read_def ch_recv_def Let_def split: if_splits option.splits prod.splits outcome.splits read_case.splits list.splits)
  have s: "same_buffer (reader_load spare d (r\<lparr>rd_data := (rd_data r)\<lparr>ch_buf := ds\<rparr>\<rparr>)) r1"
    using d(3) by (rule reader_check_backpressure_keeps)
  then have "rd_options r1 = rd_options r" "rd_len r1 = length d"
    by (auto simp: same_buffer_def reader_load_def Let_def split: if_splits)
  with d s pos show ?thesis by (intro block) auto
qed

lemma reader_read_keeps:
  assumes "reader_read E pick spare c cb w r k = (Ok ck, r', k')" and "reader_ok r"
  shows "unread r = chunk_bytes r' ck @ unread r' \<and> reader_ok r' \<and> rd_options r' = rd_options r
    \<and> int (length (chunk_bytes r' ck)) \<le> sop_chunk_size (rd_options r)
    \<and> (0 < sop_chunk_size (rd_options r) \<longrightarrow> chunk_bytes r' ck \<noteq> [])"
  using assms
proof (cases rule: reader_read_cases)
  case (buffer n)
  have wf: "reader_wf r" using assms(2) by (simp add: reader_ok_def)
  have "rd_pos r + nat n \<le> rd_len r" using buffer(1,2) by auto
  note t = reader_take_keeps [OF buffer(3) wf this]
  moreover have "rd_data r' = rd_data r" using buffer(3)
    by (auto simp: reader_take_def Let_def same_buffer_def split: if_splits prod.splits outcome.splits dest!: reader_update_stats_keeps)
  ultimately show ?thesis using buffer(1,2) assms(2) by (auto simp: reader_ok_def)
next
  case (block d ds r1)
  let ?r0 = "r\<lparr>rd_data := (rd_data r)\<lparr>ch_buf := ds\<rparr>\<rparr>"
  have wf: "reader_wf ?r0" and dl: "int (length d) < 4611686018427387904" using assms(2) block(2) by (auto simp: reader_ok_def reader_wf_def)
  from reader_load_wf [OF this, of spare] block(4) have r1: "reader_wf r1" "rd_pos r1 = 0" "rd_len r1 = length d"
    "rd_options r1 = rd_options r" "unread r1 = d @ concat ds" "rd_data r1 = (rd_data r)\<lparr>ch_buf := ds\<rparr>"
    by (auto simp: same_buffer_def reader_wf_def unread_def reader_load_def Let_def split: if_splits)
  have "rd_pos r1 + nat (min (sop_chunk_size (rd_options r)) (int (length d))) \<le> rd_len r1" using r1 by auto
  note t = reader_take_keeps [OF block(5) r1(1) this]
  moreover have "rd_data r' = rd_data r1" using block(5)
    by (auto simp: reader_take_def Let_def same_buffer_def split: if_splits prod.splits outcome.splits dest!: reader_update_stats_keeps)
  moreover have "unread r = d @ concat ds" using block(1,2) by (simp add: unread_def)
  moreover have "0 < sop_chunk_size (rd_options r) \<Longrightarrow> \<not> min (sop_chunk_size (rd_options r)) (int (length d)) \<le> 0"
    using block(3) by (simp add: min_def)
  ultimately show ?thesis using r1 assms(2) block(2) by (auto simp: reader_ok_def)
qed

text \<open>Several reads; each chunk is looked at when it is returned.\<close>

fun reader_run :: "('t env \<times> nat \<times> nat \<times> ctx \<times> ctx \<times> bool) list \<Rightarrow> stream_reader \<Rightarrow> 't link \<Rightarrow> bytes list result \<times> stream_reader \<times> 't link" where
  "reader_run [] r k = (Ok [], r, k)"
| "reader_run ((E, pick, spare, c, cb, w) # evs) r k =
     (case reader_read E pick spare c cb w r k of
        (Ok ck, r1, k1) \<Rightarrow> (case reader_run evs r1 k1 of (x, r2, k2) \<Rightarrow> (bind_outcome x (\<lambda>bs. Ok (chunk_bytes r1 ck # bs)), r2, k2))
      | (Err e, x) \<Rightarrow> (Err e, x) | (Panic, x) \<Rightarrow> (Panic, x) | (Hang, x) \<Rightarrow> (Hang, x))"

lemma reader_run_keeps:
  "reader_run evs r k = (Ok bs, r', k') \<Longrightarrow> reader_ok r \<Longrightarrow>
     unread r = concat bs @ unread r' \<and> length bs = length evs
     \<and> (\<forall>b \<in> set bs. int (length b) \<le> sop_chunk_size (rd_options r) \<and> (0 < sop_chunk_size (rd_options r) \<longrightarrow> b \<noteq> []))"
proof (induction evs r k arbitrary: bs rule: reader_run.induct)
  case (2 E pick spare c cb w evs r k)
  from 2(2) obtain ck r1 k1 where r1: "reader_read E pick spare c cb w r k = (Ok ck, r1, k1)"
    by (auto split: prod.splits outcome.splits)
  with 2(2) obtain cs where cs: "reader_run evs r1 k1 = (Ok cs, r', k')" "bs = chunk_bytes r1 ck # cs"
    by (cases "fst (reader_run evs r1 k1)") (auto split: prod.splits)
  note keeps = reader_read_keeps [OF r1 2(3)]
  from 2(1) [OF r1 [symmetric] refl refl cs(1)] keeps have "unread r1 = concat cs @ unread r'" "length cs = length evs"
    "\<forall>b \<in> set cs. int (length b) \<le> sop_chunk_size (rd_options r) \<and> (0 < sop_chunk_size (rd_options r) \<longrightarrow> b \<noteq> [])" by auto
  with keeps cs(2) show ?case by auto
qed simp

section \<open>The first second\<close>

lemma whole_seconds_zero:
  assumes "0 < d" and "d < 1000000000"
  shows "whole_seconds d = 0"
proof -
  let ?q = "of_int d / 1000000000 :: rat" and ?h = "1 / 2 ^ 53 :: rat"
  have q: "0 \<le> ?q" "?q \<le> 999999999 / 1000000000" using assms by (auto simp: divide_right_mono)
  have lo: "1 / 1000000000 \<le> ?q" using assms by (auto simp: divide_right_mono)
  have near: "x \<le> y + ?h \<and> y \<le> x + ?h" if "\<bar>x - y\<bar> \<le> ?h" for x y using that unfolding abs_le_iff by linarith
  have "?q < 1" using q(2) by (rule order.strict_trans1) simp
  then have "\<bar>f64_round ?q - ?q\<bar> \<le> ?h" by (rule f64_round_close [OF q(1)])
  from near [OF this] have c1: "f64_round ?q \<le> ?q + ?h" "?q \<le> f64_round ?q + ?h" by simp_all
  have x: "2 * ?h \<le> f64_round ?q" "f64_round ?q \<le> 1 - 2 * ?h" using c1 q(2) lo by simp_all
  then have "\<bar>f64_round (f64_round ?q) - f64_round ?q\<bar> \<le> ?h" by (intro f64_round_close) auto
  then have "0 \<le> f64_round (f64_round ?q)" "f64_round (f64_round ?q) < 1" using x near by fastforce+
  then have "f64_trunc (f64_round (f64_round ?q)) = 0" by (simp add: f64_trunc_def floor_eq_iff)
  moreover have "go_quot d 1000000000 = 0" "go_rem d 1000000000 = d" using assms by (simp_all add: go_quot_nonneg go_rem_nonneg)
  moreover have "f64_of_int d = of_int d" using assms by (intro f64_of_int_exact) simp
  ultimately show ?thesis by (simp add: whole_seconds_def f64_of_int_exact f64_to_int64_def)
qed

lemma count_transfer_panics:
  assumes "sst_start st < now" and "now < sst_start st + 1000000000"
  shows "fst (count_transfer now n st) = Panic"
  using assms whole_seconds_zero [of "now - sst_start st"] by (simp add: count_transfer_def Let_def time_sub_exact go_div_def)

section \<open>Closing\<close>

text \<open>What the manager relies on in its streams: a close is final, and a second one does nothing.\<close>

locale closing_stream =
  fixes close_op :: "'o \<Rightarrow> 'k \<Rightarrow> goerr option result \<times> 'o \<times> 'k"
    and is_closed_op :: "'o \<Rightarrow> bool"
  assumes closes: "close_op x k = (r, x', k') \<Longrightarrow> is_closed_op x'"
    and closed_noop: "is_closed_op x \<Longrightarrow> close_op x k = (Ok None, x, k)"
begin

lemma close_twice: "close_op x k = (r, x', k') \<Longrightarrow> close_op x' k' = (Ok None, x', k')"
  using closes closed_noop by blast

end

lemma reader_close_closes: "reader_close E c w r k = (x, r', k') \<Longrightarrow> rd_closed r'"
  by (auto simp: reader_close_def Let_def split: if_splits prod.splits outcome.splits)

lemma writer_close_closes:
  assumes "writer_close E (\<lambda>wr. wr) c w wr k = (x, wr', k')"
  shows "wr_closed wr'"
proof (cases "wr_closed wr")
  case False
  obtain y wr2 k2 where f: "writer_flush E (\<lambda>wr. wr) c w (wr\<lparr>wr_closed := True, wr_close_ch_closed := True, wr_ticker := False\<rparr>) k = (y, wr2, k2)"
    by (metis prod_cases3)
  with writer_flush_keeps [OF f] have "wr_closed wr2" by simp
  with assms False f show ?thesis
    by (cases y) (auto simp: writer_close_def Let_def split: prod.splits outcome.splits if_splits)
qed (use assms in \<open>simp add: writer_close_def\<close>)

interpretation reader: closing_stream "reader_close E c w" rd_closed
  by unfold_locales (auto simp: reader_close_closes, simp add: reader_close_def)

interpretation writer: closing_stream "writer_close E (\<lambda>wr. wr) c w" wr_closed
  by unfold_locales (auto simp: writer_close_closes, simp add: writer_close_def)

section \<open>A session that accepts\<close>

definition link_ready :: "'t link \<Rightarrow> bool" where
  "link_ready k \<longleftrightarrow> lock_free (lk_session k) \<and> \<not> ss_closed (lk_session k)"

lemma log_request:
  assumes "link_ready k" and "data_value v" and "nest v \<le> 100"
  obtains i k' where "link_request (log_env now) c False v k = (Ok i, k')" "link_ready k'" "lk_accepted k' = lk_accepted k @ [v]"
proof -
  have "\<exists>i s. send_request (log_env now) c v False (lk_session k) = (Ok i, s) \<and> lock_free s \<and> \<not> ss_closed s"
    using assms(1)
    by (simp add: encode_plain_push [OF assms(2,3)] send_request_def session_send_def log_env_def rlock_def runlock_def link_ready_def lock_free_def upd_stats_def Let_def)
  then obtain i s where "send_request (log_env now) c v False (lk_session k) = (Ok i, s)" "lock_free s" "\<not> ss_closed s" by blast
  then show ?thesis by (intro that) (auto simp: link_request_def link_ready_def)
qed

definition log_link :: "bytes list link" where
  "log_link = (case new_session (Some []) [] 0 of Ok s \<Rightarrow> \<lparr>lk_session = s, lk_accepted = []\<rparr>)"

lemma log_link_ready: "link_ready log_link" "lk_accepted log_link = []"
  by code_simp+

definition small_options :: stream_options where
  "small_options = default_stream_options\<lparr>sop_chunk_size := 3, sop_buffer_size := 4\<rparr>"

definition small_writer :: stream_writer where
  "small_writer = (case new_stream_writer 0 7 [''a''] [small_options] of Ok wr \<Rightarrow> wr)"

definition small_reader :: stream_reader where
  "small_reader = (case new_stream_reader 0 7 [''a''] [small_options] of Ok r \<Rightarrow> r)"

lemma message_plain:
  "data_value (data_message wr)" "nest (data_message wr) \<le> 100"
  "data_value (finalize_message wr)" "nest (finalize_message wr) \<le> 100"
  by (simp_all add: data_message_def finalize_message_def data_value.simps nest.simps)

lemma log_flush:
  assumes "link_ready k" and "wr_buffer wr \<noteq> []"
  obtains k' where "writer_flush (log_env now) mid c False wr k = (Ok (), (mid wr)\<lparr>wr_buffer := []\<rparr>, k')" "link_ready k'"
    "lk_accepted k' = lk_accepted k @ [data_message wr]"
proof -
  from log_request [OF assms(1) message_plain(1,2) [of wr]] obtain i k' where "link_request (log_env now) c False (data_message wr) k = (Ok i, k')"
    "link_ready k'" "lk_accepted k' = lk_accepted k @ [data_message wr]" by blast
  with assms(2) show ?thesis by (intro that) (auto simp: writer_flush_def)
qed

section \<open>Properties\<close>

text \<open>
  C25: A writer delivers what was written, unless an automatic flush gets in the way. Suppose the
  writes and flushes of a life, made one after the other, and the close return nil, and either the
  automatic flush is off (the flush interval is not positive) or none overlaps a call: automatic
  flushes run between the calls and may fail. Then the data messages that the session accepted carry
  exactly the bytes written, in order, and the last message accepted is the one that finalizes the
  stream; a second close does nothing. (Without the condition bytes are lost:
  \<open>auto_flush_loses_write\<close>.)
\<close>

theorem writer_delivers:
  assumes "writer_run evs wr k = (Ok (), wr1, k1)" and "writer_close E (beside f) c w wr1 k1 = (Ok None, wr2, k2)"
    and "sop_flush_interval (wr_options wr) \<le> 0 \<or> no_overlap wr evs \<and> (\<forall>x. f x = x)"
    and "wr_buffer wr = []" and "\<not> wr_closed wr"
  shows "streamed (wr_id wr) (lk_accepted k2) = streamed (wr_id wr) (lk_accepted k) @ written evs
    \<and> last (lk_accepted k2) = finalize_message wr \<and> writer_close E (beside f) c w wr2 k2 = (Ok None, wr2, k2)"
proof -
  have "quiet_event wr e" if "sop_flush_interval (wr_options wr) \<le> 0" for e
    using that by (cases e) (simp_all add: quiet_def)
  with assms(3) have q: "no_overlap wr evs" "quiet wr f" by (auto simp: no_overlap_def quiet_def)
  note run = writer_run_keeps [OF assms(1) q(1)]
  then have opts: "wr_options wr1 = wr_options wr" by (simp add: same_stream_def)
  have close: "writer_close E (\<lambda>wr. wr) c w wr1 k1 = (Ok None, wr2, k2)"
    using assms(2) by (simp only: writer_close_quiet [OF q(2) opts])
  let ?wr = "wr1\<lparr>wr_closed := True, wr_close_ch_closed := True, wr_ticker := False\<rparr>"
  from close assms(5) run obtain u wr3 k3 i where f: "writer_flush E (\<lambda>wr. wr) c w ?wr k1 = (Ok u, wr3, k3)"
    and l: "link_request E c w (finalize_message wr3) k3 = (Ok i, k2)"
    by (auto simp: writer_close_def Let_def split: prod.splits outcome.splits if_splits)
  note keeps = writer_flush_keeps [OF f]
  have fin: "finalize_message wr3 = finalize_message wr" "wr_id wr1 = wr_id wr"
    using keeps run by (auto simp: finalize_message_def same_stream_def)
  have "wr_closed wr2" using writer_close_closes [OF close] .
  with link_request_accepts [OF l] keeps run fin assms(4) show ?thesis by (auto simp: writer_close_def)
qed

definition clumsy :: "stream_writer \<Rightarrow> stream_writer" where
  "clumsy wr = wr\<lparr>wr_buffer := []\<rparr>"

text \<open>A writer without automatic flush, so that \<open>clumsy\<close>, a flush in the wrong place, cannot happen.\<close>

definition quiet_writer :: stream_writer where
  "quiet_writer = small_writer\<lparr>wr_options := small_options\<lparr>sop_flush_interval := 0\<rparr>, wr_ticker := False\<rparr>"

definition quiet_life :: "bytes list writer_life" where
  "quiet_life = [(log_env 0, CtxLive, False, WWrite 0 clumsy clumsy [1, 2]), (log_env 0, CtxLive, False, WWrite 0 clumsy clumsy [3, 4])]"

lemma writer_delivers_witness:
  "\<exists>wr1 k1 wr2 k2. writer_run quiet_life quiet_writer log_link = (Ok (), wr1, k1)
     \<and> writer_close (log_env 0) (beside clumsy) CtxLive False wr1 k1 = (Ok None, wr2, k2)
     \<and> streamed (wr_id quiet_writer) (lk_accepted k2) = [1, 2, 3, 4] \<and> last (lk_accepted k2) = finalize_message quiet_writer"
proof -
  let ?wr1 = "quiet_writer\<lparr>wr_buffer := [1, 2], wr_stats := (new_stream_stats 0)\<lparr>sst_bytes := 2, sst_chunks := 1\<rparr>\<rparr>"
  note defs = quiet_writer_def small_writer_def new_stream_writer_def small_options_def default_stream_options_def
    new_stream_stats_def beside_def
  have w1: "writer_write (log_env 0) 0 (beside clumsy) (beside clumsy) CtxLive False [1, 2] quiet_writer log_link = (Ok (), ?wr1, log_link)"
    by (simp add: defs writer_write_def writer_admit_def writer_update_stats_def count_transfer_def log_env_def add64_def int64_id time_sub_def Let_def)
  let ?wr2 = "?wr1\<lparr>wr_buffer := []\<rparr>"
  obtain k1 where k1: "writer_flush (log_env 0) (beside clumsy) CtxLive False (?wr1\<lparr>wr_buffer := [1, 2, 3, 4]\<rparr>) log_link = (Ok (), ?wr2, k1)"
    "link_ready k1" using log_flush [OF log_link_ready(1), of "?wr1\<lparr>wr_buffer := [1, 2, 3, 4]\<rparr>" 0 "beside clumsy" CtxLive]
    by (auto simp: defs)
  then have "writer_write (log_env 0) 0 (beside clumsy) (beside clumsy) CtxLive False [3, 4] ?wr1 log_link = (Ok (), ?wr2, k1)"
    by (simp add: quiet_writer_def small_writer_def new_stream_writer_def small_options_def default_stream_options_def
        writer_write_def writer_admit_def)
  with w1 have run: "writer_run quiet_life quiet_writer log_link = (Ok (), ?wr2, k1)"
    by (simp add: quiet_life_def writer_event_step_def)
  let ?wr3 = "?wr2\<lparr>wr_closed := True, wr_close_ch_closed := True, wr_ticker := False\<rparr>"
  obtain i k2 where "link_request (log_env 0) CtxLive False (finalize_message ?wr3) k1 = (Ok i, k2)"
    using log_request [OF k1(2) message_plain(3,4) [of ?wr3]] by blast
  then have "\<exists>wr4. writer_close (log_env 0) (beside clumsy) CtxLive False ?wr2 k1 = (Ok None, wr4, k2)"
    by (simp add: defs writer_close_def writer_flush_def final_stats_def log_env_def time_sub_def Let_def)
  then obtain wr4 where close: "writer_close (log_env 0) (beside clumsy) CtxLive False ?wr2 k1 = (Ok None, wr4, k2)" ..
  have "wr_buffer quiet_writer = []" "\<not> wr_closed quiet_writer" "sop_flush_interval (wr_options quiet_writer) \<le> 0"
    by (simp_all add: defs)
  from writer_delivers [OF run close _ this(1,2)] this(3) run close log_link_ready(2) show ?thesis
    by (simp add: quiet_life_def written_def)
qed

text \<open>
  C26: A reader delivers what it received. The chunks that successful reads return, each looked at when
  it is returned, are in order the bytes received and not yet returned; none exceeds the chunk size,
  and none is empty unless the chunk size is zero.
\<close>

theorem reader_delivers:
  assumes "reader_run evs r k = (Ok bs, r', k')" and "reader_ok r"
  shows "unread r = concat bs @ unread r' \<and> length bs = length evs
    \<and> (\<forall>b \<in> set bs. int (length b) \<le> sop_chunk_size (rd_options r) \<and> (0 < sop_chunk_size (rd_options r) \<longrightarrow> b \<noteq> []))"
  using reader_run_keeps [OF assms] .

definition fed_reader :: stream_reader where
  "fed_reader = small_reader\<lparr>rd_data := (make_chan 10)\<lparr>ch_buf := [[1, 2, 3, 4], [5, 6, 7]]\<rparr>\<rparr>"

lemma reader_delivers_witness:
  "fst (reader_run (replicate 3 (log_env 0, 0, 0, CtxLive, CtxLive, False)) fed_reader log_link) = Ok [[1, 2, 3], [4], [5, 6, 7]]
   \<and> unread (fst (snd (reader_run (replicate 3 (log_env 0, 0, 0, CtxLive, CtxLive, False)) fed_reader log_link))) = []"
proof -
  let ?x = "reader_run (replicate 3 (log_env 0, 0, 0, CtxLive, CtxLive, False)) fed_reader log_link"
  have r: "fst ?x = Ok [[1, 2, 3], [4], [5, 6, 7]]" by code_simp
  then have e: "?x = (Ok [[1, 2, 3], [4], [5, 6, 7]], fst (snd ?x), snd (snd ?x))" by (metis prod.collapse)
  have "reader_ok fed_reader" by code_simp
  moreover have "unread fed_reader = [1, 2, 3, 4, 5, 6, 7]" by code_simp
  ultimately show ?thesis using reader_delivers [OF e] r by simp
qed

text \<open>
  A read overwrites earlier chunks. Chunks are views into the buffer: when the buffer is used up and
  a read loads the next block into the same array, every chunk handed out before shows bytes of the
  new block in place of its own.
\<close>

theorem read_overwrites_chunks:
  assumes "reader_read E pick spare c cb w r k = (Ok ck, r', k')" and "reader_ok r" and "rd_pos r = rd_len r"
    and "ch_buf (rd_data r) = d # ds" and "d \<noteq> []" and "length d \<le> length (rd_arrays r ! rd_array r)"
    and "ck_array old = rd_array r" and "ck_to old \<le> length d"
  shows "chunk_bytes r' old = drop (ck_from old) (take (ck_to old) d)"
  using assms(1,2)
proof (cases rule: reader_read_cases)
  case (block d' ds' r1)
  let ?r0 = "r\<lparr>rd_data := (rd_data r)\<lparr>ch_buf := ds'\<rparr>\<rparr>"
  have d: "d' = d" "ds' = ds" using block(2) assms(4) by auto
  have "rd_arrays r1 = (rd_arrays r)[rd_array r := d @ drop (length d) (rd_arrays r ! rd_array r)]"
    using block(4) assms(6) unfolding d by (simp add: same_buffer_def reader_load_def Let_def)
  moreover have "rd_arrays r' = rd_arrays r1" using block(5)
    by (auto simp: reader_take_def Let_def same_buffer_def split: if_splits prod.splits outcome.splits dest!: reader_update_stats_keeps)
  ultimately show ?thesis using assms(2,7,8) by (simp add: chunk_bytes_def reader_ok_def reader_wf_def)
qed (use assms(3) in simp)

lemma read_overwrites_chunks_witness:
  "let r = fst (snd (reader_run (replicate 2 (log_env 0, 0, 0, CtxLive, CtxLive, False)) fed_reader log_link));
       r' = fst (snd (reader_read (log_env 0) 0 0 CtxLive CtxLive False r log_link)); old = \<lparr>ck_array = 0, ck_from = 0, ck_to = 3\<rparr>
   in chunk_bytes r old = [1, 2, 3] \<and> chunk_bytes r' old = [5, 6, 7]"
proof -
  let ?r = "fst (snd (reader_run (replicate 2 (log_env 0, 0, 0, CtxLive, CtxLive, False)) fed_reader log_link))"
  let ?x = "reader_read (log_env 0) 0 0 CtxLive CtxLive False ?r log_link" and ?old = "\<lparr>ck_array = 0, ck_from = 0, ck_to = 3\<rparr>"
  have "fst ?x = Ok ?old" by code_simp
  then have x: "?x = (Ok ?old, fst (snd ?x), snd (snd ?x))" by (metis prod.collapse)
  have "reader_ok ?r" "rd_pos ?r = rd_len ?r" "ch_buf (rd_data ?r) = [[5, 6, 7]]" "rd_array ?r = 0"
    "length (rd_arrays ?r ! 0) = 4" "chunk_bytes ?r ?old = [1, 2, 3]" by code_simp+
  with read_overwrites_chunks [OF x, of "[5, 6, 7]" "[]" ?old] show ?thesis by (simp add: Let_def)
qed

text \<open>
  In its first second a stream panics. A write that does not fill a chunk, on an open writer
  without error, between zero and one second after its creation, divides by zero seconds and panics;
  the bytes are in the buffer all the same. A read from the buffer of a reader panics likewise.
\<close>

theorem first_second_panics:
  assumes "\<not> wr_closed wr" and "wr_err wr = None" and "\<not> wr_backpressure wr" and "\<not> wr_stats_locked wr"
    and "int (length (wr_buffer wr @ d)) < sop_chunk_size (wr_options wr)"
    and "sst_start (wr_stats wr) < en_now E" and "en_now E < sst_start (wr_stats wr) + 1000000000"
    and "\<not> rd_closed r" and "rd_err r = None" and "\<not> rd_stats_locked r" and "rd_pos r < rd_len r"
    and "0 \<le> sop_chunk_size (rd_options r)"
    and "sst_start (rd_stats r) < en_now E" and "en_now E < sst_start (rd_stats r) + 1000000000"
  shows "(\<exists>wr'. writer_write E pick wait mid c w d wr k = (Panic, wr', k) \<and> wr_buffer wr' = wr_buffer wr @ d)
    \<and> fst (reader_read E pick spare c c w r k) = Panic"
proof
  obtain st where st: "count_transfer (en_now E) (int (length d)) (wr_stats wr) = (Panic, st)"
    using count_transfer_panics [OF assms(6,7)] by (metis prod.collapse)
  with assms(1-5) show "\<exists>wr'. writer_write E pick wait mid c w d wr k = (Panic, wr', k) \<and> wr_buffer wr' = wr_buffer wr @ d"
    by (simp add: writer_write_def writer_admit_def writer_update_stats_def)
  have t: "fst (reader_take (en_now E) n r) = Panic" for n
  proof -
    obtain st where "count_transfer (en_now E) n (rd_stats r) = (Panic, st)"
      using count_transfer_panics [OF assms(13,14)] by (metis prod.collapse)
    with assms(10) show ?thesis by (simp add: reader_take_def reader_update_stats_def)
  qed
  show "fst (reader_read E pick spare c c w r k) = Panic"
    using assms(8,9,11) t by (auto simp: reader_read_def Let_def split: prod.splits) (metis fst_conv)+
qed

lemma first_second_panics_witness:
  "fst (writer_write (log_env 500000000) 0 (\<lambda>wr. wr) (\<lambda>wr. wr) CtxLive False [1] small_writer log_link) = Panic"
proof -
  let ?r = "small_reader\<lparr>rd_len := 2\<rparr>"
  have "\<not> wr_closed small_writer" "wr_err small_writer = None" "\<not> wr_backpressure small_writer" "\<not> wr_stats_locked small_writer"
    "int (length (wr_buffer small_writer @ [1])) < sop_chunk_size (wr_options small_writer)" "sst_start (wr_stats small_writer) = 0"
    "\<not> rd_closed ?r" "rd_err ?r = None" "\<not> rd_stats_locked ?r" "rd_pos ?r < rd_len ?r" "0 \<le> sop_chunk_size (rd_options ?r)"
    "sst_start (rd_stats ?r) = 0"
    by code_simp+
  moreover have "en_now (log_env 500000000) = 500000000" by (simp add: log_env_def)
  ultimately show ?thesis
    using first_second_panics [of small_writer "[1]" "log_env 500000000" ?r 0 "\<lambda>wr. wr" "\<lambda>wr. wr" CtxLive False log_link 0] by auto
qed

text \<open>
  An automatic flush loses a write. The buffer is not locked: a write that fits the buffer and runs
  while a flush is sending returns nil, but the flush then empties the buffer, and the bytes of that
  write are in no message.
\<close>

theorem auto_flush_loses_write:
  assumes "wr_buffer wr \<noteq> []"
    and "writer_write E' pick (\<lambda>wr. wr) (\<lambda>wr. wr) c' w' d wr l = (Ok (), wr1, l')"
    and "int (length (wr_buffer wr @ d)) < sop_chunk_size (wr_options wr)"
    and "writer_flush E (\<lambda>_. wr1) c w wr k = (Ok (), wr2, k')"
  shows "wr_buffer wr1 = wr_buffer wr @ d \<and> l' = l \<and> wr_buffer wr2 = []
    \<and> lk_accepted k' = lk_accepted k @ [data_message wr]"
proof -
  obtain i where i: "link_request E c w (data_message wr) k = (Ok i, k')" and wr2: "wr2 = wr1\<lparr>wr_buffer := []\<rparr>"
    using assms(1,4) by (auto simp: writer_flush_def Let_def split: prod.splits outcome.splits)
  have adm: "writer_admit pick (\<lambda>wr. wr) c' wr = (Ok u, wr0) \<Longrightarrow> wr0 = wr" for u wr0
    by (auto simp: writer_admit_def split: if_splits option.splits bool.splits)
  have "wr_buffer wr1 = wr_buffer wr @ d \<and> l' = l"
    using assms(2,3) by (auto simp: writer_write_def Let_def split: if_splits option.splits prod.splits outcome.splits
        dest!: adm writer_update_stats_keeps)
  with link_request_accepts [OF i] wr2 show ?thesis by simp
qed

lemma auto_flush_loses_write_witness:
  "\<exists>wr1 wr2 k'. wr_buffer wr1 = [9, 1] \<and> wr_buffer wr2 = []
     \<and> writer_flush (log_env 0) (\<lambda>_. wr1) CtxLive False (small_writer\<lparr>wr_buffer := [9]\<rparr>) log_link = (Ok (), wr2, k')
     \<and> lk_accepted k' = [data_message (small_writer\<lparr>wr_buffer := [9]\<rparr>)]"
proof -
  let ?wr = "small_writer\<lparr>wr_buffer := [9]\<rparr>"
  let ?wr1 = "small_writer\<lparr>wr_buffer := [9, 1], wr_stats := (new_stream_stats 0)\<lparr>sst_bytes := 1, sst_chunks := 1\<rparr>\<rparr>"
  note defs = small_writer_def new_stream_writer_def small_options_def default_stream_options_def new_stream_stats_def
  have w: "writer_write (log_env 0) 0 (\<lambda>wr. wr) (\<lambda>wr. wr) CtxLive False [1] ?wr log_link = (Ok (), ?wr1, log_link)"
    by (simp add: defs writer_write_def writer_admit_def writer_update_stats_def count_transfer_def log_env_def add64_def int64_id time_sub_def Let_def)
  obtain k' where f: "writer_flush (log_env 0) (\<lambda>_. ?wr1) CtxLive False ?wr log_link = (Ok (), ?wr1\<lparr>wr_buffer := []\<rparr>, k')"
    using log_flush [OF log_link_ready(1), of ?wr 0 "\<lambda>_. ?wr1" CtxLive] by auto
  have "wr_buffer ?wr \<noteq> []" "int (length (wr_buffer ?wr @ [1])) < sop_chunk_size (wr_options ?wr)" by (simp_all add: defs)
  from auto_flush_loses_write [OF this(1) w this(2) f] f log_link_ready(2) show ?thesis
    by (intro exI [of _ ?wr1] exI [of _ "?wr1\<lparr>wr_buffer := []\<rparr>"] exI [of _ k']) auto
qed

end
