(* ===== verification/MapOperations.thy ===== *)
theory MapOperations
  imports Streaming
begin

text \<open>
  \<open>map_operations.go\<close>: requests for operations on a remote collection. The code looks at the function it
  is given only through reflection, so a function is here the types of its parameters and results. What
  the session accepted is the history of the link, as for streams.
\<close>

section \<open>Functions and options\<close>

datatype go_kind = KindBool | KindInt | KindOther

record go_type =
  gt_name :: string
  gt_kind :: go_kind

text \<open>What an \<open>interface{}\<close> meant to hold a function holds: nothing, another value, or a function.\<close>

datatype callable = NilFn | NonFn | Fn "go_type list" "go_type list"

record map_options =
  mp_chunk_size :: int
  mp_parallel :: bool
  mp_max_concurrency :: int

definition default_map_options :: map_options where
  "default_map_options = \<lparr>mp_chunk_size = 100, mp_parallel = True, mp_max_concurrency = 4\<rparr>"

definition map_options_of :: "map_options list \<Rightarrow> map_options" where
  "map_options_of options = (case options of x # _ \<Rightarrow> x | [] \<Rightarrow> default_map_options)"

record map_operation =
  mo_import :: int
  mo_path :: "string list"
  mo_chunk_size :: int

definition new_map_operation :: "int \<Rightarrow> string list \<Rightarrow> map_operation" where
  "new_map_operation i path = \<lparr>mo_import = i, mo_path = path, mo_chunk_size = 100\<rparr>"

definition set_chunk_size :: "int \<Rightarrow> map_operation \<Rightarrow> map_operation" where
  "set_chunk_size n m = m\<lparr>mo_chunk_size := n\<rparr>"

text \<open>A slice of strings under \<open>%v\<close>; \<open>NumIn\<close> of anything but a function panics.\<close>

definition strings_text :: "string list \<Rightarrow> string" where
  "strings_text xs = ''['' @ join_with '' '' xs @ '']''"

definition serialize_function_type :: "callable \<Rightarrow> gval result" where
  "serialize_function_type f =
     (case f of
        Fn ins outs \<Rightarrow> Ok (VMap [(''type'', VStr ''function''), (''paramTypes'', VSlice (map (VStr \<circ> gt_name) ins)),
          (''returnTypes'', VSlice (map (VStr \<circ> gt_name) outs)),
          (''source'', VStr (''func('' @ strings_text (map gt_name ins) @ '') '' @ strings_text (map gt_name outs))),
          (''executable'', VBool False),
          (''note'', VStr ''Function serialization requires code generation or reflection-based execution'')])
      | _ \<Rightarrow> Panic)"

text \<open>The fields every message starts with, and a request whose message holds a serialized function.\<close>

definition mo_fields :: "string \<Rightarrow> map_operation \<Rightarrow> (string \<times> gval) list" where
  "mo_fields t m = [(''type'', VStr t), (''importID'', VInt (mo_import m)), (''path'', VSlice (map VStr (mo_path m)))]"

definition request_with :: "'t env \<Rightarrow> ctx \<Rightarrow> bool \<Rightarrow> callable \<Rightarrow> (gval \<Rightarrow> (string \<times> gval) list) \<Rightarrow> 't link \<Rightarrow> int result \<times> 't link" where
  "request_with E c w f msg k =
     (case serialize_function_type f of
        Ok v \<Rightarrow> link_request E c w (VMap (msg v)) k | Err e \<Rightarrow> (Err e, k) | Panic \<Rightarrow> (Panic, k) | Hang \<Rightarrow> (Hang, k))"

definition option_fields :: "map_options \<Rightarrow> (string \<times> gval) list" where
  "option_fields opts = [(''chunkSize'', VInt (mp_chunk_size opts)), (''parallel'', VBool (mp_parallel opts)),
     (''maxConcurrency'', VInt (mp_max_concurrency opts))]"

section \<open>Operations\<close>

definition mo_map :: "'t env \<Rightarrow> ctx \<Rightarrow> bool \<Rightarrow> map_operation \<Rightarrow> callable \<Rightarrow> map_options list \<Rightarrow> 't link \<Rightarrow> int result \<times> 't link" where
  "mo_map E c w m f options k =
     (case f of
        Fn ins outs \<Rightarrow>
          if length ins \<noteq> 1 \<or> length outs \<noteq> 1
          then (Err (EMsg ''transform function must have exactly one input and one output parameter''), k)
          else request_with E c w f (\<lambda>v. mo_fields ''map'' m @ [(''function'', v)] @ option_fields (map_options_of options)) k
      | _ \<Rightarrow> (Err (EMsg ''transform function must be a function''), k))"

definition mo_filter :: "'t env \<Rightarrow> ctx \<Rightarrow> bool \<Rightarrow> map_operation \<Rightarrow> callable \<Rightarrow> map_options list \<Rightarrow> 't link \<Rightarrow> int result \<times> 't link" where
  "mo_filter E c w m f options k =
     (case f of
        Fn ins outs \<Rightarrow>
          if length ins \<noteq> 1 \<or> length outs \<noteq> 1
          then (Err (EMsg ''predicate function must have exactly one input and one output parameter''), k)
          else if gt_kind (outs ! 0) \<noteq> KindBool then (Err (EMsg ''predicate function must return a boolean''), k)
          else request_with E c w f (\<lambda>v. mo_fields ''filter'' m @ [(''predicate'', v)] @ option_fields (map_options_of options)) k
      | _ \<Rightarrow> (Err (EMsg ''predicate function must be a function''), k))"

definition mo_reduce :: "'t env \<Rightarrow> ctx \<Rightarrow> bool \<Rightarrow> map_operation \<Rightarrow> callable \<Rightarrow> gval \<Rightarrow> map_options list \<Rightarrow> 't link \<Rightarrow> int result \<times> 't link" where
  "mo_reduce E c w m f initial options k =
     (let opts = map_options_of options
      in case f of
        Fn ins outs \<Rightarrow>
          if length ins \<noteq> 2 \<or> length outs \<noteq> 1
          then (Err (EMsg ''reduce function must have exactly two input parameters and one output parameter''), k)
          else request_with E c w f (\<lambda>v. mo_fields ''reduce'' m @ [(''function'', v), (''initialValue'', initial),
                 (''chunkSize'', VInt (mp_chunk_size opts)), (''parallel'', VBool (mp_parallel opts))]) k
      | _ \<Rightarrow> (Err (EMsg ''reduce function must be a function''), k))"

definition mo_for_each :: "'t env \<Rightarrow> ctx \<Rightarrow> bool \<Rightarrow> map_operation \<Rightarrow> callable \<Rightarrow> map_options list \<Rightarrow> 't link \<Rightarrow> int result \<times> 't link" where
  "mo_for_each E c w m f options k =
     (case f of
        Fn ins outs \<Rightarrow>
          if length ins \<noteq> 1 then (Err (EMsg ''action function must have exactly one input parameter''), k)
          else request_with E c w f (\<lambda>v. mo_fields ''forEach'' m @ [(''function'', v)] @ option_fields (map_options_of options)) k
      | _ \<Rightarrow> (Err (EMsg ''action function must be a function''), k))"

text \<open>Find, some and every check their predicate alike and differ in the type of their message.\<close>

definition mo_find :: "'t env \<Rightarrow> ctx \<Rightarrow> bool \<Rightarrow> map_operation \<Rightarrow> callable \<Rightarrow> 't link \<Rightarrow> int result \<times> 't link" where
  "mo_find E c w m f k =
     (case f of
        Fn ins outs \<Rightarrow>
          if length ins \<noteq> 1 \<or> length outs \<noteq> 1
          then (Err (EMsg ''predicate function must have exactly one input and one output parameter''), k)
          else if gt_kind (outs ! 0) \<noteq> KindBool then (Err (EMsg ''predicate function must return a boolean''), k)
          else request_with E c w f (\<lambda>v. mo_fields ''find'' m @ [(''predicate'', v)]) k
      | _ \<Rightarrow> (Err (EMsg ''predicate function must be a function''), k))"

definition mo_some :: "'t env \<Rightarrow> ctx \<Rightarrow> bool \<Rightarrow> map_operation \<Rightarrow> callable \<Rightarrow> 't link \<Rightarrow> int result \<times> 't link" where
  "mo_some E c w m f k =
     (case f of
        Fn ins outs \<Rightarrow>
          if length ins \<noteq> 1 \<or> length outs \<noteq> 1
          then (Err (EMsg ''predicate function must have exactly one input and one output parameter''), k)
          else if gt_kind (outs ! 0) \<noteq> KindBool then (Err (EMsg ''predicate function must return a boolean''), k)
          else request_with E c w f (\<lambda>v. mo_fields ''some'' m @ [(''predicate'', v)]) k
      | _ \<Rightarrow> (Err (EMsg ''predicate function must be a function''), k))"

definition mo_every :: "'t env \<Rightarrow> ctx \<Rightarrow> bool \<Rightarrow> map_operation \<Rightarrow> callable \<Rightarrow> 't link \<Rightarrow> int result \<times> 't link" where
  "mo_every E c w m f k =
     (case f of
        Fn ins outs \<Rightarrow>
          if length ins \<noteq> 1 \<or> length outs \<noteq> 1
          then (Err (EMsg ''predicate function must have exactly one input and one output parameter''), k)
          else if gt_kind (outs ! 0) \<noteq> KindBool then (Err (EMsg ''predicate function must return a boolean''), k)
          else request_with E c w f (\<lambda>v. mo_fields ''every'' m @ [(''predicate'', v)]) k
      | _ \<Rightarrow> (Err (EMsg ''predicate function must be a function''), k))"

definition mo_count :: "'t env \<Rightarrow> ctx \<Rightarrow> bool \<Rightarrow> map_operation \<Rightarrow> 't link \<Rightarrow> int result \<times> 't link" where
  "mo_count E c w m k = link_request E c w (VMap (mo_fields ''count'' m)) k"

definition mo_slice :: "'t env \<Rightarrow> ctx \<Rightarrow> bool \<Rightarrow> map_operation \<Rightarrow> int \<Rightarrow> int \<Rightarrow> 't link \<Rightarrow> int result \<times> 't link" where
  "mo_slice E c w m start stop k =
     link_request E c w (VMap (mo_fields ''slice'' m @ [(''start'', VInt start), (''end'', VInt stop)])) k"

definition mo_sort :: "'t env \<Rightarrow> ctx \<Rightarrow> bool \<Rightarrow> map_operation \<Rightarrow> callable \<Rightarrow> 't link \<Rightarrow> int result \<times> 't link" where
  "mo_sort E c w m f k =
     (case f of
        Fn ins outs \<Rightarrow>
          if length ins \<noteq> 2 \<or> length outs \<noteq> 1
          then (Err (EMsg ''compare function must have exactly two input parameters and one output parameter''), k)
          else if gt_kind (outs ! 0) \<noteq> KindInt then (Err (EMsg ''compare function must return an integer''), k)
          else request_with E c w f (\<lambda>v. mo_fields ''sort'' m @ [(''compareFunc'', v)]) k
      | _ \<Rightarrow> (Err (EMsg ''compare function must be a function''), k))"

section \<open>Ready-made functions\<close>

definition type_any :: go_type where "type_any = \<lparr>gt_name = ''interface {}'', gt_kind = KindOther\<rparr>"
definition type_string :: go_type where "type_string = \<lparr>gt_name = ''string'', gt_kind = KindOther\<rparr>"
definition type_float :: go_type where "type_float = \<lparr>gt_name = ''float64'', gt_kind = KindOther\<rparr>"
definition type_bool :: go_type where "type_bool = \<lparr>gt_name = ''bool'', gt_kind = KindBool\<rparr>"

definition map_to_string :: "'t env \<Rightarrow> bool \<Rightarrow> map_operation \<Rightarrow> ctx \<Rightarrow> 't link \<Rightarrow> int result \<times> 't link" where
  "map_to_string E w m c k = mo_map E c w m (Fn [type_any] [type_string]) [] k"

definition map_to_number :: "'t env \<Rightarrow> bool \<Rightarrow> map_operation \<Rightarrow> ctx \<Rightarrow> 't link \<Rightarrow> int result \<times> 't link" where
  "map_to_number E w m c k = mo_map E c w m (Fn [type_string] [type_float]) [] k"

definition filter_non_empty :: "'t env \<Rightarrow> bool \<Rightarrow> map_operation \<Rightarrow> ctx \<Rightarrow> 't link \<Rightarrow> int result \<times> 't link" where
  "filter_non_empty E w m c k = mo_filter E c w m (Fn [type_any] [type_bool]) [] k"

definition sum_elements :: "'t env \<Rightarrow> bool \<Rightarrow> map_operation \<Rightarrow> ctx \<Rightarrow> 't link \<Rightarrow> int result \<times> 't link" where
  "sum_elements E w m c k = mo_reduce E c w m (Fn [type_float, type_float] [type_float]) (VFloat 0) [] k"

section \<open>Batches\<close>

text \<open>The operations of a batch, as the maps its message holds.\<close>

type_synonym map_batch = "gval list"

definition new_map_batch :: map_batch where "new_map_batch = []"

definition batch_add :: "string \<Rightarrow> string \<Rightarrow> map_operation \<Rightarrow> callable \<Rightarrow> map_batch \<Rightarrow> map_batch result" where
  "batch_add t fld m f b =
     bind_outcome (serialize_function_type f) (\<lambda>v. Ok (b @ [VMap (mo_fields t m @ [(fld, v), (''chunkSize'', VInt (mo_chunk_size m))])]))"

definition batch_add_map :: "map_operation \<Rightarrow> callable \<Rightarrow> map_batch \<Rightarrow> map_batch result" where
  "batch_add_map = batch_add ''map'' ''function''"

definition batch_add_filter :: "map_operation \<Rightarrow> callable \<Rightarrow> map_batch \<Rightarrow> map_batch result" where
  "batch_add_filter = batch_add ''filter'' ''predicate''"

definition batch_execute :: "'t env \<Rightarrow> ctx \<Rightarrow> bool \<Rightarrow> map_batch \<Rightarrow> 't link \<Rightarrow> int result \<times> 't link" where
  "batch_execute E c w b k = link_request E c w (VMap [(''type'', VStr ''batchMap''), (''operations'', VSlice b)]) k"

definition batch_clear :: "map_batch \<Rightarrow> map_batch" where "batch_clear b = []"

definition batch_count :: "map_batch \<Rightarrow> nat" where "batch_count b = length b"

section \<open>What the operations promise\<close>

datatype map_call =
    CallMap callable "map_options list"
  | CallFilter callable "map_options list"
  | CallReduce callable gval "map_options list"
  | CallForEach callable "map_options list"
  | CallFind callable
  | CallSome callable
  | CallEvery callable
  | CallCount
  | CallSlice int int
  | CallSort callable

primrec run_call :: "'t env \<Rightarrow> ctx \<Rightarrow> bool \<Rightarrow> map_operation \<Rightarrow> map_call \<Rightarrow> 't link \<Rightarrow> int result \<times> 't link" where
  "run_call E c w m (CallMap f options) k = mo_map E c w m f options k"
| "run_call E c w m (CallFilter f options) k = mo_filter E c w m f options k"
| "run_call E c w m (CallReduce f v options) k = mo_reduce E c w m f v options k"
| "run_call E c w m (CallForEach f options) k = mo_for_each E c w m f options k"
| "run_call E c w m (CallFind f) k = mo_find E c w m f k"
| "run_call E c w m (CallSome f) k = mo_some E c w m f k"
| "run_call E c w m (CallEvery f) k = mo_every E c w m f k"
| "run_call E c w m CallCount k = mo_count E c w m k"
| "run_call E c w m (CallSlice a b) k = mo_slice E c w m a b k"
| "run_call E c w m (CallSort f) k = mo_sort E c w m f k"

text \<open>
  The table of the interface: the name of the operation, the field of its function, and the shape of
  the function: the number of parameters, the number of results and the kind of the first, where
  the operation asks for one.
\<close>

record call_shape =
  cs_name :: string
  cs_function :: "(string \<times> callable \<times> nat \<times> nat option \<times> go_kind option) option"

fun shape_of :: "map_call \<Rightarrow> call_shape" where
  "shape_of (CallMap f _) = \<lparr>cs_name = ''map'', cs_function = Some (''function'', f, 1, Some 1, None)\<rparr>"
| "shape_of (CallFilter f _) = \<lparr>cs_name = ''filter'', cs_function = Some (''predicate'', f, 1, Some 1, Some KindBool)\<rparr>"
| "shape_of (CallReduce f _ _) = \<lparr>cs_name = ''reduce'', cs_function = Some (''function'', f, 2, Some 1, None)\<rparr>"
| "shape_of (CallForEach f _) = \<lparr>cs_name = ''forEach'', cs_function = Some (''function'', f, 1, None, None)\<rparr>"
| "shape_of (CallFind f) = \<lparr>cs_name = ''find'', cs_function = Some (''predicate'', f, 1, Some 1, Some KindBool)\<rparr>"
| "shape_of (CallSome f) = \<lparr>cs_name = ''some'', cs_function = Some (''predicate'', f, 1, Some 1, Some KindBool)\<rparr>"
| "shape_of (CallEvery f) = \<lparr>cs_name = ''every'', cs_function = Some (''predicate'', f, 1, Some 1, Some KindBool)\<rparr>"
| "shape_of CallCount = \<lparr>cs_name = ''count'', cs_function = None\<rparr>"
| "shape_of (CallSlice _ _) = \<lparr>cs_name = ''slice'', cs_function = None\<rparr>"
| "shape_of (CallSort f) = \<lparr>cs_name = ''sort'', cs_function = Some (''compareFunc'', f, 2, Some 1, Some KindInt)\<rparr>"

definition has_shape :: "callable \<Rightarrow> nat \<Rightarrow> nat option \<Rightarrow> go_kind option \<Rightarrow> bool" where
  "has_shape f ni no kind = (case f of
       Fn ins outs \<Rightarrow> length ins = ni \<and> (case no of None \<Rightarrow> True | Some n \<Rightarrow> length outs = n)
         \<and> (case kind of None \<Rightarrow> True | Some k \<Rightarrow> gt_kind (outs ! 0) = k)
     | _ \<Rightarrow> False)"

definition call_fits :: "map_call \<Rightarrow> bool" where
  "call_fits call = (case cs_function (shape_of call) of None \<Rightarrow> True | Some (_, f, ni, no, kind) \<Rightarrow> has_shape f ni no kind)"

text \<open>The fields of the message that the table determines.\<close>

definition describes :: "map_operation \<Rightarrow> map_call \<Rightarrow> (string \<times> gval) list \<Rightarrow> bool" where
  "describes m call fs \<longleftrightarrow> distinct (map fst fs) \<and> map_of fs ''type'' = Some (VStr (cs_name (shape_of call)))
     \<and> map_of fs ''importID'' = Some (VInt (mo_import m)) \<and> map_of fs ''path'' = Some (VSlice (map VStr (mo_path m)))
     \<and> (case cs_function (shape_of call) of None \<Rightarrow> True
        | Some (fld, f, _) \<Rightarrow> (\<exists>v. serialize_function_type f = Ok v \<and> map_of fs fld = Some v))"

lemma request_with_fn:
  "request_with E c w (Fn ins outs) msg k = link_request E c w (VMap (msg (case serialize_function_type (Fn ins outs) of Ok v \<Rightarrow> v))) k"
  by (simp add: request_with_def serialize_function_type_def)

lemma described_request:
  "r = link_request E c w (VMap fs) k \<Longrightarrow> describes m call fs \<Longrightarrow> \<exists>fs. r = link_request E c w (VMap fs) k \<and> describes m call fs"
  by blast

lemmas call_defs = call_fits_def has_shape_def request_with_fn describes_def mo_fields_def option_fields_def serialize_function_type_def

text \<open>
  C27: The operations implement their table. Every operation on a remote collection refuses with an
  error, and sends nothing, exactly when its function does not have the shape of the table; otherwise
  it makes one request, whose message names the operation, the collection and the function.
\<close>

theorem map_calls_refine:
  "if call_fits call
   then \<exists>fs. run_call E c w m call k = link_request E c w (VMap fs) k \<and> describes m call fs
   else \<exists>e. run_call E c w m call k = (Err e, k)"
proof (cases call)
  case (CallMap f options)
  then show ?thesis by (cases f) (auto simp: call_defs mo_map_def intro!: described_request [OF refl])
next
  case (CallFilter f options)
  then show ?thesis by (cases f) (auto simp: call_defs mo_filter_def intro!: described_request [OF refl])
next
  case (CallReduce f v options)
  then show ?thesis by (cases f) (auto simp: call_defs mo_reduce_def Let_def intro!: described_request [OF refl])
next
  case (CallForEach f options)
  then show ?thesis by (cases f) (auto simp: call_defs mo_for_each_def intro!: described_request [OF refl])
next
  case (CallFind f)
  then show ?thesis by (cases f) (auto simp: call_defs mo_find_def intro!: described_request [OF refl])
next
  case (CallSome f)
  then show ?thesis by (cases f) (auto simp: call_defs mo_some_def intro!: described_request [OF refl])
next
  case (CallEvery f)
  then show ?thesis by (cases f) (auto simp: call_defs mo_every_def intro!: described_request [OF refl])
next
  case CallCount
  then show ?thesis by (auto simp: call_defs mo_count_def intro!: described_request [OF refl])
next
  case (CallSlice a b)
  then show ?thesis by (auto simp: call_defs mo_slice_def intro!: described_request [OF refl])
next
  case (CallSort f)
  then show ?thesis by (cases f) (auto simp: call_defs mo_sort_def intro!: described_request [OF refl])
qed

text \<open>
  A batch takes any function without a look at its shape, also one that the operation itself refuses,
  and panics on anything else.
\<close>

lemma batch_skips_checks:
  "length ins \<noteq> 1 \<Longrightarrow> (\<exists>b'. batch_add_map m (Fn ins outs) b = Ok b' \<and> batch_count b' = Suc (batch_count b))
     \<and> fst (mo_map E c w m (Fn ins outs) options k) \<noteq> Ok i"
  "batch_add_map m NilFn b = Panic" "batch_add_filter m NonFn b = Panic"
  by (simp_all add: batch_add_map_def batch_add_filter_def batch_add_def serialize_function_type_def mo_map_def batch_count_def)

end
