(* ===== verification/Framing.thy ===== *)
theory Framing
  imports Transport "HOL-Library.Word"
begin

text \<open>
  Length-prefixed frames over a network connection (\<open>readFrame\<close> and \<open>writeFrame\<close> of
  \<open>custom_transports.go\<close>). What has arrived on a connection is a list of segments; a \<open>Read\<close> takes from
  the first one only and may return fewer bytes than asked for, as \<open>net.Conn\<close> does.
\<close>

unbundle bit_operations_syntax

section \<open>Connections\<close>

text \<open>
  \<open>cn_in_end\<close> is the error of a read when nothing is left (the end of the stream, or the deadline), and
  \<open>cn_writes_left\<close> the number of writes before they fail, if they do.
\<close>

record conn =
  cn_in :: "bytes list"
  cn_in_end :: "goerr option"
  cn_out :: "bytes list"
  cn_writes_left :: "nat option"
  cn_closed :: bool
  cn_close_err :: "goerr option"

definition new_conn :: "bytes list \<Rightarrow> conn" where
  "new_conn xs = \<lparr>cn_in = xs, cn_in_end = None, cn_out = [], cn_writes_left = None, cn_closed = False, cn_close_err = None\<rparr>"

definition conn_read :: "nat \<Rightarrow> conn \<Rightarrow> bytes result \<times> conn" where
  "conn_read n c =
     (if cn_closed c then (Err (EMsg ''use of closed network connection''), c)
      else if n = 0 then (Ok [], c)
      else case cn_in c of
        seg # segs \<Rightarrow> (Ok (take n seg), c\<lparr>cn_in := (if length seg \<le> n then segs else drop n seg # segs)\<rparr>)
      | [] \<Rightarrow> (case cn_in_end c of Some e \<Rightarrow> (Err e, c) | None \<Rightarrow> (Hang, c)))"

definition conn_write :: "bytes \<Rightarrow> conn \<Rightarrow> unit result \<times> conn" where
  "conn_write d c =
     (if cn_closed c then (Err (EMsg ''use of closed network connection''), c)
      else case cn_writes_left c of
        Some 0 \<Rightarrow> (Err (EMsg ''write failed''), c)
      | left \<Rightarrow> (Ok (), c\<lparr>cn_out := cn_out c @ [d], cn_writes_left := map_option (\<lambda>n. n - 1) left\<rparr>))"

definition conn_close :: "conn \<Rightarrow> goerr option \<times> conn" where
  "conn_close c = (cn_close_err c, c\<lparr>cn_closed := True\<rparr>)"

section \<open>Frames\<close>

text \<open>\<open>byte(n >> k)\<close>.\<close>

definition byte_at :: "int \<Rightarrow> nat \<Rightarrow> 8 word" where
  "byte_at n k = word_of_int (drop_bit k n)"

definition frame_header :: "int \<Rightarrow> int \<Rightarrow> bytes result" where
  "frame_header fs n =
     (if fs = 2 then
        if n > 65535 then Err (EMsg ''message too large for 2-byte frame: %d'')
        else Ok [byte_at n 8, byte_at n 0]
      else if fs = 4 then Ok [byte_at n 24, byte_at n 16, byte_at n 8, byte_at n 0]
      else Err (EMsg ''unsupported frame size: %d''))"

definition write_frame :: "int \<Rightarrow> bytes \<Rightarrow> conn \<Rightarrow> unit result \<times> conn" where
  "write_frame fs m c =
     (case frame_header fs (int (length m)) of
        Ok h \<Rightarrow> (case conn_write h c of (Ok _, c1) \<Rightarrow> conn_write m c1 | x \<Rightarrow> x)
      | Err e \<Rightarrow> (Err e, c) | Panic \<Rightarrow> (Panic, c) | Hang \<Rightarrow> (Hang, c))"

definition frame_length :: "int \<Rightarrow> bytes \<Rightarrow> int result" where
  "frame_length fs h =
     (if fs = 2 then Ok (push_bit 8 (uint (h ! 0)) OR uint (h ! 1))
      else if fs = 4 then Ok (push_bit 24 (uint (h ! 0)) OR push_bit 16 (uint (h ! 1)) OR push_bit 8 (uint (h ! 2)) OR uint (h ! 3))
      else Err (EMsg ''unsupported frame size: %d''))"

text \<open>A buffer of \<open>n\<close> zeros after a read into it, whatever the number of bytes read.\<close>

definition read_into :: "nat \<Rightarrow> bytes \<Rightarrow> bytes" where
  "read_into n d = d @ replicate (n - length d) 0"

text \<open>The frame, the connection after it, and whether a framing error was counted.\<close>

definition read_frame :: "int \<Rightarrow> int \<Rightarrow> conn \<Rightarrow> bytes result \<times> conn \<times> bool" where
  "read_frame fs mx c =
     (if fs < 0 then (Panic, c, False)
      else case conn_read (nat fs) c of
        (Ok d, c1) \<Rightarrow>
          (case frame_length fs (read_into (nat fs) d) of
             Ok n \<Rightarrow>
               if n > mx then (Err (EMsg ''message too large: %d''), c1, True)
               else if n \<le> 0 then (Err (EMsg ''invalid message length: %d''), c1, True)
               else (case conn_read (nat n) c1 of
                   (Ok b, c2) \<Rightarrow> (Ok (read_into (nat n) b), c2, False)
                 | (Err e, c2) \<Rightarrow> (Err e, c2, False) | (Panic, c2) \<Rightarrow> (Panic, c2, False) | (Hang, c2) \<Rightarrow> (Hang, c2, False))
           | Err e \<Rightarrow> (Err e, c1, False) | Panic \<Rightarrow> (Panic, c1, False) | Hang \<Rightarrow> (Hang, c1, False))
      | (Err e, c1) \<Rightarrow> (Err e, c1, False) | (Panic, c1) \<Rightarrow> (Panic, c1, False) | (Hang, c1) \<Rightarrow> (Hang, c1, False))"

section \<open>Headers\<close>

lemma shift_or: "0 \<le> y \<Longrightarrow> y < 2 ^ k \<Longrightarrow> push_bit k x OR y = x * 2 ^ k + (y :: int)"
proof -
  assume y: "0 \<le> y" "y < 2 ^ k"
  then have "take_bit k y = y" by (simp add: take_bit_int_eq_self)
  then have "\<not> bit y n" if "k \<le> n" for n using that by (metis bit_take_bit_iff not_le)
  then have "push_bit k x + y = push_bit k x OR y"
    by (intro disjunctive_add_eq_or) (auto simp: bit_eq_iff bit_simps)
  then show ?thesis by (simp add: push_bit_eq_mult)
qed

lemma uint_byte_at: "uint (byte_at n k) = n div 2 ^ k mod 256"
  by (simp add: byte_at_def uint_word_of_int drop_bit_eq_div)

lemma frame_header_parse:
  assumes "frame_header fs n = Ok h" and "0 \<le> n" and "n < 2 ^ 32"
  shows "frame_length fs h = Ok n \<and> int (length h) = fs"
proof -
  have b: "0 \<le> uint (byte_at n k)" "uint (byte_at n k) < 256" for k by (simp_all add: uint_byte_at)
  consider "fs = 2" "n \<le> 65535" "h = [byte_at n 8, byte_at n 0]"
    | "fs = 4" "h = [byte_at n 24, byte_at n 16, byte_at n 8, byte_at n 0]"
    using assms(1) by (auto simp: frame_header_def split: if_splits)
  then show ?thesis
  proof cases
    case 1
    have "n div 256 mod 256 * 256 + n mod 256 = n" using 1(2) assms(2) by simp
    with 1 shift_or [of "uint (byte_at n 0)" 8] b show ?thesis by (simp add: frame_length_def uint_byte_at)
  next
    case 2
    let ?a = "uint (byte_at n 24)" and ?b = "uint (byte_at n 16)" and ?c = "uint (byte_at n 8)" and ?d = "uint (byte_at n 0)"
    have 1: "push_bit 8 ?c OR ?d = ?c * 256 + ?d" using shift_or [of ?d 8 ?c] b by simp
    have 2: "push_bit 16 ?b OR (?c * 256 + ?d) = ?b * 65536 + (?c * 256 + ?d)"
      using shift_or [of "?c * 256 + ?d" 16 ?b] b [of 8] b [of 0] by simp
    have 3: "push_bit 24 ?a OR (?b * 65536 + (?c * 256 + ?d)) = ?a * 16777216 + (?b * 65536 + (?c * 256 + ?d))"
      using shift_or [of "?b * 65536 + (?c * 256 + ?d)" 24 ?a] b [of 16] b [of 8] b [of 0] by simp
    have "?a * 16777216 + (?b * 65536 + (?c * 256 + ?d)) = n"
    proof -
      have "n mod 65536 = 256 * (n div 256 mod 256) + n mod 256" using zmod_zmult2_eq [of 256 n 256] by simp
      moreover have "n mod 16777216 = 65536 * (n div 65536 mod 256) + n mod 65536" using zmod_zmult2_eq [of 256 n 65536] by simp
      moreover have "n mod 4294967296 = 16777216 * (n div 16777216 mod 256) + n mod 16777216"
        using zmod_zmult2_eq [of 256 n 16777216] by simp
      moreover have "n mod 4294967296 = n" using assms(2,3) by simp
      moreover have "?a = n div 16777216 mod 256" "?b = n div 65536 mod 256" "?c = n div 256 mod 256" "?d = n mod 256"
        by (simp_all add: uint_byte_at)
      ultimately show ?thesis by linarith
    qed
    with 1 2 3 \<open>fs = 4\<close> \<open>h = _\<close> show ?thesis by (simp add: frame_length_def)
  qed
qed

section \<open>Streams of frames\<close>

fun write_frames :: "int \<Rightarrow> bytes list \<Rightarrow> conn \<Rightarrow> unit result \<times> conn" where
  "write_frames fs [] c = (Ok (), c)"
| "write_frames fs (m # ms) c = (case write_frame fs m c of (Ok _, c1) \<Rightarrow> write_frames fs ms c1 | x \<Rightarrow> x)"

fun read_frames :: "int \<Rightarrow> int \<Rightarrow> nat \<Rightarrow> conn \<Rightarrow> bytes list result \<times> conn" where
  "read_frames fs mx 0 c = (Ok [], c)"
| "read_frames fs mx (Suc k) c =
     (case read_frame fs mx c of
        (Ok m, c1, _) \<Rightarrow> (case read_frames fs mx k c1 of (x, c2) \<Rightarrow> (bind_outcome x (\<lambda>ms. Ok (m # ms)), c2))
      | (Err e, c1, _) \<Rightarrow> (Err e, c1) | (Panic, c1, _) \<Rightarrow> (Panic, c1) | (Hang, c1, _) \<Rightarrow> (Hang, c1))"

definition frame_bytes :: "int \<Rightarrow> bytes \<Rightarrow> bytes" where
  "frame_bytes fs m = (case frame_header fs (int (length m)) of Ok h \<Rightarrow> h @ m | _ \<Rightarrow> [])"

lemma conn_write_out: "conn_write d c = (Ok u, c') \<Longrightarrow> cn_out c' = cn_out c @ [d]"
  by (auto simp: conn_write_def split: if_splits option.splits nat.splits)

lemma write_frame_out:
  "write_frame fs m c = (Ok u, c') \<Longrightarrow>
     concat (cn_out c') = concat (cn_out c) @ frame_bytes fs m \<and> (\<exists>h. frame_header fs (int (length m)) = Ok h)"
  by (auto simp: write_frame_def frame_bytes_def split: outcome.splits prod.splits dest!: conn_write_out)

lemma write_frames_out:
  "write_frames fs ms c = (Ok u, c') \<Longrightarrow>
     concat (cn_out c') = concat (cn_out c) @ concat (map (frame_bytes fs) ms)
     \<and> (\<forall>m \<in> set ms. \<exists>h. frame_header fs (int (length m)) = Ok h)"
proof (induction ms arbitrary: c)
  case (Cons m ms)
  then obtain v c1 where w: "write_frame fs m c = (Ok v, c1)" and r: "write_frames fs ms c1 = (Ok u, c')"
    by (auto split: prod.splits outcome.splits)
  from write_frame_out [OF w] Cons.IH [OF r] show ?case by auto
qed simp

text \<open>Reading a frame that has arrived with whatever follows it.\<close>

lemma read_frame_whole:
  assumes "frame_header fs (int (length m)) = Ok h" and "m \<noteq> []" and "int (length m) \<le> mx" and "int (length m) < 2 ^ 32"
    and "cn_in c = [h @ m @ rest]" and "\<not> cn_closed c"
  shows "read_frame fs mx c = (Ok m, c\<lparr>cn_in := (if rest = [] then [] else [rest])\<rparr>, False)"
proof -
  note p = frame_header_parse [OF assms(1) _ assms(4)]
  have fs: "nat fs = length h" "0 \<le> fs" using p by auto
  have "h \<noteq> []" using assms(1) by (auto simp: frame_header_def split: if_splits)
  with assms p fs show ?thesis
    by (auto simp: read_frame_def conn_read_def read_into_def)
qed

lemma read_frames_whole:
  "\<forall>m \<in> set ms. (\<exists>h. frame_header fs (int (length m)) = Ok h) \<and> m \<noteq> [] \<and> int (length m) \<le> mx \<and> int (length m) < 2 ^ 32 \<Longrightarrow>
     ms \<noteq> [] \<Longrightarrow> cn_in c = [concat (map (frame_bytes fs) ms)] \<Longrightarrow> \<not> cn_closed c \<Longrightarrow>
     read_frames fs mx (length ms) c = (Ok ms, c\<lparr>cn_in := []\<rparr>)"
proof (induction ms arbitrary: c)
  case (Cons m ms)
  obtain h where h: "frame_header fs (int (length m)) = Ok h" using Cons.prems(1) by auto
  let ?rest = "concat (map (frame_bytes fs) ms)"
  have r: "read_frame fs mx c = (Ok m, c\<lparr>cn_in := (if ?rest = [] then [] else [?rest])\<rparr>, False)"
    using Cons.prems h by (intro read_frame_whole [OF h]) (auto simp: frame_bytes_def [of fs m])
  show ?case
  proof (cases "ms = []")
    case False
    then obtain m' ms' where ms: "ms = m' # ms'" by (cases ms) auto
    obtain h' where "frame_header fs (int (length m')) = Ok h'" using Cons.prems(1) ms by auto
    moreover have "m' \<noteq> []" using Cons.prems(1) ms by auto
    ultimately have "?rest \<noteq> []" unfolding ms by (auto simp: frame_bytes_def)
    then have "read_frames fs mx (length ms) (c\<lparr>cn_in := [?rest]\<rparr>) = (Ok ms, c\<lparr>cn_in := []\<rparr>)"
      using Cons.IH [of "c\<lparr>cn_in := [?rest]\<rparr>"] Cons.prems False by simp
    moreover have "read_frame fs mx c = (Ok m, c\<lparr>cn_in := [?rest]\<rparr>, False)"
      using r \<open>?rest \<noteq> []\<close> by (simp only: if_False)
    ultimately show ?thesis by simp
  qed (use r in simp)
qed simp

section \<open>Properties\<close>

text \<open>
  C28: Frames survive the trip. What \<open>writeFrame\<close> wrote for a list of messages, none empty and none over
  the limit of the reader, is read back message by message when the bytes have arrived in one piece;
  the prefix may be of two or of four bytes.
\<close>

theorem frame_stream_roundtrip:
  assumes "write_frames fs ms c = (Ok (), c')" and "cn_out c = []"
    and "\<forall>m \<in> set ms. m \<noteq> [] \<and> int (length m) \<le> mx" and "mx < 2 ^ 32" and "ms \<noteq> []"
    and "cn_in d = [concat (cn_out c')]" and "\<not> cn_closed d"
  shows "read_frames fs mx (length ms) d = (Ok ms, d\<lparr>cn_in := []\<rparr>)"
  using write_frames_out [OF assms(1)] assms(2-7) by (intro read_frames_whole) auto

lemma frame_stream_roundtrip_witness:
  "read_frames 4 9 2 (new_conn [[0, 0, 0, 2, 5, 6, 0, 0, 0, 1, 7]]) = (Ok [[5, 6], [7]], new_conn [])"
proof -
  have w: "write_frames 4 [[5, 6], [7]] (new_conn []) = (Ok (), (new_conn [])\<lparr>cn_out := [[0, 0, 0, 2], [5, 6], [0, 0, 0, 1], [7]]\<rparr>)"
    by (simp add: write_frame_def frame_header_def byte_at_def conn_write_def new_conn_def)
  show ?thesis
    using frame_stream_roundtrip [OF w, of 9 "new_conn [[0, 0, 0, 2, 5, 6, 0, 0, 0, 1, 7]]"]
    by (simp add: new_conn_def numeral_2_eq_2)
qed

text \<open>
  A partial read corrupts the stream. When the body of a frame arrives in two segments, the reader
  returns the first followed by zeros as the message, without an error, and takes the second for the
  header of the next frame.
\<close>

theorem partial_read_corrupts:
  assumes "frame_header fs (int (length (a @ b))) = Ok h" and "a \<noteq> []" and "b \<noteq> []"
    and "int (length (a @ b)) \<le> mx" and "int (length (a @ b)) < 2 ^ 32"
    and "cn_in c = (h @ a) # b # segs" and "\<not> cn_closed c"
  shows "read_frame fs mx c = (Ok (a @ replicate (length b) 0), c\<lparr>cn_in := b # segs\<rparr>, False)"
proof -
  note p = frame_header_parse [OF assms(1) _ assms(5)]
  have fs: "nat fs = length h" "0 \<le> fs" using p by auto
  have "h \<noteq> []" using assms(1) by (auto simp: frame_header_def split: if_splits)
  moreover have "\<not> int (length a) + int (length b) \<le> 0" using assms(2) by (cases a) auto
  ultimately show ?thesis using assms p fs by (auto simp: read_frame_def conn_read_def read_into_def nat_add_distrib)
qed

lemma partial_read_corrupts_witness:
  "fst (read_frame 2 100 (new_conn [[0, 3, 1], [2, 3]])) = Ok [1, 0, 0]"
proof -
  have h: "frame_header 2 (int (length ([1] @ [2, 3 :: 8 word]))) = Ok [0, 3]" by (simp add: frame_header_def byte_at_def)
  show ?thesis using partial_read_corrupts [OF h, of 100 "new_conn [[0, 3, 1], [2, 3]]" "[]"] by (simp add: new_conn_def numeral_2_eq_2)
qed

end
