(* ===== verification/CustomTransports.thy ===== *)
theory CustomTransports
  imports Framing Tables "HOL-Library.Sublist"
begin

text \<open>
  \<open>custom_transports.go\<close>: the TCP, Unix socket and gRPC transports, the in-process pair and the registry.
  The transports with pumps share their channels, flags and the code of \<open>Send\<close>, \<open>Receive\<close> and \<open>Close\<close>:
  the record \<open>pump\<close>, which each extends. A goroutine is a flag and a step. A blocked \<open>Send\<close> keeps the
  read lock of the transport.
\<close>

section \<open>What the transports with pumps share\<close>

text \<open>\<open>pu_blocked\<close>: the sends that wait, with context and data. \<open>pu_close_waits\<close>: a \<open>Close\<close> waits for the lock.\<close>

record pump =
  pu_send_ch :: "bytes chan"
  pu_recv_ch :: "bytes chan"
  pu_close_ch_closed :: bool
  pu_connected :: bool
  pu_closed :: bool
  pu_close_err :: "goerr option"
  pu_blocked :: "(ctx \<times> bytes) list"
  pu_close_waits :: bool

datatype pump_case = PcChan | PcCtx | PcClose

text \<open>The \<open>select\<close> of \<open>Send\<close>.\<close>

definition pump_put :: "nat \<Rightarrow> ctx \<Rightarrow> bytes \<Rightarrow> 'a pump_scheme \<Rightarrow> unit result \<times> 'a pump_scheme" where
  "pump_put pick c d t =
     (case go_select pick [(ch_can_send (pu_send_ch t), PcChan), (ctx_done c, PcCtx), (pu_close_ch_closed t, PcClose)] of
        None \<Rightarrow> (Hang, t\<lparr>pu_blocked := pu_blocked t @ [(c, d)]\<rparr>)
      | Some PcChan \<Rightarrow>
          (case ch_send d (pu_send_ch t) of Ok ch \<Rightarrow> (Ok (), t\<lparr>pu_send_ch := ch\<rparr>) | x \<Rightarrow> (bind_outcome x (\<lambda>_. Ok ()), t))
      | Some PcCtx \<Rightarrow> (Err (ctx_error c), t)
      | Some PcClose \<Rightarrow> (Err (EMsg ''transport closed''), t))"

text \<open>A send that waits is tried again: with the context it has now.\<close>

definition pump_resume :: "nat \<Rightarrow> ctx \<Rightarrow> 'a pump_scheme \<Rightarrow> 'a pump_scheme" where
  "pump_resume pick c t =
     (case pu_blocked t of [] \<Rightarrow> t | (_, d) # bs \<Rightarrow> snd (pump_put pick c d (t\<lparr>pu_blocked := bs\<rparr>)))"

definition pump_send :: "nat \<Rightarrow> int option \<Rightarrow> ctx \<Rightarrow> bytes \<Rightarrow> 'a pump_scheme \<Rightarrow> unit result \<times> 'a pump_scheme" where
  "pump_send pick limit c d t =
     (if pu_close_waits t then (Hang, t)
      else if pu_closed t then (Err (EMsg ''transport is closed''), t)
      else if \<not> pu_connected t then (Err (EMsg ''not connected''), t)
      else if (case limit of Some n \<Rightarrow> int (length d) > n | None \<Rightarrow> False) then (Err (EMsg ''message too large: %d > %d''), t)
      else pump_put pick c d t)"

definition pump_receive :: "nat \<Rightarrow> ctx \<Rightarrow> 'a pump_scheme \<Rightarrow> bytes result \<times> 'a pump_scheme" where
  "pump_receive pick c t =
     (case go_select pick [(ch_can_recv (pu_recv_ch t), PcChan), (ctx_done c, PcCtx), (pu_close_ch_closed t, PcClose)] of
        None \<Rightarrow> (Hang, t)
      | Some PcChan \<Rightarrow> (case ch_recv (pu_recv_ch t) of (x, ch) \<Rightarrow>
          (Ok (case x of Some d \<Rightarrow> d | None \<Rightarrow> []), t\<lparr>pu_recv_ch := ch\<rparr>))
      | Some PcCtx \<Rightarrow> (Err (ctx_error c), t)
      | Some PcClose \<Rightarrow> (Err (EMsg ''transport closed''), t))"

text \<open>The flags and channels of \<open>Close\<close>, once it has the lock and the transport is open.\<close>

definition pump_shut :: "'a pump_scheme \<Rightarrow> 'a pump_scheme" where
  "pump_shut t = t\<lparr>pu_closed := True, pu_connected := False, pu_close_ch_closed := True,
     pu_send_ch := (pu_send_ch t)\<lparr>ch_closed := True\<rparr>, pu_close_waits := False\<rparr>"

definition pump_close :: "('a pump_scheme \<Rightarrow> goerr option \<times> 'a pump_scheme) \<Rightarrow> 'a pump_scheme \<Rightarrow> goerr option result \<times> 'a pump_scheme" where
  "pump_close after t =
     (if pu_blocked t \<noteq> [] then (Hang, t\<lparr>pu_close_waits := True\<rparr>)
      else if pu_closed t then (Ok (pu_close_err t), t\<lparr>pu_close_waits := False\<rparr>)
      else if pu_close_ch_closed t \<or> ch_closed (pu_send_ch t) then (Panic, (pump_shut t))
      else (case after (pump_shut t) of (e, t1) \<Rightarrow> (Ok e, t1)))"

definition pump_is_connected :: "'a pump_scheme \<Rightarrow> bool result" where
  "pump_is_connected t = (if pu_close_waits t then Hang else Ok (pu_connected t \<and> \<not> pu_closed t))"

definition new_pump :: "nat \<Rightarrow> nat \<Rightarrow> pump" where
  "new_pump ns nr = \<lparr>pu_send_ch = make_chan ns, pu_recv_ch = make_chan nr, pu_close_ch_closed = False, pu_connected = False,
     pu_closed = False, pu_close_err = None, pu_blocked = [], pu_close_waits = False\<rparr>"

section \<open>TCP\<close>

record tcp_options =
  to_connect_timeout :: int
  to_read_timeout :: int
  to_write_timeout :: int
  to_keep_alive :: bool
  to_keep_alive_period :: int
  to_reconnect :: bool
  to_reconnect_interval :: int
  to_max_attempts :: int
  to_send_buffer :: int
  to_receive_buffer :: int
  to_max_message :: int
  to_frame_size :: int

definition default_tcp_options :: tcp_options where
  "default_tcp_options = \<lparr>to_connect_timeout = 30000000000, to_read_timeout = 30000000000, to_write_timeout = 30000000000,
     to_keep_alive = True, to_keep_alive_period = 30000000000, to_reconnect = True, to_reconnect_interval = 5000000000,
     to_max_attempts = 5, to_send_buffer = 1000, to_receive_buffer = 1000, to_max_message = 1048576, to_frame_size = 4\<rparr>"

record tcp_stats =
  tcs_attempts :: int
  tcs_failures :: int
  tcs_received :: int
  tcs_sent :: int
  tcs_bytes_received :: int
  tcs_bytes_sent :: int
  tcs_reconnects :: int
  tcs_framing_errors :: int
  tcs_connected_time :: int
  tcs_last_connected :: int

text \<open>Where the goroutine of \<open>reconnect\<close> stands: at its start, at the head of its loop, or after the pause.\<close>

datatype reconnect_state = RcStart | RcCheck int | RcDial int

record tcp_transport = pump +
  tc_address :: string
  tc_options :: tcp_options
  tc_conn :: "conn option"
  tc_reading :: bool
  tc_read_ends :: bool
  tc_writing :: bool
  tc_reconnecting :: "reconnect_state option"
  tc_stats :: tcp_stats

definition add_tcp :: "(tcp_stats \<Rightarrow> tcp_stats) \<Rightarrow> tcp_transport \<Rightarrow> tcp_transport" where
  "add_tcp f t = t\<lparr>tc_stats := f (tc_stats t)\<rparr>"

definition inc64 :: "int \<Rightarrow> int" where "inc64 n = int64 (n + 1)"

text \<open>Negative sizes of channels or buffers panic.\<close>

definition new_tcp_transport :: "string \<Rightarrow> tcp_options list \<Rightarrow> tcp_transport result" where
  "new_tcp_transport address options =
     (let opts = (case options of x # _ \<Rightarrow> x | [] \<Rightarrow> default_tcp_options)
      in if to_send_buffer opts < 0 \<or> to_receive_buffer opts < 0 \<or> int64 (to_max_message opts + to_frame_size opts) < 0 then Panic
      else Ok (pump.extend (new_pump (nat (to_send_buffer opts)) (nat (to_receive_buffer opts)))
             \<lparr>tc_address = address, tc_options = opts, tc_conn = None, tc_reading = False, tc_read_ends = False, tc_writing = False,
              tc_reconnecting = None, tc_stats = \<lparr>tcs_attempts = 0, tcs_failures = 0, tcs_received = 0, tcs_sent = 0,
              tcs_bytes_received = 0, tcs_bytes_sent = 0, tcs_reconnects = 0, tcs_framing_errors = 0, tcs_connected_time = 0,
              tcs_last_connected = 0\<rparr>\<rparr>))"

text \<open>\<open>dial\<close> is what the dialer returns.\<close>

definition tcp_connect :: "conn result \<Rightarrow> int \<Rightarrow> tcp_transport \<Rightarrow> unit result \<times> tcp_transport" where
  "tcp_connect dial now t =
     (if pu_blocked t \<noteq> [] then (Hang, t)
      else if pu_connected t then (Err (EMsg ''already connected''), t)
      else if pu_closed t then (Err (EMsg ''transport is closed''), t)
      else case dial of
        Err e \<Rightarrow> (Err (EWrap ''failed to connect: '' e), add_tcp (\<lambda>s. s\<lparr>tcs_failures := inc64 (tcs_failures s)\<rparr>) t)
      | Panic \<Rightarrow> (Panic, t) | Hang \<Rightarrow> (Hang, t)
      | Ok cn \<Rightarrow> (Ok (), add_tcp (\<lambda>s. s\<lparr>tcs_attempts := inc64 (tcs_attempts s), tcs_last_connected := now\<rparr>)
          (t\<lparr>tc_conn := Some cn, pu_connected := True, tc_reading := True, tc_writing := True\<rparr>)))"

definition tcp_send :: "nat \<Rightarrow> ctx \<Rightarrow> bytes \<Rightarrow> tcp_transport \<Rightarrow> unit result \<times> tcp_transport" where
  "tcp_send pick c d t = pump_send pick (Some (to_max_message (tc_options t))) c d t"

definition tcp_receive :: "nat \<Rightarrow> ctx \<Rightarrow> tcp_transport \<Rightarrow> bytes result \<times> tcp_transport" where
  "tcp_receive pick c t = pump_receive pick c t"

definition tcp_close :: "tcp_transport \<Rightarrow> goerr option result \<times> tcp_transport" where
  "tcp_close t = pump_close (\<lambda>t. case tc_conn t of
       None \<Rightarrow> (pu_close_err t, t)
     | Some cn \<Rightarrow> (case conn_close cn of (e, cn') \<Rightarrow> (e, t\<lparr>tc_conn := Some cn', pu_close_err := e\<rparr>))) t"

text \<open>
  A round of the read pump. A reader that stops still has its deferred \<open>Close\<close> to run (\<open>tc_read_ends\<close>),
  and a full channel drops the message.
\<close>

definition tcp_read_step :: "nat \<Rightarrow> tcp_transport \<Rightarrow> unit result \<times> tcp_transport" where
  "tcp_read_step pick t =
     (case tc_conn t of
        Some cn \<Rightarrow>
          if \<not> tc_reading t then (Ok (), t)
          else (case read_frame (to_frame_size (tc_options t)) (to_max_message (tc_options t)) cn of (r, cn', framing) \<Rightarrow>
            let t1 = add_tcp (\<lambda>s. if framing then s\<lparr>tcs_framing_errors := inc64 (tcs_framing_errors s)\<rparr> else s) (t\<lparr>tc_conn := Some cn'\<rparr>)
            in (case r of
                  Err e \<Rightarrow> (Ok (), t1\<lparr>tc_reading := False, tc_read_ends := True,
                     tc_reconnecting := (if to_reconnect (tc_options t) \<and> \<not> pu_closed t then Some RcStart else tc_reconnecting t)\<rparr>)
                | Panic \<Rightarrow> (Panic, t1) | Hang \<Rightarrow> (Hang, t1)
                | Ok m \<Rightarrow>
                    let t2 = add_tcp (\<lambda>s. s\<lparr>tcs_received := inc64 (tcs_received s),
                          tcs_bytes_received := int64 (tcs_bytes_received s + int (length m))\<rparr>) t1
                    in (case go_select pick [(ch_can_send (pu_recv_ch t2), True), (pu_close_ch_closed t2, False)] of
                          None \<Rightarrow> (Ok (), t2)
                        | Some False \<Rightarrow> (Ok (), t2\<lparr>tc_reading := False, tc_read_ends := True\<rparr>)
                        | Some True \<Rightarrow> (case ch_send m (pu_recv_ch t2) of
                              Ok ch \<Rightarrow> (Ok (), t2\<lparr>pu_recv_ch := ch\<rparr>) | x \<Rightarrow> (bind_outcome x (\<lambda>_. Ok ()), t2)))))
      | None \<Rightarrow> (Ok (), t))"

definition tcp_read_end :: "tcp_transport \<Rightarrow> tcp_transport" where
  "tcp_read_end t = (if \<not> tc_read_ends t then t
     else case tcp_close t of (Hang, t1) \<Rightarrow> t1 | (_, t1) \<Rightarrow> t1\<lparr>tc_read_ends := False\<rparr>)"

text \<open>A round of the write pump.\<close>

definition tcp_write_step :: "nat \<Rightarrow> tcp_transport \<Rightarrow> unit result \<times> tcp_transport" where
  "tcp_write_step pick t =
     (case tc_conn t of
        Some cn \<Rightarrow>
          if \<not> tc_writing t then (Ok (), t)
          else (case go_select pick [(ch_can_recv (pu_send_ch t), True), (pu_close_ch_closed t, False)] of
              None \<Rightarrow> (Hang, t)
            | Some False \<Rightarrow> (Ok (), t\<lparr>tc_writing := False\<rparr>)
            | Some True \<Rightarrow> (case ch_recv (pu_send_ch t) of
                  (None, ch) \<Rightarrow> (Ok (), t\<lparr>tc_writing := False\<rparr>)
                | (Some m, ch) \<Rightarrow>
                    (case write_frame (to_frame_size (tc_options t)) m cn of
                       (Ok _, cn') \<Rightarrow> (Ok (), add_tcp (\<lambda>s. s\<lparr>tcs_sent := inc64 (tcs_sent s),
                           tcs_bytes_sent := int64 (tcs_bytes_sent s + int (length m))\<rparr>) (t\<lparr>pu_send_ch := ch, tc_conn := Some cn'\<rparr>))
                     | (Err e, cn') \<Rightarrow> (Ok (), t\<lparr>pu_send_ch := ch, tc_conn := Some cn', tc_writing := False\<rparr>)
                     | (Panic, cn') \<Rightarrow> (Panic, t\<lparr>pu_send_ch := ch, tc_conn := Some cn'\<rparr>)
                     | (Hang, cn') \<Rightarrow> (Hang, t\<lparr>pu_send_ch := ch, tc_conn := Some cn'\<rparr>))))
      | None \<Rightarrow> (Ok (), t))"

text \<open>A step of \<open>reconnect\<close>; others may act between its steps.\<close>

definition tcp_reconnect_step :: "conn result \<Rightarrow> int \<Rightarrow> tcp_transport \<Rightarrow> tcp_transport" where
  "tcp_reconnect_step dial now t =
     (case tc_reconnecting t of
        None \<Rightarrow> t
      | Some RcStart \<Rightarrow>
          if pu_closed t then t\<lparr>tc_reconnecting := None\<rparr>
          else add_tcp (\<lambda>s. s\<lparr>tcs_reconnects := inc64 (tcs_reconnects s)\<rparr>) (t\<lparr>tc_reconnecting := Some (RcCheck 1)\<rparr>)
      | Some (RcCheck k) \<Rightarrow>
          if k > to_max_attempts (tc_options t) then (case tcp_close t of (Hang, t1) \<Rightarrow> t1 | (_, t1) \<Rightarrow> t1\<lparr>tc_reconnecting := None\<rparr>)
          else if pu_closed t then t\<lparr>tc_reconnecting := None\<rparr>
          else t\<lparr>tc_reconnecting := Some (RcDial k)\<rparr>
      | Some (RcDial k) \<Rightarrow>
          (case tcp_connect dial now t of
             (Ok _, t1) \<Rightarrow> t1\<lparr>tc_reconnecting := None\<rparr>
           | (Err e, t1) \<Rightarrow> add_tcp (\<lambda>s. s\<lparr>tcs_failures := inc64 (tcs_failures s)\<rparr>) (t1\<lparr>tc_reconnecting := Some (RcCheck (k + 1))\<rparr>)
           | (_, t1) \<Rightarrow> t1))"

definition tcp_get_stats :: "int \<Rightarrow> tcp_transport \<Rightarrow> tcp_stats" where
  "tcp_get_stats now t = (if pu_connected t then (tc_stats t)\<lparr>tcs_connected_time := time_sub now (tcs_last_connected (tc_stats t))\<rparr> else tc_stats t)"

definition tcp_is_connected :: "tcp_transport \<Rightarrow> bool result" where
  "tcp_is_connected t = pump_is_connected t"

text \<open>The factory connects what it makes; a Unix socket differs in the address and in one message.\<close>

definition tcp_create :: "string \<Rightarrow> tcp_options \<Rightarrow> conn result \<Rightarrow> int \<Rightarrow> string \<Rightarrow> tcp_transport result" where
  "tcp_create base opts dial now endpoint =
     (case new_tcp_transport (base @ endpoint) [opts] of
        Ok t \<Rightarrow> (case tcp_connect dial now t of
            (Ok _, t1) \<Rightarrow> Ok t1 | (Err e, t1) \<Rightarrow> Err (EWrap ''failed to connect: '' e) | (Panic, _) \<Rightarrow> Panic | (Hang, _) \<Rightarrow> Hang)
      | x \<Rightarrow> x)"

definition unix_connect :: "conn result \<Rightarrow> int \<Rightarrow> tcp_transport \<Rightarrow> unit result \<times> tcp_transport" where
  "unix_connect dial now t =
     (if pu_blocked t \<noteq> [] then (Hang, t)
      else if pu_connected t then (Err (EMsg ''already connected''), t)
      else if pu_closed t then (Err (EMsg ''transport is closed''), t)
      else case dial of
        Err e \<Rightarrow> (Err (EWrap ''failed to connect to Unix socket: '' e), add_tcp (\<lambda>s. s\<lparr>tcs_failures := inc64 (tcs_failures s)\<rparr>) t)
      | Panic \<Rightarrow> (Panic, t) | Hang \<Rightarrow> (Hang, t)
      | Ok cn \<Rightarrow> (Ok (), add_tcp (\<lambda>s. s\<lparr>tcs_attempts := inc64 (tcs_attempts s), tcs_last_connected := now\<rparr>)
          (t\<lparr>tc_conn := Some cn, pu_connected := True, tc_reading := True, tc_writing := True\<rparr>)))"

section \<open>gRPC\<close>

text \<open>
  The gRPC transport is a simulation: its send pump counts and discards, its receive pump only waits. Of
  the options, those with a number or a flag that a connection would use.
\<close>

record grpc_options =
  go_connect_timeout :: int
  go_request_timeout :: int
  go_max_message :: int
  go_max_recv :: int
  go_max_send :: int
  go_retry :: bool
  go_max_retries :: int
  go_retry_backoff :: int

definition default_grpc_options :: grpc_options where
  "default_grpc_options = \<lparr>go_connect_timeout = 30000000000, go_request_timeout = 30000000000, go_max_message = 4194304,
     go_max_recv = 4194304, go_max_send = 4194304, go_retry = True, go_max_retries = 3, go_retry_backoff = 1000000000\<rparr>"

record grpc_stats =
  gs_attempts :: int
  gs_sent :: int
  gs_bytes_sent :: int
  gs_succeeded :: int
  gs_connected_time :: int
  gs_last_connected :: int

record grpc_transport = pump +
  gr_address :: string
  gr_options :: grpc_options
  gr_sending :: bool
  gr_receiving :: bool
  gr_stats :: grpc_stats

definition new_grpc_transport :: "string \<Rightarrow> grpc_options list \<Rightarrow> grpc_transport" where
  "new_grpc_transport address options =
     pump.extend (new_pump 1000 1000) \<lparr>gr_address = address,
       gr_options = (case options of x # _ \<Rightarrow> x | [] \<Rightarrow> default_grpc_options), gr_sending = False, gr_receiving = False,
       gr_stats = \<lparr>gs_attempts = 0, gs_sent = 0, gs_bytes_sent = 0, gs_succeeded = 0, gs_connected_time = 0, gs_last_connected = 0\<rparr>\<rparr>"

definition grpc_connect :: "int \<Rightarrow> grpc_transport \<Rightarrow> unit result \<times> grpc_transport" where
  "grpc_connect now t =
     (if pu_blocked t \<noteq> [] then (Hang, t)
      else if pu_connected t then (Err (EMsg ''already connected''), t)
      else if pu_closed t then (Err (EMsg ''transport is closed''), t)
      else (Ok (), t\<lparr>pu_connected := True, gr_sending := True, gr_receiving := True,
             gr_stats := (gr_stats t)\<lparr>gs_attempts := inc64 (gs_attempts (gr_stats t)), gs_last_connected := now\<rparr>\<rparr>))"

definition grpc_send :: "nat \<Rightarrow> ctx \<Rightarrow> bytes \<Rightarrow> grpc_transport \<Rightarrow> unit result \<times> grpc_transport" where
  "grpc_send pick c d t = pump_send pick (Some (go_max_message (gr_options t))) c d t"

definition grpc_receive :: "nat \<Rightarrow> ctx \<Rightarrow> grpc_transport \<Rightarrow> bytes result \<times> grpc_transport" where
  "grpc_receive pick c t = pump_receive pick c t"

definition grpc_close :: "grpc_transport \<Rightarrow> goerr option result \<times> grpc_transport" where
  "grpc_close t = pump_close (\<lambda>t. (None, t)) t"

definition grpc_send_step :: "nat \<Rightarrow> grpc_transport \<Rightarrow> unit result \<times> grpc_transport" where
  "grpc_send_step pick t =
     (if \<not> gr_sending t then (Ok (), t)
      else case go_select pick [(ch_can_recv (pu_send_ch t), True), (pu_close_ch_closed t, False)] of
        None \<Rightarrow> (Hang, t)
      | Some False \<Rightarrow> (Ok (), t\<lparr>gr_sending := False\<rparr>)
      | Some True \<Rightarrow> (case ch_recv (pu_send_ch t) of
            (None, ch) \<Rightarrow> (Ok (), t\<lparr>gr_sending := False\<rparr>)
          | (Some m, ch) \<Rightarrow> (Ok (), t\<lparr>pu_send_ch := ch, gr_stats := (gr_stats t)\<lparr>gs_sent := inc64 (gs_sent (gr_stats t)),
              gs_bytes_sent := int64 (gs_bytes_sent (gr_stats t) + int (length m)), gs_succeeded := inc64 (gs_succeeded (gr_stats t))\<rparr>\<rparr>)))"

definition grpc_receive_step :: "grpc_transport \<Rightarrow> grpc_transport" where
  "grpc_receive_step t = (if gr_receiving t \<and> pu_close_ch_closed t then t\<lparr>gr_receiving := False\<rparr> else t)"

definition grpc_get_stats :: "int \<Rightarrow> grpc_transport \<Rightarrow> grpc_stats" where
  "grpc_get_stats now t = (if pu_connected t then (gr_stats t)\<lparr>gs_connected_time := time_sub now (gs_last_connected (gr_stats t))\<rparr> else gr_stats t)"

definition grpc_is_connected :: "grpc_transport \<Rightarrow> bool result" where
  "grpc_is_connected t = pump_is_connected t"

definition grpc_create :: "string \<Rightarrow> grpc_options \<Rightarrow> int \<Rightarrow> string \<Rightarrow> grpc_transport result" where
  "grpc_create base opts now endpoint =
     (case grpc_connect now (new_grpc_transport (base @ endpoint) [opts]) of
        (Ok _, t1) \<Rightarrow> Ok t1 | (Err e, t1) \<Rightarrow> Err (EWrap ''failed to connect: '' e) | (Panic, _) \<Rightarrow> Panic | (Hang, _) \<Rightarrow> Hang)"

section \<open>In-process pairs\<close>

text \<open>
  An end has no flag of being connected (it stays true here). The histories \<open>ip_sent\<close> and \<open>ip_got\<close> are what
  its successful calls of \<open>Send\<close> and \<open>Receive\<close> sent and returned.
\<close>

record in_process_stats =
  ips_received :: int
  ips_sent :: int
  ips_bytes_received :: int
  ips_bytes_sent :: int

record in_process = pump +
  ip_forwarding :: bool
  ip_stats :: in_process_stats
  ip_sent :: "bytes list"
  ip_got :: "bytes list"

definition new_in_process :: in_process where
  "new_in_process = pump.extend ((new_pump 1000 1000)\<lparr>pu_connected := True\<rparr>)
     \<lparr>ip_forwarding = True, ip_stats = \<lparr>ips_received = 0, ips_sent = 0, ips_bytes_received = 0, ips_bytes_sent = 0\<rparr>,
      ip_sent = [], ip_got = []\<rparr>"

type_synonym in_process_pair = "in_process \<times> in_process"

definition new_in_process_pair :: in_process_pair where
  "new_in_process_pair = (new_in_process, new_in_process)"

definition ip_count_sent :: "bytes \<Rightarrow> in_process \<Rightarrow> in_process" where
  "ip_count_sent d t = t\<lparr>ip_sent := ip_sent t @ [d], ip_stats := (ip_stats t)\<lparr>ips_sent := inc64 (ips_sent (ip_stats t)),
     ips_bytes_sent := int64 (ips_bytes_sent (ip_stats t) + int (length d))\<rparr>\<rparr>"

definition ip_put :: "nat \<Rightarrow> ctx \<Rightarrow> bytes \<Rightarrow> in_process \<Rightarrow> unit result \<times> in_process" where
  "ip_put pick c d t = (case pump_put pick c d t of (Ok _, t1) \<Rightarrow> (Ok (), ip_count_sent d t1) | x \<Rightarrow> x)"

definition ip_send :: "nat \<Rightarrow> ctx \<Rightarrow> bytes \<Rightarrow> in_process \<Rightarrow> unit result \<times> in_process" where
  "ip_send pick c d t =
     (if pu_close_waits t then (Hang, t)
      else if pu_closed t then (Err (EMsg ''transport is closed''), t)
      else ip_put pick c d t)"

definition ip_resume :: "nat \<Rightarrow> ctx \<Rightarrow> in_process \<Rightarrow> in_process" where
  "ip_resume pick c t = (case pu_blocked t of [] \<Rightarrow> t | (_, d) # bs \<Rightarrow> snd (ip_put pick c d (t\<lparr>pu_blocked := bs\<rparr>)))"

definition ip_receive :: "nat \<Rightarrow> ctx \<Rightarrow> in_process \<Rightarrow> bytes result \<times> in_process" where
  "ip_receive pick c t =
     (case pump_receive pick c t of
        (Ok d, t1) \<Rightarrow> (Ok d, t1\<lparr>ip_got := ip_got t1 @ [d], ip_stats := (ip_stats t1)\<lparr>ips_received := inc64 (ips_received (ip_stats t1)),
            ips_bytes_received := int64 (ips_bytes_received (ip_stats t1) + int (length d))\<rparr>\<rparr>)
      | x \<Rightarrow> x)"

definition ip_close :: "in_process \<Rightarrow> unit result \<times> in_process" where
  "ip_close t =
     (if pu_blocked t \<noteq> [] then (Hang, t\<lparr>pu_close_waits := True\<rparr>)
      else if pu_closed t then (Ok (), t\<lparr>pu_close_waits := False\<rparr>)
      else (Ok (), t\<lparr>pu_closed := True, pu_close_ch_closed := True, pu_close_waits := False\<rparr>))"

text \<open>A round of the forwarder of the end \<open>t\<close>, whose peer is \<open>p\<close>.\<close>

definition ip_forward :: "nat \<Rightarrow> nat \<Rightarrow> in_process \<times> in_process \<Rightarrow> in_process \<times> in_process" where
  "ip_forward pick pick2 = (\<lambda>(t, p).
     (if \<not> ip_forwarding t then (t, p)
      else case go_select pick [(ch_can_recv (pu_send_ch t), True), (pu_close_ch_closed t, False)] of
        None \<Rightarrow> (t, p)
      | Some False \<Rightarrow> (t\<lparr>ip_forwarding := False\<rparr>, p)
      | Some True \<Rightarrow> (case ch_recv (pu_send_ch t) of (x, ch) \<Rightarrow>
          let m = (case x of Some m \<Rightarrow> m | None \<Rightarrow> []); t1 = t\<lparr>pu_send_ch := ch\<rparr>
          in if pu_closed p then (t1, p)
          else (case go_select pick2 [(ch_can_send (pu_recv_ch p), True), (pu_close_ch_closed p, False)] of
              None \<Rightarrow> (t1, p)
            | Some False \<Rightarrow> (t1\<lparr>ip_forwarding := False\<rparr>, p)
            | Some True \<Rightarrow> (case (ch_send m (pu_recv_ch p) :: bytes chan result) of Ok ch' \<Rightarrow> (t1, p\<lparr>pu_recv_ch := ch'\<rparr>) | _ \<Rightarrow> (t1, p))))))"

section \<open>The registry\<close>

type_synonym 't registry = "(string, string \<Rightarrow> 't result) gomap"

definition register_factory :: "string \<Rightarrow> (string \<Rightarrow> 't result) \<Rightarrow> 't registry \<Rightarrow> 't registry" where
  "register_factory name factory r = gm_put name factory r"

definition registry_create :: "'t registry \<Rightarrow> string \<Rightarrow> string \<Rightarrow> 't result" where
  "registry_create r t endpoint =
     (case gm_get r t of None \<Rightarrow> Err (EMsg ''unknown transport type: %s'') | Some factory \<Rightarrow> factory endpoint)"

definition registered_types :: "'t registry \<Rightarrow> string list" where
  "registered_types r = map fst r"

datatype builtin_transport = TcpTransport tcp_transport | GrpcTransport grpc_transport

definition default_transport_registry :: "conn result \<Rightarrow> int \<Rightarrow> builtin_transport registry" where
  "default_transport_registry dial now =
     register_factory ''grpc'' (\<lambda>e. bind_outcome (grpc_create [] default_grpc_options now e) (\<lambda>t. Ok (GrpcTransport t)))
       (register_factory ''tcp'' (\<lambda>e. bind_outcome (tcp_create [] default_tcp_options dial now e) (\<lambda>t. Ok (TcpTransport t))) [])"

section \<open>What the shared code keeps\<close>

lemma pump_put_keeps:
  "pump_put pick c d t = (r, t') \<Longrightarrow> pu_connected t' = pu_connected t \<and> pu_closed t' = pu_closed t
     \<and> pu_close_ch_closed t' = pu_close_ch_closed t \<and> pu_recv_ch t' = pu_recv_ch t \<and> pump.more t' = pump.more t
     \<and> pu_close_waits t' = pu_close_waits t
     \<and> (if r = Hang then pu_send_ch t' = pu_send_ch t \<and> pu_blocked t' = pu_blocked t @ [(c, d)] else pu_blocked t' = pu_blocked t)
     \<and> (if is_ok r then \<not> ch_closed (pu_send_ch t) \<and> pu_send_ch t' = (pu_send_ch t)\<lparr>ch_buf := ch_buf (pu_send_ch t) @ [d]\<rparr>
        else pu_send_ch t' = pu_send_ch t)"
  by (auto simp: pump_put_def ch_send_def split: option.splits pump_case.splits if_splits)

lemma pump_send_keeps:
  assumes "pump_send pick limit c d t = (r, t')"
  shows "(\<not> is_ok r \<and> t' = t) \<or> pump_put pick c d t = (r, t')"
  using assms by (auto simp: pump_send_def split: if_splits)

lemma pump_receive_keeps:
  "pump_receive pick c t = (r, t') \<Longrightarrow> (t' = t \<and> \<not> is_ok r) \<or> (\<exists>x ch. ch_can_recv (pu_recv_ch t)
     \<and> ch_recv (pu_recv_ch t) = (x, ch) \<and> t' = t\<lparr>pu_recv_ch := ch\<rparr> \<and> r = Ok (case x of Some d \<Rightarrow> d | None \<Rightarrow> []))"
  by (auto simp: pump_receive_def split: option.splits pump_case.splits if_splits prod.splits dest!: go_select_ready)

lemma pump_receive_nothing: "\<not> ch_can_recv (pu_recv_ch t) \<Longrightarrow> \<not> is_ok (fst (pump_receive pick c t))"
  using pump_receive_keeps [of pick c t, OF surjective_pairing] by blast

section \<open>Histories of a TCP transport\<close>

datatype tcp_event =
    TcpSend nat ctx bytes
  | TcpResume nat ctx
  | TcpReceive nat ctx
  | TcpClose
  | TcpConnect "conn result" int
  | TcpRead nat
  | TcpReadEnd
  | TcpWrite nat
  | TcpReconnect "conn result" int

primrec tcp_step :: "tcp_event \<Rightarrow> tcp_transport \<Rightarrow> tcp_transport" where
  "tcp_step (TcpSend pick c d) t = snd (tcp_send pick c d t)"
| "tcp_step (TcpResume pick c) t = pump_resume pick c t"
| "tcp_step (TcpReceive pick c) t = snd (tcp_receive pick c t)"
| "tcp_step TcpClose t = snd (tcp_close t)"
| "tcp_step (TcpConnect dial now) t = snd (tcp_connect dial now t)"
| "tcp_step (TcpRead pick) t = snd (tcp_read_step pick t)"
| "tcp_step TcpReadEnd t = tcp_read_end t"
| "tcp_step (TcpWrite pick) t = snd (tcp_write_step pick t)"
| "tcp_step (TcpReconnect dial now) t = tcp_reconnect_step dial now t"

definition tcp_run :: "tcp_event list \<Rightarrow> tcp_transport \<Rightarrow> tcp_transport" where
  "tcp_run evs t = fold tcp_step evs t"

text \<open>A transport that has been connected stays connected or is closed, and never connects again.\<close>

definition tcp_started :: "int \<Rightarrow> tcp_transport \<Rightarrow> bool" where
  "tcp_started n t \<longleftrightarrow> (pu_connected t \<or> pu_closed t) \<and> tcs_attempts (tc_stats t) = n"

lemma tcp_more: "pump.more t' = pump.more t \<Longrightarrow> tc_stats t' = tc_stats t \<and> tc_conn t' = tc_conn t \<and> tc_writing t' = tc_writing t
    \<and> tc_options t' = tc_options t" for t t' :: tcp_transport
  by (cases t; cases t') simp

lemma tcp_started_put: "tcp_started n t \<Longrightarrow> pump_put pick c d t = (r, t') \<Longrightarrow> tcp_started n t'"
  using tcp_more [of t' t] by (auto simp: tcp_started_def dest!: pump_put_keeps)

lemma tcp_started_close: "tcp_started n t \<Longrightarrow> tcp_started n (snd (tcp_close t))"
  by (auto simp: tcp_started_def tcp_close_def pump_close_def pump_shut_def split: option.splits prod.splits)

lemma tcp_connect_started: "tcp_started n t \<Longrightarrow> snd (tcp_connect dial now t) = t \<and> \<not> is_ok (fst (tcp_connect dial now t))"
  by (auto simp: tcp_started_def tcp_connect_def)

lemma tcp_started_step: 
  assumes "tcp_started n t"
  shows "tcp_started n (tcp_step ev t)"
proof (cases ev)
  case (TcpSend pick c d)
  obtain r t' where e: "tcp_send pick c d t = (r, t')" by force
  then have "t' = t \<or> pump_put pick c d t = (r, t')" unfolding tcp_send_def by (auto dest: pump_send_keeps)
  with e tcp_started_put [OF assms] assms TcpSend show ?thesis by auto
next
  case (TcpResume pick c)
  have "tcp_started n (t\<lparr>pu_blocked := bs\<rparr>)" for bs using assms by (simp add: tcp_started_def)
  then have "tcp_started n (snd (pump_put pick c d (t\<lparr>pu_blocked := bs\<rparr>)))" for d bs
    by (rule tcp_started_put [OF _ surjective_pairing])
  with TcpResume assms show ?thesis by (auto simp: pump_resume_def split: list.splits)
next
  case (TcpReceive pick c)
  with assms pump_receive_keeps [of pick c t "fst (pump_receive pick c t)" "snd (pump_receive pick c t)"] show ?thesis
    by (auto simp: tcp_receive_def tcp_started_def)
next
  case TcpClose
  with tcp_started_close [OF assms] show ?thesis by simp
next
  case (TcpConnect dial now)
  with tcp_connect_started [OF assms] assms show ?thesis by simp
next
  case (TcpRead pick)
  with assms show ?thesis
    by (auto simp: tcp_read_step_def add_tcp_def tcp_started_def Let_def split: option.splits prod.splits outcome.splits bool.splits)
next
  case TcpReadEnd
  with tcp_started_close [OF assms] assms show ?thesis
    by (auto simp: tcp_read_end_def tcp_started_def split: prod.splits outcome.splits)
next
  case (TcpWrite pick)
  with assms show ?thesis
    by (auto simp: tcp_write_step_def add_tcp_def tcp_started_def split: option.splits prod.splits outcome.splits bool.splits)
next
  case (TcpReconnect dial now)
  with tcp_started_close [OF assms] tcp_connect_started [OF assms, of dial now] assms show ?thesis
    by (cases "tcp_connect dial now t")
      (auto simp: tcp_reconnect_step_def add_tcp_def tcp_started_def split: option.splits reconnect_state.splits prod.splits outcome.splits)
qed

lemma tcp_started_run: "tcp_started n t \<Longrightarrow> tcp_started n (tcp_run evs t)"
  unfolding tcp_run_def by (induction evs arbitrary: t) (auto intro: tcp_started_step)

section \<open>A dead write pump\<close>

text \<open>A send waits for a channel that is full, on an open transport whose write pump has ended.\<close>

definition tcp_wedged :: "tcp_transport \<Rightarrow> bool" where
  "tcp_wedged t \<longleftrightarrow> pu_blocked t \<noteq> [] \<and> \<not> tc_writing t \<and> \<not> ch_can_send (pu_send_ch t) \<and> \<not> pu_close_ch_closed t"

lemma wedged_blocks: "tcp_wedged t \<Longrightarrow> fst (tcp_close t) = Hang" "tcp_wedged t \<Longrightarrow> fst (tcp_connect dial now t) = Hang"
  by (auto simp: tcp_wedged_def tcp_close_def pump_close_def tcp_connect_def)

lemma pump_put_stuck: 
  "\<not> ch_can_send (pu_send_ch t) \<Longrightarrow> \<not> pu_close_ch_closed t \<Longrightarrow> snd (pump_put pick c d t) = t \<or> (pump_put pick c d t) = (Hang, t\<lparr>pu_blocked := pu_blocked t @ [(c, d)]\<rparr>)"
  by (auto simp: pump_put_def go_select_def)

lemma wedged_step:
  assumes "tcp_wedged t" and "\<forall>pick c. ev = TcpResume pick c \<longrightarrow> c = CtxLive"
  shows "tcp_wedged (tcp_step ev t)"
proof (cases ev)
  case (TcpSend pick c d)
  have "tcp_wedged (snd (pump_put pick c d t))"
    using assms(1) pump_put_stuck [of t pick c d] by (auto simp: tcp_wedged_def)
  with TcpSend assms(1) show ?thesis by (auto simp: tcp_send_def pump_send_def)
next
  case (TcpResume pick c)
  with assms show ?thesis
    by (auto simp: pump_resume_def tcp_wedged_def pump_put_def go_select_def ctx_done_def split: list.splits)
next
  case (TcpReceive pick c)
  with assms pump_receive_keeps [of pick c t "fst (pump_receive pick c t)" "snd (pump_receive pick c t)"] show ?thesis
    by (auto simp: tcp_receive_def tcp_wedged_def)
next
  case TcpClose
  with assms show ?thesis by (auto simp: tcp_close_def pump_close_def tcp_wedged_def)
next
  case (TcpConnect dial now)
  with assms show ?thesis by (auto simp: tcp_connect_def tcp_wedged_def)
next
  case (TcpRead pick)
  with assms show ?thesis
    by (auto simp: tcp_read_step_def add_tcp_def tcp_wedged_def Let_def split: option.splits prod.splits outcome.splits bool.splits)
next
  case TcpReadEnd
  with assms show ?thesis
    by (auto simp: tcp_read_end_def tcp_close_def pump_close_def tcp_wedged_def)
next
  case (TcpWrite pick)
  with assms show ?thesis by (auto simp: tcp_write_step_def tcp_wedged_def split: option.splits)
next
  case (TcpReconnect dial now)
  with assms show ?thesis
    by (auto simp: tcp_reconnect_step_def tcp_close_def pump_close_def tcp_connect_def add_tcp_def tcp_wedged_def
        split: option.splits reconnect_state.splits)
qed

lemma wedged_run: "tcp_wedged t \<Longrightarrow> \<forall>pick c. TcpResume pick c \<in> set evs \<longrightarrow> c = CtxLive \<Longrightarrow> tcp_wedged (tcp_run evs t)"
  unfolding tcp_run_def
proof (induction evs arbitrary: t)
  case (Cons ev evs)
  have "tcp_wedged (tcp_step ev t)" using Cons.prems by (intro wedged_step) auto
  with Cons show ?case by simp
qed simp

section \<open>Properties\<close>

text \<open>
  C29: Reconnection never succeeds. Whatever happens to a transport after it has been connected, reads
  that fail and the reconnections they start included, no later call of \<open>Connect\<close> succeeds: the transport
  is still marked connected, or the reader that failed has closed it for good.
\<close>

theorem reconnect_never_succeeds:
  assumes "pu_connected t \<or> pu_closed t"
  shows "\<not> is_ok (fst (tcp_connect dial now (tcp_run evs t))) \<and> tcs_attempts (tc_stats (tcp_run evs t)) = tcs_attempts (tc_stats t)"
proof -
  have "tcp_started (tcs_attempts (tc_stats t)) (tcp_run evs t)"
    using assms by (intro tcp_started_run) (simp add: tcp_started_def)
  with tcp_connect_started [OF this] show ?thesis by (simp add: tcp_started_def)
qed

definition sample_tcp :: tcp_transport where
  "sample_tcp = (case new_tcp_transport ''h'' [default_tcp_options\<lparr>to_send_buffer := 1\<rparr>] of
     Ok t \<Rightarrow> snd (tcp_connect (Ok ((new_conn [])\<lparr>cn_in_end := Some err_eof, cn_writes_left := Some 0\<rparr>)) 0 t))"

lemma reconnect_never_succeeds_witness:
  "\<not> is_ok (fst (tcp_connect (Ok (new_conn [])) 1 (tcp_run [TcpRead 0, TcpReconnect (Ok (new_conn [])) 0, TcpReadEnd,
     TcpReconnect (Ok (new_conn [])) 0] sample_tcp)))"
proof -
  have "pu_connected sample_tcp" by code_simp
  with reconnect_never_succeeds [of sample_tcp] show ?thesis by simp
qed

lemma write_error_ends_pump:
  assumes "tc_conn t = Some cn" and "tc_writing t" and "ch_buf (pu_send_ch t) = m # ms" and "\<not> pu_close_ch_closed t"
    and "write_frame (to_frame_size (tc_options t)) m cn = (Err e, cn')"
  shows "snd (tcp_write_step pick t) = t\<lparr>pu_send_ch := (pu_send_ch t)\<lparr>ch_buf := ms\<rparr>, tc_conn := Some cn', tc_writing := False\<rparr>"
  using assms by (simp add: tcp_write_step_def ch_recv_def ch_can_recv_def go_select_def)

text \<open>
  After a failed write the transport cannot be closed. The write pump ends on an error and leaves the
  transport open; then a send that finds the channel full waits, and whatever happens, as long as the
  contexts of the sends that wait stay live, none of them ends and every \<open>Close\<close> hangs.
\<close>

theorem write_error_wedges:
  assumes "\<not> tc_writing t" and "pu_connected t" and "\<not> pu_closed t" and "\<not> pu_close_ch_closed t" and "\<not> pu_close_waits t"
    and "\<not> ch_can_send (pu_send_ch t)" and "int (length d) \<le> to_max_message (tc_options t)"
    and "\<forall>pick c. TcpResume pick c \<in> set evs \<longrightarrow> c = CtxLive"
  shows "fst (tcp_send pick CtxLive d t) = Hang \<and> fst (tcp_close (tcp_run evs (snd (tcp_send pick CtxLive d t)))) = Hang"
proof -
  have send: "tcp_send pick CtxLive d t = (Hang, t\<lparr>pu_blocked := pu_blocked t @ [(CtxLive, d)]\<rparr>)"
    using assms(2-7) by (simp add: tcp_send_def pump_send_def pump_put_def go_select_def ctx_done_def)
  then have "tcp_wedged (snd (tcp_send pick CtxLive d t))" using assms(1,4,6) by (simp add: tcp_wedged_def)
  then have "tcp_wedged (tcp_run evs (snd (tcp_send pick CtxLive d t)))" using assms(8) by (rule wedged_run)
  then show ?thesis using send wedged_blocks(1) by simp
qed

lemma write_error_wedges_witness:
  "let t = tcp_run [TcpSend 0 CtxLive [1], TcpWrite 0, TcpSend 0 CtxLive [2]] sample_tcp
   in fst (tcp_send 0 CtxLive [3] t) = Hang \<and> fst (tcp_close (tcp_run [TcpWrite 0, TcpRead 0, TcpReadEnd] (snd (tcp_send 0 CtxLive [3] t)))) = Hang"
proof -
  let ?t = "tcp_run [TcpSend 0 CtxLive [1], TcpWrite 0, TcpSend 0 CtxLive [2]] sample_tcp"
  have "\<not> tc_writing ?t" "pu_connected ?t" "\<not> pu_closed ?t" "\<not> pu_close_ch_closed ?t" "\<not> pu_close_waits ?t"
    "\<not> ch_can_send (pu_send_ch ?t)" "int (length [3 :: 8 word]) \<le> to_max_message (tc_options ?t)" by code_simp+
  from write_error_wedges [OF this, of "[TcpWrite 0, TcpRead 0, TcpReadEnd]" 0] show ?thesis by (simp add: Let_def)
qed

section \<open>Histories of a gRPC transport\<close>

datatype grpc_event =
    GrpcSend nat ctx bytes
  | GrpcResume nat ctx
  | GrpcReceive nat ctx
  | GrpcClose
  | GrpcConnect int
  | GrpcSendStep nat
  | GrpcReceiveStep

primrec grpc_step :: "grpc_event \<Rightarrow> grpc_transport \<Rightarrow> grpc_transport" where
  "grpc_step (GrpcSend pick c d) t = snd (grpc_send pick c d t)"
| "grpc_step (GrpcResume pick c) t = pump_resume pick c t"
| "grpc_step (GrpcReceive pick c) t = snd (grpc_receive pick c t)"
| "grpc_step GrpcClose t = snd (grpc_close t)"
| "grpc_step (GrpcConnect now) t = snd (grpc_connect now t)"
| "grpc_step (GrpcSendStep pick) t = snd (grpc_send_step pick t)"
| "grpc_step GrpcReceiveStep t = grpc_receive_step t"

lemma grpc_step_recv: "\<not> ch_can_recv (pu_recv_ch t) \<Longrightarrow> pu_recv_ch (grpc_step ev t) = pu_recv_ch t"
proof (cases ev)
  case (GrpcSend pick c d)
  obtain r t' where e: "grpc_send pick c d t = (r, t')" by force
  then have "t' = t \<or> pump_put pick c d t = (r, t')" unfolding grpc_send_def by (auto dest: pump_send_keeps)
  with e GrpcSend show ?thesis by (auto dest: pump_put_keeps)
next
  case (GrpcResume pick c)
  have "pu_recv_ch (snd (pump_put pick c d (t\<lparr>pu_blocked := bs\<rparr>))) = pu_recv_ch t" for d bs
    using pump_put_keeps [of pick c d "t\<lparr>pu_blocked := bs\<rparr>", OF surjective_pairing] by simp
  with GrpcResume show ?thesis by (simp add: pump_resume_def split: list.splits)
next
  case (GrpcReceive pick c)
  assume "\<not> ch_can_recv (pu_recv_ch t)"
  with GrpcReceive pump_receive_keeps [of pick c t, OF surjective_pairing] show ?thesis by (auto simp: grpc_receive_def)
next
  case (GrpcSendStep pick)
  then show ?thesis by (auto simp: grpc_send_step_def split: option.splits bool.splits prod.splits)
qed (auto simp: grpc_close_def pump_close_def pump_shut_def grpc_connect_def grpc_receive_step_def)

text \<open>
  A gRPC transport receives nothing. Whatever happens to a new gRPC transport, no \<open>Receive\<close> returns a
  message, although sends succeed: the pumps are simulations, and nothing fills the receive channel.
\<close>

theorem grpc_receives_nothing:
  "\<not> is_ok (fst (grpc_receive pick c (fold grpc_step evs (new_grpc_transport address options))))"
proof -
  have "\<not> ch_can_recv (pu_recv_ch t) \<Longrightarrow> \<not> ch_can_recv (pu_recv_ch (fold grpc_step evs t))" for t
    by (induction evs arbitrary: t) (simp_all add: grpc_step_recv)
  moreover have "\<not> ch_can_recv (pu_recv_ch (new_grpc_transport address options))"
    by (simp add: new_grpc_transport_def new_pump_def make_chan_def ch_can_recv_def pump.defs)
  ultimately have "\<not> ch_can_recv (pu_recv_ch (fold grpc_step evs (new_grpc_transport address options)))" by blast
  then show ?thesis unfolding grpc_receive_def by (rule pump_receive_nothing)
qed

section \<open>Histories of a pair\<close>

text \<open>The flag says which end: true for the first.\<close>

datatype pair_event =
    PairSend nat ctx bytes
  | PairResume nat ctx
  | PairReceive nat ctx
  | PairClose
  | PairForward nat nat

definition at_end :: "bool \<Rightarrow> (in_process_pair \<Rightarrow> in_process_pair) \<Rightarrow> in_process_pair \<Rightarrow> in_process_pair" where
  "at_end first f p = (if first then f p else prod.swap (f (prod.swap p)))"

primrec pair_act :: "pair_event \<Rightarrow> in_process_pair \<Rightarrow> in_process_pair" where
  "pair_act (PairSend pick c d) p = (snd (ip_send pick c d (fst p)), snd p)"
| "pair_act (PairResume pick c) p = (ip_resume pick c (fst p), snd p)"
| "pair_act (PairReceive pick c) p = (snd (ip_receive pick c (fst p)), snd p)"
| "pair_act PairClose p = (snd (ip_close (fst p)), snd p)"
| "pair_act (PairForward pick pick2) p = ip_forward pick pick2 p"

definition pair_run :: "(bool \<times> pair_event) list \<Rightarrow> in_process_pair \<Rightarrow> in_process_pair" where
  "pair_run evs p = fold (\<lambda>(first, ev). at_end first (pair_act ev)) evs p"

text \<open>
  From the end \<open>s\<close> to the end \<open>r\<close>: what was received, what waits to be received and what waits to be
  forwarded is part of what was sent, in order; while both are open and at most 1000 messages have
  been sent it is all of it.
\<close>

definition on_the_way :: "in_process \<Rightarrow> in_process \<Rightarrow> bytes list" where
  "on_the_way s r = ip_got r @ ch_buf (pu_recv_ch r) @ ch_buf (pu_send_ch s)"

definition way_ok :: "in_process \<Rightarrow> in_process \<Rightarrow> bool" where
  "way_ok s r \<longleftrightarrow> subseq (on_the_way s r) (ip_sent s)
     \<and> (\<not> pu_closed r \<and> length (ip_sent s) \<le> 1000 \<longrightarrow> on_the_way s r = ip_sent s)
     \<and> ch_cap (pu_recv_ch r) = 1000 \<and> \<not> ch_closed (pu_recv_ch r) \<and> \<not> ch_closed (pu_send_ch s) \<and> (pu_close_ch_closed r \<longrightarrow> pu_closed r)"

lemma ip_more: "pump.more t' = pump.more t \<Longrightarrow> ip_sent t' = ip_sent t \<and> ip_got t' = ip_got t" for t t' :: in_process
  by (cases t; cases t') simp

lemma ip_put_keeps:
  assumes "ip_put pick c d t = (r, t')"
  shows "pu_closed t' = pu_closed t \<and> pu_close_ch_closed t' = pu_close_ch_closed t \<and> pu_recv_ch t' = pu_recv_ch t \<and> ip_got t' = ip_got t
    \<and> (ip_sent t' = ip_sent t @ [d] \<and> \<not> ch_closed (pu_send_ch t) \<and> pu_send_ch t' = (pu_send_ch t)\<lparr>ch_buf := ch_buf (pu_send_ch t) @ [d]\<rparr>
       \<or> ip_sent t' = ip_sent t \<and> pu_send_ch t' = pu_send_ch t)"
proof -
  obtain y t1 where p: "pump_put pick c d t = (y, t1)" by force
  note k = pump_put_keeps [OF p]
  then have m: "ip_sent t1 = ip_sent t" "ip_got t1 = ip_got t" using ip_more by blast+
  show ?thesis
  proof (cases "is_ok y")
    case True
    then have "t' = ip_count_sent d t1" using assms p by (auto simp: ip_put_def is_ok_iff)
    with k m True show ?thesis by (simp add: ip_count_sent_def)
  next
    case False
    then have "t' = t1" using assms p by (cases y) (auto simp: ip_put_def)
    with k m False show ?thesis by simp
  qed
qed

lemma way_ok_put:
  assumes "way_ok s r" and "ip_put pick c d s = (x, s')"
  shows "way_ok s' r"
proof -
  have "subseq (on_the_way s r @ [d]) (ip_sent s @ [d])" using assms(1) by (intro list_emb_append_mono) (auto simp: way_ok_def)
  with ip_put_keeps [OF assms(2)] assms(1) show ?thesis
    unfolding way_ok_def on_the_way_def by (elim conjE disjE) simp_all
qed

lemma way_ok_put_peer: "way_ok r s \<Longrightarrow> ip_put pick c d s = (x, s') \<Longrightarrow> way_ok r s'"
  using ip_put_keeps [of pick c d s x s'] unfolding way_ok_def on_the_way_def by simp

lemma way_ok_receive: 
  assumes "way_ok s r"
  shows "way_ok s (snd (ip_receive pick c r))"
proof -
  obtain x r1 where p: "pump_receive pick c r = (x, r1)" by force
  from pump_receive_keeps [OF p] show ?thesis
  proof (elim disjE exE conjE)
    assume "r1 = r" "\<not> is_ok x"
    with p assms show ?thesis by (cases x) (auto simp: ip_receive_def)
  next
    fix y ch
    assume y: "ch_can_recv (pu_recv_ch r)" "ch_recv (pu_recv_ch r) = (y, ch)" "r1 = r\<lparr>pu_recv_ch := ch\<rparr>"
      "x = Ok (case y of None \<Rightarrow> [] | Some d \<Rightarrow> d)"
    then obtain d ds where "ch_buf (pu_recv_ch r) = d # ds" "y = Some d" "ch = (pu_recv_ch r)\<lparr>ch_buf := ds\<rparr>"
      using assms by (cases "ch_buf (pu_recv_ch r)") (auto simp: way_ok_def ch_can_recv_def ch_recv_def)
    with p y assms show ?thesis by (auto simp: ip_receive_def way_ok_def on_the_way_def)
  qed
qed

lemma way_ok_receive_peer: 
  assumes "way_ok r s"
  shows "way_ok s' r' \<Longrightarrow> way_ok (snd (ip_receive pick c r)) s"
  using assms pump_receive_keeps [of pick c r, OF surjective_pairing]
  by (cases "pump_receive pick c r"; cases "fst (pump_receive pick c r)") (auto simp: ip_receive_def way_ok_def on_the_way_def)

lemma way_ok_close: "way_ok s r \<Longrightarrow> way_ok (snd (ip_close s)) r" "way_ok s r \<Longrightarrow> way_ok s (snd (ip_close r))"
  by (auto simp: ip_close_def way_ok_def on_the_way_def)

lemma way_ok_forward:
  assumes "way_ok s r" and "ip_forward pick pick2 (s, r) = (s', r')"
  shows "way_ok s' r'"
proof (cases "ip_forwarding s \<and> go_select pick [(ch_can_recv (pu_send_ch s), True), (pu_close_ch_closed s, False)] = Some True")
  case True
  then have "ch_can_recv (pu_send_ch s)" by (auto dest: go_select_ready)
  then obtain m ms where m: "ch_buf (pu_send_ch s) = m # ms" using assms(1) by (cases "ch_buf (pu_send_ch s)") (auto simp: ch_can_recv_def way_ok_def)
  have sub: "subseq (ip_got r @ ch_buf (pu_recv_ch r) @ ms) (ip_sent s)"
    by (rule subseq_order.trans [OF _ assms(1) [unfolded way_ok_def, THEN conjunct1]])
      (auto simp: on_the_way_def m intro!: list_emb_append_mono)
  have full: "1000 < length (ip_sent s)" if "1000 \<le> length (ch_buf (pu_recv_ch r))" 
    using list_emb_length [OF assms(1) [unfolded way_ok_def, THEN conjunct1]] that m by (simp add: on_the_way_def)
  show ?thesis
    using assms True m sub full
    by (auto simp: ip_forward_def way_ok_def on_the_way_def ch_recv_def ch_send_def ch_can_send_def go_select_def Let_def split: if_splits bool.splits option.splits)
next
  case False
  with assms show ?thesis
    by (auto simp: ip_forward_def way_ok_def on_the_way_def split: if_splits option.splits bool.splits)
qed

lemma way_ok_forward_peer:
  assumes "way_ok r s" and "ip_forward pick pick2 (s, r) = (s', r')"
  shows "way_ok r' s'"
  using assms by (auto simp: ip_forward_def way_ok_def on_the_way_def ch_send_def Let_def split: if_splits option.splits bool.splits prod.splits outcome.splits)

definition ways_ok :: "in_process_pair \<Rightarrow> bool" where
  "ways_ok p \<longleftrightarrow> way_ok (fst p) (snd p) \<and> way_ok (snd p) (fst p)"

lemma ways_ok_put: "ways_ok p \<Longrightarrow> ways_ok (snd (ip_put pick c d (fst p)), snd p)"
  using way_ok_put [OF _ surjective_pairing] way_ok_put_peer [OF _ surjective_pairing] by (auto simp: ways_ok_def)

lemma ways_ok_act: 
  assumes "ways_ok p"
  shows "ways_ok (pair_act ev p)"
proof (cases ev)
  case (PairSend pick c d)
  with assms ways_ok_put [OF assms, of pick c d] show ?thesis by (auto simp: ip_send_def)
next
  case (PairResume pick c)
  have "ways_ok ((fst p)\<lparr>pu_blocked := bs\<rparr>, snd p)" for bs using assms by (simp add: ways_ok_def way_ok_def on_the_way_def)
  from ways_ok_put [OF this] PairResume assms show ?thesis by (auto simp: ip_resume_def split: list.splits)
next
  case (PairReceive pick c)
  with assms way_ok_receive way_ok_receive_peer show ?thesis by (auto simp: ways_ok_def)
next
  case PairClose
  with assms way_ok_close show ?thesis by (auto simp: ways_ok_def)
next
  case (PairForward pick pick2)
  obtain s' r' where f: "ip_forward pick pick2 (fst p, snd p) = (s', r')" by force
  with PairForward assms way_ok_forward [OF _ f] way_ok_forward_peer [OF _ f] show ?thesis by (auto simp: ways_ok_def)
qed

lemma ways_ok_swap: "ways_ok (prod.swap p) = ways_ok p"
  by (auto simp: ways_ok_def)

lemma ways_ok_end: "ways_ok p \<Longrightarrow> ways_ok (at_end first (pair_act ev) p)"
  by (simp add: at_end_def ways_ok_swap ways_ok_act)

lemma ways_ok_run: "ways_ok p \<Longrightarrow> ways_ok (pair_run evs p)"
proof (induction evs arbitrary: p)
  case (Cons e evs)
  from Cons.IH [OF ways_ok_end [OF Cons.prems, of "fst e" "snd e"]] show ?case
    by (simp add: pair_run_def case_prod_beta)
qed (simp add: pair_run_def)

text \<open>
  C30: An in-process pair delivers in order. Whatever the two ends, their forwarders and the runtime do,
  what an end has received, followed by what is under way to it, is a subsequence of what the other
  sent; and it is all of it as long as the receiver is open and the sender has sent at most 1000
  messages, the size of the channel that drops what it cannot take.
\<close>

theorem in_process_in_order:
  "let (a, b) = pair_run evs new_in_process_pair
   in subseq (ip_got b @ ch_buf (pu_recv_ch b) @ ch_buf (pu_send_ch a)) (ip_sent a)
     \<and> (\<not> pu_closed b \<and> length (ip_sent a) \<le> 1000 \<longrightarrow> ip_got b @ ch_buf (pu_recv_ch b) @ ch_buf (pu_send_ch a) = ip_sent a)"
proof -
  have "ways_ok new_in_process_pair"
    by (simp add: ways_ok_def way_ok_def on_the_way_def new_in_process_pair_def new_in_process_def new_pump_def make_chan_def pump.defs)
  then have "ways_ok (pair_run evs new_in_process_pair)" by (rule ways_ok_run)
  then show ?thesis by (auto simp: ways_ok_def way_ok_def on_the_way_def split: prod.splits)
qed

lemma in_process_in_order_witness:
  "let (a, b) = pair_run [(True, PairSend 0 CtxLive [1]), (True, PairSend 0 CtxLive [2]), (True, PairForward 0 0), (False, PairReceive 0 CtxLive)]
     new_in_process_pair in ip_got b = [[1]] \<and> ip_got b @ ch_buf (pu_recv_ch b) @ ch_buf (pu_send_ch a) = [[1], [2]]"
proof -
  let ?p = "pair_run [(True, PairSend 0 CtxLive [1]), (True, PairSend 0 CtxLive [2]), (True, PairForward 0 0), (False, PairReceive 0 CtxLive)] new_in_process_pair"
  have "ip_got (snd ?p) = [[1]]" "ip_sent (fst ?p) = [[1], [2]]" "\<not> pu_closed (snd ?p)"
    by (simp_all add: pair_run_def at_end_def ip_send_def ip_put_def pump_put_def ip_count_sent_def ip_forward_def ip_receive_def
        pump_receive_def go_select_def ch_can_send_def ch_can_recv_def ch_send_def ch_recv_def ctx_done_def Let_def
        new_in_process_pair_def new_in_process_def new_pump_def make_chan_def pump.defs)
  then show ?thesis using in_process_in_order [of "[(True, PairSend 0 CtxLive [1]), (True, PairSend 0 CtxLive [2]), (True, PairForward 0 0), (False, PairReceive 0 CtxLive)]"]
    by (auto simp: Let_def split: prod.splits)
qed

end
