(* ===== verification/WebSockets.thy ===== *)
theory WebSockets
  imports CustomTransports
begin

text \<open>
  \<open>websocket_transport.go\<close>. The interface \<open>WebSocketConn\<close> is the record \<open>ws_io\<close> of its operations that the
  transport relies on (the deadlines are the connection's own affair: what a read or a write returns is
  free); what a closed connection promises is the locale \<open>ws_contract\<close>, interpreted on the mock connection
  that \<open>Connect\<close> makes. The channels, flags and shared code are those of the record \<open>pump\<close>.
\<close>

section \<open>Connections\<close>

definition text_message :: int where "text_message = 1"
definition binary_message :: int where "binary_message = 2"
definition close_message :: int where "close_message = 8"
definition ping_message :: int where "ping_message = 9"
definition pong_message :: int where "pong_message = 10"

text \<open>The number is the choice of a \<open>select\<close> inside the read.\<close>

record 'c ws_io =
  wi_write :: "int \<Rightarrow> bytes \<Rightarrow> 'c \<Rightarrow> unit result \<times> 'c"
  wi_read :: "nat \<Rightarrow> 'c \<Rightarrow> (int \<times> bytes) result \<times> 'c"
  wi_close :: "'c \<Rightarrow> goerr option \<times> 'c"

text \<open>The mock. Its pong handler is stored and never called.\<close>

record mock_conn =
  wm_write_messages :: "bytes chan"
  wm_read_messages :: "bytes chan"
  wm_closed :: bool
  wm_url :: string

definition new_mock :: "string \<Rightarrow> mock_conn" where
  "new_mock url = \<lparr>wm_write_messages = make_chan 100, wm_read_messages = make_chan 100, wm_closed = False, wm_url = url\<rparr>"

definition mock_write :: "int \<Rightarrow> bytes \<Rightarrow> mock_conn \<Rightarrow> unit result \<times> mock_conn" where
  "mock_write ty d m =
     (if wm_closed m then (Err (EMsg ''connection closed''), m)
      else if ch_can_send (wm_write_messages m)
      then (case ch_send d (wm_write_messages m) of
              Ok ch \<Rightarrow> (Ok (), m\<lparr>wm_write_messages := ch\<rparr>) | x \<Rightarrow> (bind_outcome x (\<lambda>_. Ok ()), m))
      else (Err (EMsg ''write buffer full''), m))"

text \<open>The timer of a read that finds nothing fires after 100 ms.\<close>

definition mock_read :: "nat \<Rightarrow> mock_conn \<Rightarrow> (int \<times> bytes) result \<times> mock_conn" where
  "mock_read pick m =
     (case go_select pick [(ch_can_recv (wm_read_messages m), True), (True, False)] of
        Some True \<Rightarrow> (case ch_recv (wm_read_messages m) of (x, ch) \<Rightarrow>
          (Ok (binary_message, case x of Some d \<Rightarrow> d | None \<Rightarrow> []), m\<lparr>wm_read_messages := ch\<rparr>))
      | _ \<Rightarrow> (Err (EMsg ''no message''), m))"

definition mock_close :: "mock_conn \<Rightarrow> goerr option \<times> mock_conn" where
  "mock_close m =
     (if wm_closed m then (None, m)
      else (None, m\<lparr>wm_closed := True, wm_write_messages := (wm_write_messages m)\<lparr>ch_closed := True\<rparr>,
              wm_read_messages := (wm_read_messages m)\<lparr>ch_closed := True\<rparr>\<rparr>))"

definition mock_io :: "mock_conn ws_io" where
  "mock_io = \<lparr>wi_write = mock_write, wi_read = mock_read, wi_close = mock_close\<rparr>"

text \<open>What the field \<open>conn\<close> holds: a mock, or a connection given by the caller.\<close>

datatype 'c ws_conn = Mock mock_conn | Given 'c

definition ws_write :: "'c ws_io \<Rightarrow> int \<Rightarrow> bytes \<Rightarrow> 'c ws_conn \<Rightarrow> unit result \<times> 'c ws_conn" where
  "ws_write io ty d c = (case c of Mock m \<Rightarrow> apsnd Mock (mock_write ty d m) | Given g \<Rightarrow> apsnd Given (wi_write io ty d g))"

definition ws_read :: "'c ws_io \<Rightarrow> nat \<Rightarrow> 'c ws_conn \<Rightarrow> (int \<times> bytes) result \<times> 'c ws_conn" where
  "ws_read io pick c = (case c of Mock m \<Rightarrow> apsnd Mock (mock_read pick m) | Given g \<Rightarrow> apsnd Given (wi_read io pick g))"

definition ws_conn_close :: "'c ws_io \<Rightarrow> 'c ws_conn \<Rightarrow> goerr option \<times> 'c ws_conn" where
  "ws_conn_close io c = (case c of Mock m \<Rightarrow> apsnd Mock (mock_close m) | Given g \<Rightarrow> apsnd Given (wi_close io g))"

section \<open>The transport\<close>

type_synonym header = "(string, string list) gomap"

record ws_options =
  wo_handshake_timeout :: int
  wo_ping_interval :: int
  wo_pong_timeout :: int
  wo_reconnect :: bool
  wo_reconnect_interval :: int
  wo_max_attempts :: int
  wo_max_message :: int
  wo_text_mode :: bool
  wo_headers :: "header option"

definition default_ws_options :: ws_options where
  "default_ws_options = \<lparr>wo_handshake_timeout = 30000000000, wo_ping_interval = 30000000000, wo_pong_timeout = 10000000000,
     wo_reconnect = True, wo_reconnect_interval = 5000000000, wo_max_attempts = 5, wo_max_message = 1048576,
     wo_text_mode = False, wo_headers = Some []\<rparr>"

record ws_stats =
  wst_attempts :: int
  wst_failures :: int
  wst_received :: int
  wst_sent :: int
  wst_bytes_received :: int
  wst_bytes_sent :: int
  wst_reconnects :: int
  wst_pings :: int
  wst_pongs :: int
  wst_connected_time :: int
  wst_last_connected :: int

text \<open>
  The goroutine of \<open>keepAlive\<close>: not running, before it makes its ticker, waiting for a tick or for a pong,
  or in the \<open>Close\<close> of a pong that did not come.
\<close>

datatype keep_alive = KaOff | KaStart | KaIdle | KaAwait | KaClosing

text \<open>
  \<open>wt_pong\<close> is the channel of one place for pongs. The histories \<open>wt_accepted\<close> and \<open>wt_written\<close> are the
  messages that \<open>Send\<close> took, and those that the write pump has written; \<open>wt_lost\<close> those it failed to write.
\<close>

record 'c ws_transport = pump +
  wt_conn :: "'c ws_conn option"
  wt_url :: string
  wt_options :: ws_options
  wt_reading :: bool
  wt_read_ends :: bool
  wt_writing :: bool
  wt_keep :: keep_alive
  wt_ticker :: "bool option"
  wt_pong :: bool
  wt_reconnecting :: "reconnect_state option"
  wt_stats :: ws_stats
  wt_accepted :: "bytes list"
  wt_written :: "bytes list"
  wt_lost :: "bytes list"

definition add_ws :: "(ws_stats \<Rightarrow> ws_stats) \<Rightarrow> 'c ws_transport \<Rightarrow> 'c ws_transport" where
  "add_ws f t = t\<lparr>wt_stats := f (wt_stats t)\<rparr>"

definition blank_ws :: "'c ws_conn option \<Rightarrow> string \<Rightarrow> ws_options \<Rightarrow> 'c ws_transport" where
  "blank_ws conn url opts = pump.extend (new_pump 1000 1000)
     \<lparr>wt_conn = conn, wt_url = url, wt_options = opts, wt_reading = False, wt_read_ends = False, wt_writing = False, wt_keep = KaOff,
      wt_ticker = None, wt_pong = False, wt_reconnecting = None,
      wt_stats = \<lparr>wst_attempts = 0, wst_failures = 0, wst_received = 0, wst_sent = 0, wst_bytes_received = 0, wst_bytes_sent = 0,
        wst_reconnects = 0, wst_pings = 0, wst_pongs = 0, wst_connected_time = 0, wst_last_connected = 0\<rparr>,
      wt_accepted = [], wt_written = [], wt_lost = []\<rparr>"

text \<open>The user agent goes into the header map of the options, which is the caller's when it is not nil.\<close>

definition ws_agent :: "ws_options \<Rightarrow> ws_options" where
  "ws_agent opts = opts\<lparr>wo_headers := Some (gm_put ''User-Agent'' [''capnweb-go/1.0''] (case wo_headers opts of Some h \<Rightarrow> h | None \<Rightarrow> []))\<rparr>"

definition new_ws_transport :: "string \<Rightarrow> ws_options list \<Rightarrow> 'c ws_transport" where
  "new_ws_transport url options =
     blank_ws None url (ws_agent (case options of x # _ \<Rightarrow> x | [] \<Rightarrow> default_ws_options))"

definition ws_start :: "int \<Rightarrow> 'c ws_conn \<Rightarrow> 'c ws_transport \<Rightarrow> 'c ws_transport" where
  "ws_start now c t = add_ws (\<lambda>s. s\<lparr>wst_attempts := inc64 (wst_attempts s), wst_last_connected := now\<rparr>)
     (t\<lparr>wt_conn := Some c, pu_connected := True, wt_reading := True, wt_writing := True, wt_keep := KaStart\<rparr>)"

definition new_ws_with_conn :: "'c \<Rightarrow> string \<Rightarrow> ws_options list \<Rightarrow> int \<Rightarrow> 'c ws_transport" where
  "new_ws_with_conn c url options now =
     ws_start now (Given c) (blank_ws None url (case options of x # _ \<Rightarrow> x | [] \<Rightarrow> default_ws_options))"

definition ws_connect :: "int \<Rightarrow> 'c ws_transport \<Rightarrow> unit result \<times> 'c ws_transport" where
  "ws_connect now t =
     (if pu_blocked t \<noteq> [] then (Hang, t)
      else if pu_connected t then (Err (EMsg ''already connected''), t)
      else if pu_closed t then (Err (EMsg ''transport is closed''), t)
      else (Ok (), ws_start now (Mock (new_mock (wt_url t))) t))"

text \<open>The pong handler, which a given connection may call.\<close>

definition ws_pong_handler :: "'c ws_transport \<Rightarrow> 'c ws_transport" where
  "ws_pong_handler t = add_ws (\<lambda>s. s\<lparr>wst_pongs := inc64 (wst_pongs s)\<rparr>) (t\<lparr>wt_pong := True\<rparr>)"

definition ws_put :: "nat \<Rightarrow> ctx \<Rightarrow> bytes \<Rightarrow> 'c ws_transport \<Rightarrow> unit result \<times> 'c ws_transport" where
  "ws_put pick c d t = (case pump_put pick c d t of (Ok _, t1) \<Rightarrow> (Ok (), t1\<lparr>wt_accepted := wt_accepted t1 @ [d]\<rparr>) | x \<Rightarrow> x)"

definition ws_send :: "nat \<Rightarrow> ctx \<Rightarrow> bytes \<Rightarrow> 'c ws_transport \<Rightarrow> unit result \<times> 'c ws_transport" where
  "ws_send pick c d t =
     (if pu_close_waits t then (Hang, t)
      else if pu_closed t then (Err (EMsg ''transport is closed''), t)
      else if \<not> pu_connected t then (Err (EMsg ''not connected''), t)
      else ws_put pick c d t)"

definition ws_resume :: "nat \<Rightarrow> ctx \<Rightarrow> 'c ws_transport \<Rightarrow> 'c ws_transport" where
  "ws_resume pick c t = (case pu_blocked t of [] \<Rightarrow> t | (_, d) # bs \<Rightarrow> snd (ws_put pick c d (t\<lparr>pu_blocked := bs\<rparr>)))"

definition ws_receive :: "nat \<Rightarrow> ctx \<Rightarrow> 'c ws_transport \<Rightarrow> bytes result \<times> 'c ws_transport" where
  "ws_receive pick c t = pump_receive pick c t"

definition ws_close :: "'c ws_io \<Rightarrow> 'c ws_transport \<Rightarrow> goerr option result \<times> 'c ws_transport" where
  "ws_close io t = pump_close (\<lambda>t. let t1 = t\<lparr>wt_ticker := map_option (\<lambda>_. False) (wt_ticker t)\<rparr> in
       case wt_conn t1 of
         None \<Rightarrow> (pu_close_err t1, t1)
       | Some c \<Rightarrow> (case ws_conn_close io c of (e, c') \<Rightarrow> (e, t1\<lparr>wt_conn := Some c', pu_close_err := e\<rparr>))) t"

text \<open>
  A round of the read pump: \<open>pick\<close> is the connection's choice, \<open>pick2\<close> that of the hand-over. A reader that
  stops has its deferred \<open>Close\<close> to run. A data message that finds the channel full is dropped.
\<close>

definition ws_deliver :: "nat \<Rightarrow> bytes \<Rightarrow> 'c ws_transport \<Rightarrow> unit result \<times> 'c ws_transport" where
  "ws_deliver pick m t =
     (let t1 = add_ws (\<lambda>s. s\<lparr>wst_received := inc64 (wst_received s), wst_bytes_received := int64 (wst_bytes_received s + int (length m))\<rparr>) t
      in case go_select pick [(ch_can_send (pu_recv_ch t1), True), (pu_close_ch_closed t1, False)] of
           None \<Rightarrow> (Ok (), t1)
         | Some False \<Rightarrow> (Ok (), t1\<lparr>wt_reading := False, wt_read_ends := True\<rparr>)
         | Some True \<Rightarrow> (case ch_send m (pu_recv_ch t1) of
               Ok ch \<Rightarrow> (Ok (), t1\<lparr>pu_recv_ch := ch\<rparr>) | x \<Rightarrow> (bind_outcome x (\<lambda>_. Ok ()), t1)))"

definition ws_read_step :: "'c ws_io \<Rightarrow> nat \<Rightarrow> nat \<Rightarrow> 'c ws_transport \<Rightarrow> unit result \<times> 'c ws_transport" where
  "ws_read_step io pick pick2 t =
     (case wt_conn t of
        Some c \<Rightarrow>
          if \<not> wt_reading t then (Ok (), t)
          else (case ws_read io pick c of (r, c') \<Rightarrow>
            let t1 = t\<lparr>wt_conn := Some c'\<rparr>
            in (case r of
                  Err e \<Rightarrow> (Ok (), t1\<lparr>wt_reading := False, wt_read_ends := True,
                     wt_reconnecting := (if wo_reconnect (wt_options t) \<and> \<not> pu_closed t then Some RcStart else wt_reconnecting t)\<rparr>)
                | Panic \<Rightarrow> (Panic, t1) | Hang \<Rightarrow> (Hang, t1)
                | Ok (ty, m) \<Rightarrow>
                    if ty = text_message \<or> ty = binary_message then ws_deliver pick2 m t1
                    else if ty = close_message then (Ok (), t1\<lparr>wt_reading := False, wt_read_ends := True\<rparr>)
                    else (Ok (), t1)))
      | None \<Rightarrow> (Ok (), t))"

definition ws_read_end :: "'c ws_io \<Rightarrow> 'c ws_transport \<Rightarrow> 'c ws_transport" where
  "ws_read_end io t = (if \<not> wt_read_ends t then t
     else case ws_close io t of (Hang, t1) \<Rightarrow> t1 | (_, t1) \<Rightarrow> t1\<lparr>wt_read_ends := False\<rparr>)"

text \<open>A round of the write pump.\<close>

definition ws_write_step :: "'c ws_io \<Rightarrow> nat \<Rightarrow> 'c ws_transport \<Rightarrow> unit result \<times> 'c ws_transport" where
  "ws_write_step io pick t =
     (case wt_conn t of
        Some c \<Rightarrow>
          if \<not> wt_writing t then (Ok (), t)
          else (case go_select pick [(ch_can_recv (pu_send_ch t), True), (pu_close_ch_closed t, False)] of
              None \<Rightarrow> (Hang, t)
            | Some False \<Rightarrow> (Ok (), t\<lparr>wt_writing := False\<rparr>)
            | Some True \<Rightarrow> (case ch_recv (pu_send_ch t) of
                  (None, ch) \<Rightarrow> (Ok (), t\<lparr>wt_conn := Some (snd (ws_write io close_message [] c)), wt_writing := False\<rparr>)
                | (Some m, ch) \<Rightarrow>
                    (case ws_write io (if wo_text_mode (wt_options t) then text_message else binary_message) m c of
                       (Ok _, c') \<Rightarrow> (Ok (), add_ws (\<lambda>s. s\<lparr>wst_sent := inc64 (wst_sent s),
                           wst_bytes_sent := int64 (wst_bytes_sent s + int (length m))\<rparr>)
                           (t\<lparr>pu_send_ch := ch, wt_conn := Some c', wt_written := wt_written t @ [m]\<rparr>))
                     | (Err e, c') \<Rightarrow> (Ok (), t\<lparr>pu_send_ch := ch, wt_conn := Some c', wt_writing := False, wt_lost := wt_lost t @ [m]\<rparr>)
                     | (x, c') \<Rightarrow> (x, t\<lparr>pu_send_ch := ch, wt_conn := Some c', wt_writing := False, wt_lost := wt_lost t @ [m]\<rparr>))))
      | None \<Rightarrow> (Ok (), t))"

text \<open>
  A step of \<open>keepAlive\<close>: \<open>tick\<close> says that the ticker has a tick, \<open>timeout\<close> that the pong timeout has passed.
  A ticker of an interval that is not positive panics.
\<close>

datatype keep_case = KcPong | KcTimeout | KcClose

definition ws_keep_step :: "'c ws_io \<Rightarrow> nat \<Rightarrow> bool \<Rightarrow> bool \<Rightarrow> 'c ws_transport \<Rightarrow> unit result \<times> 'c ws_transport" where
  "ws_keep_step io pick tick timeout t =
     (let off = t\<lparr>wt_keep := KaOff, wt_ticker := Some False\<rparr> in
      case wt_keep t of
        KaOff \<Rightarrow> (Ok (), t)
      | KaStart \<Rightarrow>
          if wo_ping_interval (wt_options t) \<le> 0 then (Panic, t) else (Ok (), t\<lparr>wt_ticker := Some True, wt_keep := KaIdle\<rparr>)
      | KaIdle \<Rightarrow>
          (case (go_select pick [(tick, True), (pu_close_ch_closed t, False)], wt_conn t) of
             (Some False, _) \<Rightarrow> (Ok (), off)
           | (Some True, Some c) \<Rightarrow> (case ws_write io ping_message [] c of
               (Ok _, c') \<Rightarrow> (Ok (), add_ws (\<lambda>s. s\<lparr>wst_pings := inc64 (wst_pings s)\<rparr>) (t\<lparr>wt_conn := Some c', wt_keep := KaAwait\<rparr>))
             | (Err e, c') \<Rightarrow> (Ok (), off\<lparr>wt_conn := Some c'\<rparr>)
             | (x, c') \<Rightarrow> (x, off\<lparr>wt_conn := Some c'\<rparr>))
           | _ \<Rightarrow> (Hang, t))
      | KaAwait \<Rightarrow>
          (case go_select pick [(wt_pong t, KcPong), (timeout, KcTimeout), (pu_close_ch_closed t, KcClose)] of
             None \<Rightarrow> (Hang, t)
           | Some KcPong \<Rightarrow> (Ok (), t\<lparr>wt_pong := False, wt_keep := KaIdle\<rparr>)
           | Some KcTimeout \<Rightarrow> (Ok (), t\<lparr>wt_keep := KaClosing\<rparr>)
           | Some KcClose \<Rightarrow> (Ok (), off))
      | KaClosing \<Rightarrow> (case ws_close io t of (Hang, t1) \<Rightarrow> (Hang, t1) | (_, t1) \<Rightarrow> (Ok (), t1\<lparr>wt_keep := KaOff, wt_ticker := Some False\<rparr>)))"

definition ws_reconnect_step :: "'c ws_io \<Rightarrow> int \<Rightarrow> 'c ws_transport \<Rightarrow> 'c ws_transport" where
  "ws_reconnect_step io now t =
     (case wt_reconnecting t of
        None \<Rightarrow> t
      | Some RcStart \<Rightarrow>
          if pu_closed t then t\<lparr>wt_reconnecting := None\<rparr>
          else add_ws (\<lambda>s. s\<lparr>wst_reconnects := inc64 (wst_reconnects s)\<rparr>) (t\<lparr>wt_reconnecting := Some (RcCheck 1)\<rparr>)
      | Some (RcCheck k) \<Rightarrow>
          if k > wo_max_attempts (wt_options t) then (case ws_close io t of (Hang, t1) \<Rightarrow> t1 | (_, t1) \<Rightarrow> t1\<lparr>wt_reconnecting := None\<rparr>)
          else if pu_closed t then t\<lparr>wt_reconnecting := None\<rparr>
          else t\<lparr>wt_reconnecting := Some (RcDial k)\<rparr>
      | Some (RcDial k) \<Rightarrow>
          (case ws_connect now t of
             (Ok _, t1) \<Rightarrow> t1\<lparr>wt_reconnecting := None\<rparr>
           | (Err e, t1) \<Rightarrow> add_ws (\<lambda>s. s\<lparr>wst_failures := inc64 (wst_failures s)\<rparr>) (t1\<lparr>wt_reconnecting := Some (RcCheck (k + 1))\<rparr>)
           | (_, t1) \<Rightarrow> t1))"

definition ws_get_stats :: "int \<Rightarrow> 'c ws_transport \<Rightarrow> ws_stats" where
  "ws_get_stats now t = (if pu_connected t then (wt_stats t)\<lparr>wst_connected_time := time_sub now (wst_last_connected (wt_stats t))\<rparr> else wt_stats t)"

definition ws_is_connected :: "'c ws_transport \<Rightarrow> bool result" where
  "ws_is_connected t = pump_is_connected t"

section \<open>Factory and server\<close>

definition ws_factory_create :: "string \<Rightarrow> ws_options \<Rightarrow> int \<Rightarrow> string \<Rightarrow> 'c ws_transport result" where
  "ws_factory_create base opts now endpoint =
     (case ws_connect now (new_ws_transport (base @ endpoint) [opts]) of
        (Ok _, t1) \<Rightarrow> Ok t1 | (Err e, t1) \<Rightarrow> Err (EWrap ''failed to connect: '' e) | (Panic, _) \<Rightarrow> Panic | (Hang, _) \<Rightarrow> Hang)"

text \<open>
  The server: what the request gets (an HTTP error, or the handler started on the upgraded connection).
  A nil \<open>CheckOrigin\<close>, which options that are not the defaults may have, panics when it is called.
\<close>

record ('q, 'c) ws_server =
  wv_upgrade :: "'q \<Rightarrow> 'c result"
  wv_check_origin :: "('q \<Rightarrow> bool) option"

datatype 'c ws_reply = HttpError string int | Handled 'c

definition new_ws_server :: "('q \<Rightarrow> 'c result) \<Rightarrow> ('q \<Rightarrow> bool) option list \<Rightarrow> ('q, 'c) ws_server" where
  "new_ws_server upgrade checks =
     \<lparr>wv_upgrade = upgrade, wv_check_origin = (case checks of x # _ \<Rightarrow> x | [] \<Rightarrow> Some (\<lambda>_. True))\<rparr>"

definition ws_serve_http :: "('q, 'c) ws_server \<Rightarrow> 'q \<Rightarrow> 'c ws_reply result" where
  "ws_serve_http s q =
     (case wv_check_origin s of
        None \<Rightarrow> Panic
      | Some check \<Rightarrow>
          if \<not> check q then Ok (HttpError ''Origin not allowed'' 403)
          else case wv_upgrade s q of
            Err e \<Rightarrow> Ok (HttpError ''Failed to upgrade connection'' 400)
          | Ok c \<Rightarrow> Ok (Handled c) | Panic \<Rightarrow> Panic | Hang \<Rightarrow> Hang)"

section \<open>Histories\<close>

datatype ws_event =
    WsSend nat ctx bytes
  | WsResume nat ctx
  | WsReceive nat ctx
  | WsClose
  | WsConnect int
  | WsRead nat nat
  | WsReadEnd
  | WsWrite nat
  | WsKeep nat bool bool
  | WsPong
  | WsReconnect int

text \<open>Only a connection given by the caller calls the pong handler.\<close>

primrec ws_step :: "'c ws_io \<Rightarrow> ws_event \<Rightarrow> 'c ws_transport \<Rightarrow> 'c ws_transport" where
  "ws_step io (WsSend pick c d) t = snd (ws_send pick c d t)"
| "ws_step io (WsResume pick c) t = ws_resume pick c t"
| "ws_step io (WsReceive pick c) t = snd (ws_receive pick c t)"
| "ws_step io WsClose t = snd (ws_close io t)"
| "ws_step io (WsConnect now) t = snd (ws_connect now t)"
| "ws_step io (WsRead pick pick2) t = snd (ws_read_step io pick pick2 t)"
| "ws_step io WsReadEnd t = ws_read_end io t"
| "ws_step io (WsWrite pick) t = snd (ws_write_step io pick t)"
| "ws_step io (WsKeep pick tick timeout) t = snd (ws_keep_step io pick tick timeout t)"
| "ws_step io WsPong t = (case wt_conn t of Some (Given c) \<Rightarrow> ws_pong_handler t | _ \<Rightarrow> t)"
| "ws_step io (WsReconnect now) t = ws_reconnect_step io now t"

definition ws_run :: "'c ws_io \<Rightarrow> ws_event list \<Rightarrow> 'c ws_transport \<Rightarrow> 'c ws_transport" where
  "ws_run io evs t = fold (ws_step io) evs t"

lemma ws_run_induct:
  assumes "P t" and "\<And>ev t. P t \<Longrightarrow> P (ws_step io ev t)"
  shows "P (ws_run io evs t)"
  using assms(1) unfolding ws_run_def by (induction evs arbitrary: t) (auto intro: assms(2))

lemma ws_run_append: "ws_run io (es @ fs) t = ws_run io fs (ws_run io es t)"
  by (simp add: ws_run_def)

text \<open>Nothing that the goroutines do between the calls below touches more than these fields.\<close>

definition ws_put_result :: "bytes \<Rightarrow> 'c ws_transport \<Rightarrow> 'c ws_transport \<Rightarrow> bool" where
  "ws_put_result d t t' \<longleftrightarrow> (\<exists>bs. t' = t\<lparr>pu_blocked := bs\<rparr>)
     \<or> \<not> ch_closed (pu_send_ch t) \<and> t' = t\<lparr>pu_send_ch := (pu_send_ch t)\<lparr>ch_buf := ch_buf (pu_send_ch t) @ [d]\<rparr>, wt_accepted := wt_accepted t @ [d]\<rparr>"

lemma ws_put_cases: "ws_put_result d t (snd (ws_put pick c d t))"
proof -
  have "\<exists>bs. t = t\<lparr>pu_blocked := bs\<rparr>" by (rule exI [of _ "pu_blocked t"]) simp
  then show ?thesis
    by (auto simp: ws_put_def pump_put_def ch_send_def ws_put_result_def split: option.splits pump_case.splits)
qed

lemma ws_send_cases: "ws_put_result d t (snd (ws_send pick c d t))"
proof -
  have "ws_put_result d t t" by (auto simp: ws_put_result_def intro: exI [of _ "pu_blocked t"])
  with ws_put_cases [of d t pick c] show ?thesis by (simp add: ws_send_def)
qed

lemma ws_receive_cases: "\<exists>ch. snd (ws_receive pick c t) = t\<lparr>pu_recv_ch := ch\<rparr>"
  using pump_receive_keeps [of pick c t, OF surjective_pairing] unfolding ws_receive_def
  by (auto intro: exI [of _ "pu_recv_ch t"])

text \<open>The part of the state that reads, pongs and pings leave as it is.\<close>

definition ws_core :: "'c ws_transport \<Rightarrow> _" where
  "ws_core t = ((wt_accepted t, wt_written t, wt_lost t, pu_send_ch t), wt_writing t, wt_conn t = None,
     (pu_connected t, pu_closed t, pu_close_ch_closed t, pu_blocked t))"

lemma ws_core_update [simp]:
  "ws_core (t\<lparr>pu_recv_ch := ch\<rparr>) = ws_core t" "ws_core (t\<lparr>wt_reading := b\<rparr>) = ws_core t" "ws_core (t\<lparr>wt_read_ends := b\<rparr>) = ws_core t"
  "ws_core (t\<lparr>wt_keep := k\<rparr>) = ws_core t" "ws_core (t\<lparr>wt_ticker := ti\<rparr>) = ws_core t" "ws_core (t\<lparr>wt_pong := b\<rparr>) = ws_core t"
  "ws_core (t\<lparr>wt_reconnecting := rc\<rparr>) = ws_core t" "ws_core (add_ws f t) = ws_core t"
  "wt_conn t \<noteq> None \<Longrightarrow> ws_core (t\<lparr>wt_conn := Some c\<rparr>) = ws_core t"
  by (simp_all add: ws_core_def add_ws_def)

lemma ws_core_deliver [simp]: "ws_core (snd (ws_deliver pick m t)) = ws_core t"
  by (simp add: ws_deliver_def Let_def split: option.split bool.split outcome.split)

lemma ws_core_read: "ws_core (snd (ws_read_step io pick pick2 t)) = ws_core t"
  by (simp add: ws_read_step_def Let_def split: option.split prod.split outcome.split)

lemma ws_core_keep: "wt_keep t \<noteq> KaClosing \<Longrightarrow> ws_core (snd (ws_keep_step io pick tick timeout t)) = ws_core t"
  by (cases "wt_keep t")
    (simp_all add: ws_keep_step_def Let_def split: option.split prod.split outcome.split bool.split keep_case.split)

lemma ws_core_pong: "ws_core (case wt_conn t of Some (Given c) \<Rightarrow> ws_pong_handler t | _ \<Rightarrow> t) = ws_core t"
  by (simp add: ws_pong_handler_def split: option.split ws_conn.split)

lemma ws_core_read_end: "ws_core (ws_read_end io t) = (if wt_read_ends t then ws_core (snd (ws_close io t)) else ws_core t)"
  by (simp add: ws_read_end_def split: prod.split outcome.split)

lemma ws_core_closing: "wt_keep t = KaClosing \<Longrightarrow> ws_core (snd (ws_keep_step io pick tick timeout t)) = ws_core (snd (ws_close io t))"
  by (simp add: ws_keep_step_def Let_def split: prod.split outcome.split)

lemma ws_core_reconnect: 
  "ws_core (ws_reconnect_step io now t) \<in> {ws_core t, ws_core (snd (ws_close io t)), ws_core (snd (ws_connect now t))}"
  by (cases "wt_reconnecting t"; cases "the (wt_reconnecting t)"; cases "ws_close io t"; cases "ws_connect now t"; 
      cases "fst (ws_close io t)"; cases "fst (ws_connect now t)")
    (simp_all add: ws_reconnect_step_def)

section \<open>First in, first out\<close>

definition ws_ok :: "'c ws_transport \<Rightarrow> bool" where
  "ws_ok t \<longleftrightarrow> wt_accepted t = wt_written t @ wt_lost t @ ch_buf (pu_send_ch t) \<and> length (wt_lost t) \<le> 1
     \<and> (wt_writing t \<longrightarrow> wt_lost t = [])
     \<and> (wt_conn t = None \<longrightarrow> wt_lost t = []) \<and> (wt_conn t \<noteq> None \<longrightarrow> pu_connected t \<or> pu_closed t)"

lemma ws_ok_core: "ws_core t' = ws_core t \<Longrightarrow> ws_ok t' = ws_ok t"
  by (simp add: ws_ok_def ws_core_def)

lemma ws_ok_put: "ws_ok t \<Longrightarrow> ws_put_result d t t' \<Longrightarrow> ws_ok t'"
  by (auto simp: ws_ok_def ws_put_result_def)

lemma ws_ok_close: "ws_ok t \<Longrightarrow> ws_ok (snd (ws_close io t))"
  by (auto simp: ws_ok_def ws_close_def pump_close_def pump_shut_def Let_def split: option.splits prod.splits)

lemma ws_ok_connect: "ws_ok t \<Longrightarrow> ws_ok (snd (ws_connect now t))"
  by (auto simp: ws_ok_def ws_connect_def ws_start_def add_ws_def)

lemma ws_ok_write: 
  assumes "ws_ok t"
  shows "ws_ok (snd (ws_write_step io pick t))"
proof (cases "wt_conn t")
  case (Some c)
  with assms show ?thesis
    by (auto simp: ws_write_step_def add_ws_def ws_ok_def ch_recv_def split: option.split prod.split outcome.split bool.split list.split)
qed (use assms in \<open>simp add: ws_write_step_def\<close>)

lemma ws_ok_step: 
  assumes "ws_ok t"
  shows "ws_ok (ws_step io ev t)"
proof (cases ev)
  case (WsSend pick c d)
  with ws_ok_put [OF assms ws_send_cases] show ?thesis by simp
next
  case (WsResume pick c)
  have "ws_ok (t\<lparr>pu_blocked := bs\<rparr>)" for bs using assms by (simp add: ws_ok_def)
  from ws_ok_put [OF this ws_put_cases] WsResume assms show ?thesis by (auto simp: ws_resume_def split: list.splits)
next
  case (WsReceive pick c)
  with assms ws_receive_cases [of pick c t] show ?thesis by (auto simp: ws_ok_def)
next
  case (WsRead pick pick2)
  with assms show ?thesis by (simp add: ws_ok_core [OF ws_core_read])
next
  case WsReadEnd
  with assms ws_ok_close [OF assms, of io] ws_core_read_end [of io t] show ?thesis
    by (auto dest: ws_ok_core split: if_splits)
next
  case (WsKeep pick tick timeout)
  with assms ws_ok_close [OF assms, of io] show ?thesis
    by (cases "wt_keep t = KaClosing") (simp_all add: ws_ok_core [OF ws_core_keep] ws_ok_core [OF ws_core_closing])
next
  case WsPong
  with assms show ?thesis using ws_ok_core [OF ws_core_pong [of t]] by simp
next
  case (WsReconnect now)
  with ws_ok_close [OF assms, of io] ws_ok_connect [OF assms, of now] assms ws_core_reconnect [of io now t] show ?thesis
    by (auto dest: ws_ok_core)
qed (simp_all add: ws_ok_close ws_ok_connect ws_ok_write assms)

lemma ws_ok_blank: "ws_ok (blank_ws None url opts)"
  by (simp add: ws_ok_def blank_ws_def pump.defs new_pump_def make_chan_def)

lemma blank_conn: "wt_conn (blank_ws conn url opts) = conn"
  by (simp add: blank_ws_def pump.defs new_pump_def)

lemma ws_ok_start: "ws_ok t \<Longrightarrow> wt_conn t = None \<Longrightarrow> ws_ok (ws_start now c t)"
  by (auto simp: ws_ok_def ws_start_def add_ws_def)

lemma ws_ok_run: "ws_ok t \<Longrightarrow> ws_ok (ws_run io evs t)"
  by (rule ws_run_induct [of ws_ok]) (auto intro: ws_ok_step)

text \<open>
  C31: A WebSocket transport writes what it was given, in order. Whatever happens to a transport, made by
  the client or on a connection of the server, of any kind of connection: the messages that \<open>Send\<close> accepted
  are those written so far, at most one that failed to be written (none while the write pump runs: it
  stops there), and those still queued, in this order.
\<close>

theorem ws_writes_in_order:
  "let t = ws_run io evs (if client then new_ws_transport url opts else new_ws_with_conn c url opts now)
   in wt_accepted t = wt_written t @ wt_lost t @ ch_buf (pu_send_ch t) \<and> length (wt_lost t) \<le> (if wt_writing t then 0 else 1)"
proof -
  have "ws_ok (if client then new_ws_transport url opts else new_ws_with_conn c url opts now)"
    by (simp add: new_ws_transport_def new_ws_with_conn_def ws_ok_blank ws_ok_start blank_conn)
  from ws_ok_run [OF this, of io evs] show ?thesis by (simp add: Let_def ws_ok_def)
qed

section \<open>What a closed connection promises\<close>

locale ws_contract =
  fixes io :: "'c ws_io" and shut :: "'c \<Rightarrow> bool"
  assumes shut_close: "shut (snd (wi_close io c))"
    and shut_write: "shut c \<Longrightarrow> \<not> is_ok (fst (wi_write io ty d c)) \<and> shut (snd (wi_write io ty d c))"
    and shut_read: "shut c \<Longrightarrow> shut (snd (wi_read io pick c))"
begin

definition conn_shut :: "'c ws_conn \<Rightarrow> bool" where
  "conn_shut c = (case c of Mock m \<Rightarrow> wm_closed m | Given g \<Rightarrow> shut g)"

definition silent :: "bytes list \<Rightarrow> bytes list \<Rightarrow> 'c ws_transport \<Rightarrow> bool" where
  "silent acc wr t \<longleftrightarrow> wt_accepted t = acc \<and> wt_written t = wr \<and> pu_closed t \<and> pu_close_ch_closed t \<and> pu_blocked t = []
     \<and> (\<forall>c. wt_conn t = Some c \<longrightarrow> conn_shut c)"

lemma conn_shut_write: "conn_shut c \<Longrightarrow> \<not> is_ok (fst (ws_write io ty d c)) \<and> conn_shut (snd (ws_write io ty d c))"
  using shut_write by (cases c) (auto simp: conn_shut_def ws_write_def mock_write_def)

lemma conn_shut_read: "conn_shut c \<Longrightarrow> conn_shut (snd (ws_read io pick c))"
  using shut_read
  by (cases c) (auto simp: conn_shut_def ws_read_def mock_read_def split: option.split bool.split prod.split)

lemma conn_shut_close: "conn_shut (snd (ws_conn_close io c))"
  using shut_close by (cases c) (auto simp: conn_shut_def ws_conn_close_def mock_close_def)

lemma silent_update [simp]:
  "silent acc wr (t\<lparr>pu_recv_ch := ch\<rparr>) = silent acc wr t" "silent acc wr (t\<lparr>wt_reading := b\<rparr>) = silent acc wr t"
  "silent acc wr (t\<lparr>wt_read_ends := b\<rparr>) = silent acc wr t" "silent acc wr (t\<lparr>wt_keep := k\<rparr>) = silent acc wr t"
  "silent acc wr (t\<lparr>wt_ticker := ti\<rparr>) = silent acc wr t" "silent acc wr (t\<lparr>wt_pong := b\<rparr>) = silent acc wr t"
  "silent acc wr (t\<lparr>wt_reconnecting := rc\<rparr>) = silent acc wr t" "silent acc wr (add_ws f t) = silent acc wr t"
  "silent acc wr (t\<lparr>wt_writing := b\<rparr>) = silent acc wr t" "silent acc wr (t\<lparr>wt_lost := l\<rparr>) = silent acc wr t"
  "silent acc wr (t\<lparr>pu_send_ch := ch\<rparr>) = silent acc wr t" "silent acc wr (t\<lparr>pu_close_waits := b\<rparr>) = silent acc wr t"
  by (simp_all add: silent_def add_ws_def)

lemma silent_conn [simp]: "silent acc wr t \<Longrightarrow> silent acc wr (t\<lparr>wt_conn := Some c\<rparr>) = conn_shut c"
  by (simp add: silent_def)

lemma silent_shut: "silent acc wr t \<Longrightarrow> wt_conn t = Some c \<Longrightarrow> conn_shut c"
  by (simp add: silent_def)

lemma silent_close: "silent acc wr t \<Longrightarrow> silent acc wr (snd (ws_close io t))"
  by (simp add: ws_close_def pump_close_def) (simp add: silent_def)

lemma silent_connect: "silent acc wr t \<Longrightarrow> snd (ws_connect now t) = t"
  by (simp add: ws_connect_def silent_def)

lemma silent_deliver: "silent acc wr t \<Longrightarrow> silent acc wr (snd (ws_deliver pick m t))"
  by (simp add: ws_deliver_def Let_def split: option.split bool.split outcome.split)

lemma silent_written:
  "ws_write io ty d c = (x, c') \<Longrightarrow> wt_conn t = Some c \<Longrightarrow> silent acc wr t \<Longrightarrow> \<not> is_ok x \<and> conn_shut c'"
  using conn_shut_write [OF silent_shut, of acc wr t c ty d] by simp

lemma silent_write: "silent acc wr t \<Longrightarrow> silent acc wr (snd (ws_write_step io pick t))"
  by (cases "wt_conn t")
    (auto simp: ws_write_step_def conn_shut_write silent_shut dest: silent_written split: prod.split outcome.split option.split bool.split)

lemma silent_step:
  assumes "silent acc wr t"
  shows "silent acc wr (ws_step io ev t)"
proof (cases ev)
  case (WsSend pick c d)
  with assms show ?thesis by (auto simp: ws_send_def silent_def)
next
  case (WsResume pick c)
  with assms show ?thesis by (auto simp: ws_resume_def silent_def)
next
  case (WsReceive pick c)
  with assms ws_receive_cases [of pick c t] show ?thesis by auto
next
  case (WsRead pick pick2)
  have "conn_shut (snd (ws_read io pick c))" if "wt_conn t = Some c" for c
    using conn_shut_read [OF silent_shut [OF assms that]] .
  with WsRead assms show ?thesis
    by (auto simp: ws_read_step_def Let_def silent_deliver split: option.split prod.split outcome.split)
next
  case WsReadEnd
  with silent_close [OF assms] assms show ?thesis by (auto simp: ws_read_end_def split: prod.split outcome.split)
next
  case (WsKeep pick tick timeout)
  have w: "conn_shut (snd (ws_write io ping_message [] c))" if "wt_conn t = Some c" for c
    using conn_shut_write [OF silent_shut [OF assms that]] by blast
  show ?thesis using assms silent_close [OF assms] w WsKeep
    by (cases "wt_keep t") (auto simp: ws_keep_step_def Let_def split: option.split prod.split outcome.split bool.split keep_case.split)
next
  case WsPong
  with assms show ?thesis by (auto simp: ws_pong_handler_def split: option.split ws_conn.split)
next
  case (WsReconnect now)
  with assms silent_close [OF assms] silent_connect [OF assms, of now] show ?thesis
    by (auto simp: ws_reconnect_step_def split: option.split reconnect_state.split prod.split outcome.split)
qed (use assms silent_close silent_connect [OF assms] silent_write in auto)

lemma silent_run: "silent acc wr t \<Longrightarrow> silent acc wr (ws_run io evs t)"
  by (rule ws_run_induct [of "silent acc wr"]) (auto intro: silent_step)

lemma conn_shut_closed: "ws_conn_close io c = (e, c') \<Longrightarrow> conn_shut c'"
  using conn_shut_close [of c] by simp

lemma close_silent:
  assumes "pu_blocked t = []" and "\<not> pu_closed t" and "fst (ws_close io t) \<noteq> Panic"
  shows "silent (wt_accepted t) (wt_written t) (snd (ws_close io t))"
  using assms
  by (auto simp: ws_close_def pump_close_def pump_shut_def silent_def Let_def split: option.splits prod.splits if_splits
      dest!: conn_shut_closed)

end

interpretation mock_conn: ws_contract mock_io wm_closed
  by unfold_locales
    (auto simp: mock_io_def mock_close_def mock_write_def mock_read_def split: option.split bool.split prod.split)

text \<open>
  After \<open>Close\<close> nothing more happens. Once \<open>Close\<close> of an open transport over a mock connection has returned, no event
  whatever makes the transport accept or write another message.
\<close>

theorem nothing_after_close:
  assumes "\<not> pu_closed t" and "fst (ws_close mock_io t) = Ok e"
  shows "wt_written (ws_run mock_io evs (snd (ws_close mock_io t))) = wt_written t
     \<and> wt_accepted (ws_run mock_io evs (snd (ws_close mock_io t))) = wt_accepted t"
proof -
  have "pu_blocked t = []" using assms by (auto simp: ws_close_def pump_close_def split: if_splits)
  then have "mock_conn.silent (wt_accepted t) (wt_written t) (snd (ws_close mock_io t))"
    using assms by (intro mock_conn.close_silent) auto
  from mock_conn.silent_run [OF this, of evs] show ?thesis by (simp add: mock_conn.silent_def)
qed

definition sample_ws :: "mock_conn ws_transport" where
  "sample_ws = snd (ws_send 0 CtxLive [1] (snd (ws_connect 0 (new_ws_transport ''ws://h'' []))))"

lemma nothing_after_close_witness:
  "wt_written (ws_run mock_io [WsWrite 0, WsSend 0 CtxLive [2]] (snd (ws_close mock_io sample_ws))) = []"
proof -
  have "\<not> pu_closed sample_ws" "fst (ws_close mock_io sample_ws) = Ok None" "wt_written sample_ws = []" by code_simp+
  with nothing_after_close [of sample_ws None] show ?thesis by simp
qed

section \<open>The client transport\<close>

definition mock_fresh :: "bool \<Rightarrow> bool \<Rightarrow> 'c ws_conn option \<Rightarrow> bool" where
  "mock_fresh up shut_down conn \<longleftrightarrow>
     (case conn of None \<Rightarrow> \<not> up | Some (Given c) \<Rightarrow> False
      | Some (Mock m) \<Rightarrow> ch_buf (wm_read_messages m) = [] \<and> (shut_down \<or> \<not> ch_closed (wm_read_messages m)))"

definition mock_live :: "'c ws_transport \<Rightarrow> bool" where
  "mock_live t \<longleftrightarrow> mock_fresh (pu_connected t) (pu_closed t) (wt_conn t)
     \<and> (set (ch_buf (pu_recv_ch t)) \<subseteq> {[]} \<and> (pu_closed t \<or> ch_buf (pu_recv_ch t) = []) \<and> \<not> ch_closed (pu_recv_ch t))
     \<and> (pu_connected t \<longrightarrow> wt_reading t \<or> wt_read_ends t)
     \<and> (pu_close_ch_closed t = pu_closed t \<and> ch_closed (pu_send_ch t) = pu_closed t \<and> (pu_closed t \<longrightarrow> \<not> pu_connected t))"

lemma mock_live_update [simp]:
  "mock_live (t\<lparr>wt_keep := k\<rparr>) = mock_live t" "mock_live (t\<lparr>wt_ticker := ti\<rparr>) = mock_live t" "mock_live (t\<lparr>wt_pong := b\<rparr>) = mock_live t"
  "mock_live (t\<lparr>wt_reconnecting := rc\<rparr>) = mock_live t" "mock_live (add_ws f t) = mock_live t"
  "mock_live (t\<lparr>wt_writing := b\<rparr>) = mock_live t" "mock_live (t\<lparr>wt_lost := l\<rparr>) = mock_live t" "mock_live (t\<lparr>wt_written := l\<rparr>) = mock_live t"
  "mock_live (t\<lparr>wt_accepted := l\<rparr>) = mock_live t" "mock_live (t\<lparr>pu_close_waits := b\<rparr>) = mock_live t" "mock_live (t\<lparr>pu_blocked := bs\<rparr>) = mock_live t"
  "ch_closed ch = ch_closed (pu_send_ch t) \<Longrightarrow> mock_live (t\<lparr>pu_send_ch := ch\<rparr>) = mock_live t"
  "ch_closed ch = ch_closed (pu_send_ch t) \<Longrightarrow> mock_live (t\<lparr>pu_send_ch := ch, wt_conn := c\<rparr>) = mock_live (t\<lparr>wt_conn := c\<rparr>)"
  by (simp_all add: mock_live_def add_ws_def)

lemma mock_live_put: "mock_live t \<Longrightarrow> ws_put_result d t t' \<Longrightarrow> mock_live t'"
  by (auto simp: ws_put_result_def)

lemma mock_live_close: "mock_live t \<Longrightarrow> mock_live (snd (ws_close io t))"
  by (auto simp: ws_close_def pump_close_def pump_shut_def mock_live_def mock_fresh_def ws_conn_close_def mock_close_def Let_def
      split: option.splits ws_conn.splits if_splits)

lemma mock_live_connect: "mock_live t \<Longrightarrow> mock_live (snd (ws_connect now t))"
  by (auto simp: ws_connect_def mock_live_def mock_fresh_def ws_start_def add_ws_def new_mock_def make_chan_def split: option.splits ws_conn.splits)

lemma mock_live_conn: 
  assumes "mock_live t" and "wt_conn t = Some c" and "ws_write io ty d c = (x, c')"
  shows "mock_live (t\<lparr>wt_conn := Some c'\<rparr>)"
proof -
  obtain m m' where "c = Mock m" "c' = Mock m'" "wm_read_messages m' = wm_read_messages m"
    using assms by (cases c) (auto simp: mock_live_def mock_fresh_def ws_write_def mock_write_def ch_send_def split: if_splits)
  with assms show ?thesis by (simp add: mock_live_def mock_fresh_def)
qed

lemma mock_live_conn2: "mock_live t \<Longrightarrow> wt_conn t = Some c \<Longrightarrow> mock_live (t\<lparr>wt_conn := Some (snd (ws_write io ty d c))\<rparr>)"
  by (rule mock_live_conn [OF _ _ surjective_pairing])

lemma ch_recv_closed: "ch_recv ch = (x, ch') \<Longrightarrow> ch_closed ch' = ch_closed ch"
  by (auto simp: ch_recv_def split: list.splits)

lemma mock_live_sent:
  "mock_live t \<Longrightarrow> wt_conn t = Some c \<Longrightarrow> ws_write io ty d c = (x, c') \<Longrightarrow> ch_recv (pu_send_ch t) = (y, ch)
     \<Longrightarrow> mock_live (t\<lparr>pu_send_ch := ch, wt_conn := Some c'\<rparr>)"
  by (simp add: ch_recv_closed mock_live_conn)

lemma mock_live_write: "mock_live t \<Longrightarrow> mock_live (snd (ws_write_step io pick t))"
  by (cases "wt_conn t")
    (auto simp: ws_write_step_def mock_live_conn2 intro: mock_live_conn mock_live_sent
      split: prod.split outcome.split option.split bool.split)

lemma mock_live_deliver:
  assumes "mock_live t" and "pu_closed t"
  shows "mock_live (snd (ws_deliver pick [] t))"
  using assms by (auto simp: ws_deliver_def ch_send_def Let_def mock_live_def add_ws_def split: option.split bool.split)

lemma mock_live_read:
  assumes "mock_live t"
  shows "mock_live (snd (ws_read_step io pick pick2 t))"
proof (cases "wt_conn t")
  case (Some c)
  with assms obtain m where m: "c = Mock m" "ch_buf (wm_read_messages m) = []" "pu_closed t \<or> \<not> ch_closed (wm_read_messages m)"
    by (cases c) (auto simp: mock_live_def mock_fresh_def)
  have "ws_read io pick c = (Err (EMsg ''no message''), c) \<or> pu_closed t \<and> ws_read io pick c = (Ok (2, []), c)"
    using m by (auto simp: ws_read_def mock_read_def ch_recv_def ch_can_recv_def binary_message_def split: option.split bool.split dest!: go_select_ready)
  then show ?thesis
  proof
    assume "ws_read io pick c = (Err (EMsg ''no message''), c)"
    moreover have "mock_live (t\<lparr>wt_conn := Some c, wt_reading := False, wt_read_ends := True\<rparr>)"
      using assms Some by (simp add: mock_live_def)
    ultimately show ?thesis using Some assms by (simp add: ws_read_step_def Let_def)
  next
    assume "pu_closed t \<and> ws_read io pick c = (Ok (2, []), c)"
    moreover have "mock_live (t\<lparr>wt_conn := Some c\<rparr>)" using Some assms by (simp add: mock_live_def)
    ultimately show ?thesis using Some assms mock_live_deliver [of "t\<lparr>wt_conn := Some c\<rparr>" pick2]
      by (simp add: ws_read_step_def binary_message_def Let_def)
  qed
qed (use assms in \<open>simp add: ws_read_step_def\<close>)

lemma mock_live_step:
  assumes "mock_live t"
  shows "mock_live (ws_step io ev t)"
proof (cases ev)
  case (WsSend pick c d)
  with mock_live_put [OF assms ws_send_cases] show ?thesis by simp
next
  case (WsResume pick c)
  have "mock_live (t\<lparr>pu_blocked := bs\<rparr>)" for bs using assms by simp
  from mock_live_put [OF this ws_put_cases] WsResume assms show ?thesis by (auto simp: ws_resume_def split: list.splits)
next
  case (WsReceive pick c)
  obtain r t' where r: "pump_receive pick c t = (r, t')" by force
  from pump_receive_keeps [OF this] assms have "mock_live t'"
    by (auto simp: mock_live_def ch_recv_def split: list.splits)
  with WsReceive r show ?thesis by (simp add: ws_receive_def)
next
  case WsReadEnd
  have "mock_live (t\<lparr>wt_read_ends := False\<rparr>)" if "mock_live t" "pu_closed t" for t :: "'a ws_transport"
    using that by (auto simp: mock_live_def)
  moreover have "pu_closed t1" if "ws_close io t = (r, t1)" "r \<noteq> Hang" for r t1
    using that by (auto simp: ws_close_def pump_close_def pump_shut_def Let_def split: if_splits option.splits prod.splits)
  ultimately show ?thesis using WsReadEnd assms mock_live_close [OF assms, of io]
    by (auto simp: ws_read_end_def split: prod.split outcome.split)
next
  case (WsKeep pick tick timeout)
  with assms mock_live_close [OF assms, of io] show ?thesis
    by (cases "wt_keep t") (auto simp: ws_keep_step_def Let_def mock_live_conn split: option.split prod.split outcome.split bool.split keep_case.split)
next
  case WsPong
  with assms show ?thesis by (auto simp: mock_live_def mock_fresh_def split: option.split ws_conn.split)
next
  case (WsReconnect now)
  with assms mock_live_close [OF assms, of io] mock_live_connect [OF assms, of now] show ?thesis
    by (auto simp: ws_reconnect_step_def split: option.split reconnect_state.split prod.split outcome.split)
qed (use assms mock_live_close mock_live_connect mock_live_write mock_live_read in auto)

lemma mock_live_new: "mock_live (new_ws_transport url opts)"
  by (simp add: new_ws_transport_def mock_live_def mock_fresh_def blank_ws_def pump.defs new_pump_def make_chan_def)

lemma mock_live_run: "mock_live (ws_run io evs (new_ws_transport url opts))"
  by (rule ws_run_induct [of mock_live, OF mock_live_new mock_live_step])

text \<open>
  The client transport receives nothing. The connection that \<open>Connect\<close> makes is a mock to which nothing
  is ever delivered: in every history of a transport of \<open>NewWebSocketTransport\<close>, \<open>Receive\<close> returns no message
  while the transport is open; once it is closed the only messages are empty ones, which the read pump
  takes from the closed channel of the mock.
\<close>

theorem client_receives_nothing:
  "let t = ws_run io evs (new_ws_transport url opts)
   in fst (ws_receive pick c t) = Ok d \<longrightarrow> d = [] \<and> pu_closed t"
proof -
  define t where "t = ws_run io evs (new_ws_transport url opts)"
  have live: "mock_live t" unfolding t_def by (rule mock_live_run)
  have "d = [] \<and> pu_closed t" if "fst (ws_receive pick c t) = Ok d"
  proof -
    from pump_receive_keeps [of pick c t, OF surjective_pairing] that obtain x ch
      where "ch_recv (pu_recv_ch t) = (x, ch)" and "d = (case x of Some d \<Rightarrow> d | None \<Rightarrow> [])" and "ch_can_recv (pu_recv_ch t)"
      by (auto simp: ws_receive_def)
    with live show ?thesis by (cases "ch_buf (pu_recv_ch t)") (auto simp: mock_live_def ch_recv_def ch_can_recv_def)
  qed
  then show ?thesis by (simp add: t_def)
qed

lemma client_receives_nothing_witness:
  "let t = ws_run mock_io [WsConnect 0, WsClose, WsRead 0 0] (new_ws_transport ''u'' [])
   in fst (ws_receive 0 CtxLive t) = Ok [] \<and> pu_closed t"
proof -
  have "fst (ws_receive 0 CtxLive (ws_run mock_io [WsConnect 0, WsClose, WsRead 0 0] (new_ws_transport ''u'' []))) = Ok []"
    by code_simp
  then show ?thesis
    using client_receives_nothing [where io = mock_io and evs = "[WsConnect 0, WsClose, WsRead 0 0]" and url = "''u''" and opts = "[]"
        and pick = 0 and c = CtxLive and d = "[]"] by (simp add: Let_def)
qed

lemma ws_close_now:
  assumes "pu_blocked t = []" and "mock_live t"
  shows "pu_closed (snd (ws_close io t)) \<and> fst (ws_close io t) \<noteq> Hang"
  using assms by (auto simp: ws_close_def pump_close_def pump_shut_def mock_live_def Let_def split: option.split prod.split)

lemma ws_read_end_now:
  assumes "pu_blocked t = []" and "mock_live t" and "wt_read_ends t"
  shows "pu_closed (ws_read_end io t)"
  using ws_close_now [OF assms(1,2), of io] assms(3) by (auto simp: ws_read_end_def split: prod.split outcome.split)

text \<open>
  The client transport ends at its first read. Whatever has happened to a transport of
  \<open>NewWebSocketTransport\<close>, if it is connected and no send waits, the next read of its pump (the mock's timer,
  100 ms) and the deferred \<open>Close\<close> close it for good: it cannot send and cannot connect again.
\<close>

theorem client_ends:
  assumes "pu_connected (ws_run io evs (new_ws_transport url opts))" and "pu_blocked (ws_run io evs (new_ws_transport url opts)) = []"
  shows "let t = ws_run io (evs @ [WsRead p q, WsReadEnd]) (new_ws_transport url opts)
         in pu_closed t \<and> \<not> is_ok (fst (ws_send pick c d t)) \<and> \<not> is_ok (fst (ws_connect now t))"
proof -
  define t where "t = ws_run io evs (new_ws_transport url opts)"
  have live: "mock_live t" unfolding t_def by (rule mock_live_run)
  define t1 where "t1 = snd (ws_read_step io p q t)"
  have t1: "mock_live t1" "ws_core t1 = ws_core t" unfolding t1_def by (rule mock_live_read [OF live], rule ws_core_read)
  obtain m where m: "wt_conn t = Some (Mock m)" "\<not> ch_can_recv (wm_read_messages m)" "wt_reading t \<or> wt_read_ends t"
    using live assms(1)
    by (auto simp: mock_live_def mock_fresh_def ch_can_recv_def t_def [symmetric] split: option.splits ws_conn.splits)
  then have "wt_read_ends t1"
    by (auto simp: t1_def ws_read_step_def ws_read_def mock_read_def Let_def split: option.split bool.split dest!: go_select_ready)
  moreover have "pu_blocked t1 = []" using t1(2) assms(2) by (simp add: ws_core_def t_def)
  ultimately have "pu_closed (ws_read_end io t1)" using t1(1) by (intro ws_read_end_now)
  moreover have "ws_run io (evs @ [WsRead p q, WsReadEnd]) (new_ws_transport url opts) = ws_read_end io t1"
    by (simp add: ws_run_def t1_def t_def)
  ultimately show ?thesis by (simp add: Let_def ws_send_def ws_connect_def)
qed

lemma client_ends_witness:
  "pu_closed (ws_run mock_io ([WsConnect 0, WsSend 0 CtxLive [1]] @ [WsRead 0 0, WsReadEnd]) (new_ws_transport ''u'' []))"
proof -
  have "pu_connected (ws_run mock_io [WsConnect 0, WsSend 0 CtxLive [1]] (new_ws_transport ''u'' []))"
    "pu_blocked (ws_run mock_io [WsConnect 0, WsSend 0 CtxLive [1]] (new_ws_transport ''u'' [])) = []" by code_simp+
  from client_ends [where p = 0 and q = 0, OF this] show ?thesis by (simp add: Let_def)
qed

section \<open>The server\<close>

text \<open>The handler runs only on a connection that the upgrader made, for an origin that passed the check.\<close>

lemma serve_http_handles:
  "ws_serve_http s q = Ok (Handled c) \<longleftrightarrow> (\<exists>check. wv_check_origin s = Some check \<and> check q) \<and> wv_upgrade s q = Ok c"
  by (auto simp: ws_serve_http_def split: option.split outcome.split)

end
