(* ===== verification/HttpBatch.thy ===== *)
theory HttpBatch
  imports CustomTransports
begin

text \<open>
  \<open>http_transport.go\<close>: the batching client transport and the server. The batch lock makes each round of the
  batch processor, the timer function and a flush one step; the goroutine that posts a batch takes a step
  for each attempt. \<open>marshal\<close> and \<open>unmarshal\<close> are \<open>json.Marshal\<close> and \<open>json.Unmarshal\<close> of a slice of raw
  messages (\<open>None\<close>: not a JSON array).
\<close>

section \<open>The transport\<close>

record http_options =
  hp_batch_size :: int
  hp_batch_timeout :: int
  hp_max_retries :: int
  hp_retry_delay :: int
  hp_request_timeout :: int
  hp_headers :: "(string, string) gomap option"
  hp_compression :: bool
  hp_keep_alive :: bool
  hp_max_idle :: int

definition default_http_options :: http_options where
  "default_http_options = \<lparr>hp_batch_size = 50, hp_batch_timeout = 100000000, hp_max_retries = 3, hp_retry_delay = 1000000000,
     hp_request_timeout = 30000000000, hp_headers = Some [], hp_compression = True, hp_keep_alive = True, hp_max_idle = 10\<rparr>"

record http_stats =
  hs_sent :: int
  hs_succeeded :: int
  hs_failed :: int
  hs_batches :: int
  hs_bytes_sent :: int
  hs_bytes_received :: int
  hs_latency :: int
  hs_retries :: int

text \<open>\<open>batchTimer\<close>: nil, armed, or expired; a timer function that has started waits for the lock.\<close>

datatype http_timer = TmNone | TmArmed | TmFired

text \<open>The goroutine of a batch: its messages, its body once it is made, and the attempt it is at.\<close>

record http_request =
  rq_batch :: "bytes list"
  rq_body :: "bytes option"
  rq_attempt :: int
  rq_start :: int

text \<open>The histories: \<open>ht_accepted\<close> are the messages \<open>Send\<close> took, \<open>ht_batches\<close> the batches made.\<close>

record http_transport =
  ht_url :: string
  ht_options :: http_options
  ht_batch :: "bytes list"
  ht_timer :: http_timer
  ht_timer_runs :: nat
  ht_outbound :: "bytes chan"
  ht_inbound :: "bytes chan"
  ht_closed :: bool
  ht_stats :: http_stats
  ht_processing :: bool
  ht_requests :: "http_request list"
  ht_accepted :: "bytes list"
  ht_batches :: "bytes list list"

definition http_headers :: "http_options \<Rightarrow> http_options" where
  "http_headers opts = opts\<lparr>hp_headers := Some (gm_put ''User-Agent'' ''capnweb-go/1.0'' (gm_put ''Accept'' ''application/json''
     (gm_put ''Content-Type'' ''application/json'' (case hp_headers opts of Some h \<Rightarrow> h | None \<Rightarrow> []))))\<rparr>"

definition new_http_transport :: "string \<Rightarrow> http_options list \<Rightarrow> http_transport" where
  "new_http_transport url options =
     \<lparr>ht_url = url, ht_options = http_headers (case options of x # _ \<Rightarrow> x | [] \<Rightarrow> default_http_options), ht_batch = [], ht_timer = TmNone,
      ht_timer_runs = 0, ht_outbound = make_chan 1000, ht_inbound = make_chan 1000, ht_closed = False,
      ht_stats = \<lparr>hs_sent = 0, hs_succeeded = 0, hs_failed = 0, hs_batches = 0, hs_bytes_sent = 0, hs_bytes_received = 0, hs_latency = 0, hs_retries = 0\<rparr>,
      ht_processing = True, ht_requests = [], ht_accepted = [], ht_batches = []\<rparr>"

text \<open>
  \<open>Send\<close> tests \<open>closed\<close> and gives the lock back before it enters the channel, so the two halves are
  separate steps when calls overlap.
\<close>

definition http_send_check :: "http_transport \<Rightarrow> unit result" where
  "http_send_check t = (if ht_closed t then Err (EMsg ''transport is closed'') else Ok ())"

definition http_send_put :: "nat \<Rightarrow> ctx \<Rightarrow> bytes \<Rightarrow> http_transport \<Rightarrow> unit result \<times> http_transport" where
  "http_send_put pick c d t =
     (case go_select pick [(ch_can_send (ht_outbound t), True), (ctx_done c, False)] of
        None \<Rightarrow> (Err (EMsg ''send queue full''), t)
      | Some False \<Rightarrow> (Err (ctx_error c), t)
      | Some True \<Rightarrow> (case ch_send d (ht_outbound t) of
            Ok ch \<Rightarrow> (Ok (), t\<lparr>ht_outbound := ch, ht_accepted := ht_accepted t @ [d]\<rparr>) | x \<Rightarrow> (bind_outcome x (\<lambda>_. Ok ()), t)))"

definition http_send :: "nat \<Rightarrow> ctx \<Rightarrow> bytes \<Rightarrow> http_transport \<Rightarrow> unit result \<times> http_transport" where
  "http_send pick c d t =
     (case http_send_check t of Ok _ \<Rightarrow> http_send_put pick c d t | x \<Rightarrow> (x, t))"

definition http_receive :: "nat \<Rightarrow> ctx \<Rightarrow> http_transport \<Rightarrow> bytes result \<times> http_transport" where
  "http_receive pick c t =
     (case go_select pick [(ch_can_recv (ht_inbound t), True), (ctx_done c, False)] of
        None \<Rightarrow> (Hang, t)
      | Some False \<Rightarrow> (Err (ctx_error c), t)
      | Some True \<Rightarrow> (case ch_recv (ht_inbound t) of (x, ch) \<Rightarrow>
          (Ok (case x of Some d \<Rightarrow> d | None \<Rightarrow> []), t\<lparr>ht_inbound := ch\<rparr>)))"

section \<open>Batches\<close>

definition http_send_batch :: "int \<Rightarrow> http_transport \<Rightarrow> http_transport" where
  "http_send_batch now t =
     (if ht_batch t = [] then t
      else t\<lparr>ht_batch := [], ht_timer := TmNone, ht_batches := ht_batches t @ [ht_batch t],
             ht_requests := ht_requests t @ [\<lparr>rq_batch = ht_batch t, rq_body = None, rq_attempt = 0, rq_start = now\<rparr>]\<rparr>)"

definition http_flush :: "int \<Rightarrow> http_transport \<Rightarrow> http_transport" where
  "http_flush now t = http_send_batch now t"

definition http_close :: "int \<Rightarrow> http_transport \<Rightarrow> goerr option result \<times> http_transport" where
  "http_close now t =
     (if ht_closed t then (Ok None, t)
      else (Ok None, http_flush now (t\<lparr>ht_closed := True, ht_outbound := (ht_outbound t)\<lparr>ch_closed := True\<rparr>\<rparr>)))"

text \<open>A round of the batch processor.\<close>

definition http_process :: "int \<Rightarrow> http_transport \<Rightarrow> unit result \<times> http_transport" where
  "http_process now t =
     (if \<not> ht_processing t then (Ok (), t)
      else if \<not> ch_can_recv (ht_outbound t) then (Hang, t)
      else case ch_recv (ht_outbound t) of
        (None, ch) \<Rightarrow> (Ok (), (http_flush now t)\<lparr>ht_processing := False\<rparr>)
      | (Some d, ch) \<Rightarrow>
          let t1 = t\<lparr>ht_outbound := ch, ht_batch := ht_batch t @ [d]\<rparr>
          in (Ok (), if int (length (ht_batch t1)) \<ge> hp_batch_size (ht_options t1) then http_send_batch now t1
                     else if length (ht_batch t1) = 1 then t1\<lparr>ht_timer := TmArmed\<rparr> else t1))"

text \<open>The batch timer expires, and its function gets the lock.\<close>

definition http_timer_fires :: "http_transport \<Rightarrow> http_transport" where
  "http_timer_fires t = (if ht_timer t = TmArmed then t\<lparr>ht_timer := TmFired, ht_timer_runs := ht_timer_runs t + 1\<rparr> else t)"

definition http_timer_runs :: "int \<Rightarrow> http_transport \<Rightarrow> http_transport" where
  "http_timer_runs now t =
     (if ht_timer_runs t = 0 then t
      else let t1 = t\<lparr>ht_timer_runs := ht_timer_runs t - 1\<rparr> in if ht_batch t1 \<noteq> [] then http_send_batch now t1 else t1)"

section \<open>Requests\<close>

definition add_http :: "(http_stats \<Rightarrow> http_stats) \<Rightarrow> http_transport \<Rightarrow> http_transport" where
  "add_http f t = t\<lparr>ht_stats := f (ht_stats t)\<rparr>"

definition update_latency :: "int \<Rightarrow> http_stats \<Rightarrow> http_stats" where
  "update_latency l s = s\<lparr>hs_latency := (if hs_latency s = 0 then l else go_quot (int64 (hs_latency s + l)) 2)\<rparr>"

definition prepare_batch_request :: "(bytes list \<Rightarrow> bytes result) \<Rightarrow> bytes list \<Rightarrow> bytes result" where
  "prepare_batch_request marshal batch = marshal batch"

text \<open>What the HTTP client returns: an error, or a status and what reading the body gives.\<close>

type_synonym http_answer = "(int \<times> bytes result) result"

definition send_http_request :: "http_answer \<Rightarrow> http_transport \<Rightarrow> bytes result \<times> http_transport" where
  "send_http_request answer t =
     (case answer of
        Err e \<Rightarrow> (Err (EWrap ''HTTP request failed: '' e), t)
      | Panic \<Rightarrow> (Panic, t) | Hang \<Rightarrow> (Hang, t)
      | Ok (status, body) \<Rightarrow>
          if status < 200 \<or> status \<ge> 300 then (Err (EMsg ''HTTP error: %d %s''), t)
          else case body of
            Err e \<Rightarrow> (Err (EWrap ''failed to read response: '' e), t)
          | Ok b \<Rightarrow> (Ok b, add_http (\<lambda>s. s\<lparr>hs_bytes_received := int64 (hs_bytes_received s + int (length b))\<rparr>) t)
          | x \<Rightarrow> (x, t))"

fun http_forward :: "bytes list \<Rightarrow> bytes chan \<Rightarrow> unit result \<times> bytes chan" where
  "http_forward [] ch = (Ok (), ch)"
| "http_forward (m # ms) ch =
     (if ch_can_send ch
      then (case ch_send m ch of Ok ch' \<Rightarrow> http_forward ms ch' | x \<Rightarrow> (bind_outcome x (\<lambda>_. Ok ()), ch))
      else (Err (EMsg ''inbound queue full''), ch))"

definition process_http_response :: "(bytes \<Rightarrow> bytes list option) \<Rightarrow> bytes \<Rightarrow> http_transport \<Rightarrow> unit result \<times> http_transport" where
  "process_http_response unmarshal body t =
     (if body = [] then (Ok (), t)
      else case http_forward (case unmarshal body of Some ms \<Rightarrow> ms | None \<Rightarrow> [body]) (ht_inbound t) of
        (r, ch) \<Rightarrow> (r, t\<lparr>ht_inbound := ch\<rparr>))"

text \<open>
  A step of the goroutine of the request at position \<open>i\<close>: it makes its body, or makes an attempt that gets
  \<open>answer\<close>, or gives up. A request that is done leaves the list.
\<close>

definition drop_request :: "nat \<Rightarrow> http_transport \<Rightarrow> http_transport" where
  "drop_request i t = t\<lparr>ht_requests := take i (ht_requests t) @ drop (Suc i) (ht_requests t)\<rparr>"

definition http_fail :: "nat \<Rightarrow> http_transport \<Rightarrow> http_transport" where
  "http_fail i t = drop_request i (add_http (\<lambda>s. s\<lparr>hs_failed := inc64 (hs_failed s)\<rparr>) t)"

text \<open>An attempt: the request and its response; \<open>finish\<close> does what follows a success.\<close>

definition http_attempt ::
    "(bytes \<Rightarrow> bytes list option) \<Rightarrow> http_answer \<Rightarrow> (http_transport \<Rightarrow> http_transport) \<Rightarrow> http_transport \<Rightarrow> unit result \<times> http_transport" where
  "http_attempt unmarshal answer finish t1 =
     (case send_http_request answer t1 of
                 (Ok body, t2) \<Rightarrow> (case process_http_response unmarshal body t2 of
                     (Ok _, t3) \<Rightarrow> (Ok (), finish t3)
                   | (Err e, t3) \<Rightarrow> (Ok (), t3)
                   | (x, t3) \<Rightarrow> (x, t3))
               | (Err e, t2) \<Rightarrow> (Ok (), t2)
               | (Panic, t2) \<Rightarrow> (Panic, t2) | (Hang, t2) \<Rightarrow> (Hang, t2))"

definition http_request_step ::
    "(bytes list \<Rightarrow> bytes result) \<Rightarrow> (bytes \<Rightarrow> bytes list option) \<Rightarrow> http_answer \<Rightarrow> int \<Rightarrow> nat \<Rightarrow> http_transport \<Rightarrow> unit result \<times> http_transport" where
  "http_request_step marshal unmarshal answer now i t =
     (if i \<ge> length (ht_requests t) then (Ok (), t)
      else let q = ht_requests t ! i in
      case rq_body q of
        None \<Rightarrow> (case prepare_batch_request marshal (rq_batch q) of
            Ok b \<Rightarrow> (Ok (), t\<lparr>ht_requests := (ht_requests t)[i := q\<lparr>rq_body := Some b\<rparr>]\<rparr>)
          | Err e \<Rightarrow> (Ok (), http_fail i t)
          | Panic \<Rightarrow> (Panic, t) | Hang \<Rightarrow> (Hang, t))
      | Some b \<Rightarrow>
          if rq_attempt q > hp_max_retries (ht_options t) then (Ok (), http_fail i t)
          else
            let t0 = (if rq_attempt q > 0 then add_http (\<lambda>s. s\<lparr>hs_retries := inc64 (hs_retries s)\<rparr>) t else t);
                t1 = t0\<lparr>ht_requests := (ht_requests t)[i := q\<lparr>rq_attempt := rq_attempt q + 1\<rparr>]\<rparr>
            in http_attempt unmarshal answer (\<lambda>t3. drop_request i (add_http (\<lambda>s. update_latency (time_sub now (rq_start q))
                 (s\<lparr>hs_sent := inc64 (hs_sent s), hs_succeeded := inc64 (hs_succeeded s), hs_batches := inc64 (hs_batches s),
                    hs_bytes_sent := int64 (hs_bytes_sent s + int (length b))\<rparr>)) t3)) t1)"

section \<open>Settings and factory\<close>

definition http_set_header :: "string \<Rightarrow> string \<Rightarrow> http_transport \<Rightarrow> http_transport" where
  "http_set_header k v t = t\<lparr>ht_options := (ht_options t)\<lparr>hp_headers := map_option (gm_put k v) (hp_headers (ht_options t))\<rparr>\<rparr>"

definition http_set_batch_size :: "int \<Rightarrow> http_transport \<Rightarrow> http_transport" where
  "http_set_batch_size n t = t\<lparr>ht_options := (ht_options t)\<lparr>hp_batch_size := n\<rparr>\<rparr>"

definition http_set_batch_timeout :: "int \<Rightarrow> http_transport \<Rightarrow> http_transport" where
  "http_set_batch_timeout d t = t\<lparr>ht_options := (ht_options t)\<lparr>hp_batch_timeout := d\<rparr>\<rparr>"

definition http_factory_create :: "string \<Rightarrow> http_options \<Rightarrow> string \<Rightarrow> http_transport" where
  "http_factory_create base opts endpoint = new_http_transport (base @ endpoint) [opts]"

section \<open>The server\<close>

record http_server_options =
  so_max_request :: int
  so_enable_cors :: bool

definition default_http_server_options :: http_server_options where
  "default_http_server_options = \<lparr>so_max_request = 10485760, so_enable_cors = True\<rparr>"

text \<open>What the server reads of a request: \<open>qu_body\<close> is what reading the body without a limit gives.\<close>

record http_query =
  qu_method :: string
  qu_content_type :: string
  qu_body :: "bytes result"

text \<open>A response: the headers set, the status, and the body (the text of \<open>http.Error\<close>, or bytes).\<close>

datatype http_body = BodyText string | BodyBytes bytes

record http_reply =
  hr_headers :: "(string, string) gomap"
  hr_status :: int
  hr_body :: http_body

definition http_error :: "(string, string) gomap \<Rightarrow> string \<Rightarrow> int \<Rightarrow> http_reply" where
  "http_error h msg status = \<lparr>hr_headers = gm_put ''X-Content-Type-Options'' ''nosniff'' (gm_put ''Content-Type'' ''text/plain; charset=utf-8'' h),
     hr_status = status, hr_body = BodyText (msg @ [CHR 0x0A])\<rparr>"

definition read_limited :: "int \<Rightarrow> bytes result \<Rightarrow> bytes result" where
  "read_limited n b = bind_outcome b (\<lambda>d. if int (length d) > max 0 n then Err (EMsg ''http: request body too large'') else Ok d)"

definition parse_batch_request :: "(bytes \<Rightarrow> bytes list option) \<Rightarrow> bytes \<Rightarrow> bytes list result" where
  "parse_batch_request unmarshal body =
     (if body = [] then Err (EMsg ''empty request body'')
      else case unmarshal body of Some ms \<Rightarrow> Ok ms | None \<Rightarrow> Ok [body])"

definition cors_headers :: "(string, string) gomap" where
  "cors_headers = [(''Access-Control-Allow-Origin'', ''*''), (''Access-Control-Allow-Methods'', ''POST, OPTIONS''),
     (''Access-Control-Allow-Headers'', ''Content-Type'')]"

definition serve_http ::
    "(bytes list \<Rightarrow> bytes result) \<Rightarrow> (bytes \<Rightarrow> bytes list option) \<Rightarrow> (bytes list \<Rightarrow> bytes list) \<Rightarrow> http_server_options \<Rightarrow> http_query \<Rightarrow> http_reply result" where
  "serve_http marshal unmarshal handler opts q =
     (let h = (if so_enable_cors opts then cors_headers else [])
      in if so_enable_cors opts \<and> qu_method q = ''OPTIONS'' then Ok \<lparr>hr_headers = h, hr_status = 200, hr_body = BodyBytes []\<rparr>
      else if qu_method q \<noteq> ''POST'' then Ok (http_error h ''Method not allowed'' 405)
      else if qu_content_type q \<noteq> ''application/json'' then Ok (http_error h ''Content-Type must be application/json'' 400)
      else case read_limited (so_max_request opts) (qu_body q) of
        Panic \<Rightarrow> Panic | Hang \<Rightarrow> Hang
      | Err e \<Rightarrow> Ok (http_error h ''Failed to read request body'' 400)
      | Ok body \<Rightarrow> (case parse_batch_request unmarshal body of
            Panic \<Rightarrow> Panic | Hang \<Rightarrow> Hang
          | Err e \<Rightarrow> Ok (http_error h ''Invalid JSON batch'' 400)
          | Ok batch \<Rightarrow>
              let responses = handler batch; h' = gm_put ''Content-Type'' ''application/json'' h
              in case responses of
                   [r] \<Rightarrow> Ok \<lparr>hr_headers = h', hr_status = 200, hr_body = BodyBytes r\<rparr>
                 | _ \<Rightarrow> (case marshal responses of
                     Panic \<Rightarrow> Panic | Hang \<Rightarrow> Hang
                   | Err e \<Rightarrow> Ok (http_error h' ''Failed to encode response'' 500)
                   | Ok b \<Rightarrow> Ok \<lparr>hr_headers = h', hr_status = 200, hr_body = BodyBytes b\<rparr>)))"

section \<open>Histories\<close>

text \<open>\<open>HttpPut\<close>: a \<open>Send\<close> that passed its check earlier enters the channel.\<close>

datatype http_event =
    HttpSend nat ctx bytes
  | HttpPut nat ctx bytes
  | HttpReceive nat ctx
  | HttpClose int
  | HttpProcess int
  | HttpTimerFires
  | HttpTimerRuns int
  | HttpRequest http_answer int nat
  | HttpSetBatchSize int
  | HttpSetTimeout int
  | HttpSetHeader string string

primrec http_step ::
    "(bytes list \<Rightarrow> bytes result) \<Rightarrow> (bytes \<Rightarrow> bytes list option) \<Rightarrow> http_event \<Rightarrow> http_transport \<Rightarrow> http_transport" where
  "http_step mar unm (HttpSend pick c d) t = snd (http_send pick c d t)"
| "http_step mar unm (HttpPut pick c d) t = snd (http_send_put pick c d t)"
| "http_step mar unm (HttpReceive pick c) t = snd (http_receive pick c t)"
| "http_step mar unm (HttpClose now) t = snd (http_close now t)"
| "http_step mar unm (HttpProcess now) t = snd (http_process now t)"
| "http_step mar unm HttpTimerFires t = http_timer_fires t"
| "http_step mar unm (HttpTimerRuns now) t = http_timer_runs now t"
| "http_step mar unm (HttpRequest answer now i) t = snd (http_request_step mar unm answer now i t)"
| "http_step mar unm (HttpSetBatchSize n) t = http_set_batch_size n t"
| "http_step mar unm (HttpSetTimeout d) t = http_set_batch_timeout d t"
| "http_step mar unm (HttpSetHeader k v) t = http_set_header k v t"

definition http_run ::
    "(bytes list \<Rightarrow> bytes result) \<Rightarrow> (bytes \<Rightarrow> bytes list option) \<Rightarrow> http_event list \<Rightarrow> http_transport \<Rightarrow> http_transport" where
  "http_run mar unm evs t = fold (http_step mar unm) evs t"

text \<open>What requests, receives and settings leave as it is.\<close>

definition http_core :: "http_transport \<Rightarrow> _" where
  "http_core t = (ht_batch t, ht_batches t, ht_outbound t, ht_accepted t, ht_options t)"

lemma http_core_update [simp]:
  "http_core (t\<lparr>ht_inbound := ch\<rparr>) = http_core t" "http_core (t\<lparr>ht_requests := qs\<rparr>) = http_core t"
  "http_core (t\<lparr>ht_timer := tm\<rparr>) = http_core t" "http_core (t\<lparr>ht_timer_runs := n\<rparr>) = http_core t"
  "http_core (t\<lparr>ht_processing := b\<rparr>) = http_core t"
  "http_core (t\<lparr>ht_closed := b\<rparr>) = http_core t"
  "http_core (add_http f t) = http_core t" "http_core (drop_request i t) = http_core t"
  by (simp_all add: http_core_def add_http_def drop_request_def)

lemma http_core_fail [simp]: "http_core (http_fail i t) = http_core t"
  by (simp add: http_fail_def)

lemma http_core_send: "send_http_request answer u = (x, u') \<Longrightarrow> http_core u' = http_core u"
  by (auto simp: send_http_request_def split: outcome.splits prod.splits if_splits)

lemma http_core_response: "process_http_response unm b u = (x, u') \<Longrightarrow> http_core u' = http_core u"
  by (auto simp: process_http_response_def split: prod.splits if_splits)

lemma http_core_attempt:
  assumes "\<And>u. http_core (finish u) = http_core u"
  shows "http_core (snd (http_attempt unm answer finish t)) = http_core t"
proof -
  obtain r t2 where s: "send_http_request answer t = (r, t2)" by force
  show ?thesis
  proof (cases r)
    case (Ok body)
    obtain r' t3 where p: "process_http_response unm body t2 = (r', t3)" by force
    with s Ok http_core_send [OF s] http_core_response [OF p] assms show ?thesis
      by (cases r') (simp_all add: http_attempt_def)
  qed (use s http_core_send [OF s] in \<open>simp_all add: http_attempt_def\<close>)
qed

lemma http_core_request: "http_core (snd (http_request_step mar unm answer now i t)) = http_core t"
  by (simp add: http_request_step_def Let_def http_core_attempt split: option.split outcome.split)

definition http_ok :: "nat \<Rightarrow> http_transport \<Rightarrow> bool" where
  "http_ok n t \<longleftrightarrow> concat (ht_batches t) @ ht_batch t @ ch_buf (ht_outbound t) = ht_accepted t
     \<and> (\<forall>b \<in> set (ht_batches t). b \<noteq> [] \<and> length b \<le> n) \<and> length (ht_batch t) < n"

lemma http_ok_core: "http_core t' = http_core t \<Longrightarrow> http_ok n t' = http_ok n t"
  by (simp add: http_ok_def http_core_def)

lemma http_ok_update [simp]:
  "http_ok n (t\<lparr>ht_timer := tm\<rparr>) = http_ok n t" "http_ok n (t\<lparr>ht_processing := b\<rparr>) = http_ok n t"
  "http_ok n (t\<lparr>ht_timer_runs := r\<rparr>) = http_ok n t"
  by (simp_all add: http_ok_def)

lemma http_ok_send_batch: "http_ok n t \<Longrightarrow> http_ok n (http_send_batch now t)"
  by (auto simp: http_ok_def http_send_batch_def)

lemma http_ok_put: "http_ok n t \<Longrightarrow> http_ok n (snd (http_send_put pick c d t))"
  by (auto simp: http_ok_def http_send_put_def ch_send_def split: option.split bool.split)

lemma http_ok_process:
  assumes "http_ok n t" and "hp_batch_size (ht_options t) \<le> int n"
  shows "http_ok n (snd (http_process now t))"
proof (cases "ch_buf (ht_outbound t)")
  case Nil
  with assms(1) show ?thesis by (simp add: http_process_def ch_recv_def http_flush_def http_ok_send_batch)
next
  case (Cons d ds)
  let ?t = "t\<lparr>ht_outbound := (ht_outbound t)\<lparr>ch_buf := ds\<rparr>, ht_batch := ht_batch t @ [d]\<rparr>"
  have "http_ok n (http_send_batch now ?t)" using assms(1) Cons by (auto simp: http_ok_def http_send_batch_def)
  moreover have "http_ok n ?t" if "\<not> hp_batch_size (ht_options t) \<le> int (length (ht_batch ?t))"
    using assms Cons that by (auto simp: http_ok_def)
  moreover have "http_process now t = (if \<not> ht_processing t then (Ok (), t)
      else (Ok (), if int (length (ht_batch ?t)) \<ge> hp_batch_size (ht_options t) then http_send_batch now ?t
                     else if length (ht_batch ?t) = 1 then ?t\<lparr>ht_timer := TmArmed\<rparr> else ?t))"
    using Cons by (simp add: http_process_def ch_recv_def ch_can_recv_def Let_def)
  ultimately show ?thesis using assms(1) by (simp only: snd_conv http_ok_update split: if_split) blast
qed

lemma http_ok_step:
  assumes "http_ok n t" and "hp_batch_size (ht_options t) \<le> int n"
  shows "http_ok n (http_step mar unm ev t)"
proof (cases ev)
  case (HttpSend pick c d)
  with assms(1) show ?thesis by (simp add: http_send_def http_ok_put split: outcome.split)
next
  case (HttpPut pick c d)
  with assms(1) show ?thesis by (simp add: http_ok_put)
next
  case (HttpReceive pick c)
  have "http_core (snd (http_receive pick c t)) = http_core t"
    by (simp add: http_receive_def split: option.split bool.split prod.split)
  from http_ok_core [OF this] HttpReceive assms(1) show ?thesis by simp
next
  case (HttpClose now)
  have "http_ok n (t\<lparr>ht_closed := True, ht_outbound := (ht_outbound t)\<lparr>ch_closed := True\<rparr>\<rparr>)" using assms(1) by (simp add: http_ok_def)
  with HttpClose assms(1) show ?thesis by (simp add: http_close_def http_flush_def http_ok_send_batch)
next
  case (HttpProcess now)
  with http_ok_process [OF assms] show ?thesis by simp
next
  case (HttpTimerRuns now)
  with assms(1) show ?thesis by (simp add: http_timer_runs_def Let_def http_ok_send_batch)
next
  case (HttpRequest answer now i)
  with assms(1) show ?thesis by (simp add: http_ok_core [OF http_core_request])
qed (use assms in \<open>simp_all add: http_timer_fires_def http_ok_def http_set_batch_size_def http_set_batch_timeout_def http_set_header_def\<close>)

lemma http_options_send_batch [simp]: "ht_options (http_send_batch now t) = ht_options t"
  by (simp add: http_send_batch_def)

lemma http_options_step:
  "hp_batch_size (ht_options (http_step mar unm ev t)) = (case ev of HttpSetBatchSize k \<Rightarrow> k | _ \<Rightarrow> hp_batch_size (ht_options t))"
proof (cases ev)
  case (HttpSend pick c d)
  then show ?thesis by (simp add: http_send_def http_send_put_def split: outcome.split option.split bool.split)
next
  case (HttpPut pick c d)
  then show ?thesis by (simp add: http_send_put_def split: outcome.split option.split bool.split)
next
  case (HttpReceive pick c)
  then show ?thesis by (simp add: http_receive_def split: option.split bool.split prod.split)
next
  case (HttpProcess now)
  then show ?thesis by (simp add: http_process_def http_flush_def Let_def split: option.split prod.split)
next
  case (HttpRequest answer now i)
  then show ?thesis using http_core_request [of mar unm answer now i t] by (simp add: http_core_def)
qed (simp_all add: http_close_def http_flush_def http_timer_fires_def http_timer_runs_def Let_def http_set_batch_size_def
    http_set_batch_timeout_def http_set_header_def)

lemma http_ok_run:
  assumes "http_ok n t" and "hp_batch_size (ht_options t) \<le> int n" and "\<forall>k. HttpSetBatchSize k \<in> set evs \<longrightarrow> k \<le> int n"
  shows "http_ok n (http_run mar unm evs t)"
  using assms unfolding http_run_def
proof (induction evs arbitrary: t)
  case (Cons ev evs)
  have "hp_batch_size (ht_options (http_step mar unm ev t)) \<le> int n"
    using Cons.prems(2,3) by (auto simp: http_options_step split: http_event.split)
  then show ?case using Cons.IH [OF http_ok_step [OF Cons.prems(1,2)]] Cons.prems(3) by simp
qed simp

section \<open>Properties\<close>

text \<open>
  C32: Batches carry the messages in order. In every history of a batch transport, whatever the timers,
  flushes, changes of the batch size and answers to the requests: the batches made so far, the batch being
  collected and the queue hold together, in this order, exactly the messages that \<open>Send\<close> accepted; no batch
  is empty and none is larger than the largest batch size (or 1) that was ever set.
\<close>

theorem http_batches_in_order:
  assumes "0 < n" and "hp_batch_size (case opts of x # _ \<Rightarrow> x | [] \<Rightarrow> default_http_options) \<le> int n"
    and "\<forall>k. HttpSetBatchSize k \<in> set evs \<longrightarrow> k \<le> int n"
  shows "let t = http_run mar unm evs (new_http_transport url opts)
         in concat (ht_batches t) @ ht_batch t @ ch_buf (ht_outbound t) = ht_accepted t
            \<and> (\<forall>b \<in> set (ht_batches t). 0 < length b \<and> length b \<le> n)"
proof -
  have "http_ok n (new_http_transport url opts)" using assms(1) by (simp add: http_ok_def new_http_transport_def make_chan_def)
  moreover have "hp_batch_size (ht_options (new_http_transport url opts)) \<le> int n"
    using assms(2) by (simp add: new_http_transport_def http_headers_def)
  ultimately have "http_ok n (http_run mar unm evs (new_http_transport url opts))" by (rule http_ok_run [OF _ _ assms(3)])
  then show ?thesis by (auto simp: Let_def http_ok_def)
qed

definition sample_http_run :: "http_event list" where
  "sample_http_run = [HttpSend 0 CtxLive [1], HttpProcess 0, HttpSend 0 CtxLive [2], HttpProcess 0, HttpSend 0 CtxLive [3],
     HttpSetBatchSize 1, HttpProcess 0, HttpClose 0]"

lemma http_batches_in_order_witness:
  "let t = http_run (\<lambda>ms. Ok (concat ms)) (\<lambda>_. None) sample_http_run (new_http_transport ''u'' [])
   in concat (ht_batches t) @ ht_batch t @ ch_buf (ht_outbound t) = ht_accepted t \<and> ht_batches t = [[[1], [2], [3]]]"
proof -
  have b: "ht_batches (http_run (\<lambda>ms. Ok (concat ms)) (\<lambda>_. None) sample_http_run (new_http_transport ''u'' [])) = [[[1], [2], [3]]]"
    by code_simp
  have "hp_batch_size (case [] of x # _ \<Rightarrow> x | [] \<Rightarrow> default_http_options) \<le> int 50" "(0 :: nat) < 50"
    "\<forall>k. HttpSetBatchSize k \<in> set sample_http_run \<longrightarrow> k \<le> int 50"
    by (simp_all add: default_http_options_def sample_http_run_def)
  from http_batches_in_order [where mar = "\<lambda>ms. Ok (concat ms)" and unm = "\<lambda>_. None" and url = "''u''", OF this(2,1,3)] b show ?thesis
    by (simp add: Let_def)
qed

section \<open>Client and server together\<close>

text \<open>A batch is posted, the server answers, and the client takes the answer in.\<close>

definition http_exchange ::
    "(bytes list \<Rightarrow> bytes result) \<Rightarrow> (bytes \<Rightarrow> bytes list option) \<Rightarrow> (bytes list \<Rightarrow> bytes list) \<Rightarrow> http_server_options
     \<Rightarrow> bytes list \<Rightarrow> http_transport \<Rightarrow> unit result \<times> http_transport" where
  "http_exchange mar unm handler so ms t =
     (case bind_outcome (prepare_batch_request mar ms) (\<lambda>b. serve_http mar unm handler so
             \<lparr>qu_method = ''POST'', qu_content_type = ''application/json'', qu_body = Ok b\<rparr>) of
        Ok r \<Rightarrow> http_attempt unm (Ok (hr_status r, case hr_body r of BodyBytes d \<Rightarrow> Ok d | BodyText x \<Rightarrow> Ok (map (\<lambda>c. of_nat (of_char c)) x)))
                  (\<lambda>t. t) t
      | Err e \<Rightarrow> (Err e, t) | Panic \<Rightarrow> (Panic, t) | Hang \<Rightarrow> (Hang, t))"

text \<open>Forwarding delivers all messages, or those that fit and an error: a retry then delivers those again.\<close>

lemma http_forward_spec:
  "\<not> ch_closed ch \<Longrightarrow> ch_wf ch \<Longrightarrow> http_forward ms ch =
     (if length (ch_buf ch) + length ms \<le> ch_cap ch then Ok () else Err (EMsg ''inbound queue full''),
      ch\<lparr>ch_buf := ch_buf ch @ take (ch_cap ch - length (ch_buf ch)) ms\<rparr>)"
proof (induction ms arbitrary: ch)
  case (Cons m ms)
  show ?case
  proof (cases "length (ch_buf ch) < ch_cap ch")
    case True
    then have "ch_cap ch - length (ch_buf ch) = Suc (ch_cap ch - Suc (length (ch_buf ch)))" by simp
    with True Cons.prems Cons.IH [of "ch\<lparr>ch_buf := ch_buf ch @ [m]\<rparr>"] show ?thesis
      by (auto simp: ch_can_send_def ch_send_def ch_wf_def)
  qed (use Cons.prems in \<open>simp add: ch_can_send_def\<close>)
qed (simp add: ch_wf_def)

text \<open>
  C33: What an exchange delivers. When the body is within the server's limit and the responses fit the
  client's queue, the client receives the responses one by one in order, unless there is exactly one: the
  server sends a lone response as it is, and the client, which takes every JSON array for a batch, delivers
  its elements instead, although every message of the protocol is such an array.
\<close>

theorem http_exchange_delivers:
  assumes "mar ms = Ok b" and "b \<noteq> []" and "unm b = Some ms" and "int (length b) \<le> so_max_request so"
    and "mar (handler ms) = Ok b'" and "b' \<noteq> []" and "unm b' = Some (handler ms)" and "[] \<notin> set (handler ms)"
    and "\<not> ch_closed (ht_inbound t)"
    and "got = (case handler ms of [r] \<Rightarrow> (case unm r of Some es \<Rightarrow> es | None \<Rightarrow> [r]) | rs \<Rightarrow> rs)"
    and "length (ch_buf (ht_inbound t)) + length got \<le> ch_cap (ht_inbound t)"
  shows "fst (http_exchange mar unm handler so ms t) = Ok ()
     \<and> ch_buf (ht_inbound (snd (http_exchange mar unm handler so ms t))) = ch_buf (ht_inbound t) @ got"
proof -
  define body where "body = (case handler ms of [r] \<Rightarrow> r | _ \<Rightarrow> b')"
  let ?q = "\<lparr>qu_method = ''POST'', qu_content_type = ''application/json'', qu_body = Ok b\<rparr>"
  have served: "\<exists>h. serve_http mar unm handler so ?q = Ok \<lparr>hr_headers = h, hr_status = 200, hr_body = BodyBytes body\<rparr>"
  proof -
    obtain rs where rs: "handler ms = rs" by simp
    with assms(5) have "mar rs = Ok b'" by simp
    then show ?thesis using assms(2-4) unfolding body_def rs
      by (cases rs; cases "tl rs") (simp_all add: serve_http_def read_limited_def parse_batch_request_def rs Let_def)
  qed
  have body: "body \<noteq> []" "(case unm body of Some ms \<Rightarrow> ms | None \<Rightarrow> [body]) = got"
    using assms(6-8,10) by (auto simp: body_def split: list.splits option.splits)
  have fwd: "http_forward got (ht_inbound t) = (Ok (), (ht_inbound t)\<lparr>ch_buf := ch_buf (ht_inbound t) @ got\<rparr>)"
    using assms(9,11) by (subst http_forward_spec) (simp_all add: ch_wf_def)
  have "send_http_request (Ok (200, Ok body)) t
      = (Ok body, add_http (\<lambda>s. s\<lparr>hs_bytes_received := int64 (hs_bytes_received s + int (length body))\<rparr>) t)"
    by (simp add: send_http_request_def)
  moreover have "process_http_response unm body u = (Ok (), u\<lparr>ht_inbound := (ht_inbound t)\<lparr>ch_buf := ch_buf (ht_inbound t) @ got\<rparr>\<rparr>)"
    if "ht_inbound u = ht_inbound t" for u
    using body fwd that by (simp add: process_http_response_def)
  ultimately show ?thesis
    using served assms(1) by (auto simp: http_exchange_def prepare_batch_request_def http_attempt_def add_http_def)
qed

definition ascii :: "string \<Rightarrow> bytes" where "ascii s = map (\<lambda>c. of_nat (of_char c)) s"

text \<open>The reply to \<open>["pull",1]\<close> arrives as a word and a number.\<close>

definition sample_unmarshal :: "bytes \<Rightarrow> bytes list option" where
  "sample_unmarshal b =
     (if b = ascii ''[[\"pull\",1]]'' then Some [ascii ''[\"pull\",1]'']
      else if b = ascii ''[[\"resolve\",1,42]]'' then Some [ascii ''[\"resolve\",1,42]'']
      else if b = ascii ''[\"resolve\",1,42]'' then Some [ascii ''\"resolve\"'', ascii ''1'', ascii ''42'']
      else None)"

lemma http_exchange_delivers_witness:
  "ch_buf (ht_inbound (snd (http_exchange (\<lambda>ms. Ok (ascii ''['' @ concat ms @ ascii '']'')) sample_unmarshal (\<lambda>_. [ascii ''[\"resolve\",1,42]''])
     default_http_server_options [ascii ''[\"pull\",1]''] (new_http_transport ''u'' [])))) = [ascii ''\"resolve\"'', ascii ''1'', ascii ''42'']"
proof -
  let ?mar = "\<lambda>ms. Ok (ascii ''['' @ concat ms @ ascii '']'') :: bytes result"
  let ?rs = "\<lambda>_ :: bytes list. [ascii ''[\"resolve\",1,42]'']"
  have "fst (http_exchange ?mar sample_unmarshal ?rs default_http_server_options [ascii ''[\"pull\",1]''] (new_http_transport ''u'' [])) = Ok ()
     \<and> ch_buf (ht_inbound (snd (http_exchange ?mar sample_unmarshal ?rs default_http_server_options [ascii ''[\"pull\",1]''] (new_http_transport ''u'' []))))
        = ch_buf (ht_inbound (new_http_transport ''u'' [])) @ [ascii ''\"resolve\"'', ascii ''1'', ascii ''42'']"
    by (rule http_exchange_delivers [where b = "ascii ''[[\"pull\",1]]''" and b' = "ascii ''[[\"resolve\",1,42]]''"])
      (simp_all add: ascii_def sample_unmarshal_def default_http_server_options_def new_http_transport_def make_chan_def)
  then show ?thesis by (simp add: new_http_transport_def make_chan_def)
qed

section \<open>Closing\<close>

text \<open>A send that passed its check before \<open>Close\<close> and enters the channel after it panics.\<close>

theorem send_close_panics:
  assumes "\<not> ht_closed t"
  shows "http_send_check t = Ok () \<and> fst (http_send_put pick CtxLive d (snd (http_close now t))) = Panic"
  using assms
  by (simp add: http_send_check_def http_send_put_def http_close_def http_flush_def http_send_batch_def go_select_def ch_can_send_def
      ch_send_def ctx_done_def)

lemma send_close_panics_witness:
  "fst (http_send_put 0 CtxLive [1] (snd (http_close 0 (new_http_transport ''u'' [])))) = Panic"
  using send_close_panics [of "new_http_transport ''u'' []" 0 "[1]" 0] by (simp add: new_http_transport_def)

text \<open>\<open>Receive\<close> does not see that the transport is closed.\<close>

lemma receive_after_close:
  assumes "ch_buf (ht_inbound t) = []" and "\<not> ch_closed (ht_inbound t)"
  shows "fst (http_receive pick CtxLive (snd (http_close now t))) = Hang"
  using assms by (simp add: http_receive_def http_close_def http_flush_def http_send_batch_def go_select_def ch_can_recv_def ctx_done_def)

end
