(* ===== verification/GoTypes.thy ===== *)
theory GoTypes
  imports Tables ValueTypes
begin

text \<open>
  Go types as the reflection of the standard library presents them, as far as the interface registry, the
  validators and the callbacks use it. A type is a number, its identity; a table gives what reflection
  tells of it, so that types may refer to themselves. A method of an interface type has the type of its
  signature, without a receiver; a method of another type has the receiver as its first parameter.
\<close>

section \<open>Types\<close>

datatype kind =
    KInvalid | KBool | KInt | KInt8 | KInt16 | KInt32 | KInt64 | KUint | KUint8 | KUint16 | KUint32 | KUint64 | KUintptr
  | KFloat32 | KFloat64 | KComplex64 | KComplex128 | KArray | KChan | KFunc | KInterface | KMap | KPtr | KSlice | KString
  | KStruct | KUnsafePointer

definition int_kind :: "kind \<Rightarrow> bool" where
  "int_kind k \<longleftrightarrow> k \<in> {KInt, KInt8, KInt16, KInt32, KInt64, KUint, KUint8, KUint16, KUint32, KUint64, KUintptr}"

definition float_kind :: "kind \<Rightarrow> bool" where "float_kind k \<longleftrightarrow> k \<in> {KFloat32, KFloat64}"

definition complex_kind :: "kind \<Rightarrow> bool" where "complex_kind k \<longleftrightarrow> k \<in> {KComplex64, KComplex128}"

text \<open>
  \<open>ti_named\<close>: a defined or predeclared type; \<open>ti_under\<close>: its underlying type. Fields have a name, whether
  they are exported, and a type; methods a name, whether they are exported, and a function type. \<open>ti_bidir\<close>: a channel for both
  directions.
\<close>

record tinfo =
  ti_kind :: kind
  ti_string :: string
  ti_name :: string
  ti_pkg :: string
  ti_named :: bool
  ti_under :: nat
  ti_elem :: nat
  ti_key :: nat
  ti_bidir :: bool
  ti_fields :: "(string \<times> bool \<times> nat) list"
  ti_in :: "nat list"
  ti_out :: "nat list"
  ti_variadic :: bool
  ti_methods :: "(string \<times> bool \<times> nat) list"

text \<open>The types that the code names: \<open>interface{}\<close>, \<open>error\<close> and \<open>context.Context\<close>.\<close>

record types =
  ty_info :: "nat \<Rightarrow> tinfo"
  ty_any :: nat
  ty_error :: nat
  ty_context :: nat

abbreviation kind_of :: "types \<Rightarrow> nat \<Rightarrow> kind" where
  "kind_of E t \<equiv> ti_kind (ty_info E t)"

section \<open>Relations between types\<close>

text \<open>The signature of a method of type \<open>t\<close>.\<close>

definition method_sig :: "types \<Rightarrow> nat \<Rightarrow> nat \<Rightarrow> nat list \<times> nat list \<times> bool" where
  "method_sig E t f =
     (let i = ty_info E f in ((if kind_of E t = KInterface then ti_in i else drop 1 (ti_in i)), ti_out i, ti_variadic i))"

definition implements :: "types \<Rightarrow> nat \<Rightarrow> nat \<Rightarrow> bool" where
  "implements E t u \<longleftrightarrow> kind_of E u = KInterface
     \<and> list_all (\<lambda>(n, _, f). list_ex (\<lambda>(n', _, f'). n' = n \<and> method_sig E t f' = method_sig E u f) (ti_methods (ty_info E t)))
         (ti_methods (ty_info E u))"

definition channel_assignable :: "types \<Rightarrow> nat \<Rightarrow> nat \<Rightarrow> bool" where
  "channel_assignable E t u \<longleftrightarrow> kind_of E t = KChan \<and> kind_of E u = KChan \<and> ti_bidir (ty_info E t)
     \<and> \<not> (ti_named (ty_info E t) \<and> ti_named (ty_info E u)) \<and> ti_elem (ty_info E t) = ti_elem (ty_info E u)"

definition assignable :: "types \<Rightarrow> nat \<Rightarrow> nat \<Rightarrow> bool" where
  "assignable E t u \<longleftrightarrow> t = u
     \<or> \<not> (ti_named (ty_info E t) \<and> ti_named (ty_info E u)) \<and> kind_of E t = kind_of E u
        \<and> (channel_assignable E t u \<or> ti_under (ty_info E t) = ti_under (ty_info E u))
     \<or> implements E t u"

text \<open>A slice of bytes or runes of the predeclared types.\<close>

definition text_slice :: "types \<Rightarrow> nat \<Rightarrow> bool" where
  "text_slice E t \<longleftrightarrow> kind_of E t = KSlice \<and> ti_pkg (ty_info E (ti_elem (ty_info E t))) = []
     \<and> kind_of E (ti_elem (ty_info E t)) \<in> {KUint8, KInt32}"

definition convertible :: "types \<Rightarrow> nat \<Rightarrow> nat \<Rightarrow> bool" where
  "convertible E t u \<longleftrightarrow>
     (let k = kind_of E t; l = kind_of E u; i = ty_info E t; j = ty_info E u in
       (int_kind k \<or> float_kind k) \<and> (int_kind l \<or> float_kind l)
     \<or> int_kind k \<and> l = KString
     \<or> complex_kind k \<and> complex_kind l
     \<or> k = KString \<and> text_slice E u
     \<or> text_slice E t \<and> l = KString
     \<or> k = KSlice \<and> (l = KArray \<and> ti_elem i = ti_elem j
         \<or> l = KPtr \<and> kind_of E (ti_elem j) = KArray \<and> ti_elem (ty_info E (ti_elem j)) = ti_elem i)
     \<or> channel_assignable E t u
     \<or> ti_under i = ti_under j
     \<or> k = KPtr \<and> l = KPtr \<and> \<not> ti_named i \<and> \<not> ti_named j
         \<and> ti_under (ty_info E (ti_elem i)) = ti_under (ty_info E (ti_elem j))
     \<or> implements E t u)"

lemma assignable_refl [simp]: "assignable E t t"
  by (simp add: assignable_def)

lemma implements_assignable: "implements E t u \<Longrightarrow> assignable E t u"
  by (simp add: assignable_def)

section \<open>Values in interfaces\<close>

text \<open>What an \<open>interface{}\<close> holds: nothing, or a value with its dynamic type.\<close>

type_synonym goany = "(nat \<times> gval) option"

text \<open>\<open>reflect.TypeOf\<close>: nil for the nil interface; a method call on a nil \<open>reflect.Type\<close> panics.\<close>

definition type_of :: "goany \<Rightarrow> nat option" where "type_of a = map_option fst a"

text \<open>A type of which only the kind and the name matter.\<close>

definition plain_type :: "kind \<Rightarrow> string \<Rightarrow> tinfo" where
  "plain_type k s = \<lparr>ti_kind = k, ti_string = s, ti_name = s, ti_pkg = [], ti_named = True, ti_under = 0, ti_elem = 0, ti_key = 0,
     ti_bidir = False, ti_fields = [], ti_in = [], ti_out = [], ti_variadic = False, ti_methods = []\<rparr>"

end
