(* ===== verification/Bidirectional.thy ===== *)
theory Bidirectional
  imports Session GoTypes
begin

text \<open>
  \<open>bidirectional.go\<close>: a session with services, callbacks and event subscriptions of the client. What
  reflection tells of types is the table of \<open>GoTypes\<close>; the functions of the application are parameters.
  Subscriptions are objects on a heap, since a goroutine keeps the pointer after the map has lost it.
\<close>

section \<open>State\<close>

record bidi_options =
  bo_server_calls :: bool
  bo_callbacks :: bool
  bo_events :: bool
  bo_callback_timeout :: int
  bo_max_concurrent :: int
  bo_event_buffer :: int

definition default_bidi_options :: bidi_options where
  "default_bidi_options = \<lparr>bo_server_calls = True, bo_callbacks = True, bo_events = True, bo_callback_timeout = 30000000000,
     bo_max_concurrent = 10, bo_event_buffer = 100\<rparr>"

text \<open>A callback is the function it was made of, its type and its export.\<close>

record callback_info =
  cb_id :: string
  cb_function :: gval
  cb_type :: nat
  cb_export :: int
  cb_created :: int
  cb_last_used :: int
  cb_use_count :: int

text \<open>\<open>sb_callback\<close>: whether the callback is not nil. \<open>sb_running\<close>: the goroutine of the subscription.\<close>

record subscription =
  sb_id :: string
  sb_event :: string
  sb_callback :: bool
  sb_channel :: "gval chan"
  sb_active :: bool
  sb_created :: int
  sb_running :: bool

text \<open>
  \<open>bd_subs\<close> is the heap of subscriptions and \<open>bd_subscriptions\<close> the map of the session. A service has its
  value and dynamic type. The history \<open>bd_calls\<close> lists the callbacks that subscriptions started, with the event.
\<close>

record 't bidi =
  bd_session :: "'t session"
  bd_services :: "(string, nat \<times> gval) gomap"
  bd_callbacks :: "(string, callback_info) gomap"
  bd_next_callback :: int
  bd_subs :: "subscription list"
  bd_subscriptions :: "(string, nat) gomap"
  bd_options :: bidi_options
  bd_calls :: "(nat \<times> gval) list"

text \<open>
  The world: the types, the dynamic type of a value in an interface (none for nil), the conversion of a
  value to a type, what a call of a function, or of a method of a value, does, and the dynamic type of
  \<open>context.Background()\<close>.
\<close>

datatype call_outcome = Returns "gval list" | CallPanics | CallBlocks

record world =
  wo_types :: types
  wo_type_of :: "gval \<Rightarrow> nat option"
  wo_convert :: "nat \<Rightarrow> gval \<Rightarrow> gval result"
  wo_call :: "gval \<Rightarrow> gval list \<Rightarrow> call_outcome"
  wo_method :: "gval \<Rightarrow> string \<Rightarrow> gval list \<Rightarrow> call_outcome"
  wo_background :: nat

definition new_bidi :: "'t option \<Rightarrow> bidi_options list \<Rightarrow> int \<Rightarrow> 't bidi result" where
  "new_bidi tr options now =
     (case new_session tr [] now of
        Err e \<Rightarrow> Err (EWrap ''failed to create base session: '' e)
      | Ok s \<Rightarrow> Ok \<lparr>bd_session = s, bd_services = [], bd_callbacks = [], bd_next_callback = 0, bd_subs = [], bd_subscriptions = [],
          bd_options = (case options of x # _ \<Rightarrow> x | [] \<Rightarrow> default_bidi_options), bd_calls = []\<rparr>
      | Panic \<Rightarrow> Panic | Hang \<Rightarrow> Hang)"

definition bidi_send :: "'t env \<Rightarrow> message \<Rightarrow> 't bidi \<Rightarrow> unit result \<times> 't bidi" where
  "bidi_send E msg b = (case session_send E CtxLive msg (bd_session b) of (r, s) \<Rightarrow> (r, b\<lparr>bd_session := s\<rparr>))"

definition push_map :: "(string \<times> gval) list \<Rightarrow> message" where
  "push_map kvs = new_push_message (VMap kvs) None"

section \<open>Services\<close>

definition validate_rpc_method :: "types \<Rightarrow> nat \<Rightarrow> goerr option" where
  "validate_rpc_method T f =
     (let i = ty_info T f in
      if length (ti_in i) < 2 then Some (EMsg ''method must have context.Context parameter'')
      else if \<not> implements T (ti_in i ! 1) (ty_context T) then Some (EMsg ''first parameter must be context.Context'')
      else if ti_out i = [] then Some (EMsg ''method must return at least error'')
      else if \<not> implements T (last (ti_out i)) (ty_error T) then Some (EMsg ''last return value must be error'')
      else None)"

definition validate_callback_signature :: "types \<Rightarrow> nat \<Rightarrow> goerr option" where
  "validate_callback_signature T f =
     (if length (ti_in (ty_info T f)) > 5 then Some (EMsg ''callback has too many parameters'')
      else if length (ti_out (ty_info T f)) > 2 then Some (EMsg ''callback has too many return values'')
      else None)"

fun validate_rpc_methods :: "types \<Rightarrow> (string \<times> bool \<times> nat) list \<Rightarrow> goerr option" where
  "validate_rpc_methods T [] = None"
| "validate_rpc_methods T ((n, ex, f) # ms) =
     (if \<not> ex then validate_rpc_methods T ms
      else case validate_rpc_method T f of
        Some e \<Rightarrow> Some (EWrap ''method %s.%s invalid for RPC: '' e) | None \<Rightarrow> validate_rpc_methods T ms)"

definition register_client_service :: "'t env \<Rightarrow> world \<Rightarrow> string \<Rightarrow> gval \<Rightarrow> 't bidi \<Rightarrow> unit result \<times> 't bidi" where
  "register_client_service E W name service b =
     (if \<not> bo_server_calls (bd_options b) then (Err (EMsg ''server calls are disabled''), b)
      else case wo_type_of W service of
        None \<Rightarrow> (Panic, b)
      | Some t \<Rightarrow>
          let T = wo_types W in
          if kind_of T t \<noteq> KPtr \<or> kind_of T (ti_elem (ty_info T t)) \<noteq> KStruct then (Err (EMsg ''service must be a pointer to struct''), b)
          else case validate_rpc_methods T (ti_methods (ty_info T t)) of
            Some e \<Rightarrow> (Err e, b)
          | None \<Rightarrow>
              let b1 = b\<lparr>bd_services := gm_put name (t, service) (bd_services b)\<rparr>
              in case export_value (en_now E) service (bd_session b1) of
                   (Ok i, s) \<Rightarrow> bidi_send E (push_map [(''type'', VStr ''registerService''), (''name'', VStr name), (''exportId'', VInt i)])
                                 (b1\<lparr>bd_session := s\<rparr>)
                 | (Err e, s) \<Rightarrow> (Err (EWrap ''failed to export service: '' e), b1\<lparr>bd_session := s\<rparr>)
                 | (Panic, s) \<Rightarrow> (Panic, b1\<lparr>bd_session := s\<rparr>) | (Hang, s) \<Rightarrow> (Hang, b1\<lparr>bd_session := s\<rparr>))"

section \<open>Callbacks\<close>

definition callback_name :: "int \<Rightarrow> string" where "callback_name n = ''callback_'' @ int_to_dec n"

definition create_callback :: "'t env \<Rightarrow> world \<Rightarrow> gval \<Rightarrow> 't bidi \<Rightarrow> string result \<times> 't bidi" where
  "create_callback E W fn b =
     (if \<not> bo_callbacks (bd_options b) then (Err (EMsg ''callbacks are disabled''), b)
      else case wo_type_of W fn of
        None \<Rightarrow> (Panic, b)
      | Some t \<Rightarrow>
          if kind_of (wo_types W) t \<noteq> KFunc then (Err (EMsg ''callback must be a function''), b)
          else case validate_callback_signature (wo_types W) t of
            Some e \<Rightarrow> (Err (EWrap ''invalid callback signature: '' e), b)
          | None \<Rightarrow>
              let n = add64 (bd_next_callback b) 1; cid = callback_name n; b1 = b\<lparr>bd_next_callback := n\<rparr>
              in case export_value (en_now E) fn (bd_session b1) of
                   (Ok i, s) \<Rightarrow> (Ok cid, b1\<lparr>bd_session := s, bd_callbacks := gm_put cid \<lparr>cb_id = cid, cb_function = fn, cb_type = t,
                      cb_export = i, cb_created = en_now E, cb_last_used = en_now E, cb_use_count = 0\<rparr> (bd_callbacks b1)\<rparr>)
                 | (Err e, s) \<Rightarrow> (Err (EWrap ''failed to export callback: '' e), b1\<lparr>bd_session := s\<rparr>)
                 | (Panic, s) \<Rightarrow> (Panic, b1\<lparr>bd_session := s\<rparr>) | (Hang, s) \<Rightarrow> (Hang, b1\<lparr>bd_session := s\<rparr>))"

text \<open>The values that are passed to the function, with their types. The type of a nil argument panics.\<close>

fun prepare_args :: "world \<Rightarrow> nat list \<Rightarrow> gval list \<Rightarrow> (nat \<times> gval) list result" where
  "prepare_args W (t # ts) (a # as) =
     (case wo_type_of W a of
        None \<Rightarrow> Panic
      | Some u \<Rightarrow>
          bind_outcome (if assignable (wo_types W) u t then Ok (u, a)
                        else if convertible (wo_types W) u t then bind_outcome (wo_convert W t a) (\<lambda>x. Ok (t, x))
                        else Err (EMsg ''argument %d: cannot convert %s to %s''))
            (\<lambda>x. bind_outcome (prepare_args W ts as) (\<lambda>xs. Ok (x # xs))))"
| "prepare_args W _ _ = Ok []"

definition prepare_callback_args :: "world \<Rightarrow> nat \<Rightarrow> gval list \<Rightarrow> (nat \<times> gval) list result" where
  "prepare_callback_args W f args =
     (if length args \<noteq> length (ti_in (ty_info (wo_types W) f)) then Err (EMsg ''expected %d arguments, got %d'')
      else prepare_args W (ti_in (ty_info (wo_types W) f)) args)"

datatype callback_case = CbResult | CbError | CbTimeout

definition pack_results :: "gval list \<Rightarrow> gval" where
  "pack_results rs = (case rs of [] \<Rightarrow> VNil | [r] \<Rightarrow> r | _ \<Rightarrow> VSlice rs)"

text \<open>\<open>late\<close>: the timeout of the callback has passed when the select is entered again.\<close>

definition run_callback :: "nat \<Rightarrow> bool \<Rightarrow> call_outcome \<Rightarrow> gval result" where
  "run_callback pick late outcome =
     (case go_select pick [(\<exists>rs. outcome = Returns rs, CbResult), (outcome = CallPanics, CbError), (late, CbTimeout)] of
        None \<Rightarrow> Hang
      | Some CbResult \<Rightarrow> Ok (pack_results (case outcome of Returns rs \<Rightarrow> rs | _ \<Rightarrow> []))
      | Some CbError \<Rightarrow> Err (EMsg ''callback panicked: %v'')
      | Some CbTimeout \<Rightarrow> Err (EMsg ''callback timeout''))"

definition call_callback :: "world \<Rightarrow> nat \<Rightarrow> bool \<Rightarrow> int \<Rightarrow> string \<Rightarrow> gval list \<Rightarrow> 't bidi \<Rightarrow> gval result \<times> 't bidi" where
  "call_callback W pick late now cid args b =
     (case gm_get (bd_callbacks b) cid of
        None \<Rightarrow> (Err (EMsg ''callback %s not found''), b)
      | Some c \<Rightarrow>
          let b1 = b\<lparr>bd_callbacks := gm_put cid (c\<lparr>cb_last_used := now, cb_use_count := add64 (cb_use_count c) 1\<rparr>) (bd_callbacks b)\<rparr>
          in (case prepare_callback_args W (cb_type c) args of
                Ok vs \<Rightarrow> run_callback pick late (wo_call W (cb_function c) (map snd vs))
              | Err e \<Rightarrow> Err (EWrap ''failed to prepare callback arguments: '' e)
              | Panic \<Rightarrow> Panic | Hang \<Rightarrow> Hang, b1))"

section \<open>Events\<close>

definition update_sub :: "nat \<Rightarrow> (subscription \<Rightarrow> subscription) \<Rightarrow> 't bidi \<Rightarrow> 't bidi" where
  "update_sub i f b = b\<lparr>bd_subs := (bd_subs b)[i := f (bd_subs b ! i)]\<rparr>"

text \<open>The first entry, in the order of the map's iteration, whose subscription has the id.\<close>

definition find_subscription :: "string \<Rightarrow> 't bidi \<Rightarrow> (string \<times> nat) option" where
  "find_subscription sid b = find (\<lambda>(e, i). sb_id (bd_subs b ! i) = sid) (bd_subscriptions b)"

definition unsubscribe :: "'t env \<Rightarrow> string \<Rightarrow> 't bidi \<Rightarrow> unit result \<times> 't bidi" where
  "unsubscribe E sid b =
     (case find_subscription sid b of
        None \<Rightarrow> (Err (EMsg ''subscription %s not found''), b)
      | Some (e, i) \<Rightarrow>
          if ch_closed (sb_channel (bd_subs b ! i)) then (Panic, update_sub i (\<lambda>s. s\<lparr>sb_active := False\<rparr>) b)
          else bidi_send E (push_map [(''type'', VStr ''unsubscribe''), (''subscriptionId'', VStr sid)])
                 ((update_sub i (\<lambda>s. s\<lparr>sb_active := False, sb_channel := (sb_channel s)\<lparr>ch_closed := True\<rparr>\<rparr>) b)
                    \<lparr>bd_subscriptions := gm_del e (bd_subscriptions b)\<rparr>))"

definition subscription_name :: "int \<Rightarrow> 't bidi \<Rightarrow> string" where
  "subscription_name now b = ''sub_'' @ int_to_dec now @ ''_'' @ int_to_dec (int (length (bd_subscriptions b)))"

definition subscribe :: "'t env \<Rightarrow> string \<Rightarrow> bool \<Rightarrow> 't bidi \<Rightarrow> string result \<times> 't bidi" where
  "subscribe E event callback b =
     (if \<not> bo_events (bd_options b) then (Err (EMsg ''events are disabled''), b)
      else if bo_event_buffer (bd_options b) < 0 then (Panic, b)
      else
        let sid = subscription_name (en_now E) b;
            sub = \<lparr>sb_id = sid, sb_event = event, sb_callback = callback, sb_channel = make_chan (nat (bo_event_buffer (bd_options b))),
                   sb_active = True, sb_created = en_now E, sb_running = True\<rparr>;
            b1 = b\<lparr>bd_subs := bd_subs b @ [sub], bd_subscriptions := gm_put event (length (bd_subs b)) (bd_subscriptions b)\<rparr>
        in case bidi_send E (push_map [(''type'', VStr ''subscribe''), (''eventId'', VStr event), (''subscriptionId'', VStr sid)]) b1 of
             (Ok _, b2) \<Rightarrow> (Ok sid, b2)
           | (Err e, b2) \<Rightarrow> (case unsubscribe E sid b2 of
                 (Panic, b3) \<Rightarrow> (Panic, b3) | (Hang, b3) \<Rightarrow> (Hang, b3)
               | (_, b3) \<Rightarrow> (Err (EWrap ''failed to send subscription: '' e), b3))
           | (Panic, b2) \<Rightarrow> (Panic, b2) | (Hang, b2) \<Rightarrow> (Hang, b2))"

definition emit_event :: "'t env \<Rightarrow> string \<Rightarrow> gval \<Rightarrow> 't bidi \<Rightarrow> unit result \<times> 't bidi" where
  "emit_event E event data b =
     (if \<not> bo_events (bd_options b) then (Err (EMsg ''events are disabled''), b)
      else bidi_send E (push_map [(''type'', VStr ''event''), (''eventId'', VStr event), (''data'', data)]) b)"

text \<open>
  An event: the lookup under the lock, then the hand-over without it. A full channel drops the event.
\<close>

definition event_target :: "string \<Rightarrow> 't bidi \<Rightarrow> nat option" where
  "event_target event b =
     (case gm_get (bd_subscriptions b) event of Some i \<Rightarrow> if sb_active (bd_subs b ! i) then Some i else None | None \<Rightarrow> None)"

definition event_put :: "nat \<Rightarrow> gval \<Rightarrow> 't bidi \<Rightarrow> unit result \<times> 't bidi" where
  "event_put i data b =
     (if \<not> ch_can_send (sb_channel (bd_subs b ! i)) then (Ok (), b)
      else case ch_send data (sb_channel (bd_subs b ! i)) of
        Ok ch \<Rightarrow> (Ok (), update_sub i (\<lambda>s. s\<lparr>sb_channel := ch\<rparr>) b)
      | x \<Rightarrow> (bind_outcome x (\<lambda>_. Ok ()), b))"

definition map_field :: "(string \<times> gval) list \<Rightarrow> string \<Rightarrow> gval" where
  "map_field m k = (case map_of m k of Some v \<Rightarrow> v | None \<Rightarrow> VNil)"

definition string_field :: "(string \<times> gval) list \<Rightarrow> string \<Rightarrow> string" where
  "string_field m k = (case map_field m k of VStr s \<Rightarrow> s | _ \<Rightarrow> [])"

definition slice_field :: "(string \<times> gval) list \<Rightarrow> string \<Rightarrow> gval list" where
  "slice_field m k = (case map_field m k of VSlice xs \<Rightarrow> xs | _ \<Rightarrow> [])"

definition id_field :: "(string \<times> gval) list \<Rightarrow> string \<Rightarrow> int" where
  "id_field m k = (case map_field m k of VFloat x \<Rightarrow> f64_to_int32 x | _ \<Rightarrow> 0)"

definition handle_event :: "(string \<times> gval) list \<Rightarrow> 't bidi \<Rightarrow> unit result \<times> 't bidi" where
  "handle_event expr b =
     (case event_target (string_field expr ''eventId'') b of None \<Rightarrow> (Ok (), b) | Some i \<Rightarrow> event_put i (map_field expr ''data'') b)"

text \<open>A round of the goroutine of a subscription.\<close>

definition process_subscription :: "nat \<Rightarrow> 't bidi \<Rightarrow> 't bidi" where
  "process_subscription i b =
     (let s = bd_subs b ! i in
      if i \<ge> length (bd_subs b) \<or> \<not> sb_running s \<or> \<not> ch_can_recv (sb_channel s) then b
      else case ch_recv (sb_channel s) of
        (None, ch) \<Rightarrow> update_sub i (\<lambda>s. s\<lparr>sb_running := False\<rparr>) b
      | (Some d, ch) \<Rightarrow> (update_sub i (\<lambda>s. s\<lparr>sb_channel := ch\<rparr>) b)
          \<lparr>bd_calls := (if sb_active s \<and> sb_callback s then bd_calls b @ [(i, d)] else bd_calls b)\<rparr>)"

section \<open>Calls from the server\<close>

definition send_client_call_result :: "'t env \<Rightarrow> int \<Rightarrow> gval \<Rightarrow> 't bidi \<Rightarrow> unit result \<times> 't bidi" where
  "send_client_call_result E i v b =
     (case send_ignoring E (new_resolve_message i v) (bd_session b) of (r, s) \<Rightarrow> (r, b\<lparr>bd_session := s\<rparr>))"

definition send_client_call_error :: "'t env \<Rightarrow> int \<Rightarrow> goerr \<Rightarrow> 't bidi \<Rightarrow> unit result \<times> 't bidi" where
  "send_client_call_error E i e b =
     (case send_ignoring E (new_reject_message i (VStr (error_text e))) (bd_session b) of (r, s) \<Rightarrow> (r, b\<lparr>bd_session := s\<rparr>))"

text \<open>A value that is a non-nil \<open>error\<close>.\<close>

definition as_error :: "gval \<Rightarrow> goerr option" where
  "as_error v = (case v of VErr m _ \<Rightarrow> Some (EMsg m) | VRpcErr r \<Rightarrow> Some (ERpc r) | _ \<Rightarrow> None)"

text \<open>
  What \<open>reflect.Value.Call\<close> accepts: every place holds a value of a type that can be assigned. A place that
  is empty or holds nil is the zero \<open>Value\<close>, which panics.
\<close>

definition call_accepts :: "types \<Rightarrow> nat list \<Rightarrow> bool \<Rightarrow> nat option list \<Rightarrow> bool" where
  "call_accepts T ins variadic us \<longleftrightarrow>
     list_all2 (\<lambda>u t. case u of None \<Rightarrow> False | Some u \<Rightarrow> assignable T u t) us
       (if variadic \<and> ins \<noteq> [] then butlast ins @ [ti_elem (ty_info T (last ins))] else ins)"

definition method_of :: "types \<Rightarrow> nat \<Rightarrow> string \<Rightarrow> nat option" where
  "method_of T t name = map_of (map (\<lambda>(n, _, f). (n, f)) (filter (\<lambda>(_, ex, _). ex) (ti_methods (ty_info T t)))) name"

text \<open>The method value has no receiver; its first parameter is taken for the context.\<close>

definition execute_client_method :: "world \<Rightarrow> nat \<times> gval \<Rightarrow> string \<Rightarrow> gval list \<Rightarrow> gval result" where
  "execute_client_method W service name args =
     (case method_of (wo_types W) (fst service) name of
        None \<Rightarrow> Err (EMsg ''method %s not found'')
      | Some f \<Rightarrow>
          let i = ty_info (wo_types W) f; ins = drop 1 (ti_in i) in
          if ins = [] then Panic
          else if length args > length ins - 1 then Err (EMsg ''too many arguments'')
          else if \<not> call_accepts (wo_types W) ins (ti_variadic i) (Some (wo_background W) # map (wo_type_of W) args) then Panic
          else case wo_method W (snd service) name args of
            CallPanics \<Rightarrow> Panic | CallBlocks \<Rightarrow> Hang
          | Returns [r] \<Rightarrow> (case as_error r of Some e \<Rightarrow> Err e | None \<Rightarrow> Ok VNil)
          | Returns [r, r'] \<Rightarrow> (case as_error r' of Some e \<Rightarrow> Err e | None \<Rightarrow> Ok r)
          | Returns _ \<Rightarrow> Err (EMsg ''unexpected number of return values''))"

text \<open>What both handlers do with a result.\<close>

definition answer_call :: "'t env \<Rightarrow> int \<Rightarrow> gval result \<Rightarrow> 't bidi \<Rightarrow> unit result \<times> 't bidi" where
  "answer_call E i r b =
     (case r of Ok v \<Rightarrow> send_client_call_result E i v b | Err e \<Rightarrow> send_client_call_error E i e b | Panic \<Rightarrow> (Panic, b) | Hang \<Rightarrow> (Hang, b))"

definition handle_client_call :: "'t env \<Rightarrow> world \<Rightarrow> (string \<times> gval) list \<Rightarrow> 't bidi \<Rightarrow> unit result \<times> 't bidi" where
  "handle_client_call E W expr b =
     (case gm_get (bd_services b) (string_field expr ''service'') of
        None \<Rightarrow> send_client_call_error E (id_field expr ''exportId'') (EMsg ''service %s not found'') b
      | Some service \<Rightarrow>
          answer_call E (id_field expr ''exportId'') (execute_client_method W service (string_field expr ''method'') (slice_field expr ''args'')) b)"

definition handle_callback_invoke :: "'t env \<Rightarrow> world \<Rightarrow> nat \<Rightarrow> bool \<Rightarrow> (string \<times> gval) list \<Rightarrow> 't bidi \<Rightarrow> unit result \<times> 't bidi" where
  "handle_callback_invoke E W pick late expr b =
     (case call_callback W pick late (en_now E) (string_field expr ''callbackId'') (slice_field expr ''args'') b of
        (r, b1) \<Rightarrow> answer_call E (id_field expr ''exportId'') r b1)"

text \<open>The message processor that the constructor installs, and that nothing calls.\<close>

definition process_bidirectional_message :: "'t env \<Rightarrow> world \<Rightarrow> nat \<Rightarrow> bool \<Rightarrow> message \<Rightarrow> 't bidi \<Rightarrow> unit result \<times> 't bidi" where
  "process_bidirectional_message E W pick late msg b =
     (case msg of
        _ # VMap expr # _ \<Rightarrow>
          let ty = map_of expr ''type'' in
          if ty = Some (VStr ''clientCall'') then handle_client_call E W expr b
          else if ty = Some (VStr ''callbackInvoke'') then handle_callback_invoke E W pick late expr b
          else if ty = Some (VStr ''event'') then handle_event expr b
          else (Ok (), b)
      | _ \<Rightarrow> (Ok (), b))"

section \<open>Inspection\<close>

definition get_client_services :: "'t bidi \<Rightarrow> string list" where "get_client_services b = map fst (bd_services b)"
definition get_active_callbacks :: "'t bidi \<Rightarrow> string list" where "get_active_callbacks b = map fst (bd_callbacks b)"

definition get_active_subscriptions :: "'t bidi \<Rightarrow> string list" where
  "get_active_subscriptions b = map sb_id (filter sb_active (map (\<lambda>(e, i). bd_subs b ! i) (bd_subscriptions b)))"

section \<open>Arguments\<close>

lemma bind_outcome_Ok: "bind_outcome r f = Ok y \<longleftrightarrow> (\<exists>x. r = Ok x \<and> f x = Ok y)"
  by (cases r) simp_all

text \<open>The arguments that reach a callback have the types of its parameters.\<close>

lemma prepare_args_types:
  "prepare_args W ts as = Ok vs \<Longrightarrow> length as = length ts \<Longrightarrow> list_all2 (\<lambda>v t. assignable (wo_types W) (fst v) t) vs ts"
proof (induction W ts as arbitrary: vs rule: prepare_args.induct)
  case (1 W t ts a as)
  from 1(2) obtain x xs where "vs = x # xs" "prepare_args W ts as = Ok xs" "assignable (wo_types W) (fst x) t"
    by (auto simp: bind_outcome_Ok split: option.splits if_splits)
  with 1 show ?case by (auto split: option.splits)
qed simp_all

theorem callback_args_typed:
  assumes "prepare_callback_args W f args = Ok vs"
  shows "list_all2 (\<lambda>v t. assignable (wo_types W) (fst v) t) vs (ti_in (ty_info (wo_types W) f))"
  using assms by (auto simp: prepare_callback_args_def intro: prepare_args_types split: if_splits)

lemma float_not_int:
  assumes "kind_of T u = KFloat64" and "int_kind (kind_of T t)"
  shows "\<not> assignable T u t"
  using assms by (auto simp: assignable_def channel_assignable_def implements_def int_kind_def)

text \<open>
  A number for an integer parameter crashes the client. JSON numbers arrive as \<open>float64\<close>, and the
  arguments of a server's call are handed to the method without conversion: whatever the service, if an
  argument is a number and the parameter at its place is of an integer type, the handler panics outside
  any recover.
\<close>

theorem integer_parameter_panics:
  assumes "gm_get (bd_services b) service = Some (t, v)" and "method_of (wo_types W) t name = Some f"
    and "ti_in (ty_info (wo_types W) f) = r # c # ps" and "\<not> ti_variadic (ty_info (wo_types W) f)"
    and "length args = length ps" and "k < length ps" and "args ! k = VFloat x"
    and "wo_type_of W (VFloat x) = Some u" and "kind_of (wo_types W) u = KFloat64" and "int_kind (kind_of (wo_types W) (ps ! k))"
  shows "process_bidirectional_message E W pick late
     [VStr ''push'', VMap [(''type'', VStr ''clientCall''), (''service'', VStr service), (''method'', VStr name), (''args'', VSlice args)]] b
       = (Panic, b)"
proof -
  have "\<not> call_accepts (wo_types W) (c # ps) False (Some (wo_background W) # map (wo_type_of W) args)"
    using assms(5-10) float_not_int [OF assms(9,10)]
    by (auto simp: call_accepts_def list_all2_conv_all_nth)
  then have "execute_client_method W (t, v) name args = Panic"
    using assms(2-5) by (simp add: execute_client_method_def)
  then show ?thesis
    using assms(1)
    by (simp add: process_bidirectional_message_def handle_client_call_def answer_call_def string_field_def slice_field_def map_field_def)
qed

definition sample_info :: "kind \<Rightarrow> nat \<Rightarrow> tinfo" where
  "sample_info k t = (plain_type k [])\<lparr>ti_under := t\<rparr>"

text \<open>A service \<open>*T\<close> with the method \<open>func (*T) SetLevel(context.Context, int) error\<close>.\<close>

definition sample_world :: world where
  "sample_world = \<lparr>wo_types = \<lparr>ty_info = (\<lambda>t.
       if t = 1 then (sample_info KInterface 1)\<lparr>ti_methods := [(''Error'', True, 8)]\<rparr>
       else if t = 2 then (sample_info KInterface 2)\<lparr>ti_methods := [(''Done'', True, 9)]\<rparr>
       else if t = 3 then sample_info KInt 3
       else if t = 4 then sample_info KFloat64 4
       else if t = 5 then (sample_info KPtr 5)\<lparr>ti_named := False, ti_elem := 6, ti_methods := [(''SetLevel'', True, 7)]\<rparr>
       else if t = 6 then sample_info KStruct 6
       else if t = 7 then (sample_info KFunc 7)\<lparr>ti_named := False, ti_in := [5, 2, 3], ti_out := [1]\<rparr>
       else if t = 8 then (sample_info KFunc 8)\<lparr>ti_named := False, ti_out := [10]\<rparr>
       else if t = 9 then (sample_info KFunc 9)\<lparr>ti_named := False\<rparr>
       else if t = 10 then sample_info KString 10
       else sample_info KInterface t), ty_any = 0, ty_error = 1, ty_context = 2\<rparr>,
     wo_type_of = (\<lambda>v. case v of VFloat _ \<Rightarrow> Some 4 | VPtr _ \<Rightarrow> Some 5 | _ \<Rightarrow> None), wo_convert = (\<lambda>_ v. Ok v),
     wo_call = (\<lambda>_ _. CallPanics), wo_method = (\<lambda>_ _ _. Returns [VNil]), wo_background = 2\<rparr>"

text \<open>The service passes the checks of the registration.\<close>

theorem integer_parameter_panics_witness:
  "validate_rpc_methods (wo_types sample_world) (ti_methods (ty_info (wo_types sample_world) 5)) = None
   \<and> process_bidirectional_message sample_env sample_world 0 False
     [VStr ''push'', VMap [(''type'', VStr ''clientCall''), (''service'', VStr ''level''), (''method'', VStr ''SetLevel''), (''args'', VSlice [VFloat 3])]]
     \<lparr>bd_session = sample_session, bd_services = [(''level'', 5, VPtr (VStruct []))], bd_callbacks = [], bd_next_callback = 0, bd_subs = [],
        bd_subscriptions = [], bd_options = default_bidi_options, bd_calls = []\<rparr>
   = (Panic, \<lparr>bd_session = sample_session, bd_services = [(''level'', 5, VPtr (VStruct []))], bd_callbacks = [], bd_next_callback = 0,
        bd_subs = [], bd_subscriptions = [], bd_options = default_bidi_options, bd_calls = []\<rparr>)"
  (is "?ok \<and> process_bidirectional_message _ _ _ _ _ ?b = _")
proof -
  have ok: ?ok by code_simp
  have m: "method_of (wo_types sample_world) 5 ''SetLevel'' = Some 7"
    "ti_in (ty_info (wo_types sample_world) 7) = 5 # 2 # [3]" "\<not> ti_variadic (ty_info (wo_types sample_world) 7)"
    "wo_type_of sample_world (VFloat 3) = Some 4" "kind_of (wo_types sample_world) 4 = KFloat64"
    "int_kind (kind_of (wo_types sample_world) ([3] ! 0))"
    by code_simp+
  have s: "gm_get (bd_services ?b) ''level'' = Some (5, VPtr (VStruct []))" by simp
  have "length [VFloat 3] = length [3::nat]" "0 < length [3::nat]" "[VFloat 3] ! 0 = VFloat 3" by simp_all
  from integer_parameter_panics [OF s m(1-3) this m(4-6)] ok show ?thesis by blast
qed

section \<open>Subscriptions\<close>

datatype 't bidi_event =
    BdRegister "'t env" world string gval
  | BdCallback "'t env" world gval
  | BdCall world nat bool int string "gval list"
  | BdSubscribe "'t env" string bool
  | BdUnsubscribe "'t env" string
  | BdEmit "'t env" string gval
  | BdPut nat gval
  | BdProcess nat
  | BdMessage "'t env" world nat bool message
  | BdSession "'t env" session_event

text \<open>\<open>BdPut\<close>: the second half of \<open>handleEvent\<close>, at any time after the first.\<close>

primrec bidi_step :: "'t bidi_event \<Rightarrow> 't bidi \<Rightarrow> 't bidi" where
  "bidi_step (BdRegister E W name v) b = snd (register_client_service E W name v b)"
| "bidi_step (BdCallback E W fn) b = snd (create_callback E W fn b)"
| "bidi_step (BdCall W pick late now cid args) b = snd (call_callback W pick late now cid args b)"
| "bidi_step (BdSubscribe E e c) b = snd (subscribe E e c b)"
| "bidi_step (BdUnsubscribe E sid) b = snd (unsubscribe E sid b)"
| "bidi_step (BdEmit E e d) b = snd (emit_event E e d b)"
| "bidi_step (BdPut i d) b = (if i < length (bd_subs b) then snd (event_put i d b) else b)"
| "bidi_step (BdProcess i) b = process_subscription i b"
| "bidi_step (BdMessage E W pick late msg) b = snd (process_bidirectional_message E W pick late msg b)"
| "bidi_step (BdSession E ev) b = b\<lparr>bd_session := session_step (E, ev) (bd_session b)\<rparr>"

definition bidi_run :: "'t bidi_event list \<Rightarrow> 't bidi \<Rightarrow> 't bidi" where
  "bidi_run evs b = fold bidi_step evs b"

text \<open>What is not about events leaves the subscriptions as they are.\<close>

definition events_part :: "'t bidi \<Rightarrow> subscription list \<times> (string, nat) gomap" where
  "events_part b = (bd_subs b, bd_subscriptions b)"

lemma events_part_update [simp]:
  "events_part (b\<lparr>bd_session := s\<rparr>) = events_part b" "events_part (b\<lparr>bd_services := sv\<rparr>) = events_part b"
  "events_part (b\<lparr>bd_callbacks := cs\<rparr>) = events_part b" "events_part (b\<lparr>bd_next_callback := n\<rparr>) = events_part b"
  "events_part (b\<lparr>bd_calls := c\<rparr>) = events_part b"
  by (simp_all add: events_part_def)

lemma events_part_send [simp]: "events_part (snd (bidi_send E msg b)) = events_part b"
  by (simp add: bidi_send_def split: prod.split)

lemma events_part_register: "events_part (snd (register_client_service E W name v b)) = events_part b"
  by (simp add: register_client_service_def Let_def split: option.split outcome.split prod.split)

lemma events_part_create: "events_part (snd (create_callback E W fn b)) = events_part b"
  by (simp add: create_callback_def Let_def split: option.split outcome.split prod.split)

lemma events_part_call: "events_part (snd (call_callback W pick late now cid args b)) = events_part b"
  by (simp add: call_callback_def Let_def split: option.split)

lemma events_part_emit: "events_part (snd (emit_event E e d b)) = events_part b"
  by (simp add: emit_event_def)

lemma events_part_error [simp]: "events_part (snd (send_client_call_error E i e b)) = events_part b"
  by (simp add: send_client_call_error_def split: prod.split)

lemma events_part_answer [simp]: "events_part (snd (answer_call E i r b)) = events_part b"
  by (simp add: answer_call_def send_client_call_result_def split: outcome.split prod.split)

lemma events_part_message:
  "events_part (snd (process_bidirectional_message E W pick late msg b)) \<in>
     {events_part b} \<union> {events_part (snd (event_put i d b)) | i d. \<exists>e. event_target e b = Some i}"
proof -
  have "events_part (snd (handle_client_call E W expr b)) = events_part b" for expr
    by (simp add: handle_client_call_def split: option.split)
  moreover have "events_part (snd (handle_callback_invoke E W pick late expr b)) = events_part b" for expr
    using events_part_call [of W pick late "en_now E" "string_field expr ''callbackId''" "slice_field expr ''args''" b]
    by (simp add: handle_callback_invoke_def case_prod_beta)
  moreover have "events_part (snd (handle_event expr b)) \<in>
      {events_part b} \<union> {events_part (snd (event_put i d b)) | i d. \<exists>e. event_target e b = Some i}" for expr
    by (auto simp: handle_event_def split: option.split)
  ultimately show ?thesis
    by (auto simp: process_bidirectional_message_def Let_def split: list.split gval.split)
qed

text \<open>A subscription that is open: it listens, and nothing has ended it.\<close>

definition listening :: "subscription \<Rightarrow> bool" where
  "listening s \<longleftrightarrow> sb_active s \<and> \<not> ch_closed (sb_channel s) \<and> sb_running s"

definition bidi_wf :: "subscription list \<times> (string, nat) gomap \<Rightarrow> bool" where
  "bidi_wf p \<longleftrightarrow> gm_wf (snd p) \<and> (\<forall>e j. (e, j) \<in> set (snd p) \<longrightarrow> j < length (fst p) \<and> sb_event (fst p ! j) = e \<and> listening (fst p ! j))"

definition orphan :: "nat \<Rightarrow> subscription list \<times> (string, nat) gomap \<Rightarrow> bool" where
  "orphan i p \<longleftrightarrow> i < length (fst p) \<and> listening (fst p ! i) \<and> (\<forall>e. (e, i) \<notin> set (snd p))"

lemma bidi_wf_entry:
  "bidi_wf p \<Longrightarrow> (e, j) \<in> set (snd p) \<Longrightarrow> j < length (fst p) \<and> sb_event (fst p ! j) = e \<and> listening (fst p ! j)"
  by (simp add: bidi_wf_def)

lemma bidi_wf_inj: "bidi_wf p \<Longrightarrow> (e, j) \<in> set (snd p) \<Longrightarrow> (e', j) \<in> set (snd p) \<Longrightarrow> e = e'"
  using bidi_wf_entry by metis

lemma events_part_sel: "fst (events_part b) = bd_subs b" "snd (events_part b) = bd_subscriptions b"
  by (simp_all add: events_part_def)

text \<open>A change of one subscription that does not end it.\<close>

definition touched :: "nat \<Rightarrow> 't bidi \<Rightarrow> 't bidi \<Rightarrow> bool" where
  "touched i b b' \<longleftrightarrow> (\<exists>s'. events_part b' = ((bd_subs b)[i := s'], bd_subscriptions b)
     \<and> sb_event s' = sb_event (bd_subs b ! i) \<and> (listening (bd_subs b ! i) \<longrightarrow> listening s'))"

lemma touched_refl: "events_part b' = events_part b \<Longrightarrow> touched i b b'"
  unfolding touched_def events_part_def by (rule exI [of _ "bd_subs b ! i"]) simp

lemma touched_put: "touched i b (snd (event_put i d b))"
proof (cases "is_ok (fst (event_put i d b)) \<and> ch_can_send (sb_channel (bd_subs b ! i))")
  case True
  let ?s = "(bd_subs b ! i)\<lparr>sb_channel := (sb_channel (bd_subs b ! i))\<lparr>ch_buf := ch_buf (sb_channel (bd_subs b ! i)) @ [d]\<rparr>\<rparr>"
  have "events_part (snd (event_put i d b)) = ((bd_subs b)[i := ?s], bd_subscriptions b)"
    using True by (auto simp: event_put_def ch_send_def events_part_def update_sub_def split: if_splits)
  then show ?thesis unfolding touched_def by (intro exI [of _ ?s]) (simp add: listening_def)
next
  case False
  then have "events_part (snd (event_put i d b)) = events_part b"
    by (auto simp: event_put_def ch_send_def split: if_splits)
  then show ?thesis by (rule touched_refl)
qed

lemma touched_process: "touched i b (process_subscription i b)"
proof (cases "i < length (bd_subs b) \<and> sb_running (bd_subs b ! i) \<and> ch_can_recv (sb_channel (bd_subs b ! i))")
  case True
  show ?thesis
  proof (cases "ch_buf (sb_channel (bd_subs b ! i))")
    case Nil
    let ?s = "(bd_subs b ! i)\<lparr>sb_running := False\<rparr>"
    have "events_part (process_subscription i b) = ((bd_subs b)[i := ?s], bd_subscriptions b)"
      using True Nil by (simp add: process_subscription_def ch_recv_def events_part_def update_sub_def Let_def)
    moreover have "\<not> listening (bd_subs b ! i)" using True Nil by (simp add: listening_def ch_can_recv_def)
    ultimately show ?thesis unfolding touched_def by (intro exI [of _ ?s]) simp
  next
    case (Cons d ds)
    let ?s = "(bd_subs b ! i)\<lparr>sb_channel := (sb_channel (bd_subs b ! i))\<lparr>ch_buf := ds\<rparr>\<rparr>"
    have "events_part (process_subscription i b) = ((bd_subs b)[i := ?s], bd_subscriptions b)"
      using True Cons by (simp add: process_subscription_def ch_recv_def events_part_def update_sub_def Let_def)
    then show ?thesis unfolding touched_def by (intro exI [of _ ?s]) (simp add: listening_def)
  qed
next
  case False
  then have "process_subscription i b = b" by (auto simp: process_subscription_def Let_def)
  then show ?thesis by (simp add: touched_refl)
qed

lemma touched_wf: 
  assumes "bidi_wf (events_part b)" and "touched i b b'"
  shows "bidi_wf (events_part b')"
proof -
  obtain s' where s': "events_part b' = ((bd_subs b)[i := s'], bd_subscriptions b)" "sb_event s' = sb_event (bd_subs b ! i)"
    "listening (bd_subs b ! i) \<longrightarrow> listening s'" using assms(2) by (auto simp: touched_def)
  have "j < length (bd_subs b) \<and> sb_event ((bd_subs b)[i := s'] ! j) = e \<and> listening ((bd_subs b)[i := s'] ! j)"
    if "(e, j) \<in> set (bd_subscriptions b)" for e j
    using bidi_wf_entry [OF assms(1), of e j] that s'(2,3) by (cases "i = j") (simp_all add: events_part_def)
  with s'(1) assms(1) show ?thesis by (simp add: bidi_wf_def events_part_def)
qed

lemma touched_orphan: "orphan k (events_part b) \<Longrightarrow> touched i b b' \<Longrightarrow> orphan k (events_part b')"
  by (cases "i = k") (auto simp: touched_def orphan_def events_part_def)

text \<open>What the steps do to the subscriptions.\<close>

lemma unsubscribe_part:
  assumes "bidi_wf (events_part b)"
  obtains "events_part (snd (unsubscribe E sid b)) = events_part b" "find_subscription sid b = None"
  | e j where "find_subscription sid b = Some (e, j)" "(e, j) \<in> set (bd_subscriptions b)"
      "events_part (snd (unsubscribe E sid b)) = ((bd_subs b)[j := (bd_subs b ! j)\<lparr>sb_active := False,
         sb_channel := (sb_channel (bd_subs b ! j))\<lparr>ch_closed := True\<rparr>\<rparr>], gm_del e (bd_subscriptions b))"
proof (cases "find_subscription sid b")
  case None
  with that(1) show thesis by (simp add: unsubscribe_def)
next
  case (Some ej)
  obtain e j where ej: "ej = (e, j)" by force
  with Some have "(e, j) \<in> set (bd_subscriptions b)" by (auto simp: find_subscription_def find_Some_iff in_set_conv_nth)
  moreover from this assms have "\<not> ch_closed (sb_channel (bd_subs b ! j))" by (auto simp: bidi_wf_def events_part_def listening_def)
  then have "events_part (snd (unsubscribe E sid b)) = ((bd_subs b)[j := (bd_subs b ! j)\<lparr>sb_active := False,
         sb_channel := (sb_channel (bd_subs b ! j))\<lparr>ch_closed := True\<rparr>\<rparr>], gm_del e (bd_subscriptions b))"
    using Some ej by (simp add: unsubscribe_def) (simp add: events_part_def update_sub_def)
  ultimately show thesis using that(2) Some ej by blast
qed

lemma gm_del_entries: "(e, j) \<in> set (gm_del k m) \<longleftrightarrow> (e, j) \<in> set m \<and> e \<noteq> k"
  by (auto simp: AList.delete_eq)

lemma gm_put_entries: 
  assumes "gm_wf m"
  shows "(e, j) \<in> set (gm_put k v m) \<longleftrightarrow> (if e = k then j = v else (e, j) \<in> set m)"
proof -
  have d: "gm_wf (gm_put k v m)" using assms by (rule gm.wf_put)
  have "(e, j) \<in> set (gm_put k v m) \<longleftrightarrow> gm_get (gm_put k v m) e = Some j"
    using map_of_eq_Some_iff [OF d [unfolded gm_wf_def]] by blast
  also have "\<dots> \<longleftrightarrow> (if e = k then j = v else gm_get m e = Some j)" by (auto simp: update_conv')
  also have "gm_get m e = Some j \<longleftrightarrow> (e, j) \<in> set m" using assms by (simp add: gm_wf_def)
  finally show ?thesis by simp
qed

lemma unsubscribe_wf: 
  assumes "bidi_wf (events_part b)"
  shows "bidi_wf (events_part (snd (unsubscribe E sid b)))"
proof (rule unsubscribe_part [OF assms, of E sid])
  fix e j assume ej: "(e, j) \<in> set (bd_subscriptions b)" 
    "events_part (snd (unsubscribe E sid b)) = ((bd_subs b)[j := (bd_subs b ! j)\<lparr>sb_active := False,
         sb_channel := (sb_channel (bd_subs b ! j))\<lparr>ch_closed := True\<rparr>\<rparr>], gm_del e (bd_subscriptions b))"
  let ?s = "(bd_subs b ! j)\<lparr>sb_active := False, sb_channel := (sb_channel (bd_subs b ! j))\<lparr>ch_closed := True\<rparr>\<rparr>"
  have "j' < length ((bd_subs b)[j := ?s]) \<and> sb_event ((bd_subs b)[j := ?s] ! j') = e' \<and> listening ((bd_subs b)[j := ?s] ! j')"
    if "(e', j') \<in> set (gm_del e (bd_subscriptions b))" for e' j'
  proof -
    from that have k: "(e', j') \<in> set (bd_subscriptions b)" "e' \<noteq> e" by (simp_all add: gm_del_entries)
    then have "j \<noteq> j'" using bidi_wf_inj [OF assms, of e j e'] ej(1) by (auto simp: events_part_def)
    then show ?thesis using bidi_wf_entry [OF assms, of e' j'] k(1) by (simp add: events_part_def)
  qed
  moreover have "gm_wf (gm_del e (bd_subscriptions b))" using assms by (simp add: bidi_wf_def events_part_def)
  ultimately show ?thesis unfolding ej(2) bidi_wf_def by simp
qed (use assms in simp)

lemma unsubscribe_orphan:
  assumes "bidi_wf (events_part b)" and "orphan k (events_part b)"
  shows "orphan k (events_part (snd (unsubscribe E sid b)))"
proof (rule unsubscribe_part [OF assms(1), of E sid])
  fix e j assume ej: "(e, j) \<in> set (bd_subscriptions b)"
    "events_part (snd (unsubscribe E sid b)) = ((bd_subs b)[j := (bd_subs b ! j)\<lparr>sb_active := False,
         sb_channel := (sb_channel (bd_subs b ! j))\<lparr>ch_closed := True\<rparr>\<rparr>], gm_del e (bd_subscriptions b))"
  from ej(1) assms(2) have "k \<noteq> j" by (auto simp: orphan_def events_part_def)
  with ej(2) assms(2) show ?thesis by (auto simp: orphan_def events_part_def gm_del_entries)
qed (use assms in simp)

text \<open>The new subscription is in place when its message is sent.\<close>

definition add_subscription :: "subscription \<Rightarrow> subscription list \<times> (string, nat) gomap \<Rightarrow> subscription list \<times> (string, nat) gomap" where
  "add_subscription s p = (fst p @ [s], gm_put (sb_event s) (length (fst p)) (snd p))"

lemma add_subscription_entries:
  assumes "bidi_wf p"
  shows "(e, j) \<in> set (snd (add_subscription s p)) \<longleftrightarrow> (if e = sb_event s then j = length (fst p) else (e, j) \<in> set (snd p))"
  using assms by (simp add: bidi_wf_def add_subscription_def gm_put_entries)

lemma add_subscription_wf: 
  assumes "bidi_wf p" and "listening s"
  shows "bidi_wf (add_subscription s p)"
  unfolding bidi_wf_def
proof (intro conjI allI impI)
  show "gm_wf (snd (add_subscription s p))" using assms(1) by (simp add: bidi_wf_def add_subscription_def)
  fix e j assume ej: "(e, j) \<in> set (snd (add_subscription s p))"
  then have "e = sb_event s \<and> j = length (fst p) \<or> e \<noteq> sb_event s \<and> (e, j) \<in> set (snd p)"
    by (auto simp: add_subscription_entries [OF assms(1)] split: if_splits)
  then show "j < length (fst (add_subscription s p))" "sb_event (fst (add_subscription s p) ! j) = e" "listening (fst (add_subscription s p) ! j)"
    using bidi_wf_entry [OF assms(1), of e j] assms(2) by (auto simp: add_subscription_def nth_append)
qed

lemma add_subscription_orphan:
  assumes "bidi_wf p" and "orphan k p"
  shows "orphan k (add_subscription s p)"
  using assms(2) add_subscription_entries [OF assms(1), of _ k s] by (auto simp: orphan_def add_subscription_def nth_append)

lemma add_subscription_replaces:
  assumes "bidi_wf p" and "gm_get (snd p) (sb_event s) = Some i"
  shows "orphan i (add_subscription s p)"
proof -
  have i: "(sb_event s, i) \<in> set (snd p)" using assms(2) by (rule map_of_SomeD)
  note k = bidi_wf_entry [OF assms(1) i]
  have "(e, i) \<notin> set (snd (add_subscription s p))" for e
    using bidi_wf_inj [OF assms(1) i, of e] k by (auto simp: add_subscription_entries [OF assms(1)])
  with k show ?thesis by (simp add: orphan_def) (simp add: add_subscription_def nth_append)
qed

lemma subscribe_part:
  obtains "events_part (snd (subscribe E e c b)) = events_part b" "\<not> is_ok (fst (subscribe E e c b))"
  | s b1 where "listening s" "sb_event s = e" "events_part b1 = add_subscription s (events_part b)"
      "events_part (snd (subscribe E e c b)) = events_part b1
       \<or> \<not> is_ok (fst (subscribe E e c b)) \<and> events_part (snd (subscribe E e c b)) = events_part (snd (unsubscribe E (sb_id s) b1))"
proof (cases "bo_events (bd_options b) \<and> 0 \<le> bo_event_buffer (bd_options b)")
  case False
  with that(1) show thesis by (auto simp: subscribe_def)
next
  case True
  let ?s = "\<lparr>sb_id = subscription_name (en_now E) b, sb_event = e, sb_callback = c,
     sb_channel = make_chan (nat (bo_event_buffer (bd_options b))), sb_active = True, sb_created = en_now E, sb_running = True\<rparr>"
  let ?b = "b\<lparr>bd_subs := bd_subs b @ [?s], bd_subscriptions := gm_put e (length (bd_subs b)) (bd_subscriptions b)\<rparr>"
  obtain r b2 where send: "bidi_send E (push_map [(''type'', VStr ''subscribe''), (''eventId'', VStr e),
      (''subscriptionId'', VStr (subscription_name (en_now E) b))]) ?b = (r, b2)" by force
  have "events_part b2 = events_part ?b" using events_part_send [of E _ ?b] send by (metis snd_conv)
  then have b2: "events_part b2 = add_subscription ?s (events_part b)" by (simp add: events_part_def add_subscription_def)
  have "listening ?s" by (simp add: listening_def make_chan_def)
  moreover have "events_part (snd (subscribe E e c b)) = events_part b2
       \<or> \<not> is_ok (fst (subscribe E e c b)) \<and> events_part (snd (subscribe E e c b)) = events_part (snd (unsubscribe E (sb_id ?s) b2))"
    using True send by (auto simp: subscribe_def Let_def split: outcome.split prod.split)
  ultimately show thesis using that(2) [of ?s b2] b2 by simp
qed

text \<open>Every step keeps the maps well-formed and an orphan an orphan.\<close>

lemma subscribe_wf:
  assumes "bidi_wf (events_part b)"
  shows "bidi_wf (events_part (snd (subscribe E e c b)))"
proof (rule subscribe_part [where E = E and e = e and c = c and b = b])
  fix s b1 assume s: "listening s" "events_part b1 = add_subscription s (events_part b)"
    and out: "events_part (snd (subscribe E e c b)) = events_part b1
       \<or> \<not> is_ok (fst (subscribe E e c b)) \<and> events_part (snd (subscribe E e c b)) = events_part (snd (unsubscribe E (sb_id s) b1))"
  have "bidi_wf (events_part b1)" unfolding s(2) using assms s(1) by (rule add_subscription_wf)
  with out unsubscribe_wf [OF this, of E "sb_id s"] show ?thesis by auto
qed (use assms in simp)

lemma subscribe_orphan:
  assumes "bidi_wf (events_part b)" and "orphan k (events_part b)"
  shows "orphan k (events_part (snd (subscribe E e c b)))"
proof (rule subscribe_part [where E = E and e = e and c = c and b = b])
  fix s b1 assume s: "listening s" "events_part b1 = add_subscription s (events_part b)"
    and out: "events_part (snd (subscribe E e c b)) = events_part b1
       \<or> \<not> is_ok (fst (subscribe E e c b)) \<and> events_part (snd (subscribe E e c b)) = events_part (snd (unsubscribe E (sb_id s) b1))"
  have wf: "bidi_wf (events_part b1)" unfolding s(2) using assms(1) s(1) by (rule add_subscription_wf)
  have "orphan k (events_part b1)" unfolding s(2) using assms by (rule add_subscription_orphan)
  with out unsubscribe_orphan [OF wf this, of E "sb_id s"] show ?thesis by auto
qed (use assms in simp)

lemma message_touches: "\<exists>i. touched i b (snd (process_bidirectional_message E W pick late msg b))"
proof -
  let ?b = "snd (process_bidirectional_message E W pick late msg b)"
  consider "events_part ?b = events_part b" | i d where "events_part ?b = events_part (snd (event_put i d b))"
    using events_part_message [of E W pick late msg b] by blast
  then show ?thesis
  proof cases
    case (2 i d)
    with touched_put [of i b d] show ?thesis by (auto simp: touched_def)
  qed (blast intro: touched_refl)
qed

lemma bidi_step_keeps:
  assumes "bidi_wf (events_part b)"
  shows "bidi_wf (events_part (bidi_step ev b)) \<and> (orphan k (events_part b) \<longrightarrow> orphan k (events_part (bidi_step ev b)))"
proof -
  have frame: ?thesis if "events_part (bidi_step ev b) = events_part b" using that assms by simp
  have touch: ?thesis if "\<exists>i. touched i b (bidi_step ev b)" using that assms touched_wf touched_orphan by blast
  show ?thesis
  proof (cases ev)
    case (BdRegister E W name v) then show ?thesis by (intro frame) (simp add: events_part_register)
  next
    case (BdCallback E W fn) then show ?thesis by (intro frame) (simp add: events_part_create)
  next
    case (BdCall W pick late now cid args) then show ?thesis by (intro frame) (simp add: events_part_call)
  next
    case (BdSubscribe E e c) then show ?thesis using assms by (simp add: subscribe_wf subscribe_orphan)
  next
    case (BdUnsubscribe E sid) then show ?thesis using assms by (simp add: unsubscribe_wf unsubscribe_orphan)
  next
    case (BdEmit E e d) then show ?thesis by (intro frame) (simp add: events_part_emit)
  next
    case (BdPut i d) then show ?thesis by (intro touch) (auto intro: touched_put touched_refl)
  next
    case (BdProcess i) then show ?thesis by (intro touch) (auto intro: touched_process)
  next
    case (BdMessage E W pick late msg) then show ?thesis using message_touches by (intro touch) simp
  next
    case (BdSession E e) then show ?thesis by (intro frame) simp
  qed
qed

lemma bidi_run_keeps:
  "bidi_wf (events_part b) \<Longrightarrow>
     bidi_wf (events_part (bidi_run evs b)) \<and> (orphan k (events_part b) \<longrightarrow> orphan k (events_part (bidi_run evs b)))"
proof (induction evs arbitrary: b)
  case (Cons ev evs)
  from bidi_step_keeps [OF Cons.prems] Cons.IH [of "bidi_step ev b"] show ?case by (simp add: bidi_run_def)
qed (simp add: bidi_run_def)

lemma new_bidi_wf: "new_bidi tr options now = Ok b \<Longrightarrow> bidi_wf (events_part b)"
  by (auto simp: new_bidi_def bidi_wf_def events_part_def gm_wf_def split: outcome.splits)

text \<open>
  C36: A second subscription to an event loses the first. \<open>Subscribe\<close> overwrites the entry of the event without
  ending the subscription that was there: whatever happens afterwards, calls of \<open>Unsubscribe\<close> with its id
  included, that subscription stays active with its channel open and its goroutine waiting, while no event is
  ever delivered to it and no id leads to it.
\<close>

theorem resubscribe_orphans:
  assumes "new_bidi tr options now = Ok b0" and "b = bidi_run before b0" and "gm_get (bd_subscriptions b) event = Some i"
    and "subscribe E event callback b = (Ok sid, b')" and "later = bidi_run evs b'"
  shows "listening (bd_subs later ! i) \<and> (\<forall>e. event_target e later \<noteq> Some i)
    \<and> (\<forall>s e. find_subscription s later \<noteq> Some (e, i))"
proof -
  have wf: "bidi_wf (events_part b)" unfolding assms(2) using bidi_run_keeps [OF new_bidi_wf [OF assms(1)]] by blast
  have "orphan i (events_part b')"
  proof (rule subscribe_part [where E = E and e = event and c = callback and b = b])
    assume "\<not> is_ok (fst (subscribe E event callback b))"
    with assms(4) show ?thesis by simp
  next
    fix s b1 assume s: "sb_event s = event" "events_part b1 = add_subscription s (events_part b)"
      and out: "events_part (snd (subscribe E event callback b)) = events_part b1
       \<or> \<not> is_ok (fst (subscribe E event callback b)) \<and> events_part (snd (subscribe E event callback b)) = events_part (snd (unsubscribe E (sb_id s) b1))"
    from out assms(4) have "events_part b' = add_subscription s (events_part b)" by (simp add: s(2))
    with add_subscription_replaces [OF wf, of s i] assms(3) s(1) show ?thesis by (simp add: events_part_sel)
  qed
  moreover have "bidi_wf (events_part b')" using subscribe_wf [OF wf, of E event callback] assms(4) by simp
  ultimately have o: "orphan i (events_part later)" unfolding assms(5) using bidi_run_keeps by blast
  then have "(e', i) \<notin> set (bd_subscriptions later)" for e' by (simp add: orphan_def events_part_sel)
  moreover from this have "event_target e' later \<noteq> Some i" for e'
    by (auto simp: event_target_def dest: map_of_SomeD split: option.splits if_splits)
  ultimately show ?thesis
    using o by (auto simp: orphan_def events_part_sel find_subscription_def find_Some_iff in_set_conv_nth)
qed

definition bidi_ready :: "'t bidi \<Rightarrow> bool" where
  "bidi_ready b \<longleftrightarrow> lock_free (bd_session b) \<and> \<not> ss_closed (bd_session b) \<and> bo_events (bd_options b) \<and> 0 \<le> bo_event_buffer (bd_options b)"

lemma log_push:
  assumes "lock_free s" and "\<not> ss_closed s" and "data_value v" and "nest v \<le> 100"
  shows "\<exists>s'. session_send (log_env now) c [VStr t, v] s = (Ok (), s') \<and> lock_free s' \<and> \<not> ss_closed s'"
  using assms
  by (simp add: encode_plain_push session_send_def log_env_def rlock_def runlock_def lock_free_def upd_stats_def Let_def)

lemma log_subscribe:
  assumes "bidi_ready b"
  shows "\<exists>sid b'. subscribe (log_env now) e c b = (Ok sid, b') \<and> bidi_ready b' \<and> gm_get (bd_subscriptions b') e = Some (length (bd_subs b))"
proof -
  have "data_value (VMap [(''type'', VStr ''subscribe''), (''eventId'', VStr e), (''subscriptionId'', VStr (subscription_name now b))])
    \<and> nest (VMap [(''type'', VStr ''subscribe''), (''eventId'', VStr e), (''subscriptionId'', VStr (subscription_name now b))]) \<le> 100"
    by (simp add: data_value.simps nest.simps)
  then obtain s where "session_send (log_env now) CtxLive (push_map [(''type'', VStr ''subscribe''), (''eventId'', VStr e),
      (''subscriptionId'', VStr (subscription_name now b))]) (bd_session b) = (Ok (), s) \<and> lock_free s \<and> \<not> ss_closed s"
    using log_push assms unfolding bidi_ready_def push_map_def new_push_message_def by metis
  moreover have "en_now (log_env now) = now" by (simp add: log_env_def)
  ultimately show ?thesis
    using assms by (simp add: subscribe_def bidi_send_def bidi_ready_def Let_def update_conv')
qed

definition log_bidi :: "bytes list bidi" where
  "log_bidi = (case new_bidi (Some []) [] 0 of Ok b \<Rightarrow> b)"

theorem resubscribe_orphans_witness:
  "\<exists>b sid b'. b = bidi_run [BdSubscribe (log_env 0) ''tick'' True] log_bidi \<and> subscribe (log_env 1) ''tick'' True b = (Ok sid, b')
     \<and> listening (bd_subs (bidi_run [BdUnsubscribe (log_env 2) sid] b') ! 0)"
proof -
  have b0: "new_bidi (Some []) [] 0 = Ok log_bidi" "bidi_ready log_bidi" "bd_subs log_bidi = []" by code_simp+
  let ?b = "bidi_run [BdSubscribe (log_env 0) ''tick'' True] log_bidi"
  have b: "bidi_ready ?b" "gm_get (bd_subscriptions ?b) ''tick'' = Some 0"
    using log_subscribe [OF b0(2), of 0 "''tick''" True] b0(3) by (auto simp: bidi_run_def)
  then obtain sid b' where s: "subscribe (log_env 1) ''tick'' True ?b = (Ok sid, b')" using log_subscribe by blast
  from resubscribe_orphans [OF b0(1) refl b(2) s refl, of "[BdUnsubscribe (log_env 2) sid]"] s show ?thesis by blast
qed

end
