(* ===== verification/Interfaces.thy ===== *)
theory Interfaces
  imports GoTypes
begin

text \<open>
  \<open>interface.go\<close>: the registry of RPC interfaces, how methods are parsed, the registry's own validation and
  the text of stub interfaces. Recursion over a type has fuel, since Go types may be recursive: \<open>None\<close> is
  a recursion that has not returned.
\<close>

section \<open>Methods and interfaces\<close>

record rpc_method_tags =
  mt_name :: string
  mt_async :: bool
  mt_timeout :: string
  mt_description :: string
  mt_deprecated :: bool

record rpc_method =
  rm_name :: string
  rm_type :: nat
  rm_inputs :: "nat list"
  rm_output :: "nat option"
  rm_has_error :: bool
  rm_is_async :: bool
  rm_tags :: rpc_method_tags

record rpc_interface =
  rf_name :: string
  rf_type :: nat
  rf_methods :: "(string, rpc_method) gomap"
  rf_service :: string
  rf_package :: string

record interface_registry =
  ig_interfaces :: "(string, rpc_interface) gomap"
  ig_types :: "(nat, rpc_interface) gomap"

definition new_interface_registry :: interface_registry where
  "new_interface_registry = \<lparr>ig_interfaces = [], ig_types = []\<rparr>"

definition get_interface :: "interface_registry \<Rightarrow> string \<Rightarrow> rpc_interface option" where
  "get_interface r name = gm_get (ig_interfaces r) name"

definition get_interface_by_type :: "interface_registry \<Rightarrow> nat \<Rightarrow> rpc_interface option" where
  "get_interface_by_type r t = gm_get (ig_types r) t"

definition list_interfaces :: "interface_registry \<Rightarrow> string list" where
  "list_interfaces r = map fst (ig_interfaces r)"

section \<open>Parsing\<close>

definition has_suffix :: "string \<Rightarrow> string \<Rightarrow> bool" where
  "has_suffix s x \<longleftrightarrow> length x \<le> length s \<and> drop (length s - length x) s = x"

definition trim_suffix :: "string \<Rightarrow> string \<Rightarrow> string" where
  "trim_suffix s x = (if has_suffix s x then take (length s - length x) s else s)"

definition service_name :: "string \<Rightarrow> string" where
  "service_name name =
     (if has_suffix name ''API'' then trim_suffix name ''API''
      else if has_suffix name ''Service'' then trim_suffix name ''Service'' else name)"

definition parse_method :: "types \<Rightarrow> string \<times> bool \<times> nat \<Rightarrow> rpc_method result" where
  "parse_method E = (\<lambda>(name, _, f).
     (let i = ty_info E f
      in if length (ti_in i) < 1 then Err (EMsg ''method must have at least a receiver'')
      else
        let has_context = (length (ti_in i) > 1 \<and> ti_in i ! 1 = ty_context E);
            inputs = drop (if has_context then 2 else 1) (ti_in i)
        in if ti_out i = [] then Err (EMsg ''method must return at least an error'')
        else
          let method = (\<lambda>output has_error. \<lparr>rm_name = name, rm_type = f, rm_inputs = inputs, rm_output = output, rm_has_error = has_error,
                rm_is_async = has_context, rm_tags = \<lparr>mt_name = name, mt_async = False, mt_timeout = [], mt_description = [], mt_deprecated = False\<rparr>\<rparr>)
          in if implements E (last (ti_out i)) (ty_error E)
             then Ok (method (if length (ti_out i) > 1 then Some (ti_out i ! 0) else None) True)
             else if length (ti_out i) = 1 then Ok (method (Some (ti_out i ! 0)) False)
             else Err (EMsg ''method must return (result, error) or just error'')))"

fun parse_methods :: "types \<Rightarrow> (string \<times> bool \<times> nat) list \<Rightarrow> (string, rpc_method) gomap \<Rightarrow> (string, rpc_method) gomap result" where
  "parse_methods E [] acc = Ok acc"
| "parse_methods E (m # ms) acc =
     (case parse_method E m of
        Ok rm \<Rightarrow> parse_methods E ms (gm_put (fst m) rm acc)
      | Err e \<Rightarrow> Err (EWrap ''failed to parse method %s: '' e) | Panic \<Rightarrow> Panic | Hang \<Rightarrow> Hang)"

definition parse_interface :: "types \<Rightarrow> nat \<Rightarrow> rpc_interface result" where
  "parse_interface E t =
     (let i = ty_info E t in
      bind_outcome (parse_methods E (ti_methods i) [])
        (\<lambda>ms. Ok \<lparr>rf_name = ti_name i, rf_type = t, rf_methods = ms, rf_service = service_name (ti_name i), rf_package = ti_pkg i\<rparr>))"

text \<open>\<open>t\<close> is the dynamic type of the argument, if it is not nil.\<close>

definition register_interface :: "types \<Rightarrow> nat option \<Rightarrow> interface_registry \<Rightarrow> rpc_interface result \<times> interface_registry" where
  "register_interface E t r =
     (case t of
        None \<Rightarrow> (Err (EMsg ''interface cannot be nil''), r)
      | Some t \<Rightarrow>
          let t' = (if kind_of E t = KPtr then ti_elem (ty_info E t) else t)
          in if kind_of E t' \<noteq> KInterface then (Err (EMsg ''expected interface, got %s''), r)
          else case parse_interface E t' of
            Ok f \<Rightarrow> (Ok f, \<lparr>ig_interfaces = gm_put (rf_name f) f (ig_interfaces r), ig_types = gm_put t' f (ig_types r)\<rparr>)
          | Err e \<Rightarrow> (Err (EWrap ''failed to parse interface %s: '' e), r)
          | Panic \<Rightarrow> (Panic, r) | Hang \<Rightarrow> (Hang, r))"

section \<open>The registry's validation\<close>

text \<open>The kinds that are safe by themselves.\<close>

definition basic_kind :: "kind \<Rightarrow> bool" where
  "basic_kind k \<longleftrightarrow> k = KBool \<or> k = KString \<or> float_kind k \<or> int_kind k \<and> k \<noteq> KUintptr"

text \<open>\<open>Some None\<close>: the type is accepted. \<open>Some (Some e)\<close>: the error.\<close>

fun validate_serializable :: "nat \<Rightarrow> types \<Rightarrow> nat \<Rightarrow> goerr option option" where
  "validate_serializable 0 E t = None"
| "validate_serializable (Suc n) E t =
     (let k = kind_of E t; i = ty_info E t in
      if basic_kind k then Some None
      else if k = KSlice \<or> k = KArray \<or> k = KPtr then validate_serializable n E (ti_elem i)
      else if k = KMap then
        (case validate_serializable n E (ti_key i) of
           None \<Rightarrow> None
         | Some (Some e) \<Rightarrow> Some (Some (EWrap ''map key: '' e))
         | Some None \<Rightarrow> validate_serializable n E (ti_elem i))
      else if k = KStruct then (if t = ty_context E then Some (Some (EMsg ''context.Context cannot be serialized'')) else Some None)
      else if k = KInterface then Some None
      else if k = KFunc then Some (Some (EMsg ''functions cannot be serialized (use RpcTarget interface)''))
      else if k = KChan then Some (Some (EMsg ''channels cannot be serialized''))
      else Some (Some (EMsg ''unsupported type: %s'')))"

fun validate_all :: "nat \<Rightarrow> types \<Rightarrow> string \<Rightarrow> nat list \<Rightarrow> goerr option option" where
  "validate_all n E msg [] = Some None"
| "validate_all n E msg (t # ts) =
     (case validate_serializable n E t of
        None \<Rightarrow> None | Some (Some e) \<Rightarrow> Some (Some (EWrap msg e)) | Some None \<Rightarrow> validate_all n E msg ts)"

definition registry_validate_method :: "nat \<Rightarrow> types \<Rightarrow> nat \<Rightarrow> goerr option option" where
  "registry_validate_method n E f =
     (let i = ty_info E f in
      if length (ti_in i) < 1 then Some (Some (EMsg ''method must have a receiver''))
      else if length (ti_in i) < 2 then Some (Some (EMsg ''method should have context.Context as first parameter''))
      else if \<not> implements E (ti_in i ! 1) (ty_context E) then Some (Some (EMsg ''first parameter should be context.Context, got %s''))
      else if ti_out i = [] then Some (Some (EMsg ''method must return at least an error''))
      else if \<not> implements E (last (ti_out i)) (ty_error E) then Some (Some (EMsg ''last return value must be error, got %s''))
      else case validate_all n E ''parameter %d is not serializable: '' (drop 2 (ti_in i)) of
        Some None \<Rightarrow>
          if length (ti_out i) > 1 then validate_all n E ''return type is not serializable: '' [ti_out i ! 0] else Some None
      | x \<Rightarrow> x)"

section \<open>Stub interfaces\<close>

definition newline :: string where "newline = [CHR 0x0A]"
definition tabulator :: string where "tabulator = [CHR 0x09]"

fun stub_params :: "types \<Rightarrow> nat \<Rightarrow> nat list \<Rightarrow> string" where
  "stub_params E i [] = []"
| "stub_params E i (t # ts) = '', arg'' @ nat_to_dec i @ '' '' @ ti_string (ty_info E t) @ stub_params E (Suc i) ts"

definition generate_stub_method :: "types \<Rightarrow> rpc_method \<Rightarrow> string" where
  "generate_stub_method E m =
     tabulator @ ''// '' @ rm_name m @ '' calls the remote '' @ rm_name m @ '' method'' @ newline
     @ tabulator @ rm_name m @ ''(ctx context.Context'' @ stub_params E 0 (rm_inputs m) @ '')''
     @ (case rm_output m of
          Some t \<Rightarrow> if rm_is_async m then '' (*Promise['' @ ti_string (ty_info E t) @ ''], error)'' @ newline
                    else '' ('' @ ti_string (ty_info E t) @ '', error)'' @ newline
        | None \<Rightarrow> if rm_is_async m then '' (*Promise[any], error)'' @ newline else '' error'' @ newline)"

text \<open>The methods in the order of the map's iteration.\<close>

definition generate_stub_interface :: "types \<Rightarrow> rpc_interface \<Rightarrow> string" where
  "generate_stub_interface E f =
     ''// '' @ rf_name f @ ''Stub provides RPC access to '' @ rf_name f @ newline @ ''type '' @ rf_name f @ ''Stub interface {'' @ newline
     @ concat (map (generate_stub_method E) (map snd (rf_methods f))) @ ''}'' @ newline @ newline"

end
