(* ===== verification/Validation.thy ===== *)
theory Validation
  imports Interfaces
begin

text \<open>
  \<open>validation.go\<close>: the validator of interfaces, methods, types and calls. A validation returns \<open>None\<close> while
  its recursion over a type has not returned, \<open>Some None\<close> when it accepts, and \<open>Some (Some e)\<close> for the error
  \<open>e\<close>. What a maximal recursion accepts is the inductive predicate \<open>rpc_safe\<close>.
\<close>

section \<open>Options\<close>

record validation_options =
  vo_strict :: bool
  vo_allow_any :: bool
  vo_require_context :: bool
  vo_require_error :: bool
  vo_max_parameters :: int
  vo_forbidden :: "nat list"

text \<open>\<open>forbidden\<close>: the types \<open>chan int\<close>, \<open>func()\<close> and \<open>map[interface{}]interface{}\<close>.\<close>

definition default_validation_options :: "nat list \<Rightarrow> validation_options" where
  "default_validation_options forbidden = \<lparr>vo_strict = True, vo_allow_any = True, vo_require_context = True,
     vo_require_error = True, vo_max_parameters = 10, vo_forbidden = forbidden\<rparr>"

record validator =
  va_registry :: interface_registry
  va_options :: validation_options

definition new_validator :: "interface_registry \<Rightarrow> interface_registry option \<Rightarrow> validation_options \<Rightarrow> validator" where
  "new_validator default_registry registry opts =
     \<lparr>va_registry = (case registry of None \<Rightarrow> default_registry | Some r \<Rightarrow> r), va_options = opts\<rparr>"

section \<open>Names\<close>

definition is_lower :: "char \<Rightarrow> bool" where "is_lower c \<longleftrightarrow> (97 :: nat) \<le> of_char c \<and> of_char c \<le> (122 :: nat)"
definition is_upper :: "char \<Rightarrow> bool" where "is_upper c \<longleftrightarrow> (65 :: nat) \<le> of_char c \<and> of_char c \<le> (90 :: nat)"
definition is_digit :: "char \<Rightarrow> bool" where "is_digit c \<longleftrightarrow> (48 :: nat) \<le> of_char c \<and> of_char c \<le> (57 :: nat)"

definition is_valid_identifier :: "string \<Rightarrow> bool" where
  "is_valid_identifier name =
     (case name of
        [] \<Rightarrow> False
      | c # cs \<Rightarrow> (is_lower c \<or> is_upper c \<or> c = CHR ''_'')
          \<and> list_all (\<lambda>r. is_lower r \<or> is_upper r \<or> is_digit r \<or> r = CHR ''_'') cs)"

definition is_exported :: "string \<Rightarrow> bool" where
  "is_exported name = (case name of [] \<Rightarrow> False | c # _ \<Rightarrow> is_upper c)"

text \<open>\<open>strings.ToLower\<close> of a name that is a valid identifier, as all names are when it is called.\<close>

definition to_lower :: "string \<Rightarrow> string" where
  "to_lower s = map (\<lambda>c. if is_upper c then char_of (of_char c + 32 :: nat) else c) s"

definition validate_interface_name :: "string \<Rightarrow> goerr option" where
  "validate_interface_name name =
     (if name = [] then Some (EMsg ''interface name cannot be empty'')
      else if \<not> is_valid_identifier name then Some (EMsg ''interface name %q is not a valid Go identifier'')
      else if \<not> is_exported name then Some (EMsg ''interface name %q must be exported (start with uppercase letter)'')
      else if \<not> list_ex (has_suffix name) [''API'', ''Service'', ''Client'', ''Server''] then
        Some (EMsg ''interface name %q should end with one of: %v'')
      else None)"

definition validate_method_name :: "string \<Rightarrow> goerr option" where
  "validate_method_name name =
     (if name = [] then Some (EMsg ''method name cannot be empty'')
      else if \<not> is_valid_identifier name then Some (EMsg ''method name %q is not a valid Go identifier'')
      else if \<not> is_exported name then Some (EMsg ''method name %q must be exported (start with uppercase letter)'')
      else if List.member [''String'', ''Error'', ''GoString'', ''MarshalJSON'', ''UnmarshalJSON''] name then
        Some (EMsg ''method name %q conflicts with common Go interface methods'')
      else None)"

section \<open>Types\<close>

definition common_types :: "string list" where
  "common_types = [''time.Time'', ''time.Duration'', ''url.URL'', ''big.Int'', ''big.Float'']"

definition validate_interface_type :: "types \<Rightarrow> validator \<Rightarrow> nat \<Rightarrow> goerr option" where
  "validate_interface_type E v t =
     (if t = ty_any E then (if vo_allow_any (va_options v) then None else Some (EMsg ''%s %s: interface{} not allowed''))
      else if t = ty_error E then None
      else if ti_string (ty_info E t) = ''context.Context'' then None
      else if get_interface_by_type (va_registry v) t \<noteq> None then None
      else if vo_strict (va_options v) then Some (EMsg ''%s %s: interface %s is not registered for RPC'')
      else None)"

text \<open>A struct: accepted for its name, or its exported fields to be validated.\<close>

definition struct_step :: "types \<Rightarrow> nat \<Rightarrow> goerr option + nat list" where
  "struct_step E t =
     (if List.member common_types (ti_string (ty_info E t)) then Inl None
      else Inr (map (snd \<circ> snd) (filter (fst \<circ> snd) (ti_fields (ty_info E t)))))"

text \<open>What is decided without looking at the parts of the type: \<open>Inl\<close> the answer, \<open>Inr\<close> the types to validate next, in order.\<close>

definition type_step :: "types \<Rightarrow> validator \<Rightarrow> nat \<Rightarrow> goerr option + nat list" where
  "type_step E v t =
     (let k = kind_of E t; i = ty_info E t; opts = va_options v in
      if List.member (vo_forbidden opts) t then Inl (Some (EMsg ''%s %s uses forbidden type %s''))
      else if basic_kind k then Inl None
      else if k = KArray \<or> k = KSlice \<or> k = KPtr then Inr [ti_elem i]
      else if k = KMap then Inr [ti_key i, ti_elem i]
      else if k = KStruct then struct_step E t
      else if k = KInterface then Inl (validate_interface_type E v t)
      else if k = KFunc then Inl (if vo_strict opts then Some (EMsg ''%s %s: functions are not allowed (use RpcTarget interface)'') else None)
      else if k = KChan then Inl (Some (EMsg ''%s %s: channels cannot be serialized''))
      else if k = KUnsafePointer then Inl (Some (EMsg ''%s %s: unsafe pointers cannot be serialized''))
      else Inl (Some (EMsg ''%s %s: unsupported type %s'')))"

text \<open>Validate one after the other and stop at the first that does not return or fails.\<close>

fun in_turn :: "('a \<Rightarrow> goerr option option) \<Rightarrow> 'a list \<Rightarrow> goerr option option" where
  "in_turn f [] = Some None"
| "in_turn f (x # xs) = (case f x of Some None \<Rightarrow> in_turn f xs | r \<Rightarrow> r)"

fun validate_type :: "nat \<Rightarrow> types \<Rightarrow> validator \<Rightarrow> nat \<Rightarrow> goerr option option" where
  "validate_type 0 E v t = None"
| "validate_type (Suc n) E v t =
     (case type_step E v t of Inl r \<Rightarrow> Some r | Inr ts \<Rightarrow> in_turn (validate_type n E v) ts)"

section \<open>Methods and interfaces\<close>

definition validate_context_parameter :: "types \<Rightarrow> rpc_method \<Rightarrow> goerr option" where
  "validate_context_parameter E m =
     (let i = ty_info E (rm_type m) in
      if length (ti_in i) < 2 then Some (EMsg ''method must have context.Context as first parameter'')
      else if ti_string (ty_info E (ti_in i ! 1)) \<noteq> ''context.Context'' then
        Some (EMsg ''first parameter must be context.Context, got %s'')
      else None)"

definition validate_method_signature :: "types \<Rightarrow> rpc_method \<Rightarrow> goerr option" where
  "validate_method_signature E m =
     (let i = ty_info E (rm_type m) in
      if length (ti_out i) > 2 then Some (EMsg ''method %s returns too many values (max 2: result and error)'')
      else if ti_variadic i then Some (EMsg ''method %s: variadic methods are not supported'')
      else None)"

definition wrap_error :: "string \<Rightarrow> goerr option \<Rightarrow> goerr option" where
  "wrap_error msg = map_option (EWrap msg)"

text \<open>\<open>None\<close> as method is a nil pointer.\<close>

definition validate_method :: "nat \<Rightarrow> types \<Rightarrow> validator \<Rightarrow> rpc_method option \<Rightarrow> goerr option option" where
  "validate_method n E v method =
     (case method of
        None \<Rightarrow> Some (Some (EMsg ''method cannot be nil''))
      | Some m \<Rightarrow>
          let opts = va_options v in
          case validate_method_name (rm_name m) of
            Some e \<Rightarrow> Some (Some (EWrap ''method name validation failed: '' e))
          | None \<Rightarrow>
              if int (length (rm_inputs m)) > vo_max_parameters opts then
                Some (Some (EMsg ''method %s has too many parameters: %d (max %d)''))
              else case (if vo_require_context opts then validate_context_parameter E m else None) of
                Some e \<Rightarrow> Some (Some (EWrap ''context validation failed: '' e))
              | None \<Rightarrow>
                  if vo_require_error opts \<and> \<not> rm_has_error m then Some (Some (EMsg ''method %s must return error''))
                  else case map_option (wrap_error ''method %s parameter %d validation failed: '') (in_turn (validate_type n E v) (rm_inputs m)) of
                    Some None \<Rightarrow>
                      (case (case rm_output m of
                               None \<Rightarrow> Some None
                             | Some t \<Rightarrow> map_option (wrap_error ''method %s return type validation failed: '') (validate_type n E v t)) of
                         Some None \<Rightarrow> Some (wrap_error ''method %s signature validation failed: '' (validate_method_signature E m))
                       | r \<Rightarrow> r)
                  | r \<Rightarrow> r)"

text \<open>\<open>seen\<close> are the lower-case names met so far.\<close>

fun naming_conflicts :: "string list \<Rightarrow> string list \<Rightarrow> goerr option" where
  "naming_conflicts seen [] = None"
| "naming_conflicts seen (x # xs) =
     (if List.member seen (to_lower x) then Some (EMsg ''case-insensitive method name conflict: %s'')
      else naming_conflicts (to_lower x # seen) xs)"

definition check_naming_conflicts :: "rpc_interface \<Rightarrow> goerr option" where
  "check_naming_conflicts f = naming_conflicts [] (map (rm_name \<circ> snd) (rf_methods f))"

definition validate_interface :: "nat \<Rightarrow> types \<Rightarrow> validator \<Rightarrow> rpc_interface option \<Rightarrow> goerr option option" where
  "validate_interface n E v interface =
     (case interface of
        None \<Rightarrow> Some (Some (EMsg ''interface cannot be nil''))
      | Some f \<Rightarrow>
          (case validate_interface_name (rf_name f) of
             Some e \<Rightarrow> Some (Some (EWrap ''interface name validation failed: '' e))
           | None \<Rightarrow>
               (case map_option (wrap_error ''method %s validation failed: '') (in_turn (\<lambda>m. validate_method n E v (Some (snd m))) (rf_methods f)) of
                  Some None \<Rightarrow> Some (wrap_error ''naming conflict in interface %s: '' (check_naming_conflicts f))
                | r \<Rightarrow> r)))"

section \<open>Calls\<close>

definition nil_kind :: "kind \<Rightarrow> bool" where
  "nil_kind k \<longleftrightarrow> k = KPtr \<or> k = KInterface \<or> k = KSlice \<or> k = KMap \<or> k = KFunc"

definition validate_argument_type :: "types \<Rightarrow> goany \<Rightarrow> nat \<Rightarrow> goerr option" where
  "validate_argument_type E arg expected =
     (case type_of arg of
        None \<Rightarrow> if nil_kind (kind_of E expected) then None else Some (EMsg ''nil value not acceptable for type %s'')
      | Some t \<Rightarrow>
          if t = expected then None
          else if assignable E t expected then None
          else if convertible E t expected then None
          else Some (EMsg ''type mismatch: expected %s, got %s''))"

definition validate_call :: "types \<Rightarrow> validator \<Rightarrow> string \<Rightarrow> string \<Rightarrow> goany list \<Rightarrow> goerr option" where
  "validate_call E v interface method args =
     (case get_interface (va_registry v) interface of
        None \<Rightarrow> Some (EMsg ''interface %s not registered'')
      | Some f \<Rightarrow>
          (case gm_get (rf_methods f) method of
             None \<Rightarrow> Some (EMsg ''method %s not found in interface %s'')
           | Some m \<Rightarrow>
               if length args \<noteq> length (rm_inputs m) then Some (EMsg ''method %s expects %d arguments, got %d'')
               else wrap_error ''method %s argument %d: ''
                 (case in_turn (\<lambda>(a, t). Some (validate_argument_type E a t)) (zip args (rm_inputs m)) of Some r \<Rightarrow> r | None \<Rightarrow> None)))"

text \<open>
  The check of a call in \<open>reflection.go\<close>: without conversions, and it asks \<open>AssignableTo\<close> of the type of a
  nil argument, which panics.
\<close>

fun runtime_arguments :: "types \<Rightarrow> (goany \<times> nat) list \<Rightarrow> unit result" where
  "runtime_arguments E [] = Ok ()"
| "runtime_arguments E ((a, t) # xs) =
     (case type_of a of
        None \<Rightarrow> Panic
      | Some u \<Rightarrow> if assignable E u t then runtime_arguments E xs else Err (EMsg ''argument %d: expected %s, got %s''))"

definition runtime_validate_call :: "types \<Rightarrow> interface_registry \<Rightarrow> string \<Rightarrow> string \<Rightarrow> goany list \<Rightarrow> unit result" where
  "runtime_validate_call E r interface method args =
     (case get_interface r interface of
        None \<Rightarrow> Err (EMsg ''interface %s not registered'')
      | Some f \<Rightarrow>
          (case gm_get (rf_methods f) method of
             None \<Rightarrow> Err (EMsg ''method %s not found in interface %s'')
           | Some m \<Rightarrow>
               if length args \<noteq> length (rm_inputs m) then Err (EMsg ''method %s expects %d arguments, got %d'')
               else runtime_arguments E (zip args (rm_inputs m))))"

section \<open>The types that are safe\<close>

text \<open>What the validator means by a type that is safe to send, as rules.\<close>

inductive rpc_safe :: "types \<Rightarrow> validator \<Rightarrow> nat \<Rightarrow> bool" for E v where
  safe_basic: "t \<notin> set (vo_forbidden (va_options v)) \<Longrightarrow> basic_kind (kind_of E t) \<Longrightarrow> rpc_safe E v t"
| safe_elem: "t \<notin> set (vo_forbidden (va_options v)) \<Longrightarrow> kind_of E t \<in> {KArray, KSlice, KPtr} \<Longrightarrow> rpc_safe E v (ti_elem (ty_info E t))
    \<Longrightarrow> rpc_safe E v t"
| safe_map: "t \<notin> set (vo_forbidden (va_options v)) \<Longrightarrow> kind_of E t = KMap \<Longrightarrow> rpc_safe E v (ti_key (ty_info E t))
    \<Longrightarrow> rpc_safe E v (ti_elem (ty_info E t)) \<Longrightarrow> rpc_safe E v t"
| safe_common: "t \<notin> set (vo_forbidden (va_options v)) \<Longrightarrow> kind_of E t = KStruct \<Longrightarrow> ti_string (ty_info E t) \<in> set common_types
    \<Longrightarrow> rpc_safe E v t"
| safe_struct: "t \<notin> set (vo_forbidden (va_options v)) \<Longrightarrow> kind_of E t = KStruct
    \<Longrightarrow> (\<And>n u. (n, True, u) \<in> set (ti_fields (ty_info E t)) \<Longrightarrow> rpc_safe E v u) \<Longrightarrow> rpc_safe E v t"
| safe_interface: "t \<notin> set (vo_forbidden (va_options v)) \<Longrightarrow> kind_of E t = KInterface
    \<Longrightarrow> (if t = ty_any E then vo_allow_any (va_options v)
         else t = ty_error E \<or> ti_string (ty_info E t) = ''context.Context'' \<or> gm_get (ig_types (va_registry v)) t \<noteq> None
           \<or> \<not> vo_strict (va_options v)) \<Longrightarrow> rpc_safe E v t"
| safe_func: "t \<notin> set (vo_forbidden (va_options v)) \<Longrightarrow> kind_of E t = KFunc \<Longrightarrow> \<not> vo_strict (va_options v) \<Longrightarrow> rpc_safe E v t"

lemma type_step_kinds:
  assumes "t \<notin> set (vo_forbidden (va_options v))"
  shows "basic_kind (kind_of E t) \<Longrightarrow> type_step E v t = Inl None"
    "kind_of E t \<in> {KArray, KSlice, KPtr} \<Longrightarrow> type_step E v t = Inr [ti_elem (ty_info E t)]"
    "kind_of E t = KMap \<Longrightarrow> type_step E v t = Inr [ti_key (ty_info E t), ti_elem (ty_info E t)]"
    "kind_of E t = KStruct \<Longrightarrow> type_step E v t = (if ti_string (ty_info E t) \<in> set common_types then Inl None
       else Inr (map (snd \<circ> snd) (filter (fst \<circ> snd) (ti_fields (ty_info E t)))))"
    "kind_of E t = KInterface \<Longrightarrow> type_step E v t = Inl (validate_interface_type E v t)"
    "kind_of E t = KFunc \<Longrightarrow> \<not> vo_strict (va_options v) \<Longrightarrow> type_step E v t = Inl None"
  using assms by (auto simp: type_step_def struct_step_def basic_kind_def float_kind_def int_kind_def Let_def)

lemma interface_safe_iff:
  "validate_interface_type E v t = None \<longleftrightarrow>
     (if t = ty_any E then vo_allow_any (va_options v)
      else t = ty_error E \<or> ti_string (ty_info E t) = ''context.Context'' \<or> gm_get (ig_types (va_registry v)) t \<noteq> None
           \<or> \<not> vo_strict (va_options v))"
  by (simp add: validate_interface_type_def get_interface_by_type_def)

text \<open>The rules and the step agree.\<close>

lemma rpc_safe_step:
  "rpc_safe E v t \<longleftrightarrow> (case type_step E v t of Inl r \<Rightarrow> r = None | Inr ts \<Rightarrow> \<forall>u \<in> set ts. rpc_safe E v u)"
  (is "_ \<longleftrightarrow> ?step")
proof
  assume "rpc_safe E v t"
  then show ?step
    by (cases rule: rpc_safe.cases) (auto simp: type_step_kinds interface_safe_iff split: if_splits)
next
  assume step: ?step
  show "rpc_safe E v t"
  proof (cases "t \<in> set (vo_forbidden (va_options v))")
    case True
    with step show ?thesis by (simp add: type_step_def)
  next
    case False
    note k = type_step_kinds [OF False, of E]
    consider "basic_kind (kind_of E t)" | "kind_of E t \<in> {KArray, KSlice, KPtr}" | "kind_of E t = KMap" | "kind_of E t = KStruct"
      | "kind_of E t = KInterface" | "kind_of E t = KFunc" "\<not> vo_strict (va_options v)" | e where "type_step E v t = Inl (Some e)"
      by (cases "kind_of E t"; cases "vo_strict (va_options v)") (auto simp: type_step_def basic_kind_def float_kind_def int_kind_def False Let_def)
    then show ?thesis
    proof cases
      case 1
      with False show ?thesis by (rule safe_basic)
    next
      case 2
      from step k(2) [OF 2] have "rpc_safe E v (ti_elem (ty_info E t))" by simp
      with False 2 show ?thesis by (rule safe_elem)
    next
      case 3
      from step k(3) [OF 3] have "rpc_safe E v (ti_key (ty_info E t))" "rpc_safe E v (ti_elem (ty_info E t))" by simp_all
      with False 3 show ?thesis by (rule safe_map)
    next
      case 4
      show ?thesis
      proof (cases "ti_string (ty_info E t) \<in> set common_types")
        case True
        with False 4 show ?thesis using safe_common by blast
      next
        case no: False
        have "rpc_safe E v u" if "(n, True, u) \<in> set (ti_fields (ty_info E t))" for n u
          using step k(4) [OF 4] no that by force
        then show ?thesis by (rule safe_struct [OF False 4])
      qed
    next
      case 5
      from step k(5) [OF 5] have "validate_interface_type E v t = None" by simp
      with False 5 show ?thesis by (simp add: safe_interface interface_safe_iff)
    next
      case 6
      with False show ?thesis by (rule safe_func)
    next
      case 7
      with step show ?thesis by simp
    qed
  qed
qed

section \<open>The validator decides safety\<close>

lemma in_turn_Some_None: "in_turn f xs = Some None \<longleftrightarrow> (\<forall>x \<in> set xs. f x = Some None)"
  by (induction xs) (auto split: option.split)

lemma in_turn_mono:
  "in_turn f xs = Some r \<Longrightarrow> (\<And>x y. x \<in> set xs \<Longrightarrow> f x = Some y \<Longrightarrow> g x = Some y) \<Longrightarrow> in_turn g xs = Some r"
  by (induction xs) (auto split: option.splits)

lemma in_turn_append: "\<forall>x \<in> set xs. f x = Some None \<Longrightarrow> in_turn f (xs @ ys) = in_turn f ys"
  by (induction xs) auto

lemma in_turn_prefix:
  "in_turn f (xs @ ys) \<noteq> None \<Longrightarrow> \<forall>x \<in> set xs. f x = None \<or> f x = Some None \<Longrightarrow> \<forall>x \<in> set xs. f x = Some None"
  by (induction xs) auto

lemma validate_type_mono: "validate_type n E v t = Some r \<Longrightarrow> n \<le> m \<Longrightarrow> validate_type m E v t = Some r"
proof (induction n arbitrary: m t r)
  case (Suc n)
  then obtain k where m: "m = Suc k" "n \<le> k" by (cases m) auto
  have "validate_type k E v x = Some y" if "validate_type n E v x = Some y" for x y
    using Suc.IH [OF that m(2)] .
  with Suc.prems m(1) show ?case by (auto split: sum.splits intro: in_turn_mono)
qed simp

lemma validate_type_sound: "validate_type n E v t = Some None \<Longrightarrow> rpc_safe E v t"
proof (induction n arbitrary: t)
  case (Suc n)
  then show ?case by (subst rpc_safe_step) (auto simp: in_turn_Some_None split: sum.splits)
qed simp

lemma common_fuel:
  assumes "\<forall>x \<in> set xs. \<exists>n. validate_type n E v x = Some (r x)"
  shows "\<exists>n. \<forall>x \<in> set xs. validate_type n E v x = Some (r x)"
  using assms
proof (induction xs)
  case (Cons a xs)
  then obtain n k where "validate_type n E v a = Some (r a)" "\<forall>x \<in> set xs. validate_type k E v x = Some (r x)" by auto
  then have "\<forall>x \<in> set (a # xs). validate_type (max n k) E v x = Some (r x)"
    by (auto intro: validate_type_mono)
  then show ?case by blast
qed simp

lemma validate_type_complete: "rpc_safe E v t \<Longrightarrow> \<exists>n. validate_type n E v t = Some None"
proof -
  have next_fuel: "\<exists>n. validate_type n E v t = Some None"
    if parts: "type_step E v t = Inr ts" "\<forall>u \<in> set ts. \<exists>n. validate_type n E v u = Some None" for t ts
  proof -
    from common_fuel [OF parts(2)] obtain n where "\<forall>u \<in> set ts. validate_type n E v u = Some None" by blast
    then have "validate_type (Suc n) E v t = Some None" using parts(1) by (simp add: in_turn_Some_None)
    then show ?thesis by blast
  qed
  have now: "\<exists>n. validate_type n E v t = Some None" if "type_step E v t = Inl None" for t
    by (rule exI [of _ 1]) (simp add: that)
  show "rpc_safe E v t \<Longrightarrow> \<exists>n. validate_type n E v t = Some None"
  proof (induction rule: rpc_safe.induct)
    case (safe_elem t)
    then show ?case by (intro next_fuel [OF type_step_kinds(2)]) auto
  next
    case (safe_map t)
    then show ?case by (intro next_fuel [OF type_step_kinds(3)]) auto
  next
    case (safe_struct t)
    show ?case
    proof (cases "ti_string (ty_info E t) \<in> set common_types")
      case True
      with safe_struct show ?thesis by (intro now) (simp add: type_step_kinds)
    next
      case False
      have "type_step E v t = Inr (map (snd \<circ> snd) (filter (fst \<circ> snd) (ti_fields (ty_info E t))))"
        using safe_struct(1,2) False by (simp add: type_step_kinds)
      then show ?thesis by (rule next_fuel) (use safe_struct(4) in auto)
    qed
  qed (auto intro!: now simp: type_step_kinds interface_safe_iff split: if_splits)
qed

text \<open>
  C34: The validator decides which types are safe. With enough fuel it accepts a type exactly when the rules
  of \<open>rpc_safe\<close> make it safe: built from basic types, slices, arrays, maps and pointers, the exported fields
  of structs, the common library types, and the interfaces that the options allow; and no fuel makes it
  accept another.
\<close>

theorem validate_type_decides_safe:
  "rpc_safe E v t \<longleftrightarrow> (\<exists>n. validate_type n E v t = Some None)"
  using validate_type_complete validate_type_sound by blast

section \<open>Termination\<close>

text \<open>
  The recursion goes from a type to a part of it when the parts before are safe. That a part is followed
  says nothing about its own answer.
\<close>

definition descends :: "types \<Rightarrow> validator \<Rightarrow> nat \<Rightarrow> nat \<Rightarrow> bool" where
  "descends E v t u \<longleftrightarrow> (\<exists>xs ys. type_step E v t = Inr (xs @ u # ys) \<and> (\<forall>x \<in> set xs. rpc_safe E v x))"

lemma returns_accp: "validate_type n E v t \<noteq> None \<Longrightarrow> Wellfounded.accp (\<lambda>u t. descends E v t u) t"
proof (induction n arbitrary: t)
  case (Suc n)
  show ?case
  proof (rule accp.accI)
    fix u assume "descends E v t u"
    then obtain xs ys where st: "type_step E v t = Inr (xs @ u # ys)" and safe: "\<forall>x \<in> set xs. rpc_safe E v x"
      by (auto simp: descends_def)
    with Suc.prems have ret: "in_turn (validate_type n E v) (xs @ u # ys) \<noteq> None" by simp
    have "validate_type n E v x = None \<or> validate_type n E v x = Some None" if "x \<in> set xs" for x
    proof -
      have "rpc_safe E v x" using safe that by blast
      then obtain k where k: "validate_type k E v x = Some None" by (blast dest: validate_type_complete)
      show ?thesis
      proof (cases "validate_type n E v x")
        case (Some r)
        then have "validate_type (max n k) E v x = Some r" by (rule validate_type_mono) simp
        moreover have "validate_type (max n k) E v x = Some None" using k by (rule validate_type_mono) simp
        ultimately show ?thesis using Some by simp
      qed simp
    qed
    then have "\<forall>x \<in> set xs. validate_type n E v x = Some None" using in_turn_prefix [OF ret] by blast
    with ret have "validate_type n E v u \<noteq> None" by (auto simp: in_turn_append split: option.splits)
    then show "Wellfounded.accp (\<lambda>u t. descends E v t u) u" by (rule Suc.IH)
  qed
qed simp

lemma in_turn_returns:
  assumes "\<And>pre u post. ts = pre @ u # post \<Longrightarrow> \<forall>x \<in> set pre. rpc_safe E v x \<Longrightarrow> \<exists>n. validate_type n E v u \<noteq> None"
  shows "\<exists>n. in_turn (validate_type n E v) ts \<noteq> None"
  using assms
proof (induction ts)
  case (Cons u us)
  from Cons.prems [of "[]" u us] obtain n r where n: "validate_type n E v u = Some r" by auto
  show ?case
  proof (cases r)
    case None
    with n have safe: "rpc_safe E v u" by (intro validate_type_sound) simp
    have "\<exists>k. in_turn (validate_type k E v) us \<noteq> None"
    proof (rule Cons.IH)
      fix pre w post assume "us = pre @ w # post" "\<forall>x \<in> set pre. rpc_safe E v x"
      with safe Cons.prems [of "u # pre" w post] show "\<exists>n. validate_type n E v w \<noteq> None" by simp
    qed
    then obtain k r' where k: "in_turn (validate_type k E v) us = Some r'" by auto
    have "validate_type (max n k) E v u = Some None" using n None by (auto intro: validate_type_mono)
    moreover have "in_turn (validate_type (max n k) E v) us = Some r'"
      by (rule in_turn_mono [OF k]) (auto intro: validate_type_mono)
    ultimately show ?thesis by (intro exI [of _ "max n k"]) simp
  next
    case (Some e)
    with n show ?thesis by (intro exI [of _ n]) simp
  qed
qed simp

lemma accp_returns: "Wellfounded.accp (\<lambda>u t. descends E v t u) t \<Longrightarrow> \<exists>n. validate_type n E v t \<noteq> None"
proof (induction rule: accp.induct)
  case (accI t)
  show ?case
  proof (cases "type_step E v t")
    case (Inl r)
    then show ?thesis by (intro exI [of _ 1]) simp
  next
    case (Inr ts)
    have "\<exists>n. in_turn (validate_type n E v) ts \<noteq> None"
    proof (rule in_turn_returns)
      fix pre u post assume "ts = pre @ u # post" "\<forall>x \<in> set pre. rpc_safe E v x"
      with Inr have "descends E v t u" by (auto simp: descends_def)
      then show "\<exists>n. validate_type n E v u \<noteq> None" using accI by blast
    qed
    then obtain n where "in_turn (validate_type n E v) ts \<noteq> None" ..
    with Inr show ?thesis by (intro exI [of _ "Suc n"]) simp
  qed
qed

text \<open>
  C35: The validation of a type returns exactly when there is no endless descent: no infinite sequence of
  types, each a part of the one before that the validator reaches because the parts before it are safe.
  It does not return for a recursive type such as a list node with a pointer to its own type.
\<close>

theorem validate_type_returns_iff:
  "(\<exists>n. validate_type n E v t \<noteq> None) \<longleftrightarrow> Wellfounded.accp (\<lambda>u t. descends E v t u) t"
  using returns_accp accp_returns by blast

lemma no_two_cycle: "Wellfounded.accp r x \<Longrightarrow> r y x \<Longrightarrow> r x y \<Longrightarrow> False"
  by (induction arbitrary: y rule: accp.induct) blast

text \<open>A recursive struct: its first exported field is a pointer to it.\<close>

lemma recursive_struct_never_returns:
  assumes "t \<notin> set (vo_forbidden (va_options v))" and "kind_of E t = KStruct" and "ti_string (ty_info E t) \<notin> set common_types"
    and "ti_fields (ty_info E t) = (f, True, p) # fs"
    and "p \<notin> set (vo_forbidden (va_options v))" and "kind_of E p = KPtr" and "ti_elem (ty_info E p) = t"
  shows "validate_type n E v t = None"
proof -
  have "type_step E v t = Inr ([] @ p # map (snd \<circ> snd) (filter (fst \<circ> snd) fs))"
    using assms(1-4) by (simp add: type_step_kinds)
  then have "descends E v t p" unfolding descends_def by (metis empty_iff empty_set)
  moreover have "type_step E v p = Inr ([] @ t # [])" using assms(5-7) by (simp add: type_step_kinds)
  then have "descends E v p t" unfolding descends_def by (metis empty_iff empty_set)
  ultimately have "\<not> Wellfounded.accp (\<lambda>u t. descends E v t u) t" using no_two_cycle by metis
  then show ?thesis using validate_type_returns_iff by blast
qed

section \<open>Methods of interfaces\<close>

lemma parse_methods_keeps:
  "parse_methods E ms acc = Ok res \<Longrightarrow> k \<notin> fst ` set ms \<Longrightarrow> gm_get res k = gm_get acc k"
  by (induction E ms acc rule: parse_methods.induct) (auto simp: update_conv' split: outcome.splits)

lemma parse_methods_get:
  "parse_methods E ms acc = Ok res \<Longrightarrow> distinct (map fst ms) \<Longrightarrow> (name, ex, s) \<in> set ms
   \<Longrightarrow> \<exists>m. parse_method E (name, ex, s) = Ok m \<and> gm_get res name = Some m"
proof (induction E ms acc rule: parse_methods.induct)
  case (2 E m ms acc)
  then obtain rm where rm: "parse_method E m = Ok rm" "parse_methods E ms (gm_put (fst m) rm acc) = Ok res"
    by (auto split: outcome.splits)
  show ?case
  proof (cases "m = (name, ex, s)")
    case True
    with 2(3) have "name \<notin> fst ` set ms" by simp
    with parse_methods_keeps [OF rm(2)] rm(1) True show ?thesis by (simp add: update_conv')
  next
    case False
    with 2 rm show ?thesis by auto
  qed
qed simp

lemma parse_method_no_receiver:
  assumes "parse_method E (name, ex, s) = Ok m" and "ti_in (ty_info E s) = c # rest" and "rest = [] \<or> hd rest \<noteq> ty_context E"
  shows "rm_name m = name \<and> rm_type m = s \<and> rm_inputs m = rest \<and> \<not> rm_is_async m"
  using assms by (cases rest) (auto simp: parse_method_def Let_def split: if_splits)

text \<open>
  The validator refuses the methods it is for. A method of a registered interface that is declared as
  the documentation asks, with the context first (and not a second context after it), never passes a
  validator that requires a context: the method type of an interface has no receiver, but the code skips
  one and so tests the second parameter. The method is also taken for a synchronous one, and an interface
  with such a method is never accepted.
\<close>

theorem declared_methods_refused:
  assumes "register_interface E t r = (Ok f, r')" and "(name, ex, s) \<in> set (ti_methods (ty_info E (rf_type f)))"
    and "distinct (map fst (ti_methods (ty_info E (rf_type f))))"
    and "ti_in (ty_info E s) = ty_context E # rest" and "rest = [] \<or> ti_string (ty_info E (hd rest)) \<noteq> ''context.Context''"
    and "ti_string (ty_info E (ty_context E)) = ''context.Context''" and "vo_require_context (va_options v)"
  shows "(\<exists>m. gm_get (rf_methods f) name = Some m \<and> rm_inputs m = rest \<and> \<not> rm_is_async m
           \<and> (\<exists>e. validate_method n E v (Some m) = Some (Some e)))
         \<and> validate_interface n E v (Some f) \<noteq> Some None"
proof -
  obtain t' where "parse_interface E t' = Ok f"
    using assms(1) by (auto simp: register_interface_def Let_def split: option.splits if_splits outcome.splits)
  then have "parse_methods E (ti_methods (ty_info E (rf_type f))) [] = Ok (rf_methods f)"
    by (cases "parse_methods E (ti_methods (ty_info E t')) []") (auto simp: parse_interface_def Let_def)
  from parse_methods_get [OF this assms(3,2)] obtain m where m: "parse_method E (name, ex, s) = Ok m" "gm_get (rf_methods f) name = Some m"
    by blast
  have "rest = [] \<or> hd rest \<noteq> ty_context E" using assms(5,6) by auto
  from parse_method_no_receiver [OF m(1) assms(4) this] have k: "rm_type m = s" "rm_inputs m = rest" "\<not> rm_is_async m" by auto
  have "\<exists>e. validate_context_parameter E m = Some e"
    using assms(4,5) k(1) by (cases rest) (auto simp: validate_context_parameter_def Let_def)
  then have bad: "\<exists>e. validate_method n E v (Some m) = Some (Some e)"
    using assms(7) by (auto simp: validate_method_def Let_def split: option.split)
  have "(name, m) \<in> set (rf_methods f)" using m(2) by (rule map_of_SomeD)
  with bad have "in_turn (\<lambda>m. validate_method n E v (Some (snd m))) (rf_methods f) \<noteq> Some None"
    by (force simp: in_turn_Some_None)
  then have "validate_interface n E v (Some f) \<noteq> Some None"
    by (auto simp: validate_interface_def wrap_error_def split: option.split)
  with m(2) k bad show ?thesis by blast
qed

text \<open>The types of \<open>type UserAPI interface { Get(ctx context.Context, id int) (string, error) }\<close>.\<close>

definition sample_types :: types where
  "sample_types = \<lparr>ty_info = (\<lambda>t.
       if t = 1 then (plain_type KInterface ''error'')\<lparr>ti_under := 1, ti_methods := [(''Error'', True, 7)]\<rparr>
       else if t = 2 then (plain_type KInterface ''context.Context'')\<lparr>ti_under := 2, ti_methods := [(''Done'', True, 8)]\<rparr>
       else if t = 3 then (plain_type KInt ''int'')\<lparr>ti_under := 3\<rparr>
       else if t = 4 then (plain_type KString ''string'')\<lparr>ti_under := 4\<rparr>
       else if t = 5 then (plain_type KFunc [])\<lparr>ti_named := False, ti_under := 5, ti_in := [2, 3], ti_out := [4, 1]\<rparr>
       else if t = 6 then (plain_type KInterface ''UserAPI'')\<lparr>ti_under := 6, ti_methods := [(''Get'', True, 5)]\<rparr>
       else if t = 7 then (plain_type KFunc [])\<lparr>ti_named := False, ti_under := 7, ti_out := [4]\<rparr>
       else if t = 8 then (plain_type KFunc [])\<lparr>ti_named := False, ti_under := 8\<rparr>
       else plain_type KInterface ''interface {}''),
     ty_any = 0, ty_error = 1, ty_context = 2\<rparr>"

definition sample_interface :: rpc_interface where
  "sample_interface = (case fst (register_interface sample_types (Some 6) new_interface_registry) of Ok f \<Rightarrow> f)"

lemma declared_methods_refused_witness:
  "validate_interface 5 sample_types (new_validator new_interface_registry None (default_validation_options [])) (Some sample_interface) \<noteq> Some None"
proof -
  have reg: "register_interface sample_types (Some 6) new_interface_registry
      = (Ok sample_interface, snd (register_interface sample_types (Some 6) new_interface_registry))"
    by code_simp
  have m: "(''Get'', True, 5) \<in> set (ti_methods (ty_info sample_types (rf_type sample_interface)))"
    "distinct (map fst (ti_methods (ty_info sample_types (rf_type sample_interface))))"
    "ti_in (ty_info sample_types 5) = ty_context sample_types # [3]"
    "[3] = [] \<or> ti_string (ty_info sample_types (hd [3])) \<noteq> ''context.Context''"
    "ti_string (ty_info sample_types (ty_context sample_types)) = ''context.Context''"
    "vo_require_context (va_options (new_validator new_interface_registry None (default_validation_options [])))"
    by code_simp+
  from declared_methods_refused [OF reg m] show ?thesis by blast
qed

section \<open>Calls\<close>

text \<open>What a call may hold at one place: a nil where it can stand, or a value that can be assigned or converted.\<close>

definition argument_fits :: "types \<Rightarrow> goany \<Rightarrow> nat \<Rightarrow> bool" where
  "argument_fits E a t \<longleftrightarrow> (case type_of a of None \<Rightarrow> nil_kind (kind_of E t) | Some u \<Rightarrow> assignable E u t \<or> convertible E u t)"

lemma validate_argument_fits: "validate_argument_type E a t = None \<longleftrightarrow> argument_fits E a t"
  by (auto simp: validate_argument_type_def argument_fits_def split: option.split)

lemma in_turn_decided:
  "(case in_turn (\<lambda>(a, t). Some (g a t)) xs of Some r \<Rightarrow> r | None \<Rightarrow> None) = None \<longleftrightarrow> (\<forall>(a, t) \<in> set xs. g a t = None)"
  by (induction xs) (auto split: option.split)

theorem validate_call_iff:
  "validate_call E v interface method args = None \<longleftrightarrow>
     (\<exists>f m. get_interface (va_registry v) interface = Some f \<and> gm_get (rf_methods f) method = Some m
        \<and> list_all2 (argument_fits E) args (rm_inputs m))"
  by (cases "get_interface (va_registry v) interface")
    (auto simp: validate_call_def wrap_error_def list_all2_iff validate_argument_fits in_turn_decided split: option.split)

text \<open>The check of the runtime validator is stricter: it accepts only calls that the validator accepts.\<close>

lemma runtime_arguments_Ok: "runtime_arguments E xs = Ok () \<longleftrightarrow> (\<forall>(a, t) \<in> set xs. \<exists>u. type_of a = Some u \<and> assignable E u t)"
  by (induction E xs rule: runtime_arguments.induct) (auto split: option.split)

theorem runtime_call_stricter:
  assumes "runtime_validate_call E (va_registry v) interface method args = Ok ()"
  shows "validate_call E v interface method args = None"
proof -
  from assms obtain f m where f: "get_interface (va_registry v) interface = Some f" and m: "gm_get (rf_methods f) method = Some m"
    and len: "length args = length (rm_inputs m)" and ok: "runtime_arguments E (zip args (rm_inputs m)) = Ok ()"
    by (auto simp: runtime_validate_call_def split: option.splits if_splits)
  from len ok have "list_all2 (argument_fits E) args (rm_inputs m)"
    by (fastforce simp: list_all2_iff runtime_arguments_Ok argument_fits_def)
  with f m show ?thesis by (auto simp: validate_call_iff)
qed

text \<open>It panics on a nil argument, which the validator accepts for a pointer.\<close>

lemma runtime_call_nil_panics:
  "get_interface r interface = Some f \<Longrightarrow> gm_get (rf_methods f) method = Some m \<Longrightarrow> length args = length (rm_inputs m)
   \<Longrightarrow> args = None # as \<Longrightarrow> runtime_validate_call E r interface method args = Panic"
  by (cases "rm_inputs m") (simp_all add: runtime_validate_call_def type_of_def)

end
