(* ===== verification/Reflection.thy ===== *)
theory Reflection
  imports Promise Validation
begin

text \<open>
  The stub generator and the typed promises of \<open>reflection.go\<close>. What \<open>reflect\<close> makes at run time is
  described by the type table: the type \<open>func(I) I\<close> of an interface \<open>I\<close> and the struct type of stubs are
  identities of it.
\<close>

section \<open>The generator\<close>

text \<open>
  \<open>rv_func_of\<close>: \<open>reflect.FuncOf\<close> from and to one interface; \<open>rv_stub_struct\<close>: the struct of the three fields;
  \<open>rv_promise\<close>: \<open>*Promise\<close>; \<open>rv_type_of\<close>: the dynamic type of a value, none for nil; \<open>rv_ctx\<close>: the context in a
  value, none for nil.
\<close>

record reflect_env =
  rv_types :: types
  rv_func_of :: "nat \<Rightarrow> nat"
  rv_stub_struct :: nat
  rv_promise :: nat
  rv_type_of :: "gval \<Rightarrow> nat option"
  rv_ctx :: "gval \<Rightarrow> ctx option"

text \<open>A wrapper is a function value: its interface, and the base stub in the struct that it captures.\<close>

record wrapper =
  wp_interface :: nat
  wp_stub :: nat

definition wrapper_type :: "reflect_env \<Rightarrow> wrapper \<Rightarrow> nat" where "wrapper_type R w = rv_func_of R (wp_interface w)"

record reflection_stub_generator =
  rg_registry :: interface_registry
  rg_session :: bool
  rg_cache :: "(nat, wrapper) gomap"

text \<open>\<open>def\<close> is \<open>DefaultRegistry\<close>.\<close>

definition new_reflection_stub_generator :: "interface_registry \<Rightarrow> bool \<Rightarrow> interface_registry option \<Rightarrow> reflection_stub_generator" where
  "new_reflection_stub_generator def session registry =
     \<lparr>rg_registry = (case registry of None \<Rightarrow> def | Some r \<Rightarrow> r), rg_session = session, rg_cache = []\<rparr>"

text \<open>The implementations are made and dropped; a method that the registry does not know is a nil pointer.\<close>

definition create_wrapper :: "reflect_env \<Rightarrow> rpc_interface \<Rightarrow> nat \<Rightarrow> wrapper result" where
  "create_wrapper R f a =
     (if list_all (\<lambda>(n, _, _). case gm_get (rf_methods f) n of None \<Rightarrow> False | Some m \<Rightarrow> kind_of (rv_types R) (rm_type m) = KFunc)
           (ti_methods (ty_info (rv_types R) (rf_type f)))
      then Ok \<lparr>wp_interface = rf_type f, wp_stub = a\<rparr> else Panic)"

text \<open>Calling a wrapper: its result is the struct, which has to fit the interface.\<close>

definition call_wrapper :: "reflect_env \<Rightarrow> wrapper \<Rightarrow> nat result" where
  "call_wrapper R w = (if assignable (rv_types R) (rv_stub_struct R) (wp_interface w) then Ok (wp_stub w) else Panic)"

definition generate_stub :: "'t env \<Rightarrow> reflect_env \<Rightarrow> nat option \<Rightarrow> int \<Rightarrow> reflection_stub_generator \<times> 't world
    \<Rightarrow> wrapper result \<times> reflection_stub_generator \<times> 't world" where
  "generate_stub E R t import_id gw =
     (case gw of (g, w) \<Rightarrow>
      case t of
        None \<Rightarrow> (Panic, gw)
      | Some t \<Rightarrow>
          case gm_get (rg_cache g) t of
            Some cached \<Rightarrow> (Ok cached, gw)
          | None \<Rightarrow>
              case get_interface_by_type (rg_registry g) t of
                None \<Rightarrow> (Err (EMsg ''interface %s not registered''), gw)
              | Some f \<Rightarrow>
                  let (pp, w1) = fresh_path [] w;
                      (a, w2) = add_stub (mk_stub (rg_session g) (Some import_id) None pp (en_now E)) w1
                  in (case create_wrapper R f a of
                        Ok wr \<Rightarrow> (Ok wr, g\<lparr>rg_cache := gm_put t wr (rg_cache g)\<rparr>, w2)
                      | x \<Rightarrow> (x, g, w2)))"

text \<open>A type assertion: identity, or the methods of an interface. Nil fails it.\<close>

definition asserts :: "types \<Rightarrow> nat option \<Rightarrow> nat \<Rightarrow> bool" where
  "asserts T u t \<longleftrightarrow> (case u of None \<Rightarrow> False | Some u \<Rightarrow> if kind_of T t = KInterface then implements T u t else u = t)"

definition generate_stub_for :: "'t env \<Rightarrow> reflect_env \<Rightarrow> nat \<Rightarrow> int \<Rightarrow> reflection_stub_generator \<times> 't world
    \<Rightarrow> wrapper result \<times> reflection_stub_generator \<times> 't world" where
  "generate_stub_for E R t import_id gw =
     (case generate_stub E R (Some t) import_id gw of
        (Ok wr, gw') \<Rightarrow>
          (if asserts (rv_types R) (Some (wrapper_type R wr)) t then Ok wr
           else Err (EMsg ''generated stub does not implement interface %T''), gw')
      | x \<Rightarrow> x)"

section \<open>Method implementations\<close>

text \<open>
  What an implementation puts in a result: nothing yet, the zero value of a type, a value, or a promise.
\<close>

datatype ret = RetNone | RetZero nat | RetVal gval | RetErr goerr | RetPromise nat

fun set_results :: "(nat \<times> ret) list \<Rightarrow> ret list \<Rightarrow> ret list result" where
  "set_results [] rs = Ok rs"
| "set_results ((i, r) # xs) rs = (if i < length rs then set_results xs (rs[i := r]) else Panic)"

text \<open>
  What \<open>MakeFunc\<close> checks of a result: it is not the zero \<open>Value\<close>, and can be assigned to the result type.
  The dynamic type of an error implements \<open>error\<close>.
\<close>

definition ret_fits :: "reflect_env \<Rightarrow> ret \<Rightarrow> nat \<Rightarrow> bool" where
  "ret_fits R r t =
     (case r of RetNone \<Rightarrow> False
      | RetZero u \<Rightarrow> assignable (rv_types R) u t
      | RetVal v \<Rightarrow> (case rv_type_of R v of None \<Rightarrow> False | Some u \<Rightarrow> assignable (rv_types R) u t)
      | RetErr e \<Rightarrow> implements (rv_types R) (ty_error (rv_types R)) t
      | RetPromise p \<Rightarrow> assignable (rv_types R) (rv_promise R) t)"

definition finish_results :: "reflect_env \<Rightarrow> nat list \<Rightarrow> ret list result \<Rightarrow> ret list result" where
  "finish_results R outs r = bind_outcome r (\<lambda>rs. if list_all2 (ret_fits R) rs outs then Ok rs else Panic)"

definition wrap_promise :: "nat \<Rightarrow> nat \<Rightarrow> ret" where "wrap_promise p t = RetPromise p"

text \<open>The arguments from the second on, with the places of contexts among them.\<close>

definition split_args :: "types \<Rightarrow> nat list \<Rightarrow> gval list \<Rightarrow> gval option \<times> gval list" where
  "split_args T ts args =
     (let xs = drop 1 (zip ts args); c = filter (\<lambda>(t, _). implements T t (ty_context T)) xs
      in (if c = [] then None else Some (snd (last c)), map snd (filter (\<lambda>(t, _). \<not> implements T t (ty_context T)) xs)))"

definition error_results :: "rpc_method \<Rightarrow> goerr \<Rightarrow> (nat \<times> ret) list" where
  "error_results m e =
     (if \<not> rm_has_error m then []
      else case rm_output m of Some t \<Rightarrow> [(0, RetZero t), (1, RetErr e)] | None \<Rightarrow> [(0, RetErr e)])"

definition no_error :: "types \<Rightarrow> rpc_method \<Rightarrow> nat \<Rightarrow> (nat \<times> ret) list" where
  "no_error T m i = (if rm_has_error m then [(i, RetZero (ty_error T))] else [])"

text \<open>\<open>wait\<close> is what a promise gives when it is awaited under a context.\<close>

definition create_method_impl :: "'t env \<Rightarrow> reflect_env \<Rightarrow> (ctx \<Rightarrow> nat \<Rightarrow> 't world \<Rightarrow> gval result \<times> 't world)
    \<Rightarrow> rpc_method \<Rightarrow> nat \<Rightarrow> gval list \<Rightarrow> 't world \<Rightarrow> ret list result \<times> 't world" where
  "create_method_impl E R wait m a args w =
     (let T = rv_types R; i = ty_info T (rm_type m); outs = ti_out i;
          finish = (\<lambda>xs. finish_results R outs (set_results xs (replicate (length outs) RetNone)));
          (c, call_args) = split_args T (ti_in i) args
      in if args = [] then (Panic, w)
      else case (case c of None \<Rightarrow> Some CtxLive | Some v \<Rightarrow> rv_ctx R v) of
        None \<Rightarrow> (Panic, w)
      | Some cx \<Rightarrow>
          (case stub_call E cx a (rm_name m) call_args w of
             (Err e, w1) \<Rightarrow> (finish (error_results m e), w1)
           | (Ok p, w1) \<Rightarrow>
               (case rm_output m of
                  None \<Rightarrow> (finish (no_error T m 0), w1)
                | Some t \<Rightarrow>
                    if rm_is_async m then (finish ((0, wrap_promise p t) # no_error T m 1), w1)
                    else (case wait cx p w1 of
                            (Ok v, w2) \<Rightarrow> (finish ((0, RetVal v) # no_error T m 1), w2)
                          | (Err e, w2) \<Rightarrow> (finish ((0, RetZero t) # (if rm_has_error m then [(1, RetErr e)] else [])), w2)
                          | (Panic, w2) \<Rightarrow> (Panic, w2) | (Hang, w2) \<Rightarrow> (Hang, w2)))
           | (Panic, w1) \<Rightarrow> (Panic, w1) | (Hang, w1) \<Rightarrow> (Hang, w1)))"

section \<open>Typed promises\<close>

text \<open>A typed promise is the address of a promise and its type parameter; \<open>None\<close> is a nil promise.\<close>

record typed_promise =
  tp_promise :: nat
  tp_session :: bool
  tp_type :: nat

definition new_typed_promise :: "nat \<Rightarrow> nat option \<Rightarrow> 't world \<Rightarrow> typed_promise result" where
  "new_typed_promise t p w =
     (case p of None \<Rightarrow> Panic | Some a \<Rightarrow> Ok \<lparr>tp_promise = a, tp_session = pm_session (w_promises w ! a), tp_type = t\<rparr>)"

definition try_type_conversion :: "reflect_env \<Rightarrow> nat \<Rightarrow> gval \<Rightarrow> gval option" where
  "try_type_conversion R t v = (if asserts (rv_types R) (rv_type_of R v) t then Some v else None)"

text \<open>\<open>Ok v\<close>: the value \<open>v\<close>, of the type parameter. The zero value of an error result is not represented.\<close>

definition typed_await :: "'t env \<Rightarrow> reflect_env \<Rightarrow> nat \<Rightarrow> ctx option \<Rightarrow> bool \<Rightarrow> ('t world \<Rightarrow> 't world) \<Rightarrow> ('t world \<Rightarrow> 't world)
    \<Rightarrow> typed_promise \<Rightarrow> 't world \<Rightarrow> gval result \<times> 't world" where
  "typed_await E R pick c fires mid late p w =
     (case promise_await E pick c fires mid late (tp_promise p) w of
        (Ok v, w1) \<Rightarrow>
          (if asserts (rv_types R) (rv_type_of R v) (tp_type p) then Ok v
           else case try_type_conversion R (tp_type p) v of
             Some v' \<Rightarrow> Ok v' | None \<Rightarrow> Err (EMsg ''result type mismatch: expected %T, got %T''), w1)
      | x \<Rightarrow> x)"

definition typed_then :: "'t env \<Rightarrow> typed_promise \<Rightarrow> string \<Rightarrow> gval list \<Rightarrow> 't world \<Rightarrow> nat result \<times> 't world" where
  "typed_then E p meth args w = promise_then E (tp_promise p) meth args w"

definition then_typed :: "'t env \<Rightarrow> typed_promise \<Rightarrow> string \<Rightarrow> gval list \<Rightarrow> 't world \<Rightarrow> typed_promise result \<times> 't world" where
  "then_typed E p meth args w =
     (case promise_then E (tp_promise p) meth args w of (r, w1) \<Rightarrow> (bind_outcome r (\<lambda>a. new_typed_promise (tp_type p) (Some a) w1), w1))"

definition typed_get :: "'t env \<Rightarrow> typed_promise \<Rightarrow> string \<Rightarrow> 't world \<Rightarrow> nat result \<times> 't world" where
  "typed_get E p prop w = promise_get E (tp_promise p) prop w"

definition get_typed :: "'t env \<Rightarrow> typed_promise \<Rightarrow> string \<Rightarrow> 't world \<Rightarrow> typed_promise result \<times> 't world" where
  "get_typed E p prop w =
     (case promise_get E (tp_promise p) prop w of (r, w1) \<Rightarrow> (bind_outcome r (\<lambda>a. new_typed_promise (tp_type p) (Some a) w1), w1))"

definition typed_is_resolved :: "typed_promise \<Rightarrow> 't world \<Rightarrow> bool" where "typed_is_resolved p w = is_resolved (w_promises w ! tp_promise p)"
definition typed_is_pending :: "typed_promise \<Rightarrow> 't world \<Rightarrow> bool" where "typed_is_pending p w = is_pending (w_promises w ! tp_promise p)"
definition typed_is_rejected :: "typed_promise \<Rightarrow> 't world \<Rightarrow> bool" where "typed_is_rejected p w = is_rejected (w_promises w ! tp_promise p)"
definition typed_set_timeout :: "typed_promise \<Rightarrow> int \<Rightarrow> 't world \<Rightarrow> 't world" where "typed_set_timeout p t w = set_timeout (tp_promise p) t w"
definition typed_get_timeout :: "typed_promise \<Rightarrow> 't world \<Rightarrow> int" where "typed_get_timeout p w = pm_timeout (w_promises w ! tp_promise p)"
definition typed_get_export_id :: "typed_promise \<Rightarrow> 't world \<Rightarrow> int" where "typed_get_export_id p w = pm_export_id (w_promises w ! tp_promise p)"
definition typed_get_path :: "typed_promise \<Rightarrow> 't world \<Rightarrow> slice \<times> 't world" where "typed_get_path p w = promise_get_path (tp_promise p) w"

text \<open>\<open>zero\<close> is what \<open>%T\<close> prints for the zero value of the type parameter.\<close>

definition typed_string :: "string \<Rightarrow> typed_promise \<Rightarrow> 't world \<Rightarrow> string" where
  "typed_string zero p w = ''TypedPromise['' @ zero @ '']'' @ drop 7 (promise_string (tp_promise p) w)"

section \<open>The factory\<close>

type_synonym typed_stub_factory = reflection_stub_generator

definition new_stub_factory :: "interface_registry \<Rightarrow> bool \<Rightarrow> typed_stub_factory" where
  "new_stub_factory def session = new_reflection_stub_generator def session (Some def)"

definition create_stub :: "'t env \<Rightarrow> reflect_env \<Rightarrow> nat option \<Rightarrow> int \<Rightarrow> typed_stub_factory \<times> 't world
    \<Rightarrow> wrapper result \<times> typed_stub_factory \<times> 't world" where
  "create_stub E R t import_id fw = generate_stub E R t import_id fw"

definition create_stub_for :: "'t env \<Rightarrow> reflect_env \<Rightarrow> nat \<Rightarrow> int \<Rightarrow> typed_stub_factory \<times> 't world
    \<Rightarrow> wrapper result \<times> typed_stub_factory \<times> 't world" where
  "create_stub_for E R t import_id fw = generate_stub_for E R t import_id fw"

section \<open>Histories of the generator\<close>

definition generator_step :: "'t env \<times> reflect_env \<times> nat \<times> int \<Rightarrow> reflection_stub_generator \<times> 't world \<Rightarrow> reflection_stub_generator \<times> 't world" where
  "generator_step = (\<lambda>(E, R, t, i) gw. snd (generate_stub E R (Some t) i gw))"

definition generator_run :: "('t env \<times> reflect_env \<times> nat \<times> int) list \<Rightarrow> reflection_stub_generator \<times> 't world \<Rightarrow> reflection_stub_generator \<times> 't world" where
  "generator_run rs gw = fold generator_step rs gw"

text \<open>What a request leaves: the registry, the entries of the cache and the stubs.\<close>

definition generator_extends :: "reflection_stub_generator \<times> 't world \<Rightarrow> reflection_stub_generator \<times> 't world \<Rightarrow> bool" where
  "generator_extends gw gw' \<longleftrightarrow> rg_registry (fst gw') = rg_registry (fst gw)
     \<and> (\<forall>t wr. gm_get (rg_cache (fst gw)) t = Some wr \<longrightarrow> gm_get (rg_cache (fst gw')) t = Some wr)
     \<and> (\<exists>ss. w_stubs (snd gw') = w_stubs (snd gw) @ ss)"

lemma generator_extends_refl: "generator_extends gw gw"
  by (simp add: generator_extends_def)

lemma generator_extends_trans: "generator_extends a b \<Longrightarrow> generator_extends b c \<Longrightarrow> generator_extends a c"
  by (auto simp: generator_extends_def)

lemma generate_stub_extends: "generator_extends gw (snd (generate_stub E R (Some t) i gw))"
  by (cases gw) (auto simp: generator_extends_def generate_stub_def fresh_path_def slice_make_def add_stub_def update_conv'
      create_wrapper_def Let_def split: option.split)

lemma generator_run_extends: "generator_extends gw (generator_run rs gw)"
proof (induction rs arbitrary: gw)
  case (Cons r rs)
  have "generator_extends gw (generator_step r gw)" by (cases r) (simp add: generator_step_def generate_stub_extends)
  from generator_extends_trans [OF this Cons.IH] show ?case by (simp add: generator_run_def)
qed (simp add: generator_run_def generator_extends_refl)

lemma generate_stub_caches:
  assumes "generate_stub E R (Some t) i gw = (Ok wr, gw')"
  shows "gm_get (rg_cache (fst gw')) t = Some wr"
  using assms by (cases gw) (auto simp: generate_stub_def Let_def update_conv' create_wrapper_def split: option.splits prod.splits if_splits)

text \<open>The registry gives the generator what it needs for a registered interface.\<close>

lemma registered_wrapper:
  assumes "register_interface (rv_types R) (Some t) reg = (Ok f, reg')" and "kind_of (rv_types R) t = KInterface"
    and "distinct (map fst (ti_methods (ty_info (rv_types R) t)))"
    and "\<forall>m \<in> set (ti_methods (ty_info (rv_types R) t)). kind_of (rv_types R) (snd (snd m)) = KFunc"
  shows "get_interface_by_type reg' t = Some f \<and> create_wrapper R f a = Ok \<lparr>wp_interface = t, wp_stub = a\<rparr>"
proof -
  have p: "parse_interface (rv_types R) t = Ok f" "get_interface_by_type reg' t = Some f"
    using assms(1,2) by (auto simp: register_interface_def get_interface_by_type_def update_conv' split: outcome.splits)
  then have f: "rf_type f = t" "parse_methods (rv_types R) (ti_methods (ty_info (rv_types R) t)) [] = Ok (rf_methods f)"
    by (cases "parse_methods (rv_types R) (ti_methods (ty_info (rv_types R) t)) []"; auto simp: parse_interface_def Let_def)+
  have "case gm_get (rf_methods f) n of None \<Rightarrow> False | Some m \<Rightarrow> kind_of (rv_types R) (rm_type m) = KFunc"
    if "(n, ex, s) \<in> set (ti_methods (ty_info (rv_types R) t))" for n ex s
  proof -
    note mem = that
    obtain m where m: "parse_method (rv_types R) (n, ex, s) = Ok m" "gm_get (rf_methods f) n = Some m"
      using parse_methods_get [OF f(2) assms(3) mem] by blast
    then have "rm_type m = s" by (auto simp: parse_method_def Let_def split: if_splits)
    with m(2) assms(4) mem show ?thesis by auto
  qed
  then show ?thesis using p(2) f(1) by (auto simp: create_wrapper_def list_all_iff)
qed

text \<open>
  A generator makes one stub for a type, whatever it is asked for. After a first stub of a type was made
  for the import \<open>i\<close>, every later request for the type, for any import, returns that stub, whose import is \<open>i\<close>:
  two remote objects of one interface cannot be told apart.
\<close>

theorem one_stub_per_type:
  assumes "generate_stub E R (Some t) i (g, w) = (Ok wr, gw)" and "gm_get (rg_cache g) t = None"
    and "gw' = generator_run rs gw"
  shows "generate_stub E' R' (Some t) j gw' = (Ok wr, gw') \<and> sb_import_id (w_stubs (snd gw') ! wp_stub wr) = Some i"
proof -
  have new: "wp_stub wr < length (w_stubs (snd gw)) \<and> sb_import_id (w_stubs (snd gw) ! wp_stub wr) = Some i"
    using assms(1,2)
    by (auto simp: generate_stub_def fresh_path_def slice_make_def add_stub_def mk_stub_def create_wrapper_def Let_def split: option.splits if_splits)
  have ext: "generator_extends gw gw'" unfolding assms(3) by (rule generator_run_extends)
  then obtain ss where ss: "w_stubs (snd gw') = w_stubs (snd gw) @ ss" by (auto simp: generator_extends_def)
  have "gm_get (rg_cache (fst gw')) t = Some wr"
    using generate_stub_caches [OF assms(1)] ext by (simp add: generator_extends_def)
  then have "generate_stub E' R' (Some t) j gw' = (Ok wr, gw')" by (cases gw') (simp add: generate_stub_def)
  with new ss show ?thesis by (simp add: nth_append)
qed

definition sample_reflect :: reflect_env where
  "sample_reflect = \<lparr>rv_types = sample_types, rv_func_of = (\<lambda>_. 8), rv_stub_struct = 9, rv_promise = 10, rv_type_of = (\<lambda>_. None), rv_ctx = (\<lambda>_. None)\<rparr>"

definition sample_registry :: interface_registry where
  "sample_registry = snd (register_interface sample_types (Some 6) new_interface_registry)"

definition sample_generator :: reflection_stub_generator where
  "sample_generator = new_reflection_stub_generator new_interface_registry True (Some sample_registry)"

lemma one_stub_per_type_witness:
  "fst (generate_stub sample_env sample_reflect (Some 6) 2 (snd (generate_stub sample_env sample_reflect (Some 6) 1 (sample_generator, sample_world))))
     = Ok \<lparr>wp_interface = 6, wp_stub = length (w_stubs sample_world)\<rparr>"
proof -
  let ?gw = "snd (generate_stub sample_env sample_reflect (Some 6) 1 (sample_generator, sample_world))"
  have n: "gm_get (rg_cache sample_generator) 6 = None" by code_simp
  have "register_interface (rv_types sample_reflect) (Some 6) new_interface_registry = (Ok sample_interface, sample_registry)"
    "kind_of (rv_types sample_reflect) 6 = KInterface" "distinct (map fst (ti_methods (ty_info (rv_types sample_reflect) 6)))"
    "\<forall>m \<in> set (ti_methods (ty_info (rv_types sample_reflect) 6)). kind_of (rv_types sample_reflect) (snd (snd m)) = KFunc" by code_simp+
  from registered_wrapper [OF this]
  have "get_interface_by_type (rg_registry sample_generator) 6 = Some sample_interface
      \<and> create_wrapper sample_reflect sample_interface a = Ok \<lparr>wp_interface = 6, wp_stub = a\<rparr>" for a
    by (simp add: sample_generator_def new_reflection_stub_generator_def)
  then have "generate_stub sample_env sample_reflect (Some 6) 1 (sample_generator, sample_world)
      = (Ok \<lparr>wp_interface = 6, wp_stub = length (w_stubs sample_world)\<rparr>, ?gw)"
    using n by (auto simp: generate_stub_def fresh_path_def slice_make_def add_stub_def)
  from one_stub_per_type [OF this n, of ?gw "[]" sample_env sample_reflect 2] show ?thesis by (simp add: generator_run_def)
qed

text \<open>
  C37: No typed stub is ever made for an interface with methods. The generator returns a function value, and
  function types have no methods, so the assertion to the interface fails: for every registered interface
  with methods, after any requests, \<open>GenerateStubFor\<close> reports that the stub does not implement it.
\<close>

theorem typed_stub_never_made:
  assumes "register_interface (rv_types R) (Some t) reg = (Ok f, reg')" and "kind_of (rv_types R) t = KInterface"
    and "ti_methods (ty_info (rv_types R) t) \<noteq> []" and "distinct (map fst (ti_methods (ty_info (rv_types R) t)))"
    and "\<forall>m \<in> set (ti_methods (ty_info (rv_types R) t)). kind_of (rv_types R) (snd (snd m)) = KFunc"
    and "\<And>u. ti_methods (ty_info (rv_types R) (rv_func_of R u)) = []"
    and "gw = generator_run rs (new_reflection_stub_generator def session (Some reg'), w)"
  shows "fst (generate_stub_for E R t i gw) = Err (EMsg ''generated stub does not implement interface %T'')"
proof -
  have "rg_registry (fst gw) = reg'"
    using generator_run_extends [of "(new_reflection_stub_generator def session (Some reg'), w)" rs]
    by (simp add: assms(7) generator_extends_def new_reflection_stub_generator_def)
  then have reg: "get_interface_by_type (rg_registry (fst gw)) t = Some f"
    using registered_wrapper [OF assms(1,2,4,5)] by simp
  have "\<exists>wr gw'. generate_stub E R (Some t) i gw = (Ok wr, gw')"
  proof (cases "gm_get (rg_cache (fst gw)) t")
    case None
    with reg registered_wrapper [OF assms(1,2,4,5)] show ?thesis
      by (cases gw) (simp add: generate_stub_def fresh_path_def slice_make_def add_stub_def)
  qed (cases gw, simp add: generate_stub_def)
  then obtain wr gw' where "generate_stub E R (Some t) i gw = (Ok wr, gw')" by blast
  moreover have "\<not> implements (rv_types R) (wrapper_type R wr) t"
    using assms(3,6) by (cases "ti_methods (ty_info (rv_types R) t)") (auto simp: implements_def wrapper_type_def)
  ultimately show ?thesis using assms(2) by (simp add: generate_stub_for_def asserts_def)
qed

lemma typed_stub_never_made_witness:
  "fst (generate_stub_for sample_env sample_reflect 6 1 (sample_generator, sample_world))
     = Err (EMsg ''generated stub does not implement interface %T'')"
proof -
  have "register_interface (rv_types sample_reflect) (Some 6) new_interface_registry = (Ok sample_interface, sample_registry)" by code_simp
  moreover have "kind_of (rv_types sample_reflect) 6 = KInterface" "ti_methods (ty_info (rv_types sample_reflect) 6) \<noteq> []"
    "distinct (map fst (ti_methods (ty_info (rv_types sample_reflect) 6)))"
    "\<forall>m \<in> set (ti_methods (ty_info (rv_types sample_reflect) 6)). kind_of (rv_types sample_reflect) (snd (snd m)) = KFunc" by code_simp+
  moreover have "ti_methods (ty_info (rv_types sample_reflect) (rv_func_of sample_reflect u)) = []" for u
    by (simp add: sample_reflect_def sample_types_def plain_type_def)
  moreover have "(sample_generator, sample_world) = generator_run [] (new_reflection_stub_generator new_interface_registry True (Some sample_registry), sample_world)"
    by (simp add: generator_run_def sample_generator_def)
  ultimately show ?thesis by (rule typed_stub_never_made)
qed

section \<open>Calls and results\<close>

text \<open>
  A method of an interface has no receiver, so the argument that an implementation skips is the context of
  the caller: the call runs under the background context.
\<close>

theorem caller_context_lost:
  assumes "ti_in (ty_info (rv_types R) (rm_type m)) = c # ts" and "\<forall>t \<in> set ts. \<not> implements (rv_types R) t (ty_context (rv_types R))"
    and "length args = length ts"
  shows "create_method_impl E R wait m a (x # args) w = create_method_impl E R wait m a (y # args) w
    \<and> split_args (rv_types R) (c # ts) (x # args) = (None, args)"
proof -
  have "filter (\<lambda>(t, _). implements (rv_types R) t (ty_context (rv_types R))) (zip ts args) = []"
    using assms(2) by (auto simp: filter_empty_conv dest: set_zip_leftD)
  moreover have "map snd (filter (\<lambda>(t, _). \<not> implements (rv_types R) t (ty_context (rv_types R))) (zip ts args)) = args"
  proof -
    have "filter (\<lambda>(t, _). \<not> implements (rv_types R) t (ty_context (rv_types R))) (zip ts args) = zip ts args"
      using assms(2) by (auto simp: filter_id_conv dest: set_zip_leftD)
    with assms(3) show ?thesis by simp
  qed
  ultimately have "split_args (rv_types R) (c # ts) (z # args) = (None, args)" for z
    by (simp add: split_args_def)
  then show ?thesis using assms(1) by (simp add: create_method_impl_def Let_def)
qed

text \<open>A typed promise gives the value of the promise if it has the type, and converts nothing.\<close>

theorem typed_await_result:
  "typed_await E R pick c fires mid late p w =
     (case promise_await E pick c fires mid late (tp_promise p) w of
        (Ok v, w1) \<Rightarrow> (if asserts (rv_types R) (rv_type_of R v) (tp_type p) then Ok v
          else Err (EMsg ''result type mismatch: expected %T, got %T''), w1)
      | (Err e, w1) \<Rightarrow> (Err e, w1) | (Panic, w1) \<Rightarrow> (Panic, w1) | (Hang, w1) \<Rightarrow> (Hang, w1))"
  by (simp add: typed_await_def try_type_conversion_def split: prod.split outcome.split)

end
