(* ===== verification/Debugging.thy ===== *)
theory Debugging
  imports Session Codecs "HOL-Library.Multiset"
begin

text \<open>
  \<open>debugging.go\<close>: the tracer, the performance monitor, the inspector of connections and the tracing wrapper
  of stubs. Traces and spans are objects by address, since callers keep them after the tracer has dropped
  them. The locks of the monitor and the inspector are part of their state, as their operations nest them;
  that of the tracer is never nested and left out. Clock readings are arguments. \<open>sort.Slice\<close> of what a map yields is a stable sort of an arbitrary
  order, which covers the results of an unstable one.
\<close>

section \<open>Tracing\<close>

datatype trace_level = TraceLevelOff | TraceLevelError | TraceLevelWarn | TraceLevelInfo | TraceLevelDebug | TraceLevelVerbose

text \<open>The constants by \<open>iota\<close>; any other integer is unknown.\<close>

definition trace_level_of :: "int \<Rightarrow> trace_level option" where
  "trace_level_of n = map_of (zip [0, 1, 2, 3, 4, 5]
     [TraceLevelOff, TraceLevelError, TraceLevelWarn, TraceLevelInfo, TraceLevelDebug, TraceLevelVerbose]) n"

definition trace_level_string :: "int \<Rightarrow> string" where
  "trace_level_string n =
     (case trace_level_of n of
        Some TraceLevelOff \<Rightarrow> ''OFF'' | Some TraceLevelError \<Rightarrow> ''ERROR'' | Some TraceLevelWarn \<Rightarrow> ''WARN''
      | Some TraceLevelInfo \<Rightarrow> ''INFO'' | Some TraceLevelDebug \<Rightarrow> ''DEBUG'' | Some TraceLevelVerbose \<Rightarrow> ''VERBOSE''
      | None \<Rightarrow> ''UNKNOWN'')"

record tracing_options =
  tg_level :: int
  tg_max_traces :: int
  tg_timeout :: int
  tg_payloads :: bool
  tg_stack_traces :: bool
  tg_filter :: "string list"
  tg_exclude :: "string list"
  tg_sampling :: float64

definition default_tracing_options :: tracing_options where
  "default_tracing_options = \<lparr>tg_level = 3, tg_max_traces = 100, tg_timeout = 3600000000000, tg_payloads = True,
     tg_stack_traces = False, tg_filter = [], tg_exclude = [], tg_sampling = 1\<rparr>"

record trace_log =
  tlg_timestamp :: int
  tlg_level :: int
  tlg_message :: string
  tlg_fields :: "(string \<times> gval) list"

text \<open>A time that is not set is \<open>None\<close>.\<close>

record trace_span =
  sn_id :: string
  sn_parent :: string
  sn_operation :: string
  sn_method :: string
  sn_start :: int
  sn_end :: "int option"
  sn_duration :: int
  sn_tags :: "(string, gval) gomap"
  sn_logs :: "trace_log list"
  sn_error :: "goerr option"
  sn_request :: gval
  sn_response :: gval

record trace_session =
  tn_id :: string
  tn_name :: string
  tn_start :: int
  tn_end :: "int option"
  tn_spans :: "nat list"
  tn_metadata :: "(string, gval) gomap"

text \<open>\<open>tc_sessions\<close> and \<open>tc_spans\<close> are the heap, \<open>tc_output\<close> what was written to the writer, if there is one.\<close>

record tracer =
  tc_traces :: "(string, nat) gomap"
  tc_enabled :: bool
  tc_output :: "string list option"
  tc_options :: tracing_options
  tc_sessions :: "trace_session list"
  tc_spans :: "trace_span list"

definition new_tracer :: "bool \<Rightarrow> tracing_options \<Rightarrow> tracer" where
  "new_tracer output options = \<lparr>tc_traces = [], tc_enabled = True, tc_output = (if output then Some [] else None),
     tc_options = options, tc_sessions = [], tc_spans = []\<rparr>"

text \<open>
  The search for the oldest entry: the empty string stands for no entry yet. The tracer and the monitor
  have the same loop.
\<close>

definition older :: "('v \<Rightarrow> int) \<Rightarrow> string \<times> 'v \<Rightarrow> string \<times> int \<Rightarrow> string \<times> int" where
  "older f = (\<lambda>(k, v) (oid, t). if oid = [] \<or> f v < t then (k, f v) else (oid, t))"

definition evict_oldest :: "('v \<Rightarrow> int) \<Rightarrow> (string, 'v) gomap \<Rightarrow> (string, 'v) gomap" where
  "evict_oldest f m = (let oid = fst (fold (older f) m ([], 0)) in if oid = [] then m else gm_del oid m)"

definition generate_trace_id :: "int \<Rightarrow> string" where "generate_trace_id now = ''trace_'' @ int_to_dec now"
definition generate_span_id :: "int \<Rightarrow> string" where "generate_span_id now = ''span_'' @ int_to_dec now"
definition generate_session_id :: "int \<Rightarrow> string" where "generate_session_id now = ''session_'' @ int_to_dec now"

definition start_trace :: "int \<Rightarrow> int \<Rightarrow> string \<Rightarrow> tracer \<Rightarrow> nat option \<times> tracer" where
  "start_trace now_id now name t =
     (if \<not> tc_enabled t then (None, t)
      else
        let ts = (if int (gm_len (tc_traces t)) \<ge> tg_max_traces (tc_options t)
                  then evict_oldest (\<lambda>a. tn_start (tc_sessions t ! a)) (tc_traces t) else tc_traces t);
            tid = generate_trace_id now_id; a = length (tc_sessions t)
        in (Some a, t\<lparr>tc_sessions := tc_sessions t @ [\<lparr>tn_id = tid, tn_name = name, tn_start = now, tn_end = None, tn_spans = [], tn_metadata = []\<rparr>],
                      tc_traces := gm_put tid a ts\<rparr>))"

definition nl :: string where "nl = [CHR 0x0A]"

text \<open>\<open>marshal\<close> is \<open>json.MarshalIndent\<close> of a trace with its spans.\<close>

definition export_trace :: "(trace_session \<Rightarrow> trace_span list \<Rightarrow> string option) \<Rightarrow> nat \<Rightarrow> tracer \<Rightarrow> tracer" where
  "export_trace marshal a t =
     (case tc_output t of
        None \<Rightarrow> t
      | Some out \<Rightarrow>
          let s = tc_sessions t ! a
          in case marshal s (map (\<lambda>i. tc_spans t ! i) (tn_spans s)) of
               None \<Rightarrow> t
             | Some data \<Rightarrow> t\<lparr>tc_output := Some (out @ [''=== Trace: '' @ tn_name s @ '' ==='' @ nl, data @ nl, ''=== End Trace ==='' @ nl @ nl])\<rparr>)"

definition upd_trace :: "nat \<Rightarrow> (trace_session \<Rightarrow> trace_session) \<Rightarrow> tracer \<Rightarrow> tracer" where
  "upd_trace a f t = t\<lparr>tc_sessions := (tc_sessions t)[a := f (tc_sessions t ! a)]\<rparr>"

definition end_trace :: "(trace_session \<Rightarrow> trace_span list \<Rightarrow> string option) \<Rightarrow> int \<Rightarrow> string \<Rightarrow> tracer \<Rightarrow> tracer" where
  "end_trace marshal now tid t =
     (case gm_get (tc_traces t) tid of None \<Rightarrow> t | Some a \<Rightarrow> export_trace marshal a (upd_trace a (\<lambda>s. s\<lparr>tn_end := Some now\<rparr>) t))"

text \<open>The methods of traces and spans accept nil, which is \<open>None\<close>.\<close>

definition start_span :: "int \<Rightarrow> int \<Rightarrow> string \<Rightarrow> string \<Rightarrow> nat option \<Rightarrow> tracer \<Rightarrow> nat option \<times> tracer" where
  "start_span now_id now op meth a t =
     (case a of
        None \<Rightarrow> (None, t)
      | Some a \<Rightarrow>
          let i = length (tc_spans t)
          in (Some i, upd_trace a (\<lambda>s. s\<lparr>tn_spans := tn_spans s @ [i]\<rparr>)
                (t\<lparr>tc_spans := tc_spans t @ [\<lparr>sn_id = generate_span_id now_id, sn_parent = [], sn_operation = op, sn_method = meth,
                   sn_start = now, sn_end = None, sn_duration = 0, sn_tags = [], sn_logs = [], sn_error = None,
                   sn_request = VNil, sn_response = VNil\<rparr>]\<rparr>)))"

definition upd_span :: "nat option \<Rightarrow> (trace_span \<Rightarrow> trace_span) \<Rightarrow> tracer \<Rightarrow> tracer" where
  "upd_span i f t = (case i of None \<Rightarrow> t | Some i \<Rightarrow> t\<lparr>tc_spans := (tc_spans t)[i := f (tc_spans t ! i)]\<rparr>)"

definition finish_span :: "int \<Rightarrow> nat option \<Rightarrow> tracer \<Rightarrow> tracer" where
  "finish_span now i t = upd_span i (\<lambda>s. s\<lparr>sn_end := Some now, sn_duration := time_sub now (sn_start s)\<rparr>) t"

definition add_tag :: "string \<Rightarrow> gval \<Rightarrow> nat option \<Rightarrow> tracer \<Rightarrow> tracer" where
  "add_tag key v i t = upd_span i (\<lambda>s. s\<lparr>sn_tags := gm_put key v (sn_tags s)\<rparr>) t"

definition log_event :: "int \<Rightarrow> int \<Rightarrow> string \<Rightarrow> (string \<times> gval) list \<Rightarrow> nat option \<Rightarrow> tracer \<Rightarrow> tracer" where
  "log_event now level msg flds i t =
     upd_span i (\<lambda>s. s\<lparr>sn_logs := sn_logs s @ [\<lparr>tlg_timestamp = now, tlg_level = level, tlg_message = msg, tlg_fields = flds\<rparr>]\<rparr>) t"

text \<open>A nil error has no message to tag: a panic, after the flag was set.\<close>

definition set_error :: "goerr option \<Rightarrow> nat option \<Rightarrow> tracer \<Rightarrow> unit result \<times> tracer" where
  "set_error err i t =
     (case i of
        None \<Rightarrow> (Ok (), t)
      | Some _ \<Rightarrow>
          let t1 = add_tag ''error'' (VBool True) i (upd_span i (\<lambda>s. s\<lparr>sn_error := err\<rparr>) t)
          in (case err of None \<Rightarrow> (Panic, t1) | Some e \<Rightarrow> (Ok (), add_tag ''error.message'' (VStr (error_text e)) i t1)))"

definition set_request :: "gval \<Rightarrow> nat option \<Rightarrow> tracer \<Rightarrow> tracer" where
  "set_request v i t = upd_span i (\<lambda>s. s\<lparr>sn_request := v\<rparr>) t"

definition set_response :: "gval \<Rightarrow> nat option \<Rightarrow> tracer \<Rightarrow> tracer" where
  "set_response v i t = upd_span i (\<lambda>s. s\<lparr>sn_response := v\<rparr>) t"

definition get_trace :: "string \<Rightarrow> tracer \<Rightarrow> nat option" where "get_trace tid t = gm_get (tc_traces t) tid"

definition get_all_traces :: "tracer \<Rightarrow> nat list" where
  "get_all_traces t = sort_key (\<lambda>a. tn_start (tc_sessions t ! a)) (map snd (tc_traces t))"

definition clear_traces :: "tracer \<Rightarrow> tracer" where "clear_traces t = t\<lparr>tc_traces := []\<rparr>"
definition set_enabled :: "bool \<Rightarrow> tracer \<Rightarrow> tracer" where "set_enabled e t = t\<lparr>tc_enabled := e\<rparr>"

section \<open>The tracing wrapper\<close>

text \<open>The interface \<open>Stub\<close> as far as the wrapper uses it, over any state; a promise is an address.\<close>

record 'u stub_ops =
  so_call :: "ctx \<Rightarrow> string \<Rightarrow> gval list \<Rightarrow> 'u \<Rightarrow> nat result \<times> 'u"
  so_get :: "ctx \<Rightarrow> string \<Rightarrow> 'u \<Rightarrow> nat result \<times> 'u"
  so_dispose :: "'u \<Rightarrow> unit result \<times> 'u"

record tracing_stub =
  tsb_trace_id :: string

definition new_tracing_stub :: "string \<Rightarrow> tracing_stub" where "new_tracing_stub tid = \<lparr>tsb_trace_id = tid\<rparr>"

text \<open>
  The clock readings of a call: \<open>nk_id\<close> and \<open>nk_start\<close> of the span, \<open>nk_log\<close> of the log entry and \<open>nk_end\<close>. The
  span is finished by a deferred call, so after a panic as well.
\<close>

record call_clock =
  nk_id :: int
  nk_start :: int
  nk_log :: int
  nk_end :: int

definition note_outcome :: "call_clock \<Rightarrow> string \<Rightarrow> (string \<times> gval) list \<Rightarrow> nat option \<Rightarrow> 'a result \<Rightarrow> tracer \<Rightarrow> 'a result \<times> tracer" where
  "note_outcome K msg flds i r t =
     (case r of
        Ok p \<Rightarrow> (Ok p, finish_span (nk_end K) i (log_event (nk_log K) 4 msg flds i t))
      | Err e \<Rightarrow> (case set_error (Some e) i t of (r', t1) \<Rightarrow> (bind_outcome r' (\<lambda>_. Err e), finish_span (nk_end K) i t1))
      | Panic \<Rightarrow> (Panic, finish_span (nk_end K) i t)
      | Hang \<Rightarrow> (Hang, t))"

definition tracing_call :: "'u stub_ops \<Rightarrow> call_clock \<Rightarrow> tracing_stub \<Rightarrow> ctx \<Rightarrow> string \<Rightarrow> gval list \<Rightarrow> tracer \<times> 'u \<Rightarrow> nat result \<times> tracer \<times> 'u" where
  "tracing_call S K ts c meth args = (\<lambda>(t, u).
     (let (i, t1) = start_span (nk_id K) (nk_start K) ''call'' meth (get_trace (tsb_trace_id ts) t) t;
          t2 = add_tag ''arg_count'' (VInt (int (length args))) i (add_tag ''method'' (VStr meth) i (set_request (VSlice args) i t1));
          (r, u1) = so_call S c meth args u;
          (r', t3) = note_outcome K ''Call successful'' [(''method'', VStr meth)] i r t2
      in (r', t3, u1)))"

definition tracing_get :: "'u stub_ops \<Rightarrow> call_clock \<Rightarrow> tracing_stub \<Rightarrow> ctx \<Rightarrow> string \<Rightarrow> tracer \<times> 'u \<Rightarrow> nat result \<times> tracer \<times> 'u" where
  "tracing_get S K ts c prop = (\<lambda>(t, u).
     (let (i, t1) = start_span (nk_id K) (nk_start K) ''get'' prop (get_trace (tsb_trace_id ts) t) t;
          t2 = add_tag ''property'' (VStr prop) i t1;
          (r, u1) = so_get S c prop u;
          (r', t3) = note_outcome K ''Get successful'' [(''property'', VStr prop)] i r t2
      in (r', t3, u1)))"

text \<open>\<open>Dispose\<close> writes no log entry.\<close>

definition tracing_dispose :: "'u stub_ops \<Rightarrow> call_clock \<Rightarrow> tracing_stub \<Rightarrow> tracer \<times> 'u \<Rightarrow> unit result \<times> tracer \<times> 'u" where
  "tracing_dispose S K ts = (\<lambda>(t, u).
     (let (i, t1) = start_span (nk_id K) (nk_start K) ''release'' ''dispose'' (get_trace (tsb_trace_id ts) t) t;
          (r, u1) = so_dispose S u
      in case r of
           Ok _ \<Rightarrow> (Ok (), finish_span (nk_end K) i t1, u1)
         | Err e \<Rightarrow> (case set_error (Some e) i t1 of (r', t2) \<Rightarrow> (bind_outcome r' (\<lambda>_. Err e), finish_span (nk_end K) i t2, u1))
         | Panic \<Rightarrow> (Panic, finish_span (nk_end K) i t1, u1)
         | Hang \<Rightarrow> (Hang, t1, u1)))"

section \<open>Locks\<close>

text \<open>
  \<open>sync.RWMutex\<close>: readers share it, but none gets in while a writer holds it or waits for it; a waiting
  writer gets it when the last reader leaves. \<open>None\<close> is a call that has to wait; \<open>rw_ask\<close> is another
  goroutine that calls \<open>Lock\<close>.
\<close>

record rw_mutex =
  rw_readers :: nat
  rw_writer :: bool
  rw_waiting :: bool

definition rw_free :: rw_mutex where "rw_free = \<lparr>rw_readers = 0, rw_writer = False, rw_waiting = False\<rparr>"

definition rw_rlock :: "rw_mutex \<Rightarrow> rw_mutex option" where
  "rw_rlock m = (if rw_writer m \<or> rw_waiting m then None else Some (m\<lparr>rw_readers := Suc (rw_readers m)\<rparr>))"

definition rw_runlock :: "rw_mutex \<Rightarrow> rw_mutex" where
  "rw_runlock m =
     (if rw_readers m = 1 \<and> rw_waiting m then \<lparr>rw_readers = 0, rw_writer = True, rw_waiting = False\<rparr>
      else m\<lparr>rw_readers := rw_readers m - 1\<rparr>)"

definition rw_lock :: "rw_mutex \<Rightarrow> rw_mutex option" where
  "rw_lock m = (if rw_writer m \<or> rw_readers m > 0 then None else Some (m\<lparr>rw_writer := True\<rparr>))"

definition rw_unlock :: "rw_mutex \<Rightarrow> rw_mutex" where "rw_unlock m = m\<lparr>rw_writer := False\<rparr>"

definition rw_ask :: "rw_mutex \<Rightarrow> rw_mutex" where
  "rw_ask m = (case rw_lock m of Some m' \<Rightarrow> m' | None \<Rightarrow> m\<lparr>rw_waiting := True\<rparr>)"

section \<open>Performance monitoring\<close>

record monitoring_options =
  mg_histograms :: bool
  mg_buckets :: "int list"
  mg_max_methods :: int
  mg_retention :: int

definition default_monitoring_options :: monitoring_options where
  "default_monitoring_options = \<lparr>mg_histograms = True,
     mg_buckets = [1000000, 5000000, 10000000, 25000000, 50000000, 100000000, 250000000, 500000000, 1000000000, 2500000000, 5000000000],
     mg_max_methods = 1000, mg_retention = 86400000000000\<rparr>"

record method_metrics =
  mx_name :: string
  mx_calls :: int
  mx_errors :: int
  mx_successes :: int
  mx_total :: int
  mx_min :: int
  mx_max :: int
  mx_last :: int
  mx_first :: int
  mx_histogram :: "(string, int) gomap"

record performance_monitor =
  pf_metrics :: "(string, method_metrics) gomap"
  pf_options :: monitoring_options
  pf_lock :: rw_mutex

definition new_performance_monitor :: "monitoring_options \<Rightarrow> performance_monitor" where
  "new_performance_monitor options = \<lparr>pf_metrics = [], pf_options = options, pf_lock = rw_free\<rparr>"

text \<open>\<open>time.Duration.String\<close>: the fraction without its trailing zeros, the unit that fits, or h, m and s.\<close>

definition digits :: "nat \<Rightarrow> nat \<Rightarrow> string" where
  "digits k n = (let s = nat_to_dec n in replicate (k - length s) (CHR ''0'') @ s)"

definition fraction :: "nat \<Rightarrow> nat \<Rightarrow> string" where
  "fraction k n = (let s = rev (dropWhile (\<lambda>c. c = CHR ''0'') (rev (digits k n))) in if s = [] then [] else CHR ''.'' # s)"

definition micro :: string where "micro = [CHR 0xC2, CHR 0xB5]"

definition duration_text :: "nat \<Rightarrow> string" where
  "duration_text n =
     (if n = 0 then ''0s''
      else if n < 1000 then nat_to_dec n @ ''ns''
      else if n < 1000000 then nat_to_dec (n div 1000) @ fraction 3 (n mod 1000) @ micro @ ''s''
      else if n < 1000000000 then nat_to_dec (n div 1000000) @ fraction 6 (n mod 1000000) @ ''ms''
      else
        let s = n div 1000000000; f = fraction 9 (n mod 1000000000) @ ''s''; m = s div 60; h = m div 60
        in (if h > 0 then nat_to_dec h @ ''h'' else []) @ (if m > 0 then nat_to_dec (m mod 60) @ ''m'' else [])
           @ nat_to_dec (s mod 60) @ f)"

definition duration_string :: "int \<Rightarrow> string" where
  "duration_string d = (if d < 0 then CHR ''-'' # duration_text (nat (- d)) else duration_text (nat d))"

fun find_histogram_bucket :: "int list \<Rightarrow> int \<Rightarrow> string" where
  "find_histogram_bucket [] d = ''+Inf''"
| "find_histogram_bucket (b # bs) d = (if d \<le> b then duration_string b else find_histogram_bucket bs d)"

definition fresh_metrics :: "int \<Rightarrow> string \<Rightarrow> int \<Rightarrow> method_metrics" where
  "fresh_metrics now meth d = \<lparr>mx_name = meth, mx_calls = 0, mx_errors = 0, mx_successes = 0, mx_total = 0,
     mx_min = d, mx_max = d, mx_last = 0, mx_first = now, mx_histogram = []\<rparr>"

definition count_one :: "string \<Rightarrow> (string, int) gomap \<Rightarrow> (string, int) gomap" where
  "count_one k h = gm_put k (add64 (case gm_get h k of Some n \<Rightarrow> n | None \<Rightarrow> 0) 1) h"

definition update_metrics :: "monitoring_options \<Rightarrow> int \<Rightarrow> int \<Rightarrow> bool \<Rightarrow> method_metrics \<Rightarrow> method_metrics" where
  "update_metrics opt now d failed x = x\<lparr>mx_calls := add64 (mx_calls x) 1, mx_total := add64 (mx_total x) d, mx_last := now,
     mx_min := (if d < mx_min x then d else mx_min x), mx_max := (if d > mx_max x then d else mx_max x),
     mx_errors := (if failed then add64 (mx_errors x) 1 else mx_errors x),
     mx_successes := (if failed then mx_successes x else add64 (mx_successes x) 1),
     mx_histogram := (if mg_histograms opt then count_one (find_histogram_bucket (mg_buckets opt) d) (mx_histogram x) else mx_histogram x)\<rparr>"

text \<open>\<open>RecordCall\<close> holds the write lock of the monitor; the lock of an entry is only taken under it.\<close>

definition record_locked :: "int \<Rightarrow> int \<Rightarrow> string \<Rightarrow> int \<Rightarrow> bool \<Rightarrow> performance_monitor \<Rightarrow> performance_monitor" where
  "record_locked now_first now meth d failed pm =
     (let ms = pf_metrics pm; opt = pf_options pm
      in case gm_get ms meth of
           Some x \<Rightarrow> pm\<lparr>pf_metrics := gm_put meth (update_metrics opt now d failed x) ms\<rparr>
         | None \<Rightarrow>
             let ms1 = (if int (gm_len ms) \<ge> mg_max_methods opt then evict_oldest mx_first ms else ms)
             in pm\<lparr>pf_metrics := gm_put meth (update_metrics opt now d failed (fresh_metrics now_first meth d)) ms1\<rparr>)"

definition record_call :: "int \<Rightarrow> int \<Rightarrow> string \<Rightarrow> int \<Rightarrow> bool \<Rightarrow> performance_monitor \<Rightarrow> unit result \<times> performance_monitor" where
  "record_call now_first now meth d failed pm =
     (case rw_lock (pf_lock pm) of
        None \<Rightarrow> (Hang, pm\<lparr>pf_lock := rw_ask (pf_lock pm)\<rparr>)
      | Some l \<Rightarrow>
          let pm1 = record_locked now_first now meth d failed (pm\<lparr>pf_lock := l\<rparr>)
          in (Ok (), pm1\<lparr>pf_lock := rw_unlock (pf_lock pm1)\<rparr>))"

text \<open>The copy of an entry, \<open>None\<close> for nil, under the read lock.\<close>

definition get_method_metrics :: "string \<Rightarrow> performance_monitor \<Rightarrow> method_metrics option result \<times> performance_monitor" where
  "get_method_metrics meth pm =
     (case rw_rlock (pf_lock pm) of
        None \<Rightarrow> (Hang, pm)
      | Some l \<Rightarrow> (Ok (gm_get (pf_metrics pm) meth), pm\<lparr>pf_lock := rw_runlock l\<rparr>))"

text \<open>
  \<open>GetAllMetrics\<close> takes its read lock again for every method. A writer (a \<open>RecordCall\<close>) may ask for the lock
  at any time: \<open>arrives i\<close> says that one does after \<open>i\<close> methods.
\<close>

definition writer_at :: "(nat \<Rightarrow> bool) \<Rightarrow> nat \<Rightarrow> rw_mutex \<Rightarrow> rw_mutex" where
  "writer_at arrives i l = (if arrives i then rw_ask l else l)"

fun copy_methods :: "(nat \<Rightarrow> bool) \<Rightarrow> nat \<Rightarrow> string list \<Rightarrow> performance_monitor
    \<Rightarrow> (string \<times> method_metrics option) list result \<times> performance_monitor" where
  "copy_methods arrives i [] pm = (Ok [], pm\<lparr>pf_lock := writer_at arrives i (pf_lock pm)\<rparr>)"
| "copy_methods arrives i (m # ms) pm =
     (case get_method_metrics m (pm\<lparr>pf_lock := writer_at arrives i (pf_lock pm)\<rparr>) of
        (Ok x, pm1) \<Rightarrow> (case copy_methods arrives (Suc i) ms pm1 of (r, pm2) \<Rightarrow> (bind_outcome r (\<lambda>xs. Ok ((m, x) # xs)), pm2))
      | (Err e, pm1) \<Rightarrow> (Err e, pm1) | (Panic, pm1) \<Rightarrow> (Panic, pm1) | (Hang, pm1) \<Rightarrow> (Hang, pm1))"

definition get_all_metrics :: "(nat \<Rightarrow> bool) \<Rightarrow> performance_monitor
    \<Rightarrow> (string \<times> method_metrics option) list result \<times> performance_monitor" where
  "get_all_metrics arrives pm =
     (case rw_rlock (pf_lock pm) of
        None \<Rightarrow> (Hang, pm)
      | Some l \<Rightarrow>
          (case copy_methods arrives 0 (map fst (pf_metrics pm)) (pm\<lparr>pf_lock := l\<rparr>) of
             (Ok xs, pm1) \<Rightarrow> (Ok xs, pm1\<lparr>pf_lock := rw_runlock (pf_lock pm1)\<rparr>)
           | (Err e, pm1) \<Rightarrow> (Err e, pm1) | (Panic, pm1) \<Rightarrow> (Panic, pm1) | (Hang, pm1) \<Rightarrow> (Hang, pm1)))"

record method_summary =
  mu_name :: string
  mu_calls :: int
  mu_error_rate :: float64
  mu_average :: int
  mu_min :: int
  mu_max :: int

record metrics_summary =
  ms_methods :: int
  ms_calls :: int
  ms_errors :: int
  ms_total :: int
  ms_error_rate :: float64
  ms_list :: "method_summary list"

definition f64_ratio :: "int \<Rightarrow> int \<Rightarrow> float64" where
  "f64_ratio a b = f64_round (f64_of_int a / f64_of_int b)"

text \<open>The division of the durations panics for no calls; the ratio of the floats would be NaN.\<close>

fun summarise_methods :: "method_metrics list \<Rightarrow> metrics_summary \<Rightarrow> metrics_summary result" where
  "summarise_methods [] s = Ok s"
| "summarise_methods (x # xs) s =
     (case go_div (mx_total x) (mx_calls x) of
        Ok avg \<Rightarrow> summarise_methods xs (s\<lparr>ms_calls := add64 (ms_calls s) (mx_calls x), ms_errors := add64 (ms_errors s) (mx_errors x),
          ms_total := add64 (ms_total s) (mx_total x),
          ms_list := ms_list s @ [\<lparr>mu_name = mx_name x, mu_calls = mx_calls x, mu_error_rate = f64_ratio (mx_errors x) (mx_calls x),
             mu_average = avg, mu_min = mx_min x, mu_max = mx_max x\<rparr>]\<rparr>)
      | Err e \<Rightarrow> Err e | Panic \<Rightarrow> Panic | Hang \<Rightarrow> Hang)"

definition summary_of :: "(string \<times> method_metrics option) list \<Rightarrow> metrics_summary result" where
  "summary_of ms =
     (case those (map snd ms) of
        None \<Rightarrow> Panic
      | Some xs \<Rightarrow>
          bind_outcome (summarise_methods xs \<lparr>ms_methods = int (length ms), ms_calls = 0, ms_errors = 0, ms_total = 0, ms_error_rate = 0, ms_list = []\<rparr>)
            (\<lambda>s. Ok (s\<lparr>ms_error_rate := (if ms_calls s > 0 then f64_ratio (ms_errors s) (ms_calls s) else ms_error_rate s),
                       ms_list := sort_key (\<lambda>u. - mu_calls u) (ms_list s)\<rparr>)))"

definition get_summary :: "(nat \<Rightarrow> bool) \<Rightarrow> performance_monitor \<Rightarrow> metrics_summary result \<times> performance_monitor" where
  "get_summary arrives pm = (case get_all_metrics arrives pm of (r, pm1) \<Rightarrow> (bind_outcome r summary_of, pm1))"

section \<open>Connections\<close>

record session_info =
  si_id :: string
  si_remote :: string
  si_start :: int
  si_last :: int
  si_sent :: int
  si_recv :: int
  si_bytes_sent :: int
  si_bytes_recv :: int
  si_exports :: "(int, string) gomap"
  si_imports :: "(int, string) gomap"
  si_state :: string

record connection_inspector =
  cn_sessions :: "(string, session_info) gomap"
  cn_lock :: rw_mutex

definition new_connection_inspector :: connection_inspector where
  "new_connection_inspector = \<lparr>cn_sessions = [], cn_lock = rw_free\<rparr>"

text \<open>A change of the table under the write lock.\<close>

definition with_sessions :: "((string, session_info) gomap \<Rightarrow> (string, session_info) gomap) \<Rightarrow> connection_inspector
    \<Rightarrow> unit result \<times> connection_inspector" where
  "with_sessions f ci =
     (case rw_lock (cn_lock ci) of
        None \<Rightarrow> (Hang, ci\<lparr>cn_lock := rw_ask (cn_lock ci)\<rparr>)
      | Some l \<Rightarrow> (Ok (), ci\<lparr>cn_sessions := f (cn_sessions ci), cn_lock := rw_unlock l\<rparr>))"

text \<open>The session that is registered is not looked at.\<close>

definition register_session :: "int \<Rightarrow> int \<Rightarrow> int \<Rightarrow> connection_inspector \<Rightarrow> unit result \<times> connection_inspector" where
  "register_session now_id now_start now_last =
     with_sessions (let i = generate_session_id now_id
      in gm_put i \<lparr>si_id = i, si_remote = [], si_start = now_start, si_last = now_last, si_sent = 0, si_recv = 0, si_bytes_sent = 0,
           si_bytes_recv = 0, si_exports = [], si_imports = [], si_state = ''active''\<rparr>)"

definition update_session_activity :: "int \<Rightarrow> string \<Rightarrow> connection_inspector \<Rightarrow> unit result \<times> connection_inspector" where
  "update_session_activity now i =
     with_sessions (\<lambda>t. case gm_get t i of None \<Rightarrow> t | Some s \<Rightarrow> gm_put i (s\<lparr>si_last := now\<rparr>) t)"

definition get_session_info :: "string \<Rightarrow> connection_inspector \<Rightarrow> session_info option result \<times> connection_inspector" where
  "get_session_info i ci =
     (case rw_rlock (cn_lock ci) of
        None \<Rightarrow> (Hang, ci)
      | Some l \<Rightarrow> (Ok (gm_get (cn_sessions ci) i), ci\<lparr>cn_lock := rw_runlock l\<rparr>))"

text \<open>Like \<open>GetAllMetrics\<close>; the comparison of the sort looks into every element, when there are two.\<close>

fun copy_sessions :: "(nat \<Rightarrow> bool) \<Rightarrow> nat \<Rightarrow> string list \<Rightarrow> connection_inspector
    \<Rightarrow> session_info option list result \<times> connection_inspector" where
  "copy_sessions arrives i [] ci = (Ok [], ci\<lparr>cn_lock := writer_at arrives i (cn_lock ci)\<rparr>)"
| "copy_sessions arrives i (k # ks) ci =
     (case get_session_info k (ci\<lparr>cn_lock := writer_at arrives i (cn_lock ci)\<rparr>) of
        (Ok x, ci1) \<Rightarrow> (case copy_sessions arrives (Suc i) ks ci1 of (r, ci2) \<Rightarrow> (bind_outcome r (\<lambda>xs. Ok (x # xs)), ci2))
      | (Err e, ci1) \<Rightarrow> (Err e, ci1) | (Panic, ci1) \<Rightarrow> (Panic, ci1) | (Hang, ci1) \<Rightarrow> (Hang, ci1))"

definition sort_sessions :: "session_info option list \<Rightarrow> session_info option list result" where
  "sort_sessions xs =
     (if 1 < length xs \<and> None \<in> set xs then Panic
      else Ok (sort_key (\<lambda>x. case x of Some s \<Rightarrow> si_start s | None \<Rightarrow> 0) xs))"

definition get_all_sessions :: "(nat \<Rightarrow> bool) \<Rightarrow> connection_inspector \<Rightarrow> session_info option list result \<times> connection_inspector" where
  "get_all_sessions arrives ci =
     (case rw_rlock (cn_lock ci) of
        None \<Rightarrow> (Hang, ci)
      | Some l \<Rightarrow>
          (case copy_sessions arrives 0 (map (\<lambda>e. si_id (snd e)) (cn_sessions ci)) (ci\<lparr>cn_lock := l\<rparr>) of
             (Ok xs, ci1) \<Rightarrow> (sort_sessions xs, ci1\<lparr>cn_lock := rw_runlock (cn_lock ci1)\<rparr>)
           | (Err e, ci1) \<Rightarrow> (Err e, ci1) | (Panic, ci1) \<Rightarrow> (Panic, ci1) | (Hang, ci1) \<Rightarrow> (Hang, ci1)))"

section \<open>The wrapper is transparent\<close>

lemma set_error_Some: "fst (set_error (Some e) i t) = Ok ()"
  by (simp add: set_error_def Let_def split: option.split)

lemma set_error_pair: "set_error (Some e) i t = (Ok (), snd (set_error (Some e) i t))"
  using set_error_Some [of e i t] by (cases "set_error (Some e) i t") simp

lemma note_outcome_result: "fst (note_outcome K msg flds i r t) = r"
  by (cases r) (simp_all add: note_outcome_def case_prod_beta set_error_Some)

text \<open>What a span that was opened last records of an outcome.\<close>

definition span_records :: "'a result \<Rightarrow> trace_span \<Rightarrow> bool" where
  "span_records r s \<longleftrightarrow> sn_end s \<noteq> None \<and> sn_error s = (case r of Err e \<Rightarrow> Some e | _ \<Rightarrow> None)
     \<and> (\<forall>e. r = Err e \<longrightarrow> gm_get (sn_tags s) ''error.message'' = Some (VStr (error_text e)))"

lemma upd_span_last:
  "tc_spans t = ss @ [s] \<Longrightarrow> tc_spans (upd_span (Some (length ss)) f t) = ss @ [f s]"
  by (simp add: upd_span_def)

lemma note_outcome_last:
  assumes "tc_spans t = ss @ [s]" and "r \<noteq> Hang" and "sn_error s = None"
  obtains s' where "tc_spans (snd (note_outcome K msg flds (Some (length ss)) r t)) = ss @ [s']" "span_records r s'"
    "sn_method s' = sn_method s" "sn_operation s' = sn_operation s" "sn_request s' = sn_request s"
proof (cases r)
  case (Ok p)
  with assms that show thesis
    by (simp add: note_outcome_def finish_span_def log_event_def upd_span_last span_records_def)
next
  case (Err e)
  with assms that show thesis
    by (simp add: note_outcome_def set_error_def Let_def finish_span_def add_tag_def upd_span_last span_records_def update_conv')
next
  case Panic
  with assms that show thesis by (simp add: note_outcome_def finish_span_def upd_span_last span_records_def)
qed (use assms in simp)

lemma note_outcome_none [simp]: "snd (note_outcome K msg flds None r t) = t"
  by (cases r) (simp_all add: note_outcome_def finish_span_def log_event_def upd_span_def set_error_def)

text \<open>
  The addresses in a tracer are those of existing traces and spans; no operation on a span touches the traces.
\<close>

definition tracer_wf :: "tracer \<Rightarrow> bool" where
  "tracer_wf t \<longleftrightarrow> (\<forall>e \<in> set (tc_traces t). snd e < length (tc_sessions t))
     \<and> (\<forall>ss \<in> set (tc_sessions t). \<forall>i \<in> set (tn_spans ss). i < length (tc_spans t))"

definition spans_of :: "tracer \<Rightarrow> nat \<Rightarrow> trace_span list" where
  "spans_of t a = map ((!) (tc_spans t)) (tn_spans (tc_sessions t ! a))"

lemma upd_span_keeps [simp]:
  "tc_sessions (upd_span i f t) = tc_sessions t" "tc_traces (upd_span i f t) = tc_traces t"
  "length (tc_spans (upd_span i f t)) = length (tc_spans t)"
  by (simp_all add: upd_span_def split: option.split)

lemma note_outcome_keeps [simp]:
  "tc_sessions (snd (note_outcome K msg flds i r t)) = tc_sessions t" "tc_traces (snd (note_outcome K msg flds i r t)) = tc_traces t"
  "length (tc_spans (snd (note_outcome K msg flds i r t))) = length (tc_spans t)"
  by (cases r; cases i; simp add: note_outcome_def finish_span_def log_event_def set_error_def add_tag_def Let_def)+

lemma tracer_wf_start_trace: "tracer_wf t \<Longrightarrow> tracer_wf (snd (start_trace now_id now name t))"
proof -
  assume wf: "tracer_wf t"
  let ?ts = "if int (gm_len (tc_traces t)) \<ge> tg_max_traces (tc_options t)
      then evict_oldest (\<lambda>a. tn_start (tc_sessions t ! a)) (tc_traces t) else tc_traces t"
  have "set ?ts \<subseteq> set (tc_traces t)" by (auto simp: evict_oldest_def Let_def AList.delete_eq)
  moreover have "set (gm_put k a m) \<subseteq> insert (k, a) (set m)" for k a and m :: "(string, nat) gomap"
    by (induction m) auto
  ultimately have sub: "set (gm_put (generate_trace_id now_id) (length (tc_sessions t)) ?ts)
      \<subseteq> insert (generate_trace_id now_id, length (tc_sessions t)) (set (tc_traces t))" by blast
  have "\<forall>e \<in> set (gm_put (generate_trace_id now_id) (length (tc_sessions t)) ?ts). snd e < Suc (length (tc_sessions t))"
  proof
    fix e assume "e \<in> set (gm_put (generate_trace_id now_id) (length (tc_sessions t)) ?ts)"
    with sub have "e = (generate_trace_id now_id, length (tc_sessions t)) \<or> e \<in> set (tc_traces t)" by blast
    with wf show "snd e < Suc (length (tc_sessions t))" by (auto simp: tracer_wf_def)
  qed
  moreover have "\<forall>ss \<in> set (tc_sessions t). \<forall>i \<in> set (tn_spans ss). i < length (tc_spans t)" using wf by (simp add: tracer_wf_def)
  ultimately show ?thesis using wf by (simp add: tracer_wf_def start_trace_def Let_def)
qed

lemma start_span_known:
  assumes "tracer_wf t" and "get_trace tid t = Some a" and "snd (start_span now_id now op meth (Some a) t) = t1"
  shows "a < length (tc_sessions t) \<and> tracer_wf t1 \<and> tc_traces t1 = tc_traces t
    \<and> tc_sessions t1 = (tc_sessions t)[a := (tc_sessions t ! a)\<lparr>tn_spans := tn_spans (tc_sessions t ! a) @ [length (tc_spans t)]\<rparr>]
    \<and> length (tc_spans t1) = Suc (length (tc_spans t))"
proof -
  have "(tid, a) \<in> set (tc_traces t)" using assms(2) by (simp add: get_trace_def map_of_SomeD)
  with assms(1) have a: "a < length (tc_sessions t)" by (auto simp: tracer_wf_def)
  have t1: "tc_sessions t1 = (tc_sessions t)[a := (tc_sessions t ! a)\<lparr>tn_spans := tn_spans (tc_sessions t ! a) @ [length (tc_spans t)]\<rparr>]"
    "tc_traces t1 = tc_traces t" "length (tc_spans t1) = Suc (length (tc_spans t))"
    using assms(3) by (auto simp: start_span_def upd_trace_def Let_def)
  have "\<forall>ss \<in> set (tc_sessions t1). \<forall>i \<in> set (tn_spans ss). i < Suc (length (tc_spans t))"
  proof
    fix ss assume "ss \<in> set (tc_sessions t1)"
    then have "ss \<in> set (tc_sessions t) \<or> ss = (tc_sessions t ! a)\<lparr>tn_spans := tn_spans (tc_sessions t ! a) @ [length (tc_spans t)]\<rparr>"
      unfolding t1 by (meson insert_iff set_update_subset_insert subsetD)
    moreover have "tc_sessions t ! a \<in> set (tc_sessions t)" using a by simp
    ultimately show "\<forall>i \<in> set (tn_spans ss). i < Suc (length (tc_spans t))"
      using assms(1) by (auto simp: tracer_wf_def less_Suc_eq)
  qed
  with assms(1) a t1 show ?thesis by (simp add: tracer_wf_def)
qed

lemma spans_of_added:
  assumes "tracer_wf t" and "a < length (tc_sessions t)" and "tc_spans t' = tc_spans t @ [s]"
    and "tc_sessions t' = (tc_sessions t)[a := (tc_sessions t ! a)\<lparr>tn_spans := tn_spans (tc_sessions t ! a) @ [length (tc_spans t)]\<rparr>]"
  shows "spans_of t' a = spans_of t a @ [s]" and "b < length (tc_sessions t) \<Longrightarrow> b \<noteq> a \<Longrightarrow> spans_of t' b = spans_of t b"
proof -
  have i: "i < length (tc_spans t)" if "i \<in> set (tn_spans (tc_sessions t ! b))" "b < length (tc_sessions t)" for i b
    using assms(1) that by (auto simp: tracer_wf_def)
  show "spans_of t' a = spans_of t a @ [s]"
    using assms(2-4) i [OF _ assms(2)] by (auto simp: spans_of_def nth_append)
  show "spans_of t' b = spans_of t b" if "b < length (tc_sessions t)" "b \<noteq> a"
    using that assms(3,4) i [OF _ that(1)] by (auto simp: spans_of_def nth_append)
qed

text \<open>
  C38: Tracing changes nothing and misses nothing. A traced call returns what the stub returns and leaves it
  in the same state, whether its trace is known, dropped in favour of newer ones, or was never started; if
  the trace is known and the call comes back, the list of the spans of that trace has grown by one span,
  at its end, that is finished, has the arguments, and records the error exactly if there was one, and the
  spans of every other trace are as they were.
\<close>

theorem tracing_transparent:
  assumes "tracing_call S K ts c meth args (t, u) = (r, t', u')" and "tracer_wf t"
  shows "(r, u') = so_call S c meth args u
    \<and> (get_trace (tsb_trace_id ts) t = None \<longrightarrow> t' = t)
    \<and> (\<forall>a. get_trace (tsb_trace_id ts) t = Some a \<and> r \<noteq> Hang \<longrightarrow>
        (\<exists>s. spans_of t' a = spans_of t a @ [s] \<and> span_records r s \<and> sn_method s = meth \<and> sn_operation s = ''call''
           \<and> sn_request s = VSlice args)
        \<and> (\<forall>b < length (tc_sessions t). b \<noteq> a \<longrightarrow> spans_of t' b = spans_of t b))"
proof (cases "get_trace (tsb_trace_id ts) t")
  case None
  with assms have "r = fst (note_outcome K ''Call successful'' [(''method'', VStr meth)] None (fst (so_call S c meth args u)) t)"
    "t' = snd (note_outcome K ''Call successful'' [(''method'', VStr meth)] None (fst (so_call S c meth args u)) t)"
    "u' = snd (so_call S c meth args u)"
    by (auto simp: tracing_call_def start_span_def set_request_def add_tag_def upd_span_def Let_def case_prod_beta)
  with None show ?thesis by (simp add: note_outcome_result)
next
  case (Some a)
  let ?n = "length (tc_spans t)"
  define t1 where "t1 = snd (start_span (nk_id K) (nk_start K) ''call'' meth (Some a) t)"
  define t2 where "t2 = add_tag ''arg_count'' (VInt (int (length args))) (Some ?n) (add_tag ''method'' (VStr meth) (Some ?n)
     (set_request (VSlice args) (Some ?n) t1))"
  have e: "r = fst (note_outcome K ''Call successful'' [(''method'', VStr meth)] (Some ?n) (fst (so_call S c meth args u)) t2)"
    "t' = snd (note_outcome K ''Call successful'' [(''method'', VStr meth)] (Some ?n) (fst (so_call S c meth args u)) t2)"
    "u' = snd (so_call S c meth args u)"
    using assms Some by (auto simp: tracing_call_def start_span_def t1_def t2_def Let_def case_prod_beta)
  obtain s where s: "tc_spans t2 = tc_spans t @ [s]" "sn_error s = None" "sn_method s = meth" "sn_operation s = ''call''" "sn_request s = VSlice args"
    by (simp add: t2_def t1_def start_span_def set_request_def add_tag_def upd_span_def upd_trace_def Let_def)
  have r: "r = fst (so_call S c meth args u)" using e(1) by (simp add: note_outcome_result)
  note known = start_span_known [OF assms(2) Some t1_def [symmetric]]
  have "tc_sessions t' = tc_sessions t1" by (simp add: e(2) t2_def add_tag_def set_request_def)
  note added = spans_of_added [OF assms(2), of a t', unfolded this]
  have "(\<exists>s. spans_of t' a = spans_of t a @ [s] \<and> span_records r s \<and> sn_method s = meth \<and> sn_operation s = ''call'' \<and> sn_request s = VSlice args)
      \<and> (\<forall>b < length (tc_sessions t). b \<noteq> a \<longrightarrow> spans_of t' b = spans_of t b)"
    if "r \<noteq> Hang"
  proof -
    note ret = that
    obtain s' where s': "tc_spans t' = tc_spans t @ [s']" "span_records r s'" "sn_method s' = meth" "sn_operation s' = ''call''"
      "sn_request s' = VSlice args"
      using note_outcome_last [OF s(1) ret s(2), of K "''Call successful''" "[(''method'', VStr meth)]"] s(3-5) e(2) r by metis
    with added [OF _ s'(1)] known show ?thesis by blast
  qed
  with Some r e(3) show ?thesis by simp
qed

definition failing_stub :: "unit stub_ops" where
  "failing_stub = \<lparr>so_call = (\<lambda>_ _ _ u. (Err (EMsg ''no''), u)), so_get = (\<lambda>_ _ u. (Err (EMsg ''no''), u)), so_dispose = (\<lambda>u. (Ok (), u))\<rparr>"

definition sample_tracer :: tracer where
  "sample_tracer = snd (start_trace 1 1 ''job'' (new_tracer False default_tracing_options))"

lemma tracing_transparent_witness:
  "\<exists>t' s. tracing_call failing_stub \<lparr>nk_id = 2, nk_start = 2, nk_log = 3, nk_end = 4\<rparr> (new_tracing_stub ''trace_1'') CtxLive ''get'' [] (sample_tracer, ())
      = (Err (EMsg ''no''), t', ()) \<and> spans_of t' 0 = [s] \<and> span_records (Err (EMsg ''no'') :: nat result) s"
proof -
  let ?r = "tracing_call failing_stub \<lparr>nk_id = 2, nk_start = 2, nk_log = 3, nk_end = 4\<rparr> (new_tracing_stub ''trace_1'') CtxLive ''get'' [] (sample_tracer, ())"
  obtain r t' u' where e: "?r = (r, t', u')" by (rule prod_cases3)
  have "tracer_wf sample_tracer" unfolding sample_tracer_def
    by (rule tracer_wf_start_trace) (simp add: tracer_wf_def new_tracer_def)
  moreover have "get_trace (tsb_trace_id (new_tracing_stub ''trace_1'')) sample_tracer = Some 0" "spans_of sample_tracer 0 = []" by code_simp+
  moreover have "so_call failing_stub CtxLive ''get'' [] () = (Err (EMsg ''no''), ())" by (simp add: failing_stub_def)
  ultimately show ?thesis
    using tracing_transparent [OF e] e by auto
qed

section \<open>Metrics\<close>

text \<open>A recorded call with the clock readings around it.\<close>

record call_record =
  cl_first :: int
  cl_now :: int
  cl_method :: string
  cl_duration :: int
  cl_failed :: bool

definition monitor_step :: "call_record \<Rightarrow> performance_monitor \<Rightarrow> performance_monitor" where
  "monitor_step c pm = snd (record_call (cl_first c) (cl_now c) (cl_method c) (cl_duration c) (cl_failed c) pm)"

definition monitor_run :: "monitoring_options \<Rightarrow> call_record list \<Rightarrow> performance_monitor" where
  "monitor_run opt cs = fold monitor_step cs (new_performance_monitor opt)"

text \<open>Between calls the lock is free.\<close>

lemma monitor_step_free:
  assumes "pf_lock pm = rw_free"
  shows "monitor_step c pm = record_locked (cl_first c) (cl_now c) (cl_method c) (cl_duration c) (cl_failed c) pm
    \<and> pf_lock (monitor_step c pm) = rw_free"
  using assms
  by (cases pm) (auto simp: monitor_step_def record_call_def record_locked_def rw_lock_def rw_unlock_def rw_free_def Let_def
      split: option.split)

lemma monitor_run_free: "pf_lock (monitor_run opt cs) = rw_free"
proof (induction cs rule: rev_induct)
  case Nil
  then show ?case by (simp add: monitor_run_def new_performance_monitor_def)
next
  case (snoc c cs)
  have "monitor_run opt (cs @ [c]) = monitor_step c (monitor_run opt cs)" by (simp add: monitor_run_def)
  with conjunct2 [OF monitor_step_free [OF snoc]] show ?case by simp
qed

lemma monitor_step_run: "monitor_step c (monitor_run opt cs)
    = record_locked (cl_first c) (cl_now c) (cl_method c) (cl_duration c) (cl_failed c) (monitor_run opt cs)"
  using monitor_step_free [OF monitor_run_free] by simp

text \<open>What the metrics of a method should be, from the list of its calls.\<close>

definition accounts :: "monitoring_options \<Rightarrow> call_record list \<Rightarrow> method_metrics \<Rightarrow> bool" where
  "accounts opt ds x \<longleftrightarrow> mx_calls x = int64 (int (length ds))
     \<and> mx_errors x = int64 (int (length (filter cl_failed ds)))
     \<and> mx_successes x = int64 (int (length (filter (\<lambda>c. \<not> cl_failed c) ds)))
     \<and> mx_total x = int64 (sum_list (map cl_duration ds))
     \<and> mx_min x = Min (cl_duration ` set ds) \<and> mx_max x = Max (cl_duration ` set ds)
     \<and> mx_last x = cl_now (last ds) \<and> mx_first x = cl_first (hd ds)
     \<and> (\<forall>k. gm_get (mx_histogram x) k =
          (let n = length (filter (\<lambda>c. find_histogram_bucket (mg_buckets opt) (cl_duration c) = k) ds)
           in if mg_histograms opt \<and> n > 0 then Some (int64 (int n)) else None))"

lemma int64_zero [simp]: "int64 0 = 0"
  by code_simp

lemma int64_add_right [simp]: "int64 (a + int64 b) = int64 (a + b)"
  by (metis add.commute int64_int64_add)

lemma count_one_get:
  "gm_get (count_one k h) j = (if j = k then Some (add64 (case gm_get h k of Some n \<Rightarrow> n | None \<Rightarrow> 0) 1) else gm_get h j)"
  by (simp add: count_one_def update_conv')

lemma update_metrics_range:
  "mx_min (update_metrics opt now d failed x) = min d (mx_min x)" "mx_max (update_metrics opt now d failed x) = max d (mx_max x)"
  by (simp_all add: update_metrics_def min_def max_def)

lemma accounts_first:
  "accounts opt [c] (update_metrics opt (cl_now c) (cl_duration c) (cl_failed c) (fresh_metrics (cl_first c) m (cl_duration c)))"
  by (simp add: accounts_def update_metrics_def fresh_metrics_def count_one_get add64_def)

lemma accounts_histogram:
  assumes "accounts opt ds x"
  shows "gm_get (mx_histogram (update_metrics opt now (cl_duration c) failed x)) k =
    (let n = length (filter (\<lambda>c. find_histogram_bucket (mg_buckets opt) (cl_duration c) = k) (ds @ [c]))
     in if mg_histograms opt \<and> n > 0 then Some (int64 (int n)) else None)"
proof -
  have h: "gm_get (mx_histogram x) k = (let n = length (filter (\<lambda>c. find_histogram_bucket (mg_buckets opt) (cl_duration c) = k) ds)
     in if mg_histograms opt \<and> n > 0 then Some (int64 (int n)) else None)" for k
    using assms unfolding accounts_def by blast
  show ?thesis
    by (simp add: update_metrics_def count_one_get h Let_def add64_def add.commute)
qed

lemma accounts_next:
  assumes "accounts opt ds x" and "ds \<noteq> []"
  shows "accounts opt (ds @ [c]) (update_metrics opt (cl_now c) (cl_duration c) (cl_failed c) x)"
proof -
  let ?y = "update_metrics opt (cl_now c) (cl_duration c) (cl_failed c) x"
  have a: "mx_calls x = int64 (int (length ds))" "mx_errors x = int64 (int (length (filter cl_failed ds)))"
    "mx_successes x = int64 (int (length (filter (\<lambda>c. \<not> cl_failed c) ds)))" "mx_total x = int64 (sum_list (map cl_duration ds))"
    "mx_min x = Min (cl_duration ` set ds)" "mx_max x = Max (cl_duration ` set ds)" "mx_first x = cl_first (hd ds)"
    using assms(1) unfolding accounts_def by blast+
  have "mx_calls ?y = int64 (int (length (ds @ [c])))" "mx_total ?y = int64 (sum_list (map cl_duration (ds @ [c])))"
    "mx_last ?y = cl_now (last (ds @ [c]))"
    by (simp_all add: update_metrics_def add64_def a add.commute)
  moreover have "mx_errors ?y = int64 (int (length (filter cl_failed (ds @ [c]))))"
    "mx_successes ?y = int64 (int (length (filter (\<lambda>c. \<not> cl_failed c) (ds @ [c]))))"
    by (simp_all add: update_metrics_def add64_def a add.commute)
  moreover have "mx_min ?y = Min (cl_duration ` set (ds @ [c]))" "mx_max ?y = Max (cl_duration ` set (ds @ [c]))"
  proof -
    have "Min (cl_duration ` set (ds @ [c])) = min (cl_duration c) (Min (cl_duration ` set ds))"
      "Max (cl_duration ` set (ds @ [c])) = max (cl_duration c) (Max (cl_duration ` set ds))" using assms(2) by simp_all
    then show "mx_min ?y = Min (cl_duration ` set (ds @ [c]))" "mx_max ?y = Max (cl_duration ` set (ds @ [c]))"
      by (simp_all only: update_metrics_range a)
  qed
  moreover have "mx_first ?y = cl_first (hd (ds @ [c]))" using assms(2) by (simp add: update_metrics_def a)
  ultimately show ?thesis
    unfolding accounts_def using accounts_histogram [OF assms(1)] by blast
qed

text \<open>As long as the methods fit, no entry is dropped.\<close>

definition calls_of :: "string \<Rightarrow> call_record list \<Rightarrow> call_record list" where
  "calls_of m cs = filter (\<lambda>c. cl_method c = m) cs"

definition accounted :: "monitoring_options \<Rightarrow> call_record list \<Rightarrow> method_metrics option \<Rightarrow> bool" where
  "accounted opt ds x \<longleftrightarrow> (case x of None \<Rightarrow> ds = [] | Some x \<Rightarrow> ds \<noteq> [] \<and> accounts opt ds x)"

lemma accounted_simps [simp]:
  "accounted opt ds None \<longleftrightarrow> ds = []" "accounted opt ds (Some x) \<longleftrightarrow> ds \<noteq> [] \<and> accounts opt ds x"
  by (simp_all add: accounted_def)

lemma monitor_run_accounts:
  assumes "int (card (cl_method ` set cs)) \<le> mg_max_methods opt"
  shows "gm_wf (pf_metrics (monitor_run opt cs)) \<and> pf_options (monitor_run opt cs) = opt
    \<and> (\<forall>m. accounted opt (calls_of m cs) (gm_get (pf_metrics (monitor_run opt cs)) m))"
  using assms
proof (induction cs rule: rev_induct)
  case Nil
  then show ?case by (simp add: monitor_run_def new_performance_monitor_def calls_of_def)
next
  case (snoc c cs)
  let ?pm = "monitor_run opt cs"
  have "card (cl_method ` set cs) \<le> card (cl_method ` set (cs @ [c]))" by (intro card_mono) auto
  with snoc have wf: "gm_wf (pf_metrics ?pm)" and opt: "pf_options ?pm = opt"
    and acc: "\<And>m. accounted opt (calls_of m cs) (gm_get (pf_metrics ?pm) m)"
    by auto
  have run: "monitor_run opt (cs @ [c]) = monitor_step c ?pm" by (simp add: monitor_run_def)
  have other: "calls_of m (cs @ [c]) = (if m = cl_method c then calls_of m cs @ [c] else calls_of m cs)" for m
    by (auto simp: calls_of_def)
  show ?case
  proof (cases "gm_get (pf_metrics ?pm) (cl_method c)")
    case (Some x)
    with acc [of "cl_method c"] have x: "calls_of (cl_method c) cs \<noteq> []" "accounts opt (calls_of (cl_method c) cs) x" by simp_all
    have step: "monitor_step c ?pm = ?pm\<lparr>pf_metrics := gm_put (cl_method c)
        (update_metrics opt (cl_now c) (cl_duration c) (cl_failed c) x) (pf_metrics ?pm)\<rparr>"
      using Some by (simp add: monitor_step_run record_locked_def opt)
    show ?thesis using wf opt acc accounts_next [OF x(2,1)] by (simp add: run step other update_conv')
  next
    case None
    with acc [of "cl_method c"] have new: "calls_of (cl_method c) cs = []" by simp
    then have "cl_method c \<notin> cl_method ` set cs" by (auto simp: calls_of_def filter_empty_conv)
    then have "card (cl_method ` set (cs @ [c])) = Suc (card (cl_method ` set cs))" by simp
    moreover have "length (pf_metrics ?pm) \<le> card (cl_method ` set cs)"
    proof -
      have "fst ` set (pf_metrics ?pm) \<subseteq> cl_method ` set cs"
      proof
        fix m assume "m \<in> fst ` set (pf_metrics ?pm)"
        then obtain x where "gm_get (pf_metrics ?pm) m = Some x" using wf by (metis (no_types, lifting) gm_in_set imageE prod.collapse)
        with acc [of m] show "m \<in> cl_method ` set cs" by (auto simp: calls_of_def filter_empty_conv)
      qed
      moreover have "card (fst ` set (pf_metrics ?pm)) = length (pf_metrics ?pm)"
        using wf by (metis gm_wf_def distinct_card length_map list.set_map)
      ultimately show ?thesis by (metis card_mono finite_imageI finite_set)
    qed
    ultimately have "\<not> int (gm_len (pf_metrics ?pm)) \<ge> mg_max_methods opt" using snoc.prems by simp
    then have step: "monitor_step c ?pm = ?pm\<lparr>pf_metrics := gm_put (cl_method c)
        (update_metrics opt (cl_now c) (cl_duration c) (cl_failed c) (fresh_metrics (cl_first c) (cl_method c) (cl_duration c))) (pf_metrics ?pm)\<rparr>"
      using None by (simp add: monitor_step_run record_locked_def opt)
    show ?thesis using wf opt acc accounts_first [of opt c "cl_method c"] new by (simp add: run step other update_conv')
  qed
qed

text \<open>
  C40: The metrics are the account of the calls. After any calls of no more methods than the monitor may
  track, the entry of a method has the number of its calls, errors and successes and the sum of its
  durations (modulo the word size), their least and greatest, the first and last clock reading, and in every
  bucket of the histogram the number of calls that fall into it; a method without calls has no entry.
\<close>

theorem metrics_account:
  assumes "int (card (cl_method ` set cs)) \<le> mg_max_methods opt"
  shows "\<exists>x. get_method_metrics m (monitor_run opt cs) = (Ok x, monitor_run opt cs) \<and> accounted opt (calls_of m cs) x"
proof -
  have "get_method_metrics m (monitor_run opt cs) = (Ok (gm_get (pf_metrics (monitor_run opt cs)) m), monitor_run opt cs)"
    using monitor_run_free [of opt cs]
    by (cases "monitor_run opt cs") (simp add: get_method_metrics_def rw_rlock_def rw_runlock_def rw_free_def)
  with monitor_run_accounts [OF assms] show ?thesis by blast
qed

lemma metrics_account_witness:
  "\<exists>x. fst (get_method_metrics ''get'' (monitor_run (default_monitoring_options\<lparr>mg_max_methods := 1\<rparr>)
        [\<lparr>cl_first = 1, cl_now = 2, cl_method = ''get'', cl_duration = 5, cl_failed = False\<rparr>])) = Ok (Some x) \<and> mx_calls x = 1"
proof -
  let ?c = "\<lparr>cl_first = 1, cl_now = 2, cl_method = ''get'', cl_duration = 5, cl_failed = False\<rparr>"
  let ?opt = "default_monitoring_options\<lparr>mg_max_methods := 1\<rparr>"
  obtain x where x: "get_method_metrics ''get'' (monitor_run ?opt [?c]) = (Ok x, monitor_run ?opt [?c])" "accounted ?opt [?c] x"
    using metrics_account [of "[?c]" ?opt "''get''"] by (auto simp: calls_of_def)
  then show ?thesis by (cases x) (auto simp: accounts_def int64_id)
qed

text \<open>The summary adds up the entries; it divides by no zero, since an entry has a call.\<close>

lemma summarise_methods_Ok:
  assumes "\<forall>x \<in> set xs. mx_calls x \<noteq> 0" and "ms_calls s = int64 (ms_calls s)" and "ms_errors s = int64 (ms_errors s)"
  obtains s' where "summarise_methods xs s = Ok s'" "ms_calls s' = int64 (ms_calls s + sum_list (map mx_calls xs))"
    "ms_errors s' = int64 (ms_errors s + sum_list (map mx_errors xs))" "ms_methods s' = ms_methods s"
  using assms
proof (induction xs arbitrary: s thesis)
  case Nil
  then show ?case by simp
next
  case (Cons x xs)
  then obtain avg where avg: "(go_div (mx_total x) (mx_calls x) :: int result) = Ok avg" by (auto simp: go_div_def)
  define s1 where "s1 = s\<lparr>ms_calls := add64 (ms_calls s) (mx_calls x), ms_errors := add64 (ms_errors s) (mx_errors x),
      ms_total := add64 (ms_total s) (mx_total x),
      ms_list := ms_list s @ [\<lparr>mu_name = mx_name x, mu_calls = mx_calls x, mu_error_rate = f64_ratio (mx_errors x) (mx_calls x),
         mu_average = avg, mu_min = mx_min x, mu_max = mx_max x\<rparr>]\<rparr>"
  have "summarise_methods (x # xs) s = summarise_methods xs s1" by (simp add: avg s1_def)
  moreover obtain s' where "summarise_methods xs s1 = Ok s'" "ms_calls s' = int64 (ms_calls s1 + sum_list (map mx_calls xs))"
    "ms_errors s' = int64 (ms_errors s1 + sum_list (map mx_errors xs))" "ms_methods s' = ms_methods s1"
    using Cons.IH [of s1] Cons.prems(2) by (auto simp: s1_def add64_def)
  ultimately show ?case using Cons.prems(1) [of s'] by (simp add: s1_def add64_def add.assoc)
qed

lemma calls_partition: "(\<Sum>m \<in> cl_method ` set cs. length (calls_of m cs)) = length cs"
proof -
  have "count (mset (map cl_method cs)) m = length (calls_of m cs)" for m
    by (induction cs) (simp_all add: calls_of_def)
  then have "(\<Sum>m \<in> cl_method ` set cs. length (calls_of m cs)) = size (mset (map cl_method cs))"
    by (simp add: size_multiset_overloaded_eq)
  then show ?thesis by simp
qed

lemma failed_partition: "(\<Sum>m \<in> cl_method ` set cs. length (filter cl_failed (calls_of m cs))) = length (filter cl_failed cs)"
proof -
  have "filter cl_failed (calls_of m cs) = calls_of m (filter cl_failed cs)" for m
    by (simp add: calls_of_def conj_commute)
  moreover have "(\<Sum>m \<in> cl_method ` set cs. length (calls_of m (filter cl_failed cs)))
      = (\<Sum>m \<in> cl_method ` set (filter cl_failed cs). length (calls_of m (filter cl_failed cs)))"
    by (intro sum.mono_neutral_right) (auto simp: calls_of_def filter_empty_conv image_iff, metis)
  ultimately show ?thesis using calls_partition [of "filter cl_failed cs"] by simp
qed

text \<open>
  The loop over the methods under the read lock: it copies them all if no writer asks for the lock before
  its last step, and stops for ever otherwise.
\<close>

lemma writer_at_busy: "0 < rw_readers l \<Longrightarrow> writer_at arrives i l = (if arrives i then l\<lparr>rw_waiting := True\<rparr> else l)"
  by (simp add: writer_at_def rw_ask_def rw_lock_def)

lemma copy_methods_undisturbed:
  assumes "\<forall>j. i \<le> j \<and> j < i + length ms \<longrightarrow> \<not> arrives j"
    and "pf_lock pm = \<lparr>rw_readers = 1, rw_writer = False, rw_waiting = False\<rparr>"
  shows "copy_methods arrives i ms pm = (Ok (map (\<lambda>m. (m, gm_get (pf_metrics pm) m)) ms),
      pm\<lparr>pf_lock := \<lparr>rw_readers = 1, rw_writer = False, rw_waiting = arrives (i + length ms)\<rparr>\<rparr>)"
  using assms
proof (induction ms arbitrary: i)
  case (Cons m ms)
  then have "\<not> arrives i" "\<forall>j. Suc i \<le> j \<and> j < Suc i + length ms \<longrightarrow> \<not> arrives j" by auto
  moreover from this Cons.prems(2) have "get_method_metrics m (pm\<lparr>pf_lock := writer_at arrives i (pf_lock pm)\<rparr>) = (Ok (gm_get (pf_metrics pm) m), pm)"
    by (cases pm) (simp add: get_method_metrics_def writer_at_def rw_rlock_def rw_runlock_def)
  ultimately show ?case using Cons.IH [of "Suc i"] Cons.prems(2) by simp
qed (simp add: writer_at_busy)

lemma copy_methods_stuck:
  assumes "\<exists>j. i \<le> j \<and> j < i + length ms \<and> arrives j"
    and "pf_lock pm = \<lparr>rw_readers = 1, rw_writer = False, rw_waiting = False\<rparr>"
  shows "fst (copy_methods arrives i ms pm) = Hang"
  using assms
proof (induction ms arbitrary: i)
  case (Cons m ms)
  show ?case
  proof (cases "arrives i")
    case True
    with Cons.prems(2) show ?thesis by (simp add: get_method_metrics_def writer_at_busy rw_rlock_def)
  next
    case False
    have "\<exists>j. Suc i \<le> j \<and> j < Suc i + length ms \<and> arrives j"
      using Cons.prems(1) False by (metis Suc_leI add_Suc_shift le_neq_implies_less length_Cons)
    note ih = Cons.IH [OF this Cons.prems(2)]
    have "get_method_metrics m (pm\<lparr>pf_lock := writer_at arrives i (pf_lock pm)\<rparr>) = (Ok (gm_get (pf_metrics pm) m), pm)"
      using False Cons.prems(2) by (cases pm) (simp add: get_method_metrics_def writer_at_def rw_rlock_def rw_runlock_def)
    with ih show ?thesis by (simp add: case_prod_beta)
  qed
qed auto

lemma get_all_metrics_run:
  assumes "pf_lock pm = rw_free"
  shows "fst (get_all_metrics arrives pm) = (if \<exists>j < length (pf_metrics pm). arrives j then Hang
    else Ok (map (\<lambda>m. (m, gm_get (pf_metrics pm) m)) (map fst (pf_metrics pm))))"
proof -
  let ?l = "\<lparr>rw_readers = 1, rw_writer = False, rw_waiting = False\<rparr>"
  have l: "rw_rlock (pf_lock pm) = Some ?l"
    using assms by (simp add: rw_rlock_def rw_free_def)
  show ?thesis
  proof (cases "\<exists>j < length (pf_metrics pm). arrives j")
    case True
    then have "fst (copy_methods arrives 0 (map fst (pf_metrics pm)) (pm\<lparr>pf_lock := ?l\<rparr>)) = Hang"
      by (intro copy_methods_stuck) auto
    then have "fst (get_all_metrics arrives pm) = Hang"
      by (cases "copy_methods arrives 0 (map fst (pf_metrics pm)) (pm\<lparr>pf_lock := ?l\<rparr>)") (simp add: get_all_metrics_def l)
    with True show ?thesis by simp
  next
    case False
    then show ?thesis
      using copy_methods_undisturbed [of 0 "map fst (pf_metrics pm)" arrives "pm\<lparr>pf_lock := ?l\<rparr>"]
      by (simp add: get_all_metrics_def l)
  qed
qed

text \<open>
  C39: The summary counts every call. After fewer than \<open>2 ^ 63\<close> calls of no more methods than the monitor may
  track, \<open>GetSummary\<close> returns exactly the number of methods, of calls and of errors if no other call asks
  for the write lock before the last of its nested read locks, one for each method; and it never returns if
  one does, since that one waits for its outer read lock, and it for that one.
\<close>

theorem summary_counts:
  assumes "int (card (cl_method ` set cs)) \<le> mg_max_methods opt" and "int (length cs) < 2 ^ 63"
  shows "(if \<exists>i < card (cl_method ` set cs). arrives i
      then fst (get_summary arrives (monitor_run opt cs)) = Hang
      else \<exists>s. fst (get_summary arrives (monitor_run opt cs)) = Ok s \<and> ms_methods s = int (card (cl_method ` set cs))
        \<and> ms_calls s = int (length cs) \<and> ms_errors s = int (length (filter cl_failed cs)))"
proof -
  let ?M = "pf_metrics (monitor_run opt cs)"
  note run = monitor_run_accounts [OF assms(1)]
  have entry: "accounts opt (calls_of m cs) x \<and> calls_of m cs \<noteq> []" if "(m, x) \<in> set ?M" for m x
    using run that by (metis accounted_simps(2) gm_in_set)
  have bound: "length (filter P (calls_of m cs)) \<le> length cs" for P m
    unfolding calls_of_def by (meson length_filter_le order.trans)
  have exact: "int64 (int n) = int n" if "n \<le> length cs" for n
    using that assms(2) by (intro int64_id) simp_all
  have calls: "mx_calls x = int (length (calls_of m cs))" "mx_errors x = int (length (filter cl_failed (calls_of m cs)))" if "(m, x) \<in> set ?M" for m x
    using entry [OF that] exact [OF bound [of "\<lambda>_. True" m]] exact [OF bound [of cl_failed m]] by (simp_all add: accounts_def)
  have keys: "fst ` set ?M = cl_method ` set cs"
  proof (rule set_eqI)
    fix m
    have "accounted opt (calls_of m cs) (gm_get ?M m)" using run by blast
    then have "gm_get ?M m = None \<longleftrightarrow> calls_of m cs = []" by (cases "gm_get ?M m") simp_all
    then show "m \<in> fst ` set ?M \<longleftrightarrow> m \<in> cl_method ` set cs" 
      by (auto simp: map_of_eq_None_iff calls_of_def filter_empty_conv)
  qed
  have sum: "sum_list (map (\<lambda>mx. int (g (fst mx))) ?M) = int (\<Sum>m \<in> cl_method ` set cs. g m)" for g
  proof -
    have "distinct (map fst ?M)" using run by (simp add: gm_wf_def)
    then have "sum_list (map (\<lambda>m. int (g m)) (map fst ?M)) = (\<Sum>m \<in> set (map fst ?M). int (g m))" by (rule sum_list_distinct_conv_sum_set)
    then show ?thesis using keys by (simp add: o_def)
  qed
  have "map mx_calls (map snd ?M) = map (\<lambda>mx. int (length (calls_of (fst mx) cs))) ?M"
    "map mx_errors (map snd ?M) = map (\<lambda>mx. int (length (filter cl_failed (calls_of (fst mx) cs)))) ?M"
    using calls by auto
  then have total: "sum_list (map mx_calls (map snd ?M)) = int (length cs)" "sum_list (map mx_errors (map snd ?M)) = int (length (filter cl_failed cs))"
    using sum [of "\<lambda>m. length (calls_of m cs)"] sum [of "\<lambda>m. length (filter cl_failed (calls_of m cs))"]
    by (simp_all only: calls_partition failed_partition)
  have "\<forall>x \<in> set (map snd ?M). mx_calls x \<noteq> 0" using calls(1) entry by auto
  from summarise_methods_Ok [OF this, of "\<lparr>ms_methods = int (gm_len ?M), ms_calls = 0, ms_errors = 0, ms_total = 0, ms_error_rate = 0, ms_list = []\<rparr>"]
  obtain s where s: "summarise_methods (map snd ?M) \<lparr>ms_methods = int (gm_len ?M), ms_calls = 0, ms_errors = 0, ms_total = 0, ms_error_rate = 0, ms_list = []\<rparr> = Ok s"
    "ms_calls s = int64 (int (length cs))" "ms_errors s = int64 (int (length (filter cl_failed cs)))" "ms_methods s = int (gm_len ?M)"
    unfolding total by auto
  have "gm_len ?M = card (cl_method ` set cs)"
    using run keys by (metis distinct_card gm_wf_def length_map list.set_map)
  then have n: "length ?M = card (cl_method ` set cs)" by simp
  let ?ms = "map (\<lambda>m. (m, gm_get ?M m)) (map fst ?M)"
  have "map (\<lambda>e. gm_get ?M (fst e)) ?M = map (\<lambda>e. Some (snd e)) ?M"
    using run by (intro map_cong refl) (auto simp: gm_in_set)
  then have "map snd ?ms = map Some (map snd ?M)" by (simp add: o_def)
  moreover have "those (map Some xs) = Some xs" for xs :: "method_metrics list" by (induction xs) simp_all
  ultimately have those: "those (map snd ?ms) = Some (map snd ?M)" by (simp only:)
  have "\<exists>s. summary_of ?ms = Ok s \<and> ms_methods s = int (card (cl_method ` set cs))
        \<and> ms_calls s = int (length cs) \<and> ms_errors s = int (length (filter cl_failed cs))"
    unfolding summary_of_def those option.case using s exact [of "length cs"] exact [of "length (filter cl_failed cs)"]
    by (simp add: n)
  moreover have "fst (get_summary arrives (monitor_run opt cs))
      = bind_outcome (fst (get_all_metrics arrives (monitor_run opt cs))) summary_of"
    by (simp add: get_summary_def case_prod_beta)
  ultimately show ?thesis unfolding get_all_metrics_run [OF monitor_run_free] n by simp
qed

lemma summary_counts_witness:
  "(\<exists>s. fst (get_summary (\<lambda>i. 1 \<le> i) (monitor_run default_monitoring_options
       [\<lparr>cl_first = 1, cl_now = 2, cl_method = ''get'', cl_duration = 5, cl_failed = True\<rparr>,
        \<lparr>cl_first = 3, cl_now = 4, cl_method = ''get'', cl_duration = 6, cl_failed = False\<rparr>])) = Ok s
     \<and> ms_methods s = 1 \<and> ms_calls s = 2 \<and> ms_errors s = 1)
   \<and> fst (get_summary (\<lambda>i. i = 0) (monitor_run default_monitoring_options
       [\<lparr>cl_first = 1, cl_now = 2, cl_method = ''get'', cl_duration = 5, cl_failed = True\<rparr>])) = Hang"
  using summary_counts [of "[\<lparr>cl_first = 1, cl_now = 2, cl_method = ''get'', cl_duration = 5, cl_failed = True\<rparr>,
      \<lparr>cl_first = 3, cl_now = 4, cl_method = ''get'', cl_duration = 6, cl_failed = False\<rparr>]" default_monitoring_options "\<lambda>i. 1 \<le> i"]
    summary_counts [of "[\<lparr>cl_first = 1, cl_now = 2, cl_method = ''get'', cl_duration = 5, cl_failed = True\<rparr>]" default_monitoring_options "\<lambda>i. i = 0"]
  by (simp add: default_monitoring_options_def)

section \<open>The limit\<close>

text \<open>With names that are not empty the search finds an oldest entry.\<close>

lemma older_fold:
  assumes "\<forall>kv \<in> set m. fst kv \<noteq> []" and "o1 \<noteq> []"
  shows "(\<exists>kv \<in> set m. fold (older f) m (o1, t) = (fst kv, f (snd kv)) \<and> (\<forall>kv' \<in> set m. f (snd kv) \<le> f (snd kv')) \<and> f (snd kv) < t)
    \<or> fold (older f) m (o1, t) = (o1, t) \<and> (\<forall>kv' \<in> set m. t \<le> f (snd kv'))"
  using assms
proof (induction m arbitrary: o1 t)
  case (Cons kv m)
  obtain k v where kv: "kv = (k, v)" by force
  show ?case
  proof (cases "f v < t")
    case True
    then have "fold (older f) (kv # m) (o1, t) = fold (older f) m (k, f v)" using Cons.prems(2) by (simp add: kv older_def)
    with Cons.IH [of k "f v"] Cons.prems(1) True show ?thesis by (auto simp: kv) 
  next
    case False
    then have "fold (older f) (kv # m) (o1, t) = fold (older f) m (o1, t)" using Cons.prems(2) by (simp add: kv older_def)
    with Cons.IH [of o1 t] Cons.prems False show ?thesis by (auto simp: kv)
  qed
qed simp

lemma evict_oldest_removes:
  assumes "m \<noteq> []" and "\<forall>kv \<in> set m. fst kv \<noteq> []"
  obtains k v where "(k, v) \<in> set m" "evict_oldest f m = gm_del k m" "\<forall>kv' \<in> set m. f v \<le> f (snd kv')"
proof -
  obtain k v m' where m: "m = (k, v) # m'" using assms(1) by (cases m) auto
  have "fold (older f) m ([], 0) = fold (older f) m' (k, f v)" by (simp add: m older_def)
  moreover have "\<exists>k' v'. (k', v') \<in> set m \<and> fold (older f) m' (k, f v) = (k', f v') \<and> (\<forall>kv' \<in> set m. f v' \<le> f (snd kv'))"
  proof -
    have "\<forall>kv \<in> set m'. fst kv \<noteq> []" "k \<noteq> []" using assms(2) m by auto
    from older_fold [OF this, of f "f v"] show ?thesis
    proof
      assume "fold (older f) m' (k, f v) = (k, f v) \<and> (\<forall>kv' \<in> set m'. f v \<le> f (snd kv'))"
      with m show ?thesis by (intro exI [of _ k] exI [of _ v]) simp
    next
      assume "\<exists>kv \<in> set m'. fold (older f) m' (k, f v) = (fst kv, f (snd kv)) \<and> (\<forall>kv' \<in> set m'. f (snd kv) \<le> f (snd kv')) \<and> f (snd kv) < f v"
      then obtain kv where "kv \<in> set m'" "fold (older f) m' (k, f v) = (fst kv, f (snd kv))"
        "\<forall>kv' \<in> set m'. f (snd kv) \<le> f (snd kv')" "f (snd kv) < f v" by blast
      with m show ?thesis by (intro exI [of _ "fst kv"] exI [of _ "snd kv"]) simp
    qed
  qed
  ultimately obtain k' v' where k: "(k', v') \<in> set m" "fold (older f) m ([], 0) = (k', f v')" "\<forall>kv' \<in> set m. f v' \<le> f (snd kv')" by auto
  moreover have "k' \<noteq> []" using assms(2) k(1) by auto
  ultimately show thesis by (intro that [of k' v']) (auto simp: evict_oldest_def)
qed

lemma evict_oldest_length:
  assumes "gm_wf m" and "m \<noteq> []" and "\<forall>kv \<in> set m. fst kv \<noteq> []"
  shows "Suc (length (evict_oldest f m)) = length m"
proof -
  obtain k v where k: "(k, v) \<in> set m" "evict_oldest f m = gm_del k m" using evict_oldest_removes [OF assms(2,3)] by blast
  have "gm_get m k = Some v" using k(1) assms(1) by (simp add: gm_in_set)
  with k assms(1,2) show ?thesis by (simp add: length_gm_del) 
qed

text \<open>Methods with a name keep the monitor within its limit; the empty name defeats it.\<close>

theorem monitor_bounded:
  assumes "\<forall>c \<in> set cs. cl_method c \<noteq> []" and "1 \<le> mg_max_methods opt"
  shows "int (length (pf_metrics (monitor_run opt cs))) \<le> mg_max_methods opt"
proof -
  have "gm_wf (pf_metrics (monitor_run opt cs)) \<and> (\<forall>kv \<in> set (pf_metrics (monitor_run opt cs)). fst kv \<noteq> [])
      \<and> pf_options (monitor_run opt cs) = opt \<and> int (length (pf_metrics (monitor_run opt cs))) \<le> mg_max_methods opt"
    using assms
  proof (induction cs rule: rev_induct)
    case Nil
    then show ?case by (simp add: monitor_run_def new_performance_monitor_def)
  next
    case (snoc c cs)
    let ?m = "pf_metrics (monitor_run opt cs)"
    from snoc have wf: "gm_wf ?m" and ne: "\<forall>kv \<in> set ?m. fst kv \<noteq> []" and opt: "pf_options (monitor_run opt cs) = opt"
      and len: "int (length ?m) \<le> mg_max_methods opt" and c: "cl_method c \<noteq> []" by auto
    have put: "\<forall>kv \<in> set (gm_put (cl_method c) x m). fst kv \<noteq> []" if "\<forall>kv \<in> set m. fst kv \<noteq> []" for x and m :: "(string, method_metrics) gomap"
    proof -
      have "fst ` set (gm_put (cl_method c) x m) = insert (cl_method c) (fst ` set m)" by (simp add: dom_update)
      with that c show ?thesis by (metis (no_types, lifting) image_iff insert_iff)
    qed
    have run: "monitor_run opt (cs @ [c]) = monitor_step c (monitor_run opt cs)" by (simp add: monitor_run_def)
    show ?case
    proof (cases "gm_get ?m (cl_method c)")
      case (Some x)
      then show ?thesis using wf ne opt len put by (simp add: run monitor_step_run record_locked_def length_gm_put)
    next
      case None
      let ?e = "if int (gm_len ?m) \<ge> mg_max_methods opt then evict_oldest mx_first ?m else ?m"
      have e: "gm_wf ?e \<and> (\<forall>kv \<in> set ?e. fst kv \<noteq> []) \<and> int (length ?e) < mg_max_methods opt"
      proof (cases "int (gm_len ?m) \<ge> mg_max_methods opt")
        case True
        then have "?m \<noteq> []" using assms(2) by auto
        obtain k v where k: "evict_oldest mx_first ?m = gm_del k ?m" using evict_oldest_removes [OF \<open>?m \<noteq> []\<close> ne, of mx_first] by blast
        have "\<forall>kv \<in> set (gm_del k ?m). fst kv \<noteq> []" using ne by (simp add: AList.delete_eq)
        moreover have "int (length (evict_oldest mx_first ?m)) < mg_max_methods opt"
          using evict_oldest_length [OF wf \<open>?m \<noteq> []\<close> ne, of mx_first] len by simp
        ultimately show ?thesis using True wf by (simp add: k)
      qed (use wf ne in simp)
      obtain q where q: "q = ?e" by blast
      obtain y where y: "monitor_run opt (cs @ [c]) = (monitor_run opt cs)\<lparr>pf_metrics := gm_put (cl_method c) y q\<rparr>"
        using None by (simp add: run monitor_step_run record_locked_def Let_def opt q)
      have e': "gm_wf q" "\<forall>kv \<in> set q. fst kv \<noteq> []" "int (length q) < mg_max_methods opt" unfolding q using e by blast+
      have "int (length (gm_put (cl_method c) y q)) \<le> mg_max_methods opt" using e'(3) by (simp add: length_gm_put)
      moreover have "gm_wf (gm_put (cl_method c) y q)" using e'(1) by (rule gm.wf_put)
      ultimately show ?thesis using opt put [OF e'(2)] by (simp add: y)
    qed
  qed
  then show ?thesis by blast
qed

theorem empty_name_unbounded:
  "length (pf_metrics (monitor_run (default_monitoring_options\<lparr>mg_max_methods := 1, mg_histograms := False\<rparr>)
     [\<lparr>cl_first = 1, cl_now = 1, cl_method = [], cl_duration = 1, cl_failed = False\<rparr>,
      \<lparr>cl_first = 2, cl_now = 2, cl_method = ''a'', cl_duration = 1, cl_failed = False\<rparr>])) = 2"
  by code_simp

end
