(* ===== verification/TestingFramework.thy ===== *)
theory TestingFramework
  imports Promise Debugging
begin

text \<open>
  \<open>testing_framework.go\<close>: the mock transport, which meets the contract of transports, mock stubs with their
  verifier, recordings of calls, the framework that keeps them, and the benchmark wrapper. Mock stubs and
  recordings are objects by address in the framework.
\<close>

section \<open>The mock transport\<close>

record mock_transport =
  mk_sent :: "bytes list"
  mk_received :: "bytes list"
  mk_latency :: int
  mk_failure_rate :: float64
  mk_failure_count :: int
  mk_drop_rate :: float64
  mk_closed :: bool
  mk_stats :: transport_stats

definition new_mock_transport :: mock_transport where
  "new_mock_transport = \<lparr>mk_sent = [], mk_received = [], mk_latency = 0, mk_failure_rate = 0, mk_failure_count = 0,
     mk_drop_rate = 0, mk_closed = False, mk_stats = zero_transport_stats\<rparr>"

definition should_fail :: "mock_transport \<Rightarrow> bool" where "should_fail t = False"
definition should_drop :: "mock_transport \<Rightarrow> bool" where "should_drop t = False"

text \<open>The latency is a sleep.\<close>

definition mock_send :: "ctx \<Rightarrow> bytes \<Rightarrow> mock_transport \<Rightarrow> unit result \<times> mock_transport" where
  "mock_send c m t =
     (if mk_closed t then (Err err_transport_closed, t)
      else if mk_failure_rate t > 0 \<and> should_fail t then
        (Err (EMsg ''simulated transport failure''), t\<lparr>mk_failure_count := add64 (mk_failure_count t) 1,
           mk_stats := (mk_stats t)\<lparr>ts_errors := uint64 (ts_errors (mk_stats t) + 1)\<rparr>\<rparr>)
      else if mk_drop_rate t > 0 \<and> should_drop t then (Ok (), t)
      else (Ok (), t\<lparr>mk_sent := mk_sent t @ [m],
        mk_stats := (mk_stats t)\<lparr>ts_messages_sent := uint64 (ts_messages_sent (mk_stats t) + 1),
          ts_bytes_sent := uint64 (ts_bytes_sent (mk_stats t) + int (length m))\<rparr>\<rparr>))"

datatype mock_case = MkCtx | MkTimeout

text \<open>\<open>late\<close>: the tenth of a second has passed when the \<open>select\<close> is entered again.\<close>

definition mock_receive :: "nat \<Rightarrow> bool \<Rightarrow> ctx \<Rightarrow> mock_transport \<Rightarrow> bytes result \<times> mock_transport" where
  "mock_receive pick late c t =
     (if mk_closed t then (Err err_transport_closed, t)
      else case mk_received t of
        [] \<Rightarrow>
          (case go_select pick [(ctx_done c, MkCtx), (late \<or> \<not> ctx_done c, MkTimeout)] of
             Some MkCtx \<Rightarrow> (Err (ctx_error c), t)
           | Some MkTimeout \<Rightarrow> (Err (EMsg ''no message available''), t)
           | None \<Rightarrow> (Hang, t))
      | m # ms \<Rightarrow> (Ok m, t\<lparr>mk_received := ms,
          mk_stats := (mk_stats t)\<lparr>ts_messages_received := uint64 (ts_messages_received (mk_stats t) + 1),
            ts_bytes_received := uint64 (ts_bytes_received (mk_stats t) + int (length m))\<rparr>\<rparr>))"

definition mock_transport_close :: "mock_transport \<Rightarrow> goerr option \<times> mock_transport" where
  "mock_transport_close t = (None, t\<lparr>mk_closed := True\<rparr>)"

definition mock_ops :: "nat \<Rightarrow> bool \<Rightarrow> mock_transport transport_ops" where
  "mock_ops pick late = \<lparr>tr_send = mock_send, tr_receive = mock_receive pick late, tr_close = mock_transport_close\<rparr>"

definition set_latency :: "int \<Rightarrow> mock_transport \<Rightarrow> mock_transport" where "set_latency l t = t\<lparr>mk_latency := l\<rparr>"
definition set_failure_rate :: "float64 \<Rightarrow> mock_transport \<Rightarrow> mock_transport" where "set_failure_rate r t = t\<lparr>mk_failure_rate := r\<rparr>"
definition set_drop_rate :: "float64 \<Rightarrow> mock_transport \<Rightarrow> mock_transport" where "set_drop_rate r t = t\<lparr>mk_drop_rate := r\<rparr>"
definition inject_message :: "bytes \<Rightarrow> mock_transport \<Rightarrow> mock_transport" where "inject_message m t = t\<lparr>mk_received := mk_received t @ [m]\<rparr>"
definition get_sent_messages :: "mock_transport \<Rightarrow> bytes list" where "get_sent_messages t = mk_sent t"
definition get_received_message_count :: "mock_transport \<Rightarrow> int" where "get_received_message_count t = int (length (mk_received t))"
definition clear_messages :: "mock_transport \<Rightarrow> mock_transport" where "clear_messages t = t\<lparr>mk_sent := [], mk_received := []\<rparr>"

text \<open>
  The mock meets the contract of transports: what the contract gives a session holds over the mock. The
  simulated failures never happen.
\<close>

interpretation mock: transport "mock_ops pick late" mk_closed mk_sent
  by unfold_locales
    (auto simp: mock_ops_def mock_send_def mock_receive_def mock_transport_close_def should_fail_def should_drop_def split: list.splits option.splits mock_case.splits if_splits)

text \<open>
  What a session sends over the mock can be read back from it. A \<open>Send\<close> that succeeds adds exactly one
  message to those that \<open>GetSentMessages\<close> returns, one that fails adds none, whatever failure and drop rates
  were configured; and a \<open>Close\<close> that returns has closed the mock.
\<close>

theorem mock_session_sends:
  assumes "en_ops E = mock_ops pick late"
  shows "(if is_ok (fst (session_send E c msg s))
      then \<exists>data. get_sent_messages (ss_transport (snd (session_send E c msg s))) = get_sent_messages (ss_transport s) @ [data]
      else get_sent_messages (ss_transport (snd (session_send E c msg s))) = get_sent_messages (ss_transport s))
    \<and> (\<forall>ce s'. session_close E s = (Ok ce, s') \<and> \<not> ss_closed s \<longrightarrow> mk_closed (ss_transport s'))"
  using mock.session_send_sent [OF assms] mock.session_close_closes [OF assms] by (auto simp: get_sent_messages_def)

definition mock_env :: "mock_transport env" where
  "mock_env = \<lparr>en_ops = mock_ops 0 False, en_marshal = (\<lambda>_. Ok [1]), en_unmarshal = (\<lambda>_. Panic), en_stk = [], en_now = 0\<rparr>"

definition mock_session :: "mock_transport session" where
  "mock_session = (case new_session (Some new_mock_transport) [] 0 of Ok s \<Rightarrow> s)"

lemma mock_session_sends_witness:
  "\<exists>data. get_sent_messages (ss_transport (snd (session_send mock_env CtxLive [VStr ''push'', VInt 1] mock_session))) = [data]"
proof -
  have m: "lock_free mock_session" "\<not> ss_closed mock_session" "\<not> mk_closed (ss_transport mock_session)" "get_sent_messages (ss_transport mock_session) = []"
    by code_simp+
  moreover have "data_value (VInt 1) \<and> nest (VInt 1) \<le> 100" by (simp add: data_value.simps nest.simps)
  ultimately have "is_ok (fst (session_send mock_env CtxLive [VStr ''push'', VInt 1] mock_session))"
    by (simp add: encode_plain_push session_send_def mock_env_def mock_ops_def mock_send_def should_fail_def should_drop_def rlock_def lock_free_def Let_def)
  then show ?thesis
    using mock_session_sends [of mock_env 0 False CtxLive "[VStr ''push'', VInt 1]" mock_session] m(4) by (simp add: mock_env_def)
qed

section \<open>Mock stubs\<close>

record mock_call =
  mc_method :: string
  mc_args :: "gval list"
  mc_timestamp :: int
  mc_duration :: int
  mc_result :: gval
  mc_error :: "goerr option"

record mock_stub =
  mq_name :: string
  mq_calls :: "mock_call list"
  mq_responses :: "(string, gval) gomap"
  mq_errors :: "(string, goerr option) gomap"
  mq_call_count :: "(string, int) gomap"
  mq_disposed :: bool
  mq_export_id :: int
  mq_import_id :: int

definition new_mock_stub :: "string \<Rightarrow> mock_stub" where
  "new_mock_stub name = \<lparr>mq_name = name, mq_calls = [], mq_responses = [], mq_errors = [], mq_call_count = [],
     mq_disposed = False, mq_export_id = 1, mq_import_id = 0\<rparr>"

text \<open>The promise of a mock has no session; its other fields are zero.\<close>

definition mock_promise :: "gval \<Rightarrow> promise" where
  "mock_promise v = (blank_promise False \<lparr>sl_addr = 0, sl_len = 0, sl_cap = 0\<rparr> 0)\<lparr>pm_state := Resolved, pm_result := v\<rparr>"

text \<open>A promise, nil or not, and an error, nil or not: the stub may return two nils.\<close>

type_synonym mock_answer = "promise option \<times> goerr option"

definition response_of :: "mock_stub \<Rightarrow> string \<Rightarrow> gval" where
  "response_of s k = (case gm_get (mq_responses s) k of Some v \<Rightarrow> v | None \<Rightarrow> VNil)"

definition mock_stub_call :: "int \<Rightarrow> int \<Rightarrow> string \<Rightarrow> gval list \<Rightarrow> mock_stub \<Rightarrow> mock_answer \<times> mock_stub" where
  "mock_stub_call now took meth args s =
     (if mq_disposed s then ((None, Some (EMsg ''stub is disposed'')), s)
      else
        let c = \<lparr>mc_method = meth, mc_args = args, mc_timestamp = now, mc_duration = took, mc_result = VNil, mc_error = None\<rparr>;
            s1 = s\<lparr>mq_call_count := count_one meth (mq_call_count s)\<rparr>
        in case gm_get (mq_errors s) meth of
             Some e \<Rightarrow> ((None, e), s1\<lparr>mq_calls := mq_calls s @ [c\<lparr>mc_error := e\<rparr>]\<rparr>)
           | None \<Rightarrow> ((Some (mock_promise (response_of s meth)), None), s1\<lparr>mq_calls := mq_calls s @ [c\<lparr>mc_result := response_of s meth\<rparr>]\<rparr>))"

text \<open>A property access is recorded, but not counted.\<close>

definition mock_stub_get :: "int \<Rightarrow> int \<Rightarrow> string \<Rightarrow> mock_stub \<Rightarrow> mock_answer \<times> mock_stub" where
  "mock_stub_get now took prop s =
     (if mq_disposed s then ((None, Some (EMsg ''stub is disposed'')), s)
      else
        let v = response_of s (''GET:'' @ prop)
        in ((Some (mock_promise v), None),
            s\<lparr>mq_calls := mq_calls s @ [\<lparr>mc_method = ''GET:'' @ prop, mc_args = [], mc_timestamp = now, mc_duration = took, mc_result = v, mc_error = None\<rparr>]\<rparr>))"

definition mock_stub_dispose :: "mock_stub \<Rightarrow> mock_stub" where "mock_stub_dispose s = s\<lparr>mq_disposed := True\<rparr>"
definition mock_set_response :: "string \<Rightarrow> gval \<Rightarrow> mock_stub \<Rightarrow> mock_stub" where
  "mock_set_response k v s = s\<lparr>mq_responses := gm_put k v (mq_responses s)\<rparr>"
definition mock_set_error :: "string \<Rightarrow> goerr option \<Rightarrow> mock_stub \<Rightarrow> mock_stub" where
  "mock_set_error k e s = s\<lparr>mq_errors := gm_put k e (mq_errors s)\<rparr>"
definition mock_get_calls :: "mock_stub \<Rightarrow> mock_call list" where "mock_get_calls s = mq_calls s"
definition mock_get_call_count :: "string \<Rightarrow> mock_stub \<Rightarrow> int" where
  "mock_get_call_count meth s = (case gm_get (mq_call_count s) meth of Some n \<Rightarrow> n | None \<Rightarrow> 0)"
definition mock_get_last_call :: "string \<Rightarrow> mock_stub \<Rightarrow> mock_call option" where
  "mock_get_last_call meth s = find (\<lambda>c. mc_method c = meth) (rev (mq_calls s))"
definition mock_clear_calls :: "mock_stub \<Rightarrow> mock_stub" where "mock_clear_calls s = s\<lparr>mq_calls := [], mq_call_count := []\<rparr>"
definition mock_is_disposed :: "mock_stub \<Rightarrow> bool" where "mock_is_disposed s = mq_disposed s"
definition mock_set_export_id :: "int \<Rightarrow> mock_stub \<Rightarrow> mock_stub" where "mock_set_export_id i s = s\<lparr>mq_export_id := i\<rparr>"
definition mock_set_import_id :: "int \<Rightarrow> mock_stub \<Rightarrow> mock_stub" where "mock_set_import_id i s = s\<lparr>mq_import_id := i\<rparr>"

definition create_stub_with_predefined_responses :: "string \<Rightarrow> (string, gval) gomap \<Rightarrow> mock_stub" where
  "create_stub_with_predefined_responses name rs = fold (\<lambda>(k, v). mock_set_response k v) rs (new_mock_stub name)"
definition create_stub_with_errors :: "string \<Rightarrow> (string, goerr option) gomap \<Rightarrow> mock_stub" where
  "create_stub_with_errors name es = fold (\<lambda>(k, e). mock_set_error k e) es (new_mock_stub name)"

section \<open>The verifier\<close>

text \<open>A check gives the formats it hands to \<open>Errorf\<close>; none is a check that passes.\<close>

definition verify_call_count :: "string \<Rightarrow> int \<Rightarrow> mock_stub \<Rightarrow> string list" where
  "verify_call_count meth n s = (if mock_get_call_count meth s \<noteq> n then [''Expected %s to be called %d times, but was called %d times''] else [])"

text \<open>
  \<open>reflect.DeepEqual\<close>: functions are never equal; maps do not depend on the order. A pointer that is the same
  object is told by its contents.
\<close>

function deep_equal :: "gval \<Rightarrow> gval \<Rightarrow> bool" where
  "deep_equal v w =
     (case v of
        VSlice xs \<Rightarrow> (case w of VSlice ys \<Rightarrow> length xs = length ys \<and> (\<forall>xy \<in> set (zip xs ys). deep_equal (fst xy) (snd xy)) | _ \<Rightarrow> False)
      | VStruct fs \<Rightarrow> (case w of VStruct gs \<Rightarrow> map fst fs = map fst gs \<and> (\<forall>fg \<in> set (zip fs gs). deep_equal (snd (fst fg)) (snd (snd fg))) | _ \<Rightarrow> False)
      | VMap ms \<Rightarrow> (case w of VMap ns \<Rightarrow> length ms = length ns \<and> (\<forall>m \<in> set ms. \<exists>n \<in> set ns. fst m = fst n \<and> deep_equal (snd m) (snd n)) | _ \<Rightarrow> False)
      | VPtr x \<Rightarrow> (case w of VPtr y \<Rightarrow> deep_equal x y | _ \<Rightarrow> False)
      | VFunc _ \<Rightarrow> False
      | _ \<Rightarrow> v = w)"
  by pat_completeness auto
termination
  by (relation "measure (\<lambda>(v, w). size v)") (auto simp: size_map_entry [of "(a, b)" for a b, simplified] size_elem dest!: set_zip_leftD)

declare deep_equal.simps [simp del]

fun args_equal :: "gval list \<Rightarrow> gval list \<Rightarrow> bool" where
  "args_equal (x # xs) (y # ys) = (deep_equal x y \<and> args_equal xs ys)"
| "args_equal xs ys = (xs = [] \<and> ys = [])"

definition verify_called_with :: "string \<Rightarrow> gval list \<Rightarrow> mock_stub \<Rightarrow> string list" where
  "verify_called_with meth args s =
     (case mock_get_last_call meth s of
        None \<Rightarrow> [''Method %s was never called'']
      | Some c \<Rightarrow> if \<not> args_equal (mc_args c) args then [''Method %s was called with %v, expected %v''] else [])"

definition verify_never_called :: "string \<Rightarrow> mock_stub \<Rightarrow> string list" where
  "verify_never_called meth s = (if mock_get_call_count meth s > 0 then [''Expected %s to never be called, but was called %d times''] else [])"

definition verify_call_order :: "string list \<Rightarrow> mock_stub \<Rightarrow> string list" where
  "verify_call_order methods s =
     (let calls = mock_get_calls s
      in if length calls < length methods then [''Expected at least %d calls, but only %d calls were made'']
      else if \<exists>i < length methods. i \<ge> length calls \<or> mc_method (calls ! i) \<noteq> methods ! i
           then [''Expected call order %v, but actual order was %v''] else [])"

definition verify_disposed :: "mock_stub \<Rightarrow> string list" where
  "verify_disposed s = (if \<not> mock_is_disposed s then [''Expected stub to be disposed, but it was not''] else [])"

section \<open>Recordings and the framework\<close>

record recorded_call =
  rd_timestamp :: int
  rd_method :: string
  rd_args :: "gval list"
  rd_result :: gval
  rd_error :: "goerr option"
  rd_duration :: int
  rd_session_id :: string
  rd_trace_id :: string

record call_recording =
  rg_name :: string
  rg_calls :: "recorded_call list"
  rg_start :: int
  rg_end :: "int option"
  rg_duration :: int

definition new_call_recording :: "int \<Rightarrow> string \<Rightarrow> call_recording" where
  "new_call_recording now name = \<lparr>rg_name = name, rg_calls = [], rg_start = now, rg_end = None, rg_duration = 0\<rparr>"
definition recording_record_call :: "recorded_call \<Rightarrow> call_recording \<Rightarrow> call_recording" where
  "recording_record_call c r = r\<lparr>rg_calls := rg_calls r @ [c]\<rparr>"
definition finish_recording :: "int \<Rightarrow> call_recording \<Rightarrow> call_recording" where
  "finish_recording now r = r\<lparr>rg_end := Some now, rg_duration := time_sub now (rg_start r)\<rparr>"
definition get_calls_by_method :: "string \<Rightarrow> call_recording \<Rightarrow> recorded_call list" where
  "get_calls_by_method meth r = filter (\<lambda>c. rd_method c = meth) (rg_calls r)"
definition get_total_duration :: "call_recording \<Rightarrow> int" where
  "get_total_duration r = fold (\<lambda>c t. add64 t (rd_duration c)) (rg_calls r) 0"
definition recording_get_call_count :: "call_recording \<Rightarrow> int" where "recording_get_call_count r = int (length (rg_calls r))"

record testing_framework =
  tf_recordings :: "(string, nat) gomap"
  tf_mocks :: "(string, nat) gomap"
  tf_recording_heap :: "call_recording list"
  tf_mock_heap :: "mock_stub list"

definition new_testing_framework :: testing_framework where
  "new_testing_framework = \<lparr>tf_recordings = [], tf_mocks = [], tf_recording_heap = [], tf_mock_heap = []\<rparr>"

definition start_recording :: "int \<Rightarrow> string \<Rightarrow> testing_framework \<Rightarrow> nat \<times> testing_framework" where
  "start_recording now name f =
     (let a = length (tf_recording_heap f)
      in (a, f\<lparr>tf_recording_heap := tf_recording_heap f @ [new_call_recording now name], tf_recordings := gm_put name a (tf_recordings f)\<rparr>))"

definition stop_recording :: "int \<Rightarrow> string \<Rightarrow> testing_framework \<Rightarrow> nat option \<times> testing_framework" where
  "stop_recording now name f =
     (case gm_get (tf_recordings f) name of
        None \<Rightarrow> (None, f)
      | Some a \<Rightarrow> (Some a, f\<lparr>tf_recording_heap := (tf_recording_heap f)[a := finish_recording now (tf_recording_heap f ! a)]\<rparr>))"

definition create_mock_stub :: "string \<Rightarrow> testing_framework \<Rightarrow> nat \<times> testing_framework" where
  "create_mock_stub name f =
     (let a = length (tf_mock_heap f)
      in (a, f\<lparr>tf_mock_heap := tf_mock_heap f @ [new_mock_stub name], tf_mocks := gm_put name a (tf_mocks f)\<rparr>))"

definition get_mock_stub :: "string \<Rightarrow> testing_framework \<Rightarrow> nat option" where
  "get_mock_stub name f = gm_get (tf_mocks f) name"

section \<open>Benchmarks\<close>

text \<open>The wrapped stub has its own state; \<open>took\<close> is the measured time.\<close>

definition benchmark_call :: "'u stub_ops \<Rightarrow> int \<Rightarrow> ctx \<Rightarrow> string \<Rightarrow> gval list \<Rightarrow> int list \<times> 'u \<Rightarrow> nat result \<times> int list \<times> 'u" where
  "benchmark_call S took c meth args = (\<lambda>(ts, u).
     (case so_call S c meth args u of
        (Ok p, u1) \<Rightarrow> (Ok p, ts @ [took], u1) | (Err e, u1) \<Rightarrow> (Err e, ts @ [took], u1)
      | (Panic, u1) \<Rightarrow> (Panic, ts, u1) | (Hang, u1) \<Rightarrow> (Hang, ts, u1)))"

definition benchmark_get :: "'u stub_ops \<Rightarrow> int \<Rightarrow> ctx \<Rightarrow> string \<Rightarrow> int list \<times> 'u \<Rightarrow> nat result \<times> int list \<times> 'u" where
  "benchmark_get S took c prop = (\<lambda>(ts, u).
     (case so_get S c prop u of
        (Ok p, u1) \<Rightarrow> (Ok p, ts @ [took], u1) | (Err e, u1) \<Rightarrow> (Err e, ts @ [took], u1)
      | (Panic, u1) \<Rightarrow> (Panic, ts, u1) | (Hang, u1) \<Rightarrow> (Hang, ts, u1)))"

definition benchmark_dispose :: "'u stub_ops \<Rightarrow> int list \<times> 'u \<Rightarrow> unit result \<times> int list \<times> 'u" where
  "benchmark_dispose S = (\<lambda>(ts, u). case so_dispose S u of (r, u1) \<Rightarrow> (r, ts, u1))"

record benchmark_stats =
  bq_calls :: int
  bq_total :: int
  bq_average :: int
  bq_min :: int
  bq_max :: int

definition get_statistics :: "int list \<Rightarrow> benchmark_stats result" where
  "get_statistics ts =
     (case ts of
        [] \<Rightarrow> Ok \<lparr>bq_calls = 0, bq_total = 0, bq_average = 0, bq_min = 0, bq_max = 0\<rparr>
      | t # _ \<Rightarrow>
          let total = fold (\<lambda>d s. add64 s d) ts 0
          in bind_outcome (go_div total (int (length ts))) (\<lambda>avg. Ok \<lparr>bq_calls = int (length ts), bq_total = total, bq_average = avg,
               bq_min = fold (\<lambda>d m. if d < m then d else m) ts t, bq_max = fold (\<lambda>d m. if d > m then d else m) ts t\<rparr>))"

section \<open>Counting\<close>

datatype mock_event =
    MqCall int int string "gval list" | MqGet int int string | MqResponse string gval | MqError string "goerr option" | MqClear | MqDispose

primrec mock_step :: "mock_event \<Rightarrow> mock_stub \<Rightarrow> mock_stub" where
  "mock_step (MqCall now took m args) s = snd (mock_stub_call now took m args s)"
| "mock_step (MqGet now took p) s = snd (mock_stub_get now took p s)"
| "mock_step (MqResponse k v) s = mock_set_response k v s"
| "mock_step (MqError k e) s = mock_set_error k e s"
| "mock_step MqClear s = mock_clear_calls s"
| "mock_step MqDispose s = mock_stub_dispose s"

definition mock_run :: "string \<Rightarrow> mock_event list \<Rightarrow> mock_stub" where
  "mock_run name evs = fold mock_step evs (new_mock_stub name)"

definition counted :: "string \<Rightarrow> mock_stub \<Rightarrow> bool" where
  "counted m s \<longleftrightarrow> mock_get_call_count m s = int64 (int (length (filter (\<lambda>c. mc_method c = m) (mq_calls s))))"

lemma call_count_after:
  "mock_get_call_count m (snd (mock_stub_call now took k args s)) =
     (if \<not> mq_disposed s \<and> m = k then add64 (mock_get_call_count m s) 1 else mock_get_call_count m s)"
  "map mc_method (mq_calls (snd (mock_stub_call now took k args s))) = map mc_method (mq_calls s) @ (if mq_disposed s then [] else [k])"
  by (auto simp: mock_get_call_count_def mock_stub_call_def Let_def count_one_get split: option.split)

lemma counted_names: "counted m s \<longleftrightarrow> mock_get_call_count m s = int64 (int (length (filter (\<lambda>k. k = m) (map mc_method (mq_calls s)))))"
  by (simp add: counted_def filter_map o_def)

lemma counted_call: "counted m s \<Longrightarrow> counted m (snd (mock_stub_call now took k args s))"
  unfolding counted_names call_count_after by (auto simp: add64_def add.commute)

lemma counted_get: "counted m s \<Longrightarrow> take 4 m \<noteq> ''GET:'' \<Longrightarrow> counted m (snd (mock_stub_get now took p s))"
  by (auto simp: counted_def mock_get_call_count_def mock_stub_get_def Let_def)

lemma counted_step: "counted m s \<Longrightarrow> take 4 m \<noteq> ''GET:'' \<Longrightarrow> counted m (mock_step ev s)"
  by (cases ev) (simp_all add: counted_call counted_get,
      simp_all add: counted_def mock_get_call_count_def mock_set_response_def mock_set_error_def mock_clear_calls_def mock_stub_dispose_def)

text \<open>
  The verifier counts the recorded calls. Over every history of a mock stub, \<open>VerifyCallCount\<close> passes for a
  method exactly if the calls recorded since the last clearing hold that many of it, and
  \<open>VerifyCallOrder\<close> passes exactly if the given methods begin the recorded ones. The names of property
  accesses are the exception: they are recorded, but not counted.
\<close>

theorem verifier_counts:
  assumes "s = mock_run name evs" and "take 4 m \<noteq> ''GET:''"
  shows "(verify_call_count m n s = [] \<longleftrightarrow> n = int64 (int (length (filter (\<lambda>c. mc_method c = m) (mock_get_calls s)))))
    \<and> (verify_call_order ms s = [] \<longleftrightarrow> (\<exists>rest. map mc_method (mock_get_calls s) = ms @ rest))
    \<and> verify_never_called (''GET:'' @ p) (mock_run name [MqGet now took p]) = []"
proof -
  have "counted m (fold mock_step evs t)" if "counted m t" for t
    using that by (induction evs arbitrary: t) (simp_all add: counted_step assms(2))
  moreover have "counted m (new_mock_stub name)" by (simp add: counted_def mock_get_call_count_def new_mock_stub_def)
  ultimately have "counted m s" by (simp add: assms(1) mock_run_def)
  moreover have "verify_call_order ms s = [] \<longleftrightarrow> (\<exists>rest. map mc_method (mock_get_calls s) = ms @ rest)"
  proof -
    have "verify_call_order ms s = [] \<longleftrightarrow> length ms \<le> length (mq_calls s) \<and> (\<forall>i < length ms. map mc_method (mq_calls s) ! i = ms ! i)"
      by (simp add: verify_call_order_def mock_get_calls_def Let_def) (metis le_eq_less_or_eq not_le nth_map order_less_le_trans)
    also have "\<dots> \<longleftrightarrow> take (length ms) (map mc_method (mq_calls s)) = ms"
      by (auto simp: list_eq_iff_nth_eq)
    also have "\<dots> \<longleftrightarrow> (\<exists>rest. map mc_method (mq_calls s) = ms @ rest)"
      by (metis append_eq_conv_conj append_take_drop_id)
    finally show ?thesis by (simp add: mock_get_calls_def)
  qed
  ultimately show ?thesis
    by (auto simp: verify_call_count_def counted_def mock_get_calls_def verify_never_called_def mock_run_def mock_stub_get_def new_mock_stub_def
        mock_get_call_count_def Let_def)
qed

lemma verifier_counts_witness:
  "verify_call_count ''add'' 1 (mock_run ''calc'' [MqCall 1 0 ''add'' [], MqGet 2 0 ''sum'']) = []"
proof -
  have "mock_get_calls (mock_run ''calc'' [MqCall 1 0 ''add'' [], MqGet 2 0 ''sum''])
      = [\<lparr>mc_method = ''add'', mc_args = [], mc_timestamp = 1, mc_duration = 0, mc_result = VNil, mc_error = None\<rparr>,
         \<lparr>mc_method = ''GET:sum'', mc_args = [], mc_timestamp = 2, mc_duration = 0, mc_result = VNil, mc_error = None\<rparr>]"
    by code_simp
  moreover have "int64 1 = 1" by code_simp
  ultimately show ?thesis
    using verifier_counts [of "mock_run ''calc'' [MqCall 1 0 ''add'' [], MqGet 2 0 ''sum'']" "''calc''" _ "''add''" 1] by auto
qed

end
