(* ===== verification/Codegen.thy ===== *)
theory Codegen
  imports Validation "HOL-Library.List_Lexorder"
begin

text \<open>
  \<open>codegen.go\<close>: the generator of stub code. The text is written by \<open>text/template\<close>: the definitions give what
  the template writes, up to the place where its execution fails, to a writer that takes everything. The
  parser and the formatter of Go code are parameters, as the length of array types. Formatting a type has
  fuel, since Go types may be recursive.
\<close>

section \<open>Options\<close>

record codegen_options =
  cg_package :: string
  cg_output :: string
  cg_comments :: bool
  cg_validation :: bool
  cg_generics :: bool
  cg_import :: string
  cg_extra :: "string list"

definition default_codegen_options :: codegen_options where
  "default_codegen_options = \<lparr>cg_package = ''main'', cg_output = [], cg_comments = True, cg_validation = True, cg_generics = True,
     cg_import = ''github.com/develerltd/capnweb'', cg_extra = []\<rparr>"

record code_generator =
  ge_registry :: interface_registry
  ge_options :: codegen_options

text \<open>\<open>def\<close> is \<open>DefaultRegistry\<close>.\<close>

definition new_code_generator :: "interface_registry \<Rightarrow> interface_registry option \<Rightarrow> codegen_options \<Rightarrow> code_generator" where
  "new_code_generator def registry options =
     \<lparr>ge_registry = (case registry of None \<Rightarrow> def | Some r \<Rightarrow> r), ge_options = options\<rparr>"

section \<open>Formatting\<close>

definition last_part :: "string \<Rightarrow> string" where
  "last_part path = rev (takeWhile (\<lambda>c. c \<noteq> CHR ''/'') (rev path))"

fun join :: "string \<Rightarrow> string list \<Rightarrow> string" where
  "join sep [] = []"
| "join sep [x] = x"
| "join sep (x # y # xs) = x @ sep @ join sep (y # xs)"

text \<open>\<open>None\<close>: the recursion has not returned. A nil type is the outer \<open>None\<close> of the argument.\<close>

fun format_type :: "nat \<Rightarrow> types \<Rightarrow> (nat \<Rightarrow> nat) \<Rightarrow> codegen_options \<Rightarrow> nat \<Rightarrow> string option" where
  "format_type 0 E len opt t = None"
| "format_type (Suc n) E len opt t =
     (let i = ty_info E t; k = ti_kind i; elem = format_type n E len opt (ti_elem i)
      in if k = KPtr then map_option (\<lambda>s. ''*'' @ s) elem
      else if k = KSlice then map_option (\<lambda>s. ''[]'' @ s) elem
      else if k = KArray then map_option (\<lambda>s. ''['' @ nat_to_dec (len t) @ '']'' @ s) elem
      else if k = KMap then
        (case format_type n E len opt (ti_key i) of None \<Rightarrow> None | Some ks \<Rightarrow> map_option (\<lambda>s. ''map['' @ ks @ '']'' @ s) elem)
      else if k = KChan then map_option (\<lambda>s. ''chan '' @ s) elem
      else if k = KFunc then Some (ti_string i)
      else if ti_pkg i \<noteq> [] \<and> ti_pkg i \<noteq> cg_package opt then Some (last_part (ti_pkg i) @ ''.'' @ ti_name i)
      else Some (ti_string i))"

definition format_output :: "nat \<Rightarrow> types \<Rightarrow> (nat \<Rightarrow> nat) \<Rightarrow> codegen_options \<Rightarrow> nat option \<Rightarrow> string option" where
  "format_output n E len opt t = (case t of None \<Rightarrow> Some ''interface{}'' | Some t \<Rightarrow> format_type n E len opt t)"

definition format_promise_type :: "nat \<Rightarrow> types \<Rightarrow> (nat \<Rightarrow> nat) \<Rightarrow> codegen_options \<Rightarrow> rpc_method \<Rightarrow> string option" where
  "format_promise_type n E len opt m =
     (case rm_output m of
        Some t \<Rightarrow>
          if rm_is_async m then
            (if cg_generics opt then map_option (\<lambda>r. if rm_has_error m then ''(*capnweb.TypedPromise['' @ r @ ''], error)''
               else ''*capnweb.TypedPromise['' @ r @ '']'') (format_type n E len opt t)
             else Some (if rm_has_error m then ''(*capnweb.Promise, error)'' else ''*capnweb.Promise''))
          else map_option (\<lambda>r. if rm_has_error m then ''('' @ r @ '', error)'' else r) (format_type n E len opt t)
      | None \<Rightarrow> Some (if rm_is_async m then (if rm_has_error m then ''(*capnweb.Promise, error)'' else ''*capnweb.Promise'') else ''error''))"

fun format_params :: "nat \<Rightarrow> types \<Rightarrow> (nat \<Rightarrow> nat) \<Rightarrow> codegen_options \<Rightarrow> nat \<Rightarrow> nat list \<Rightarrow> string list option" where
  "format_params n E len opt i [] = Some []"
| "format_params n E len opt i (t # ts) =
     (case format_type n E len opt t of
        None \<Rightarrow> None
      | Some s \<Rightarrow> map_option (\<lambda>xs. (''arg'' @ nat_to_dec i @ '' '' @ s) # xs) (format_params n E len opt (Suc i) ts))"

definition format_parameters :: "nat \<Rightarrow> types \<Rightarrow> (nat \<Rightarrow> nat) \<Rightarrow> codegen_options \<Rightarrow> rpc_method \<Rightarrow> string option" where
  "format_parameters n E len opt m =
     map_option (\<lambda>xs. join '', '' (''ctx context.Context'' # xs)) (format_params n E len opt 0 (rm_inputs m))"

definition format_arguments :: "rpc_method \<Rightarrow> string" where
  "format_arguments m = join '', '' (map (\<lambda>i. ''arg'' @ nat_to_dec i) [0..<length (rm_inputs m)])"

section \<open>The template\<close>

definition quote :: "string \<Rightarrow> string" where "quote s = [CHR 0x22] @ s @ [CHR 0x22]"
definition line :: "string \<Rightarrow> string" where "line s = s @ newline"
definition comment :: "codegen_options \<Rightarrow> string \<Rightarrow> string" where "comment opt s = (if cg_comments opt then line (''// '' @ s) else [])"

definition template_header :: "codegen_options \<Rightarrow> string" where
  "template_header opt =
     line ''// Code generated by capnweb-gen. DO NOT EDIT.'' @ newline @ line (''package '' @ cg_package opt) @ newline
     @ line ''import ('' @ line (tabulator @ quote ''context'') @ line (tabulator @ quote ''fmt'') @ newline
     @ line (tabulator @ quote (cg_import opt)) @ concat (map (\<lambda>x. line (tabulator @ quote x)) (cg_extra opt)) @ line '')'' @ newline"

definition interface_head :: "codegen_options \<Rightarrow> rpc_interface \<Rightarrow> string" where
  "interface_head opt f =
     (let stub = rf_name f @ ''Stub'' in
      newline @ comment opt (stub @ '' provides RPC access to '' @ rf_name f @ '' service'')
      @ line (''type '' @ stub @ '' struct {'') @ line (tabulator @ ''session  *capnweb.Session'')
      @ line (tabulator @ ''importID capnweb.ImportID'') @ line (tabulator @ ''stub     capnweb.Stub'') @ line ''}'' @ newline
      @ comment opt (''New'' @ stub @ '' creates a new '' @ rf_name f @ '' RPC stub'')
      @ line (''func New'' @ stub @ ''(session *capnweb.Session, importID capnweb.ImportID) (*'' @ stub @ '', error) {'')
      @ line (tabulator @ ''stub, err := session.CreateImportStub(importID, false)'')
      @ line (tabulator @ ''if err != nil {'')
      @ line (tabulator @ tabulator @ ''return nil, fmt.Errorf('' @ quote ''failed to create stub: %w'' @ '', err)'')
      @ line (tabulator @ ''}'') @ newline
      @ line (tabulator @ ''return &'' @ stub @ ''{'') @ line (tabulator @ tabulator @ ''session:  session,'')
      @ line (tabulator @ tabulator @ ''importID: importID,'') @ line (tabulator @ tabulator @ ''stub:     stub,'')
      @ line (tabulator @ ''}, nil'') @ line ''}'' @ newline)"

text \<open>
  What the template writes of a method. It then asks the data of the template for a field \<open>Name\<close>, which they
  do not have: the execution ends with an error, and the rest of the template is never reached.
\<close>

definition method_head :: "codegen_options \<Rightarrow> rpc_method \<Rightarrow> string" where
  "method_head opt m =
     newline @ comment opt (rm_name m @ '' calls the remote '' @ rm_name m @ '' method''
       @ (if mt_description (rm_tags m) \<noteq> [] then newline @ ''// '' @ mt_description (rm_tags m) else [])
       @ (if mt_deprecated (rm_tags m) then newline @ ''// Deprecated: true'' else []))
     @ ''func (s *''"

definition interface_tail :: "codegen_options \<Rightarrow> rpc_interface \<Rightarrow> string" where
  "interface_tail opt f =
     (let stub = rf_name f @ ''Stub'' in
      newline @ newline @ comment opt ''Dispose releases the RPC stub and its resources''
      @ line (''func (s *'' @ stub @ '') Dispose() error {'') @ line (tabulator @ ''return s.stub.Dispose()'') @ line ''}'' @ newline
      @ comment opt ''ServiceName returns the name of the RPC service''
      @ line (''func (s *'' @ stub @ '') ServiceName() string {'') @ line (tabulator @ ''return '' @ quote (rf_service f)) @ line ''}'' @ newline)"

text \<open>The methods of a map are taken in the order of their names: the first is the least.\<close>

definition first_method :: "(string, rpc_method) gomap \<Rightarrow> rpc_method option" where
  "first_method ms = (case sort_key fst (map (\<lambda>(k, m). (map of_char k :: nat list, m)) ms) of [] \<Rightarrow> None | (_, m) # _ \<Rightarrow> Some m)"

fun execute_template :: "codegen_options \<Rightarrow> rpc_interface list \<Rightarrow> string \<times> goerr option" where
  "execute_template opt [] = ([], None)"
| "execute_template opt (f # fs) =
     (case first_method (rf_methods f) of
        Some m \<Rightarrow> (interface_head opt f @ method_head opt m,
          Some (EMsg ''template: stub: can't evaluate field Name''))
      | None \<Rightarrow> (case execute_template opt fs of (s, e) \<Rightarrow> (interface_head opt f @ interface_tail opt f @ s, e)))"

definition generate_from_template :: "code_generator \<Rightarrow> rpc_interface list \<Rightarrow> string \<times> goerr option" where
  "generate_from_template g fs = (case execute_template (ge_options g) fs of (s, e) \<Rightarrow> (template_header (ge_options g) @ s, e))"

definition generate_code :: "code_generator \<Rightarrow> string \<times> goerr option" where
  "generate_code g = generate_from_template g (map snd (ig_interfaces (ge_registry g)))"

definition generate_interface :: "code_generator \<Rightarrow> string \<Rightarrow> string \<times> goerr option" where
  "generate_interface g name =
     (case get_interface (ge_registry g) name of
        None \<Rightarrow> ([], Some (EMsg ''interface %s not found''))
      | Some f \<Rightarrow> generate_from_template g [f])"

section \<open>Sources\<close>

text \<open>
  \<open>parse\<close> gives the interfaces of a source with their numbers of methods. They are printed and not registered.
\<close>

definition parse_interface_from_ast :: "string \<times> nat \<Rightarrow> string" where
  "parse_interface_from_ast = (\<lambda>(name, n). line (''Found interface: '' @ name @ '' with '' @ nat_to_dec n @ '' methods''))"

definition parse_interfaces :: "(string \<Rightarrow> goerr + (string \<times> nat) list) \<Rightarrow> string \<Rightarrow> string \<times> goerr option" where
  "parse_interfaces parse source =
     (case parse source of
        Inr fs \<Rightarrow> (concat (map parse_interface_from_ast fs), None)
      | Inl e \<Rightarrow> ([], Some (EWrap ''failed to parse source: '' e)))"

text \<open>The input file is not read. What is printed comes with the error; \<open>fmt\<close> is \<open>format.Source\<close>.\<close>

definition generate_stubs_from_file :: "(string \<Rightarrow> goerr + (string \<times> nat) list) \<Rightarrow> (string \<Rightarrow> goerr + string) \<Rightarrow> interface_registry
    \<Rightarrow> string \<Rightarrow> string \<Rightarrow> codegen_options \<Rightarrow> string \<times> goerr option" where
  "generate_stubs_from_file parse fmt def input output opt =
     (let g = new_code_generator def (Some def) opt;
          source = newline @ line (tabulator @ tabulator @ ''package '' @ cg_package opt) @ newline
            @ line (tabulator @ tabulator @ ''// Placeholder for parsed interfaces'')
            @ line (tabulator @ tabulator @ ''// In a real implementation, we would read and parse the input file'') @ tabulator
      in case parse_interfaces parse source of
           (p, Some e) \<Rightarrow> (p, Some (EWrap ''failed to parse interfaces: '' e))
         | (p, None) \<Rightarrow>
             (case generate_code g of
                (_, Some e) \<Rightarrow> (p, Some (EWrap ''failed to generate code: '' e))
              | (code, None) \<Rightarrow>
                  (case fmt code of
                     Inr formatted \<Rightarrow> (p @ line (''Generated code would be written to: '' @ output) @ line (''Generated code:'') @ line formatted, None)
                   | Inl e \<Rightarrow> (p, Some (EWrap ''failed to format code: '' e)))))"

section \<open>What is generated\<close>

lemma first_method_None [simp]: "first_method ms = None \<longleftrightarrow> ms = []"
  by (cases "sort_key fst (map (\<lambda>(k, m). (map of_char k :: nat list, m)) ms)")
    (auto simp: first_method_def split: list.splits dest: arg_cong [of _ _ set])

lemma first_method_Nil [simp]: "first_method [] = None"
  by simp

lemma execute_template_error: "snd (execute_template opt fs) = None \<longleftrightarrow> (\<forall>f \<in> set fs. rf_methods f = [])"
  by (induction opt fs rule: execute_template.induct) (auto split: option.splits prod.splits)

lemma generate_error: "snd (generate_from_template g fs) = None \<longleftrightarrow> (\<forall>f \<in> set fs. rf_methods f = [])"
  using execute_template_error [of "ge_options g" fs] by (simp add: generate_from_template_def case_prod_beta)

lemma registered_methods:
  assumes "register_interface E t r = (Ok f, r')"
  shows "(rf_methods f = [] \<longleftrightarrow> ti_methods (ty_info E (rf_type f)) = []) \<and> get_interface r' (rf_name f) = Some f \<and> (rf_name f, f) \<in> set (ig_interfaces r')"
proof -
  obtain u where u: "parse_interface E u = Ok f" "ig_interfaces r' = gm_put (rf_name f) f (ig_interfaces r)"
    using assms by (auto simp: register_interface_def Let_def split: option.splits if_splits outcome.splits)
  then have p: "parse_methods E (ti_methods (ty_info E (rf_type f))) [] = Ok (rf_methods f)"
    by (cases "parse_methods E (ti_methods (ty_info E u)) []") (auto simp: parse_interface_def Let_def)
  have "rf_methods f \<noteq> []" if "ti_methods (ty_info E (rf_type f)) \<noteq> []"
  proof -
    have "ms \<noteq> [] \<or> acc \<noteq> [] \<Longrightarrow> parse_methods E ms acc = Ok res \<Longrightarrow> res \<noteq> []" for ms acc res
    proof (induction E ms acc rule: parse_methods.induct)
      case (2 E m ms acc)
      have "gm_put (fst m) x acc \<noteq> []" for x :: rpc_method by (cases acc) auto
      with 2 show ?case by (auto split: outcome.splits)
    qed simp
    from this [OF _ p] that show ?thesis by blast
  qed
  moreover have "rf_methods f = []" if "ti_methods (ty_info E (rf_type f)) = []" using p that by simp
  moreover have "get_interface r' (rf_name f) = Some f" by (simp add: get_interface_def u(2) update_conv')
  ultimately show ?thesis by (auto simp: get_interface_def dest: map_of_SomeD)
qed

text \<open>
  No code is ever generated for a method. The template asks its data for the name of the interface where
  they have none, so once an interface with methods is registered, \<open>GenerateCode\<close> and \<open>GenerateInterface\<close> end
  with an error for all options; without methods in any interface they never do.
\<close>

theorem methods_defeat_generation:
  assumes "register_interface E t r = (Ok f, r')" and "g = new_code_generator def (Some r') opt"
  shows "(ti_methods (ty_info E (rf_type f)) \<noteq> [] \<longrightarrow> snd (generate_code g) \<noteq> None \<and> snd (generate_interface g (rf_name f)) \<noteq> None)
    \<and> ((\<forall>f \<in> set (map snd (ig_interfaces r')). rf_methods f = []) \<longrightarrow> snd (generate_code g) = None)"
  using registered_methods [OF assms(1)] assms(2)
  by (auto simp: generate_code_def generate_interface_def new_code_generator_def generate_error intro!: bexI [of _ "(rf_name f, f)"])

lemma methods_defeat_generation_witness:
  "snd (generate_interface (new_code_generator new_interface_registry (Some (snd (register_interface sample_types (Some 6) new_interface_registry)))
     default_codegen_options) (rf_name sample_interface)) \<noteq> None"
proof -
  have reg: "register_interface sample_types (Some 6) new_interface_registry
      = (Ok sample_interface, snd (register_interface sample_types (Some 6) new_interface_registry))"
    by code_simp
  have "ti_methods (ty_info sample_types (rf_type sample_interface)) \<noteq> []" by code_simp
  with methods_defeat_generation [OF reg refl] show ?thesis by blast
qed

end
