(* ===== verification/Spec2Isabelle.thy ===== *)
theory Spec2Isabelle
  imports Pipelining RateLimiting Security Resources TransportManager MapOperations WebSockets HttpBatch Bidirectional Reflection TestingFramework Codegen
begin

text \<open>
  A model of capnweb-go, the Go implementation of the Cap'n Web RPC protocol, and what it guarantees.

  \<^bold>\<open>The program.\<close> A \<open>Session\<close> (\<open>session.go\<close>) joins a \<open>Transport\<close> (\<open>transport.go\<close>, in memory
  \<open>transport_memory.go\<close>) with a \<open>Protocol\<close> (\<open>protocol.go\<close>), which turns messages into JSON through a
  \<open>Serializer\<close> and a \<open>Deserializer\<close> (\<open>serialize.go\<close>, on the kinds of \<open>value_types.go\<close>). The session
  owns the export and import tables; the serializer calls back into it to export a function or a
  target, the deserializer to make a stub for an imported reference. Stubs (\<open>stub.go\<close>) send calls
  through their session and return promises (\<open>promise.go\<close>); pipelines (\<open>pipelining.go\<close>) order and run
  operations on stubs. Rate limits and quotas (\<open>rate_limiting.go\<close>), capabilities (\<open>security.go\<close>) and
  resources (\<open>resource_management.go\<close>) stand beside the session. Streams (\<open>streaming.go\<close>), operations on
  remote collections (\<open>map_operations.go\<close>) and the bidirectional session (\<open>bidirectional.go\<close>) send their
  requests through it. The transports over a network (\<open>custom_transports.go\<close>, \<open>websocket_transport.go\<close>,
  \<open>http_transport.go\<close>) implement the same interface and are chosen by the manager
  (\<open>transport_manager.go\<close>). Interfaces (\<open>interface.go\<close>) are registered by reflection and checked by the
  validators (\<open>validation.go\<close>, \<open>reflection.go\<close>); stubs for them are made at run time (\<open>reflection.go\<close>) or
  as text (\<open>codegen.go\<close>). Tracing and metrics (\<open>debugging.go\<close>) and the test doubles
  (\<open>testing_framework.go\<close>) wrap or replace stubs and transports.

  \<^bold>\<open>Theories.\<close>
  \<^item> \<open>Prelude\<close>, \<open>Tables\<close>, \<open>Channels\<close>, \<open>Codecs\<close>, \<open>GoSlices\<close>: Go itself. The outcome of a call (a value,
    an error, a panic, or no return); integers with their wrap-around, float64 as rationals, time;
    maps as association lists (locale \<open>go_table\<close>); \<open>select\<close> and buffered channels (locale \<open>fifo_queue\<close>);
    decimal and base64 text; slices with shared arrays, for \<open>append\<close>.
  \<^item> \<open>RpcTypes\<close> (\<open>types.go\<close>), \<open>ValueTypes\<close> (\<open>value_types.go\<close>): errors, paths, and the universe of Go values
    \<open>gval\<close> with the classification \<open>type_for_value\<close>.
  \<^item> \<open>Serialize\<close> (\<open>serialize.go\<close>): the serializer and deserializer over any state that the callbacks
    thread through; \<open>Protocol\<close> (\<open>protocol.go\<close>): messages, validation, statistics.
  \<^item> \<open>Transport\<close> (\<open>transport.go\<close>, \<open>transport_memory.go\<close>): the interface as a record of operations, its
    contract as the locales \<open>transport\<close> and \<open>transport_closer\<close>, and the memory transport.
  \<^item> \<open>Session\<close> (\<open>session.go\<close>): tables, the mutex as counters of readers and writers, every operation and
    handler, the message loop, and histories (\<open>session_run\<close>).
  \<^item> \<open>Stub\<close> (\<open>stub.go\<close>), \<open>Promise\<close> (\<open>promise.go\<close>), \<open>Pipelining\<close> (\<open>pipelining.go\<close>): objects by address in a
    world around the session.
  \<^item> \<open>RateLimiting\<close>, \<open>Security\<close>, \<open>Resources\<close>: the three services, each with its table of objects by address.
    \<open>TrackResource\<close> is two steps, its checks and its insertion, so that histories (\<open>resource_run\<close>) can put
    other events between them, the stop of the manager included; \<open>manager_ok\<close> is the invariant.
  \<^item> \<open>Streaming\<close> (\<open>streaming.go\<close>), \<open>MapOperations\<close> (\<open>map_operations.go\<close>): streams and requests for
    collections over a session; what the session accepted is a history (\<open>lk_accepted\<close>). Each event in the
    life of a writer carries what the automatic flush does beside it, if there is one (\<open>beside\<close>).
  \<^item> \<open>Framing\<close>, \<open>CustomTransports\<close> (\<open>custom_transports.go\<close>): frames on a connection, which is the list of the
    segments that have arrived; the TCP, Unix and gRPC transports, whose pumps are flags and steps of the record
    \<open>pump\<close>; the in-process pair with the histories \<open>ip_sent\<close> and \<open>ip_got\<close>.
  \<^item> \<open>WebSockets\<close> (\<open>websocket_transport.go\<close>): the transport over any connection (record \<open>ws_io\<close>, locale
    \<open>ws_contract\<close>) with the histories \<open>wt_accepted\<close>, \<open>wt_written\<close>, \<open>wt_lost\<close>, and the mock connection that
    \<open>Connect\<close> makes. \<open>HttpBatch\<close> (\<open>http_transport.go\<close>): batching client and server, with the histories
    \<open>ht_accepted\<close> and \<open>ht_batches\<close>. \<open>TransportManager\<close> (\<open>transport_manager.go\<close>): providers, failover,
    health, load balancing.
  \<^item> \<open>GoTypes\<close>: Go types as reflection presents them, a table from identities, with assignability and
    conversion. \<open>Interfaces\<close> (\<open>interface.go\<close>) and \<open>Validation\<close> (\<open>validation.go\<close>, the validator of
    \<open>reflection.go\<close>) rest on it, as do \<open>Bidirectional\<close> (\<open>bidirectional.go\<close>), with subscriptions on a heap,
    \<open>Reflection\<close> (the generator of stubs and the typed promises of \<open>reflection.go\<close>) and \<open>Codegen\<close>
    (\<open>codegen.go\<close>), which gives the text the template writes.
  \<^item> \<open>Debugging\<close> (\<open>debugging.go\<close>): traces and spans by address, the metrics and the inspector with their
    \<open>RWMutex\<close> (record \<open>rw_mutex\<close>), and the wrapper of any stub (record \<open>stub_ops\<close>). \<open>TestingFramework\<close> (\<open>testing_framework.go\<close>): the mock transport, which
    interprets the locale \<open>transport\<close>, mock stubs, verifier, recordings, benchmarks.

  \<^bold>\<open>Conventions.\<close> A method becomes a function from its arguments and the state to an outcome and the
  new state, with the branches in the order of the code. Clock readings, random identifiers, the
  choices of \<open>select\<close> (\<open>pick\<close>) and the iteration order of maps are arguments, so the theorems hold for
  all of them. Where the code can be interleaved between two critical sections and it matters, the
  function takes what the others do there (\<open>others\<close>, \<open>mid\<close>, \<open>late\<close>), or when another one asks for the
  lock (\<open>arrives\<close>). A lock that nobody can release is \<open>Hang\<close>. Messages of errors keep the format string.

  \<^bold>\<open>Parameters.\<close> \<open>encoding/json\<close> is a pair of functions of the environment (\<open>en_marshal\<close>,
  \<open>en_unmarshal\<close>); the theorems that need a law of it state the law. The HTTP client, the connections that a
  dialer returns, what providers create, the functions of the application and the table of its types are
  arguments in the same way. Another \<open>Transport\<close> is any record of
  operations; another \<open>AuthProvider\<close> any function.

  \<^bold>\<open>What the lemmas show.\<close>
  \<^item> Serialization: the round trip of plain data (\<open>data_value\<close>), the depth limit, the order of the exports, and the
    collision of application arrays with tags. Protocol: the round trip of messages, the checks of
    decoding. Memory transport: first in first out, the behaviour after closing.
  \<^item> Session: the invariant of the export table over all histories, exactly-once sending, closing; and
    the defects: references cannot be sent, responses never arrive, an abort leaks the transport.
  \<^item> Stubs and promises: balance of the reference counts, disposal, the first settlement wins, what
    \<open>Await\<close> delivers and what it can miss.
  \<^item> Pipelines: the topological sort is total, orders every acyclic graph and refuses every cycle; how
    execution ends; what the builder drops.
  \<^item> Services: the bound of a token bucket and the termination of \<open>Wait\<close>, the bound of a quota; the
    decision of authorization, revocation, delegation; every cleanup function runs exactly once, and a
    stop disposes of all resources but those whose tracking is in flight (\<open>stop_misses_late_tracking\<close>).
  \<^item> Streams: readers deliver the bytes in order, and so do writers as long as no automatic flush overlaps
    a call (\<open>auto_flush_loses_write\<close> shows what happens then). Map operations: each request is accepted
    exactly for functions of the shape its table names, and is what the table says.
  \<^item> Network transports: frames are read back as written; over every connection the messages are written
    in the order they were accepted; batches partition the accepted messages; in-process pairs deliver a
    subsequence in order. The defects: a reconnection never succeeds, a client WebSocket ends with its first
    read, a lone response that is an array is unwrapped.
  \<^item> Transport manager: the provider that is chosen, the wheel of the weighted balancer, the hysteresis of
    health checks.
  \<^item> Types: the validator decides the rules of safe types and returns exactly when there is no endless
    descent; it refuses every method declared as documented. Bidirectional sessions: a second subscription
    orphans the first, a number for an integer parameter panics. Generated stubs: the generator of
    \<open>reflection.go\<close> never makes a typed one, and the template of \<open>codegen.go\<close> fails at the first method.
  \<^item> Debugging: tracing changes nothing of what a stub does and adds one span to its trace; the metrics are
    the account of the calls; the summary counts them, unless a writer comes between its nested read locks. What a
    session sends over the mock transport can be read back from it.

  \<^bold>\<open>Fuel.\<close> \<open>visit\<close>, the depth-first search of the pipeline, takes a fuel of one more than the size of the
  graph; \<open>optimize_decides_cycles\<close> shows that it is enough. \<open>tbl_wait\<close> takes the list of its rounds;
  \<open>wait_returns\<close> shows that two suffice. The recursion over Go types, which may be recursive, takes a
  fuel; \<open>None\<close> is a recursion that has not returned, and \<open>validate_type_returns_iff\<close> says for which types
  some fuel is enough. All other recursion is on data.

  \<^bold>\<open>Not modelled.\<close> The goroutines that call a modelled round for ever (tickers, the batch processor),
  stack traces, finalizers and logging; deadlines of connections (what a read or write returns is free);
  NaN, infinities and subnormal floats; float32. The session of \<open>CreateTestSession\<close>, which has no protocol,
  is not represented, and the part of the template of methods in \<open>codegen.go\<close> that is never reached is not
  translated. \<open>examples.go\<close> and the demo server are calls of the library and printed text: they are left out.
\<close>

end
